(* ===== verification/Rdp_Prelude.thy ===== *)
theory Rdp_Prelude
  imports Main "HOL-Library.Word" "HOL-Library.Sublist"
begin

text \<open>
  Shared vocabulary of the development: bytes and Python strings, the exceptions the services
  raise and catch, byte streams read by \<^verbatim>\<open>asyncio.StreamReader.readexactly\<close>, fixed-width
  integers as \<^verbatim>\<open>struct\<close> packs them, and the string operations of the standard library that
  the sources call (\<^verbatim>\<open>find\<close>, slices, \<^verbatim>\<open>replace\<close>, \<^verbatim>\<open>strip\<close>, \<^verbatim>\<open>split\<close>, \<^verbatim>\<open>int\<close>,
  UTF-8 coding). A Python \<^verbatim>\<open>str\<close> is the list of its code points (\<open>ustr\<close>), a \<^verbatim>\<open>bytes\<close> object a
  list of 8-bit words. The collections \<open>lit_eval\<close>, \<open>codec\<close> and \<open>rd_simps\<close> carry the facts
  that the component theories pass to the simplifier.
\<close>

unbundle bit_operations_syntax

named_theorems lit_eval \<open>evaluation of string and byte literals\<close>
named_theorems codec \<open>fixed-width integers and their byte encodings\<close>
named_theorems rd_simps \<open>the stream reader monad\<close>

section \<open>Bytes, strings, exceptions\<close>

type_synonym byte = "8 word"
type_synonym bytes = "byte list"
type_synonym ustr = "nat list"

definition lit :: "string \<Rightarrow> ustr" where
  "lit s = map of_char s"

definition blit :: "string \<Rightarrow> bytes" where
  "blit s = map of_char s"

lemma lit_unfold [lit_eval]: "lit [] = []" "lit (c # cs) = of_char c # lit cs"
  by (simp_all add: lit_def)

lemma blit_unfold [lit_eval]: "blit [] = []" "blit (c # cs) = of_char c # blit cs"
  by (simp_all add: blit_def)

lemma length_lit [simp]: "length (lit s) = length s"
  by (simp add: lit_def)

text \<open>
  The exception classes that the handlers of the sources tell apart. \<open>HTTPException n\<close> is the
  FastAPI exception with status code \<open>n\<close>.
\<close>

datatype exn =
    ValueError
  | IncompleteReadError
  | ConnectionResetError
  | ConnectionAbortedError
  | BrokenPipeError
  | TimeoutError
  | SSLError
  | OSError
  | KeyError
  | IndexError
  | TypeError
  | StructError
  | UnicodeError
  | ResponseError
  | IntegrityError
  | InvalidTag
  | VerifyMismatchError
  | DataError
  | HTTPException int
  | OtherException

type_synonym 'a result = "exn + 'a"

fun is_ok :: "'a result \<Rightarrow> bool" where
  "is_ok (Inr _) = True"
| "is_ok (Inl _) = False"

definition bind_result :: "'a result \<Rightarrow> ('a \<Rightarrow> 'b result) \<Rightarrow> 'b result" where
  "bind_result r f = (case r of Inl e \<Rightarrow> Inl e | Inr a \<Rightarrow> f a)"

lemma bind_result_simps [simp]:
  "bind_result (Inl e) f = Inl e" "bind_result (Inr a) f = f a"
  by (simp_all add: bind_result_def)

lemma bind_result_Inr:
  "bind_result r f = Inr b \<longleftrightarrow> (\<exists>a. r = Inr a \<and> f a = Inr b)"
  by (cases r) auto

lemma is_ok_iff: "is_ok r \<longleftrightarrow> (\<exists>a. r = Inr a)"
  by (cases r) auto

section \<open>Effects and streams\<close>

text \<open>
  Code with effects takes a state and returns a result with the next state, also when it raises:
  what was done before an exception stays done. A stream reader is such code on the list of the
  bytes that are still to arrive before the peer closes.
\<close>

type_synonym ('s, 'a) eff = "'s \<Rightarrow> 'a result \<times> 's"

type_synonym 'a rd = "(bytes, 'a) eff"

definition rreturn :: "'a \<Rightarrow> ('s, 'a) eff" where
  "rreturn a s = (Inr a, s)"

definition rraise :: "exn \<Rightarrow> ('s, 'a) eff" where
  "rraise e s = (Inl e, s)"

definition rbind :: "('s, 'a) eff \<Rightarrow> ('a \<Rightarrow> ('s, 'b) eff) \<Rightarrow> ('s, 'b) eff" where
  "rbind m f s = (case m s of (Inl e, s') \<Rightarrow> (Inl e, s') | (Inr a, s') \<Rightarrow> f a s')"

definition rlift :: "'a result \<Rightarrow> ('s, 'a) eff" where
  "rlift r s = (r, s)"

definition readexactly :: "int \<Rightarrow> bytes rd" where
  "readexactly n s =
     (if n < 0 then (Inl ValueError, s)
      else if nat n \<le> length s then (Inr (take (nat n) s), drop (nat n) s)
      else (Inl IncompleteReadError, []))"

lemma rd_monad [rd_simps]:
  "rreturn a s = (Inr a, s)"
  "rraise e s = (Inl e, s)"
  "rlift r s = (r, s)"
  "rbind m f s = (case m s of (Inl e, s') \<Rightarrow> (Inl e, s') | (Inr a, s') \<Rightarrow> f a s')"
  by (simp_all add: rreturn_def rraise_def rlift_def rbind_def)

lemma rbind_rreturn [simp]: "rbind (rreturn a) f = f a"
  by (simp add: rbind_def rreturn_def fun_eq_iff)

lemma rbind_rlift [simp]: "rbind (rlift (Inr a)) f = f a"
  by (simp add: rbind_def rlift_def fun_eq_iff)

lemma rbind_assoc: "rbind (rbind m f) g = rbind m (\<lambda>a. rbind (f a) g)"
  by (auto simp: rbind_def fun_eq_iff split: prod.split sum.split)

lemma rbind_Inr: "m s = (Inr a, s') \<Longrightarrow> rbind m f s = f a s'"
  by (simp add: rbind_def)

text \<open>
  Hoare triples for code with effects: from a state with \<open>Q\<close>, a normal return leads to \<open>P\<close> and an
  exception to \<open>E\<close>.
\<close>

definition triple :: "('s \<Rightarrow> bool) \<Rightarrow> ('s, 'a) eff \<Rightarrow> ('a \<Rightarrow> 's \<Rightarrow> bool) \<Rightarrow> ('s \<Rightarrow> bool) \<Rightarrow> bool" where
  "triple Q m P E \<longleftrightarrow> (\<forall>s. Q s \<longrightarrow> (case m s of (Inr a, s') \<Rightarrow> P a s' | (Inl e, s') \<Rightarrow> E s'))"

lemma triple_rbind:
  "triple Q m (\<lambda>_. M) E \<Longrightarrow> (\<And>a. triple M (f a) P E) \<Longrightarrow> triple Q (rbind m f) P E"
  by (fastforce simp: triple_def rbind_def split: prod.splits sum.splits)

lemma triple_rbind_dep:
  "triple Q m M E \<Longrightarrow> (\<And>a. triple (M a) (f a) P E) \<Longrightarrow> triple Q (rbind m f) P E"
  by (fastforce simp: triple_def rbind_def split: prod.splits sum.splits)

lemma triple_pure:
  "triple Q (rreturn a) (\<lambda>_. Q) E" "triple Q (rraise e) P Q" "triple Q (rlift r) (\<lambda>_. Q) Q"
  by (auto simp: triple_def rreturn_def rraise_def rlift_def split: sum.split)

lemma triple_weaken:
  "triple Q m P E \<Longrightarrow> (\<And>s. Q' s \<Longrightarrow> Q s) \<Longrightarrow> (\<And>a s. P a s \<Longrightarrow> P' a s) \<Longrightarrow> (\<And>s. E s \<Longrightarrow> E' s) \<Longrightarrow> triple Q' m P' E'"
  by (fastforce simp: triple_def split: prod.splits sum.splits)

lemma triple_if:
  "(b \<Longrightarrow> triple Q m P E) \<Longrightarrow> (\<not> b \<Longrightarrow> triple Q n P E) \<Longrightarrow> triple Q (if b then m else n) P E"
  by simp

lemma readexactly_append [rd_simps]:
  "n = int (length a) \<Longrightarrow> readexactly n (a @ b) = (Inr a, b)"
  by (simp add: readexactly_def)

lemma readexactly_short [rd_simps]:
  "0 \<le> n \<Longrightarrow> length s < nat n \<Longrightarrow> readexactly n s = (Inl IncompleteReadError, [])"
  by (simp add: readexactly_def)

lemma readexactly_negative [rd_simps]: "n < 0 \<Longrightarrow> readexactly n s = (Inl ValueError, s)"
  by (simp add: readexactly_def)

lemma readexactly_okD:
  "readexactly n s = (Inr a, s') \<Longrightarrow> 0 \<le> n \<and> s = a @ s' \<and> int (length a) = n"
  by (auto simp: readexactly_def split: if_splits)

lemma rbind_okD:
  "rbind m f s = (Inr b, s'') \<Longrightarrow> \<exists>a s'. m s = (Inr a, s') \<and> f a s' = (Inr b, s'')"
  by (auto simp: rbind_def split: prod.splits sum.splits)

text \<open>A reader that consumes at most \<open>n\<close> bytes, whatever its outcome.\<close>

definition rd_bounded :: "nat \<Rightarrow> 'a rd \<Rightarrow> bool" where
  "rd_bounded n m \<longleftrightarrow> (\<forall>s r s'. m s = (r, s') \<longrightarrow> (\<exists>c. s = c @ s' \<and> length c \<le> n))"

lemma rd_boundedI: "(\<And>s r s'. m s = (r, s') \<Longrightarrow> \<exists>c. s = c @ s' \<and> length c \<le> n) \<Longrightarrow> rd_bounded n m"
  by (auto simp: rd_bounded_def)

lemma rd_boundedD: "rd_bounded n m \<Longrightarrow> m s = (r, s') \<Longrightarrow> \<exists>c. s = c @ s' \<and> length c \<le> n"
  by (auto simp: rd_bounded_def)

lemma rd_bounded_mono: "rd_bounded n m \<Longrightarrow> n \<le> k \<Longrightarrow> rd_bounded k m"
  by (meson order_trans rd_bounded_def)

lemma rd_bounded_pure [intro]:
  "rd_bounded n (rreturn a)" "rd_bounded n (rraise e)" "rd_bounded n (rlift r)"
  by (auto simp: rd_bounded_def rd_simps)

lemma rd_bounded_readexactly: "nat k \<le> n \<Longrightarrow> rd_bounded n (readexactly k)"
proof (rule rd_boundedI)
  fix s s' :: bytes and r
  assume "nat k \<le> n" and "readexactly k s = (r, s')"
  then show "\<exists>c. s = c @ s' \<and> length c \<le> n"
    by (auto simp: readexactly_def split: if_splits) (metis append_take_drop_id length_take min.coboundedI2)
qed

lemma rd_bounded_rbind:
  assumes "rd_bounded n m" and "\<And>a. rd_bounded k (f a)"
  shows "rd_bounded (n + k) (rbind m f)"
proof (rule rd_boundedI)
  fix s r s'
  assume run: "rbind m f s = (r, s')"
  obtain x s1 where m: "m s = (x, s1)" by fastforce
  with assms(1) obtain c where c: "s = c @ s1" "length c \<le> n" by (auto dest: rd_boundedD)
  show "\<exists>c. s = c @ s' \<and> length c \<le> n + k"
  proof (cases x)
    case (Inl e)
    with run m c show ?thesis by (auto simp: rd_simps)
  next
    case (Inr a)
    with run m have "f a s1 = (r, s')" by (simp add: rd_simps)
    with assms(2) obtain d where "s1 = d @ s'" "length d \<le> k" by (auto dest: rd_boundedD)
    with c show ?thesis by (intro exI [of _ "c @ d"]) simp
  qed
qed

text \<open>
  The contract of a framing protocol, which the TPKT and CredSSP record layers fulfil: reading
  from a stream that starts with the frame of an admissible message returns the message and leaves
  the rest of the stream untouched. What follows is that a stream of frames is read back message by
  message.
\<close>

locale framing =
  fixes frame :: "'m \<Rightarrow> bytes"
    and read_frame :: "'m rd"
    and admissible :: "'m \<Rightarrow> bool"
  assumes read_frame_frame: "admissible m \<Longrightarrow> read_frame (frame m @ rest) = (Inr m, rest)"
begin

lemma frame_inject:
  assumes "admissible m" and "admissible n" and "frame m @ s = frame n @ t"
  shows "m = n \<and> s = t"
proof -
  have "(Inr m, s) = (Inr n, t)"
    using read_frame_frame [OF assms(1), of s] read_frame_frame [OF assms(2), of t]
    unfolding assms(3) by simp
  then show ?thesis by simp
qed

end

primrec read_many :: "'m rd \<Rightarrow> nat \<Rightarrow> 'm list rd" where
  "read_many r 0 = rreturn []"
| "read_many r (Suc n) = rbind r (\<lambda>m. rbind (read_many r n) (\<lambda>ms. rreturn (m # ms)))"

context framing
begin

lemma read_many_frames:
  "list_all admissible ms \<Longrightarrow>
     read_many read_frame (length ms) (concat (map frame ms) @ rest) = (Inr ms, rest)"
proof (induction ms)
  case Nil
  show ?case by (simp add: rd_simps)
next
  case (Cons m ms)
  then have "read_frame (frame m @ concat (map frame ms) @ rest)
      = (Inr m, concat (map frame ms) @ rest)"
    by (simp add: read_frame_frame)
  with Cons show ?case by (simp add: rd_simps)
qed

end

section \<open>Fixed-width integers\<close>

primrec le_nat :: "bytes \<Rightarrow> nat" where
  "le_nat [] = 0"
| "le_nat (b # bs) = unat b + 256 * le_nat bs"

definition be_nat :: "bytes \<Rightarrow> nat" where
  "be_nat bs = le_nat (rev bs)"

primrec le_bytes :: "nat \<Rightarrow> nat \<Rightarrow> bytes" where
  "le_bytes 0 v = []"
| "le_bytes (Suc n) v = word_of_nat v # le_bytes n (v div 256)"

definition be_bytes :: "nat \<Rightarrow> nat \<Rightarrow> bytes" where
  "be_bytes n v = rev (le_bytes n v)"

lemma unat_byte_less [simp]: "unat (b :: byte) < 256"
  using unsigned_less [of b] by simp

lemma le_nat_less [codec]: "le_nat bs < 256 ^ length bs"
proof (induction bs)
  case (Cons b bs)
  have "unat b + 256 * le_nat bs < 256 + 256 * le_nat bs"
    using unat_byte_less [of b] by (simp only: add_less_cancel_right)
  also have "\<dots> = 256 * (le_nat bs + 1)"
    by simp
  also have "\<dots> \<le> 256 * 256 ^ length bs"
    using Cons by (intro mult_le_mono2) simp
  finally show ?case by simp
qed simp

lemma be_nat_less [codec]: "be_nat bs < 256 ^ length bs"
  using le_nat_less [of "rev bs"] by (simp add: be_nat_def)

lemma length_le_bytes [simp]: "length (le_bytes n v) = n"
  by (induction n arbitrary: v) simp_all

lemma length_be_bytes [simp]: "length (be_bytes n v) = n"
  by (simp add: be_bytes_def)

lemma le_nat_le_bytes [codec]: "v < 256 ^ n \<Longrightarrow> le_nat (le_bytes n v) = v"
proof (induction n arbitrary: v)
  case (Suc n)
  then have "v div 256 < 256 ^ n"
    by (simp add: less_mult_imp_div_less mult.commute)
  then show ?case using Suc.IH by (simp add: unat_of_nat)
qed simp

lemma be_nat_be_bytes [codec]: "v < 256 ^ n \<Longrightarrow> be_nat (be_bytes n v) = v"
  by (simp add: be_nat_def be_bytes_def le_nat_le_bytes)

lemma le_bytes_le_nat [codec]: "le_bytes (length bs) (le_nat bs) = bs"
proof (induction bs)
  case (Cons b bs)
  have "(unat b + 256 * le_nat bs) div 256 = le_nat bs"
    using unat_byte_less [of b] by simp
  moreover have "word_of_nat (unat b + 256 * le_nat bs) = b"
  proof (rule word_unat_eq_iff [THEN iffD2])
    have "unat (word_of_nat (unat b + 256 * le_nat bs) :: byte) = (unat b + 256 * le_nat bs) mod 256"
      by (simp only: unat_of_nat) simp
    also have "\<dots> = unat b"
      by (simp only: mod_mult_self2) (simp add: mod_less)
    finally show "unat (word_of_nat (unat b + 256 * le_nat bs) :: byte) = unat b" .
  qed
  ultimately show ?case using Cons by simp
qed simp

lemma be_bytes_be_nat [codec]: "be_bytes (length bs) (be_nat bs) = bs"
  using le_bytes_le_nat [of "rev bs"] by (simp add: be_nat_def be_bytes_def)

lemma be_bytes_2: "be_bytes 2 v = [word_of_nat (v div 256), word_of_nat v]"
  by (simp add: be_bytes_def numeral_2_eq_2)

lemma le_bytes_inject:
  "u < 256 ^ n \<Longrightarrow> v < 256 ^ n \<Longrightarrow> le_bytes n u = le_bytes n v \<Longrightarrow> u = v"
  by (metis le_nat_le_bytes)

text \<open>\<^verbatim>\<open>struct.pack\<close> raises \<^verbatim>\<open>struct.error\<close> when the value does not fit; the
  \<^verbatim>\<open>unpack_from\<close> forms raise it when the buffer is too short.\<close>

definition pack_be16 :: "nat \<Rightarrow> bytes result" where
  "pack_be16 v = (if v < 65536 then Inr (be_bytes 2 v) else Inl StructError)"

definition pack_le32 :: "nat \<Rightarrow> bytes result" where
  "pack_le32 v = (if v < 4294967296 then Inr (le_bytes 4 v) else Inl StructError)"

definition slice :: "'a list \<Rightarrow> nat \<Rightarrow> nat \<Rightarrow> 'a list" where
  "slice xs i j = take (j - i) (drop i xs)"

definition unpack_le16 :: "bytes \<Rightarrow> nat \<Rightarrow> nat result" where
  "unpack_le16 p i = (if i + 2 \<le> length p then Inr (le_nat (slice p i (i + 2))) else Inl StructError)"

definition unpack_le32 :: "bytes \<Rightarrow> nat \<Rightarrow> nat result" where
  "unpack_le32 p i = (if i + 4 \<le> length p then Inr (le_nat (slice p i (i + 4))) else Inl StructError)"

definition pack_into_le32 :: "bytes \<Rightarrow> nat \<Rightarrow> nat \<Rightarrow> bytes result" where
  "pack_into_le32 p i v =
     (if i + 4 \<le> length p \<and> v < 4294967296
      then Inr (take i p @ le_bytes 4 v @ drop (i + 4) p) else Inl StructError)"

lemma length_slice: "length (slice xs i j) = min (j - i) (length xs - i)"
  by (simp add: slice_def)

lemma slice_append_left: "i = length a \<Longrightarrow> j = i + length b \<Longrightarrow> slice (a @ b @ c) i j = b"
  by (simp add: slice_def)

lemma le32_less: "length p = 4 \<Longrightarrow> le_nat p < 4294967296"
  using le_nat_less [of p] by simp

lemma unpack_pack_into_le32:
  "pack_into_le32 p i v = Inr q \<Longrightarrow> unpack_le32 q i = Inr v"
  by (auto simp: pack_into_le32_def unpack_le32_def slice_def codec split: if_splits)

lemma length_pack_into_le32: "pack_into_le32 p i v = Inr q \<Longrightarrow> length q = length p"
  by (auto simp: pack_into_le32_def split: if_splits)

end
