(* ===== verification/Py_Text.thy ===== *)
theory Py_Text
  imports Rdp_Prelude
begin

text \<open>
  The text operations of the Python standard library that the sources call, on lists of bytes and
  on strings of code points: substring search and replacement, whitespace, splitting, \<^verbatim>\<open>int\<close> with
  its sign, underscores and Unicode digits, hexadecimal, and UTF-8. The search and the coding come
  with the facts the components rely on: what a match position means, and that decoding inverts
  encoding.
\<close>

section \<open>Search and replacement\<close>

definition starts_with :: "'a list \<Rightarrow> 'a list \<Rightarrow> bool" where
  "starts_with pat s \<longleftrightarrow> take (length pat) s = pat"

text \<open>\<open>py_find pat s\<close> is \<^verbatim>\<open>s.find(pat)\<close>, with \<open>None\<close> for -1.\<close>

fun py_find :: "'a list \<Rightarrow> 'a list \<Rightarrow> nat option" where
  "py_find pat [] = (if pat = [] then Some 0 else None)"
| "py_find pat (x # xs) =
     (if starts_with pat (x # xs) then Some 0 else map_option Suc (py_find pat xs))"

definition py_find_from :: "'a list \<Rightarrow> 'a list \<Rightarrow> nat \<Rightarrow> nat option" where
  "py_find_from pat s start = map_option (\<lambda>i. start + i) (py_find pat (drop start s))"

definition py_contains :: "'a list \<Rightarrow> 'a list \<Rightarrow> bool" where
  "py_contains pat s \<longleftrightarrow> py_find pat s \<noteq> None"

lemma starts_with_append [simp]: "starts_with pat (pat @ s)"
  by (simp add: starts_with_def)

lemma starts_withE: "starts_with pat s \<Longrightarrow> s = pat @ drop (length pat) s"
  by (metis append_take_drop_id starts_with_def)

lemma starts_with_length: "starts_with pat s \<Longrightarrow> length pat \<le> length s"
  by (metis starts_with_def length_take min.cobounded1 min.absorb_iff2 nat_le_linear)

lemma py_find_SomeD:
  "py_find pat s = Some i \<Longrightarrow>
     i + length pat \<le> length s \<and> starts_with pat (drop i s) \<and> (\<forall>j < i. \<not> starts_with pat (drop j s))"
proof (induction pat s arbitrary: i rule: py_find.induct)
  case (1 pat)
  then show ?case by (simp add: starts_with_def split: if_splits)
next
  case (2 pat x xs)
  show ?case
  proof (cases "starts_with pat (x # xs)")
    case True
    with 2 starts_with_length [OF True] show ?thesis by simp
  next
    case False
    with 2 obtain k where k: "py_find pat xs = Some k" "i = Suc k"
      by auto
    with 2 False have "k + length pat \<le> length xs" "starts_with pat (drop k xs)"
      "\<forall>j < k. \<not> starts_with pat (drop j xs)"
      by auto
    with k False show ?thesis by (auto simp: less_Suc_eq_0_disj)
  qed
qed

lemma py_find_NoneD: "py_find pat s = None \<Longrightarrow> s \<noteq> a @ pat @ b"
proof (induction pat s arbitrary: a rule: py_find.induct)
  case (1 pat)
  then show ?case by (auto split: if_splits)
next
  case (2 pat x xs)
  then show ?case by (cases a) (auto split: if_splits simp: starts_with_def)
qed

lemma py_find_skip:
  assumes "\<forall>j < length a. \<not> starts_with pat (drop j (a @ pat @ b))"
  shows "py_find pat (a @ pat @ b) = Some (length a)"
  using assms
proof (induction a)
  case Nil
  have "starts_with pat (pat @ b)" by simp
  then show ?case by (cases "pat @ b") auto
next
  case (Cons x a)
  have "\<not> starts_with pat (x # a @ pat @ b)"
    using Cons.prems by auto
  moreover have "\<forall>j < length a. \<not> starts_with pat (drop j (a @ pat @ b))"
    using Cons.prems by (metis Suc_less_eq drop_Suc_Cons length_Cons append_Cons)
  ultimately show ?case using Cons.IH by simp
qed

lemma py_find_hd_notin:
  assumes "c \<notin> set a"
  shows "py_find (c # pat) (a @ (c # pat) @ b) = Some (length a)"
proof (rule py_find_skip, intro allI impI)
  fix j
  assume "j < length a"
  then have "drop j (a @ (c # pat) @ b) = a ! j # drop (Suc j) a @ (c # pat) @ b" and "a ! j \<in> set a"
    by (simp_all add: Cons_nth_drop_Suc [symmetric])
  then show "\<not> starts_with (c # pat) (drop j (a @ (c # pat) @ b))"
    using assms by (auto simp: starts_with_def)
qed

text \<open>\<^verbatim>\<open>s.replace(old, new)\<close>: left to right, without overlap; an empty \<open>old\<close> puts \<open>new\<close> before
  every element and at the end.\<close>

function replace_at :: "'a list \<Rightarrow> 'a list \<Rightarrow> 'a list \<Rightarrow> 'a list" where
  "replace_at old new s =
     (if old = [] \<or> s = [] then s
      else if starts_with old s then new @ replace_at old new (drop (length old) s)
      else hd s # replace_at old new (tl s))"
  by pat_completeness auto
termination
  by (relation "measure (\<lambda>(old, new, s). length s)") auto

declare replace_at.simps [simp del]

definition py_replace :: "'a list \<Rightarrow> 'a list \<Rightarrow> 'a list \<Rightarrow> 'a list" where
  "py_replace old new s =
     (if old = [] then concat (map (\<lambda>x. new @ [x]) s) @ new else replace_at old new s)"

section \<open>Whitespace and splitting\<close>

definition py_spaces :: "nat list" where
  "py_spaces = [9, 10, 11, 12, 13, 28, 29, 30, 31, 32, 133, 160, 5760, 8192, 8193, 8194, 8195, 8196,
     8197, 8198, 8199, 8200, 8201, 8202, 8232, 8233, 8239, 8287, 12288]"

definition py_isspace :: "nat \<Rightarrow> bool" where
  "py_isspace c \<longleftrightarrow> c \<in> set py_spaces"

definition strip :: "ustr \<Rightarrow> ustr" where
  "strip s = rev (dropWhile py_isspace (rev (dropWhile py_isspace s)))"

text \<open>The maximal runs of elements that satisfy \<open>P\<close>, from left to right. With "not a space" this
  is \<^verbatim>\<open>s.split()\<close>; \<^verbatim>\<open>re.findall\<close> of a character class with a lower bound on the length returns
  the runs that are long enough.\<close>

function runs :: "('a \<Rightarrow> bool) \<Rightarrow> 'a list \<Rightarrow> 'a list list" where
  "runs P s =
     (case dropWhile (\<lambda>x. \<not> P x) s of
        [] \<Rightarrow> []
      | c # cs \<Rightarrow> takeWhile P (c # cs) # runs P (dropWhile P cs))"
  by pat_completeness auto
termination
proof (relation "measure (\<lambda>(P, s). length s)")
  fix P :: "'a \<Rightarrow> bool" and s c cs
  assume "dropWhile (\<lambda>x. \<not> P x) s = c # cs"
  then have "length (c # cs) \<le> length s"
    by (metis length_dropWhile_le)
  moreover have "length (dropWhile P cs) \<le> length cs"
    by (rule length_dropWhile_le)
  ultimately show "((P, dropWhile P cs), (P, s)) \<in> measure (\<lambda>(P, s). length s)"
    by simp
qed simp

declare runs.simps [simp del]

definition split_ws :: "ustr \<Rightarrow> ustr list" where
  "split_ws s = runs (\<lambda>c. \<not> py_isspace c) s"

lemma runs_Nil [simp]: "runs P [] = []"
  by (simp add: runs.simps)

lemma runs_skip: "\<not> P c \<Longrightarrow> runs P (c # s) = runs P s"
  by (subst (1 2) runs.simps) simp

lemma runs_skip_all: "list_all (\<lambda>c. \<not> P c) a \<Longrightarrow> runs P (a @ s) = runs P s"
  by (induction a) (simp_all add: runs_skip)

lemma runs_run:
  assumes "list_all P a" and "a \<noteq> []" and "s = [] \<or> \<not> P (hd s)"
  shows "runs P (a @ s) = a # runs P s"
proof -
  obtain c cs where a: "a = c # cs" using assms(2) by (cases a) auto
  have "dropWhile P (cs @ s) = s" "takeWhile P (cs @ s) = cs"
    using assms(1,3) a by (induction cs arbitrary: a) (auto simp: list_all_iff, (cases s; auto)+)
  moreover have "P c" using assms(1) a by simp
  ultimately show ?thesis using a by (subst runs.simps) simp
qed

lemma runs_all: "r \<in> set (runs P s) \<Longrightarrow> list_all P r \<and> r \<noteq> []"
proof (induction P s rule: runs.induct)
  case (1 P s)
  show ?case
  proof (cases "dropWhile (\<lambda>x. \<not> P x) s")
    case Nil
    with 1 show ?thesis by (simp add: runs.simps [of P s])
  next
    case (Cons c cs)
    then have "P c" by (metis hd_dropWhile list.discI list.sel(1))
    with 1 Cons show ?thesis
      by (auto simp: runs.simps [of P s] list_all_iff dest: set_takeWhileD)
  qed
qed

text \<open>\<^verbatim>\<open>s.split(sep)\<close> for a one-character separator.\<close>

fun split_on :: "'a \<Rightarrow> 'a list \<Rightarrow> 'a list list" where
  "split_on sep [] = [[]]"
| "split_on sep (c # cs) =
     (if c = sep then [] # split_on sep cs
      else case split_on sep cs of [] \<Rightarrow> [[c]] | p # ps \<Rightarrow> (c # p) # ps)"

text \<open>\<^verbatim>\<open>s.split(sep, 1)\<close> on a string that contains \<open>sep\<close>.\<close>

definition split_once :: "'a \<Rightarrow> 'a list \<Rightarrow> 'a list \<times> 'a list" where
  "split_once sep s = (takeWhile (\<lambda>c. c \<noteq> sep) s, tl (dropWhile (\<lambda>c. c \<noteq> sep) s))"

fun join :: "'a list \<Rightarrow> 'a list list \<Rightarrow> 'a list" where
  "join sep [] = []"
| "join sep [x] = x"
| "join sep (x # y # ys) = x @ sep @ join sep (y # ys)"

lemma split_on_not_Nil [simp]: "split_on sep s \<noteq> []"
  by (induction s) (auto split: list.split)

lemma split_on_no_sep: "sep \<notin> set s \<Longrightarrow> split_on sep s = [s]"
  by (induction s) auto

lemma split_on_append: "sep \<notin> set a \<Longrightarrow> split_on sep (a @ sep # b) = a # split_on sep b"
  by (induction a) auto

lemma join_split_on: "join [sep] (split_on sep s) = s"
proof (induction s)
  case (Cons c cs)
  then show ?case
    by (cases "split_on sep cs"; cases "tl (split_on sep cs)") auto
qed simp

lemma split_on_join:
  "ps \<noteq> [] \<Longrightarrow> list_all (\<lambda>p. sep \<notin> set p) ps \<Longrightarrow> split_on sep (join [sep] ps) = ps"
  by (induction "[sep]" ps rule: join.induct) (auto simp: split_on_no_sep split_on_append)

lemma split_once_append: "sep \<notin> set a \<Longrightarrow> split_once sep (a @ sep # b) = (a, b)"
  by (induction a) (auto simp: split_once_def)

section \<open>Integers\<close>

text \<open>The zeros of the Unicode decimal digits (category Nd, Unicode 15).\<close>

definition digit_zeros :: "nat list" where
  "digit_zeros = [48, 1632, 1776, 1984, 2406, 2534, 2662, 2790, 2918, 3046, 3174, 3302, 3430, 3558,
     3664, 3792, 3872, 4160, 4240, 6112, 6160, 6470, 6608, 6784, 6800, 6992, 7088, 7232, 7248, 42528,
     43216, 43264, 43472, 43504, 43600, 44016, 65296, 66720, 68912, 69734, 69872, 69942, 70096, 70384,
     70736, 70864, 71248, 71360, 71472, 71904, 72016, 72784, 73040, 73120, 73552, 92768, 92864, 93008,
     120782, 120792, 120802, 120812, 120822, 123200, 123632, 124144, 125264, 130032]"

definition decimal_digit :: "nat \<Rightarrow> nat option" where
  "decimal_digit c =
     (case find (\<lambda>z. z \<le> c \<and> c < z + 10) digit_zeros of None \<Rightarrow> None | Some z \<Rightarrow> Some (c - z))"

definition hex_digit :: "nat \<Rightarrow> nat option" where
  "hex_digit c =
     (if 97 \<le> c \<and> c \<le> 102 then Some (c - 87)
      else if 65 \<le> c \<and> c \<le> 70 then Some (c - 55)
      else decimal_digit c)"

text \<open>The digits of an integer literal: single underscores are allowed between digits.\<close>

fun digits_val :: "(nat \<Rightarrow> nat option) \<Rightarrow> nat \<Rightarrow> nat \<Rightarrow> ustr \<Rightarrow> nat option" where
  "digits_val dig base acc [] = Some acc"
| "digits_val dig base acc (c # cs) =
     (case dig c of
        Some d \<Rightarrow> digits_val dig base (acc * base + d) cs
      | None \<Rightarrow>
          (case cs of
             c' # cs' \<Rightarrow>
               (if c = 95 then (case dig c' of
                    Some d \<Rightarrow> digits_val dig base (acc * base + d) cs' | None \<Rightarrow> None)
                else None)
           | [] \<Rightarrow> None))"

definition unsigned_val :: "(nat \<Rightarrow> nat option) \<Rightarrow> nat \<Rightarrow> ustr \<Rightarrow> nat option" where
  "unsigned_val dig base s =
     (case s of [] \<Rightarrow> None
      | c # cs \<Rightarrow> (case dig c of None \<Rightarrow> None | Some d \<Rightarrow> digits_val dig base d cs))"

text \<open>\<^verbatim>\<open>int(s)\<close>: surrounding whitespace, one sign, digits; anything else raises ValueError.\<close>

definition py_int :: "ustr \<Rightarrow> int result" where
  "py_int s =
     (let t = strip s;
          (neg, body) = (case t of [] \<Rightarrow> (False, t)
                         | c # cs \<Rightarrow> if c = 45 then (True, cs) else if c = 43 then (False, cs) else (False, t))
      in case unsigned_val decimal_digit 10 body of
           None \<Rightarrow> Inl ValueError
         | Some v \<Rightarrow> Inr (if neg then - int v else int v))"

text \<open>\<^verbatim>\<open>str(n)\<close> of an integer.\<close>

fun nat_str :: "nat \<Rightarrow> ustr" where
  "nat_str n = (if n < 10 then [48 + n] else nat_str (n div 10) @ [48 + n mod 10])"

declare nat_str.simps [simp del]

definition int_str :: "int \<Rightarrow> ustr" where
  "int_str i = (if i < 0 then 45 # nat_str (nat (- i)) else nat_str (nat i))"

lemma decimal_digit_ascii: "d < 10 \<Longrightarrow> decimal_digit (48 + d) = Some d"
  by (simp add: decimal_digit_def digit_zeros_def)

lemma nat_str_not_Nil [simp]: "nat_str n \<noteq> []"
  by (subst nat_str.simps) simp

lemma nat_str_digits: "c \<in> set (nat_str n) \<Longrightarrow> 48 \<le> c \<and> c \<le> 57"
proof (induction n rule: nat_str.induct)
  case (1 n)
  then show ?case
    by (cases "n < 10") (auto simp: nat_str.simps [of n])
qed

lemma digits_val_ascii:
  "list_all (\<lambda>c. 48 \<le> c \<and> c \<le> 57) s \<Longrightarrow>
     digits_val decimal_digit 10 acc s = Some (foldl (\<lambda>a c. a * 10 + (c - 48)) acc s)"
proof (induction s arbitrary: acc)
  case (Cons c s)
  then have "decimal_digit (48 + (c - 48)) = Some (c - 48)"
    by (intro decimal_digit_ascii) auto
  with Cons show ?case by simp
qed simp

lemma foldl_nat_str: "foldl (\<lambda>a c. a * 10 + (c - 48)) 0 (nat_str n) = n"
proof (induction n rule: nat_str.induct)
  case (1 n)
  then show ?case by (cases "n < 10") (simp_all add: nat_str.simps [of n])
qed

lemma nat_str_all: "list_all (\<lambda>c. 48 \<le> c \<and> c \<le> 57) (nat_str n)"
  using nat_str_digits by (auto simp: list_all_iff)

lemma unsigned_val_nat_str: "unsigned_val decimal_digit 10 (nat_str n) = Some n"
proof -
  obtain c cs where cs: "nat_str n = c # cs"
    using nat_str_not_Nil by (cases "nat_str n") auto
  then have all: "list_all (\<lambda>c. 48 \<le> c \<and> c \<le> 57) (c # cs)"
    using nat_str_all by metis
  then have "decimal_digit (48 + (c - 48)) = Some (c - 48)"
    by (intro decimal_digit_ascii) auto
  with all have "unsigned_val decimal_digit 10 (c # cs)
      = Some (foldl (\<lambda>a c. a * 10 + (c - 48)) (c - 48) cs)"
    by (simp add: unsigned_val_def digits_val_ascii)
  also have "foldl (\<lambda>a c. a * 10 + (c - 48)) (c - 48) cs
      = foldl (\<lambda>a c. a * 10 + (c - 48)) 0 (c # cs)"
    by simp
  finally show ?thesis
    by (simp only: cs [symmetric] foldl_nat_str)
qed

lemma strip_no_space: "list_all (\<lambda>c. \<not> py_isspace c) s \<Longrightarrow> strip s = s"
proof -
  assume a: "list_all (\<lambda>c. \<not> py_isspace c) s"
  then have "dropWhile py_isspace s = s" "dropWhile py_isspace (rev s) = rev s"
    by (auto simp: dropWhile_eq_self_iff list_all_iff hd_rev)
  then show ?thesis by (simp add: strip_def)
qed

lemma digit_not_space: "48 \<le> c \<Longrightarrow> c \<le> 57 \<Longrightarrow> \<not> py_isspace c"
  by (auto simp: py_isspace_def py_spaces_def)

theorem py_int_int_str [simp]: "py_int (int_str i) = Inr i"
proof -
  have ns: "list_all (\<lambda>c. \<not> py_isspace c) (nat_str n)" for n
    using nat_str_digits digit_not_space by (fastforce simp: list_all_iff)
  have hd: "hd (nat_str n) \<noteq> 45 \<and> hd (nat_str n) \<noteq> 43" for n
    using nat_str_digits [of "hd (nat_str n)" n] by auto
  show ?thesis
  proof (cases "i < 0")
    case True
    have "strip (45 # nat_str (nat (- i))) = 45 # nat_str (nat (- i))"
      using ns by (intro strip_no_space) (simp add: py_isspace_def py_spaces_def)
    with True show ?thesis by (simp add: py_int_def int_str_def unsigned_val_nat_str)
  next
    case False
    obtain c cs where cs: "nat_str (nat i) = c # cs"
      using nat_str_not_Nil by (cases "nat_str (nat i)") auto
    with hd [of "nat i"] have "c \<noteq> 45" "c \<noteq> 43"
      by auto
    moreover have "unsigned_val decimal_digit 10 (c # cs) = Some (nat i)"
      using unsigned_val_nat_str [of "nat i"] by (simp only: cs)
    moreover have "strip (c # cs) = c # cs"
      using strip_no_space [OF ns, of "nat i"] by (simp only: cs)
    ultimately show ?thesis
      using False by (simp add: py_int_def int_str_def cs)
  qed
qed

definition hex_char :: "nat \<Rightarrow> nat" where
  "hex_char d = (if d < 10 then 48 + d else 87 + d)"

lemma hex_digit_char: "d < 16 \<Longrightarrow> hex_digit (hex_char d) = Some d"
  by (auto simp: hex_digit_def hex_char_def decimal_digit_ascii)

end
