(* ===== verification/Utf_Codec.thy ===== *)
theory Utf_Codec
  imports Py_Text
begin

text \<open>
  The text codecs the services use: UTF-8 (strict, and with \<^verbatim>\<open>errors="ignore"\<close>), ASCII and
  UTF-16-LE. Encoding raises on a lone surrogate, strict decoding on a malformed sequence. The
  theorem of the theory is that both UTF-8 decoders return the string that was encoded.
\<close>

definition scalar :: "nat \<Rightarrow> bool" where
  "scalar c \<longleftrightarrow> c < 1114112 \<and> \<not> (55296 \<le> c \<and> c \<le> 57343)"

definition utf8_char :: "nat \<Rightarrow> bytes" where
  "utf8_char c = map word_of_nat
     (if c < 128 then [c]
      else if c < 2048 then [192 + c div 64, 128 + c mod 64]
      else if c < 65536 then [224 + c div 4096, 128 + c div 64 mod 64, 128 + c mod 64]
      else [240 + c div 262144, 128 + c div 4096 mod 64, 128 + c div 64 mod 64, 128 + c mod 64])"

definition utf8_encode :: "ustr \<Rightarrow> bytes result" where
  "utf8_encode s = (if list_all scalar s then Inr (concat (map utf8_char s)) else Inl UnicodeError)"

definition cont :: "nat \<Rightarrow> bool" where
  "cont b \<longleftrightarrow> 128 \<le> b \<and> b < 192"

text \<open>The well-formed sequence at the front of a byte list, with its length, if there is one. The
  second byte is restricted after E0, ED, F0 and F4, which excludes overlong forms, surrogates and
  values above 10FFFF.\<close>

definition utf8_seq :: "nat list \<Rightarrow> (nat \<times> nat) option" where
  "utf8_seq s =
     (case s of
        [] \<Rightarrow> None
      | a # r \<Rightarrow>
          if a < 128 then Some (a, 1)
          else if 194 \<le> a \<and> a < 224 then
            (case r of b # _ \<Rightarrow> if cont b then Some ((a - 192) * 64 + (b - 128), 2) else None | [] \<Rightarrow> None)
          else if 224 \<le> a \<and> a < 240 then
            (case r of b # c # _ \<Rightarrow>
               if cont b \<and> cont c \<and> (a = 224 \<longrightarrow> 160 \<le> b) \<and> (a = 237 \<longrightarrow> b < 160)
               then Some ((a - 224) * 4096 + (b - 128) * 64 + (c - 128), 3) else None | _ \<Rightarrow> None)
          else if 240 \<le> a \<and> a < 245 then
            (case r of b # c # d # _ \<Rightarrow>
               if cont b \<and> cont c \<and> cont d \<and> (a = 240 \<longrightarrow> 144 \<le> b) \<and> (a = 244 \<longrightarrow> b < 144)
               then Some ((a - 240) * 262144 + (b - 128) * 4096 + (c - 128) * 64 + (d - 128), 4)
               else None | _ \<Rightarrow> None)
          else None)"

lemma utf8_seq_pos: "utf8_seq s = Some (c, n) \<Longrightarrow> 0 < n \<and> s \<noteq> []"
  by (auto simp: utf8_seq_def split: list.splits if_splits)

text \<open>
  The decoder with \<^verbatim>\<open>errors="ignore"\<close> drops a byte that starts no well-formed sequence. The
  interpreter drops the longest well-formed beginning of a sequence at once; the bytes after its
  first are continuation bytes, which start no sequence either, so the result is the same.
\<close>

function decode_ignore :: "nat list \<Rightarrow> ustr" where
  "decode_ignore s =
     (case s of [] \<Rightarrow> []
      | b # bs \<Rightarrow>
          (case utf8_seq s of
             Some (c, n) \<Rightarrow> c # decode_ignore (drop n s)
           | None \<Rightarrow> decode_ignore bs))"
  by pat_completeness auto
termination
  by (relation "measure length") (auto dest: utf8_seq_pos)

declare decode_ignore.simps [simp del]

lemma decode_ignore_step:
  "utf8_seq s = Some (c, n) \<Longrightarrow> decode_ignore s = c # decode_ignore (drop n s)"
  using utf8_seq_pos [of s c n] by (subst decode_ignore.simps) (auto split: list.split)

function decode_strict :: "nat list \<Rightarrow> ustr result" where
  "decode_strict s =
     (case s of [] \<Rightarrow> Inr []
      | b # bs \<Rightarrow>
          (case utf8_seq s of
             Some (c, n) \<Rightarrow>
               (case decode_strict (drop n s) of Inl e \<Rightarrow> Inl e | Inr cs \<Rightarrow> Inr (c # cs))
           | None \<Rightarrow> Inl UnicodeError))"
  by pat_completeness auto
termination
  by (relation "measure length") (auto dest: utf8_seq_pos)

declare decode_strict.simps [simp del]

lemma decode_strict_step:
  "utf8_seq s = Some (c, n) \<Longrightarrow>
     decode_strict s = (case decode_strict (drop n s) of Inl e \<Rightarrow> Inl e | Inr cs \<Rightarrow> Inr (c # cs))"
  using utf8_seq_pos [of s c n] by (subst decode_strict.simps) (auto split: list.split)

definition utf8_decode_ignore :: "bytes \<Rightarrow> ustr" where
  "utf8_decode_ignore bs = decode_ignore (map unat bs)"

definition utf8_decode :: "bytes \<Rightarrow> ustr result" where
  "utf8_decode bs = decode_strict (map unat bs)"

definition ascii_decode :: "bytes \<Rightarrow> ustr result" where
  "ascii_decode bs = (if list_all (\<lambda>b. unat b < 128) bs then Inr (map unat bs) else Inl UnicodeError)"

definition utf16le_char :: "nat \<Rightarrow> bytes" where
  "utf16le_char c =
     (if c < 65536 then le_bytes 2 c
      else le_bytes 2 (55296 + (c - 65536) div 1024) @ le_bytes 2 (56320 + (c - 65536) mod 1024))"

definition utf16le_encode :: "ustr \<Rightarrow> bytes result" where
  "utf16le_encode s = (if list_all scalar s then Inr (concat (map utf16le_char s)) else Inl UnicodeError)"

lemma map_unat_of_nat: "list_all (\<lambda>n. n < 256) ns \<Longrightarrow> map unat (map word_of_nat ns :: bytes) = ns"
  by (induction ns) (simp_all add: unat_of_nat)

lemma length_utf8_char:
  "length (utf8_char c) = (if c < 128 then 1 else if c < 2048 then 2 else if c < 65536 then 3 else 4)"
  by (simp add: utf8_char_def)

lemma utf8_char_values:
  "scalar c \<Longrightarrow> map unat (utf8_char c) =
     (if c < 128 then [c]
      else if c < 2048 then [192 + c div 64, 128 + c mod 64]
      else if c < 65536 then [224 + c div 4096, 128 + c div 64 mod 64, 128 + c mod 64]
      else [240 + c div 262144, 128 + c div 4096 mod 64, 128 + c div 64 mod 64, 128 + c mod 64])"
  unfolding utf8_char_def
  by (rule map_unat_of_nat) (auto simp: scalar_def intro: order_less_le_trans)

lemma split64: "(c::nat) div 64 * 64 + c mod 64 = c"
  by simp

lemma split4096: "(c::nat) div 4096 * 4096 + c div 64 mod 64 * 64 + c mod 64 = c"
proof -
  have "c div 4096 = c div 64 div 64" by (simp add: div_mult2_eq [symmetric])
  then have "c div 4096 * 64 + c div 64 mod 64 = c div 64" by simp
  then have "(c div 4096 * 64 + c div 64 mod 64) * 64 + c mod 64 = c"
    by (simp only: split64)
  then show ?thesis by (simp add: add_mult_distrib)
qed

lemma split262144:
  "(c::nat) div 262144 * 262144 + c div 4096 mod 64 * 4096 + c div 64 mod 64 * 64 + c mod 64 = c"
proof -
  have "c div 262144 = c div 4096 div 64" by (simp add: div_mult2_eq [symmetric])
  then have "c div 262144 * 64 + c div 4096 mod 64 = c div 4096" by simp
  then have "c div 262144 * 262144 + c div 4096 mod 64 * 4096 = c div 4096 * 4096" by simp
  then show ?thesis using split4096 [of c] by simp
qed

lemma utf8_seq_char:
  assumes "scalar c"
  shows "utf8_seq (map unat (utf8_char c) @ r) = Some (c, length (utf8_char c))"
proof -
  consider "c < 128" | "128 \<le> c" "c < 2048" | "2048 \<le> c" "c < 65536" | "65536 \<le> c" "c < 1114112"
    using assms unfolding scalar_def by linarith
  then show ?thesis
  proof cases
    case 1
    then show ?thesis by (simp add: utf8_char_values assms utf8_seq_def length_utf8_char)
  next
    case 2
    then have "2 \<le> c div 64" "c div 64 < 32" by auto
    with 2 show ?thesis
      by (simp add: utf8_char_values assms utf8_seq_def length_utf8_char cont_def)
  next
    case 3
    have "c div 4096 < 16" using 3 by auto
    moreover have "c div 4096 = 0 \<Longrightarrow> 32 \<le> c div 64 mod 64"
      using 3 split4096 [of c] by (auto simp: div_eq_0_iff)
    moreover have "c div 4096 = 13 \<Longrightarrow> c div 64 mod 64 < 32"
      using assms 3 split4096 [of c] by (auto simp: scalar_def)
    ultimately show ?thesis
      using 3 split4096 [of c]
      by (simp add: utf8_char_values assms utf8_seq_def length_utf8_char cont_def)
  next
    case 4
    have "c div 262144 < 5" using 4 by auto
    moreover have "c div 262144 = 0 \<Longrightarrow> 16 \<le> c div 4096 mod 64"
      using 4 split262144 [of c] by (auto simp: div_eq_0_iff)
    moreover have "c div 262144 = 4 \<Longrightarrow> c div 4096 mod 64 < 16"
      using 4 split262144 [of c] by auto
    ultimately show ?thesis
      using 4 split262144 [of c]
      by (simp add: utf8_char_values assms utf8_seq_def length_utf8_char cont_def)
  qed
qed

lemma utf8_char_not_Nil [simp]: "utf8_char c \<noteq> []"
  by (simp add: utf8_char_def)

theorem utf8_decode_ignore_encode:
  "utf8_encode s = Inr bs \<Longrightarrow> utf8_decode_ignore bs = s"
proof -
  have "list_all scalar s \<Longrightarrow> decode_ignore (concat (map (\<lambda>c. map unat (utf8_char c)) s)) = s"
  proof (induction s)
    case (Cons c s)
    let ?r = "concat (map (\<lambda>c. map unat (utf8_char c)) s)"
    have "utf8_seq (map unat (utf8_char c) @ ?r) = Some (c, length (utf8_char c))"
      using Cons.prems by (intro utf8_seq_char) simp
    then have "decode_ignore (map unat (utf8_char c) @ ?r) = c # decode_ignore ?r"
      by (simp add: decode_ignore_step)
    with Cons show ?case by simp
  qed (simp add: decode_ignore.simps)
  then show "utf8_encode s = Inr bs \<Longrightarrow> utf8_decode_ignore bs = s"
    by (auto simp: utf8_encode_def utf8_decode_ignore_def map_concat comp_def split: if_splits)
qed

theorem utf8_decode_encode: "utf8_encode s = Inr bs \<Longrightarrow> utf8_decode bs = Inr s"
proof -
  have "list_all scalar s \<Longrightarrow> decode_strict (concat (map (\<lambda>c. map unat (utf8_char c)) s)) = Inr s"
  proof (induction s)
    case (Cons c s)
    let ?r = "concat (map (\<lambda>c. map unat (utf8_char c)) s)"
    have "utf8_seq (map unat (utf8_char c) @ ?r) = Some (c, length (utf8_char c))"
      using Cons.prems by (intro utf8_seq_char) simp
    then have "decode_strict (map unat (utf8_char c) @ ?r)
        = (case decode_strict ?r of Inl e \<Rightarrow> Inl e | Inr cs \<Rightarrow> Inr (c # cs))"
      by (simp add: decode_strict_step)
    with Cons show ?case by simp
  qed (simp add: decode_strict.simps)
  then show "utf8_encode s = Inr bs \<Longrightarrow> utf8_decode bs = Inr s"
    by (auto simp: utf8_encode_def utf8_decode_def map_concat comp_def split: if_splits)
qed

lemma utf8_char_ascii: "c < 128 \<Longrightarrow> utf8_char c = [word_of_nat c]"
  by (simp add: utf8_char_def)

lemma utf8_encode_ascii:
  "list_all (\<lambda>c. c < 128) s \<Longrightarrow> utf8_encode s = Inr (map word_of_nat s)"
  by (induction s) (auto simp: utf8_encode_def utf8_char_ascii scalar_def split: if_splits)

lemma utf8_decode_ignore_ascii:
  assumes "list_all (\<lambda>b. unat b < 128) bs"
  shows "utf8_decode_ignore bs = map unat bs"
proof -
  have "utf8_encode (map unat bs) = Inr (map word_of_nat (map unat bs))"
    using assms by (intro utf8_encode_ascii) (simp add: list_all_iff)
  also have "map word_of_nat (map unat bs) = bs"
    by (simp add: map_idI)
  finally show ?thesis by (rule utf8_decode_ignore_encode)
qed

lemma utf8_encode_inject: "utf8_encode s = Inr bs \<Longrightarrow> utf8_encode t = Inr bs \<Longrightarrow> s = t"
  by (metis utf8_decode_encode Inr_inject)

end
