(* ===== verification/Tpkt_X224.thy ===== *)
theory Tpkt_X224
  imports Utf_Codec
begin

text \<open>
  The RDP framing layer: the protocol constants (\<^verbatim>\<open>src/libs/rdp/constants.py\<close>), TPKT frames
  (\<^verbatim>\<open>src/libs/rdp/tpkt.py\<close>) and the X.224 connection request and confirm
  (\<^verbatim>\<open>src/libs/rdp/x224.py\<close>), with the extraction of the routing token and of the requested
  protocols from the first packet of a client. TPKT fulfils the framing contract; a confirm or
  request that the proxy builds is read back with the protocol flags it was built with.
\<close>

section \<open>Constants\<close>

definition TPKT_VERSION :: byte where
  "TPKT_VERSION = 3"

definition PROTOCOL_SSL :: nat where
  "PROTOCOL_SSL = 0x00000001"

definition PROTOCOL_HYBRID :: nat where
  "PROTOCOL_HYBRID = 0x00000002"

definition REQUESTED_PROTOCOLS_HYBRID :: nat where
  "REQUESTED_PROTOCOLS_HYBRID = 0x00000003"

section \<open>TPKT\<close>

definition build_tpkt :: "bytes \<Rightarrow> bytes result" where
  "build_tpkt payload =
     bind_result (pack_be16 (length payload + 4)) (\<lambda>len. Inr ([TPKT_VERSION, 0] @ len @ payload))"

definition read_tpkt :: "bytes \<Rightarrow> bytes rd" where
  "read_tpkt initial_data =
     rbind (if length initial_data < 4
            then rbind (readexactly (4 - int (length initial_data))) (\<lambda>more. rreturn (initial_data @ more))
            else rreturn initial_data)
       (\<lambda>header.
          if header ! 0 \<noteq> TPKT_VERSION then rraise ValueError
          else (let total_len = be_nat (slice header 2 4) in readexactly (int total_len - 4)))"

section \<open>X.224\<close>

definition build_x224_cr :: "nat \<Rightarrow> bytes result" where
  "build_x224_cr requested_protocols =
     bind_result (pack_le32 requested_protocols)
       (\<lambda>v. build_tpkt ([0x0e, 0xe0, 0, 0, 0, 0, 0] @ [0x01, 0x00, 0x08, 0x00] @ v))"

definition build_x224_cc_ssl :: "bytes result" where
  "build_x224_cc_ssl =
     bind_result (pack_le32 PROTOCOL_SSL)
       (\<lambda>v. build_tpkt ([0x0e, 0xd0, 0, 0, 0x12, 0x34, 0] @ [0x02, 0x00, 0x08, 0x00] @ v))"

definition crlf :: bytes where
  "crlf = [13, 10]"

text \<open>The value after the first of the markers that occurs in the payload with a value that is not
  empty after decoding and stripping; both extractors use this loop.\<close>

fun first_cookie :: "bytes list \<Rightarrow> bytes \<Rightarrow> ustr option" where
  "first_cookie [] p = None"
| "first_cookie (marker # ms) p =
     (case py_find marker p of
        None \<Rightarrow> first_cookie ms p
      | Some i \<Rightarrow>
          let start = i + length marker;
              stop = (case py_find_from crlf p start of None \<Rightarrow> length p | Some e \<Rightarrow> e);
              token = strip (utf8_decode_ignore (slice p start stop))
          in if token \<noteq> [] then Some token else first_cookie ms p)"

definition token_char :: "byte \<Rightarrow> bool" where
  "token_char b \<longleftrightarrow>
     (65 \<le> unat b \<and> unat b \<le> 90) \<or> (97 \<le> unat b \<and> unat b \<le> 122) \<or> (48 \<le> unat b \<and> unat b \<le> 57)
     \<or> unat b = 95 \<or> unat b = 45"

definition ascii_isdigit :: "nat \<Rightarrow> bool" where
  "ascii_isdigit c \<longleftrightarrow> 48 \<le> c \<and> c \<le> 57"

definition ascii_isalpha :: "nat \<Rightarrow> bool" where
  "ascii_isalpha c \<longleftrightarrow> (65 \<le> c \<and> c \<le> 90) \<or> (97 \<le> c \<and> c \<le> 122)"

text \<open>The test on a candidate: candidates consist of ASCII letters, digits, hyphens and underscores,
  so \<^verbatim>\<open>isdigit\<close> and \<^verbatim>\<open>isalpha\<close> are needed on ASCII only.\<close>

definition accept_candidate :: "ustr \<Rightarrow> bool" where
  "accept_candidate token \<longleftrightarrow>
     45 \<in> set token \<or> 95 \<in> set token
     \<or> (32 \<le> length token \<and> list_ex ascii_isdigit token \<and> list_ex ascii_isalpha token)"

definition cookie_markers :: "bytes list" where
  "cookie_markers = [blit ''Cookie: msts='', blit ''cookie: msts='',
     blit ''Cookie: mstshash='', blit ''cookie: mstshash='']"

definition extract_cookie_token :: "bytes \<Rightarrow> ustr result" where
  "extract_cookie_token x224_payload =
     (case first_cookie cookie_markers x224_payload of
        Some token \<Rightarrow> Inr token
      | None \<Rightarrow>
          let candidates = filter (\<lambda>r. 20 \<le> length r) (runs token_char x224_payload)
          in case find accept_candidate (map utf8_decode_ignore candidates) of
               Some token \<Rightarrow> Inr token
             | None \<Rightarrow> Inl ValueError)"

definition extract_rdp_client_hint :: "bytes \<Rightarrow> ustr" where
  "extract_rdp_client_hint x224_payload =
     (case first_cookie [blit ''Cookie: mstshash='', blit ''cookie: mstshash=''] x224_payload of
        Some v \<Rightarrow> v | None \<Rightarrow> [])"

definition extract_requested_protocols :: "bytes \<Rightarrow> nat" where
  "extract_requested_protocols x224_payload =
     (case py_find [0x01, 0x00, 0x08, 0x00] x224_payload of
        Some marker \<Rightarrow>
          if marker + 8 \<le> length x224_payload
          then le_nat (slice x224_payload (marker + 4) (marker + 8))
          else REQUESTED_PROTOCOLS_HYBRID
      | None \<Rightarrow> REQUESTED_PROTOCOLS_HYBRID)"

text \<open>\<open>sha256_hex\<close> is the hexadecimal digest of \<^verbatim>\<open>hashlib.sha256\<close>.\<close>

definition build_rdp_client_fingerprint :: "(bytes \<Rightarrow> ustr) \<Rightarrow> bytes \<Rightarrow> ustr \<Rightarrow> ustr result" where
  "build_rdp_client_fingerprint sha256_hex x224_payload token =
     (let hint = extract_rdp_client_hint x224_payload in
      bind_result (utf8_encode token) (\<lambda>token_bytes.
        let redacted = py_replace token_bytes (blit ''<TOKEN>'') x224_payload
        in Inr (hint @ lit ''|'' @ sha256_hex redacted)))"

section \<open>Framing\<close>

lemma pack_be16_ok: "v < 65536 \<Longrightarrow> pack_be16 v = Inr (be_bytes 2 v)"
  by (simp add: pack_be16_def)

lemma read_tpkt_build:
  assumes "build_tpkt p = Inr f"
  shows "read_tpkt [] (f @ rest) = (Inr p, rest)"
proof -
  have len: "length p + 4 < 65536" and f: "f = [TPKT_VERSION, 0] @ be_bytes 2 (length p + 4) @ p"
    using assms by (auto simp: build_tpkt_def pack_be16_def split: if_splits)
  have "be_nat (be_bytes 2 (length p + 4)) = length p + 4"
    using len by (intro be_nat_be_bytes) simp
  then have total: "be_nat [word_of_nat ((length p + 4) div 256), word_of_nat (length p + 4)] = length p + 4"
    by (simp only: be_bytes_2)
  have hdr: "readexactly 4 (f @ rest)
      = (Inr ([TPKT_VERSION, 0] @ be_bytes 2 (length p + 4)), p @ rest)"
    unfolding f by (simp add: readexactly_def be_bytes_2)
  have sl: "slice ([TPKT_VERSION, 0] @ be_bytes 2 (length p + 4)) 2 4 = be_bytes 2 (length p + 4)"
    by (simp add: slice_def be_bytes_2)
  show ?thesis
    using hdr sl \<open>be_nat (be_bytes 2 (length p + 4)) = length p + 4\<close>
    by (simp add: read_tpkt_def rd_simps Let_def)
qed

text \<open>The frame of a payload that fits the 16-bit length.\<close>

definition tpkt_frame :: "bytes \<Rightarrow> bytes" where
  "tpkt_frame p = [TPKT_VERSION, 0] @ be_bytes 2 (length p + 4) @ p"

definition tpkt_fits :: "bytes \<Rightarrow> bool" where
  "tpkt_fits p \<longleftrightarrow> length p + 4 < 65536"

lemma build_tpkt_frame: "build_tpkt p = (if tpkt_fits p then Inr (tpkt_frame p) else Inl StructError)"
  by (simp add: build_tpkt_def pack_be16_def tpkt_fits_def tpkt_frame_def)

interpretation tpkt: framing tpkt_frame "read_tpkt []" tpkt_fits
  by unfold_locales (simp add: read_tpkt_build build_tpkt_frame)

section \<open>Properties of the framing layer\<close>

lemma read_tpkt_okD:
  assumes "read_tpkt [] s = (Inr p, r)"
  shows "\<exists>x. s = [TPKT_VERSION, x] @ be_bytes 2 (length p + 4) @ p @ r \<and> tpkt_fits p"
proof -
  obtain h s1 where h: "readexactly 4 s = (Inr h, s1)"
    and body: "(if h ! 0 \<noteq> TPKT_VERSION then rraise ValueError
        else let total_len = be_nat (slice h 2 4) in readexactly (int total_len - 4)) s1 = (Inr p, r)"
    using assms by (auto simp: read_tpkt_def rd_simps split: prod.splits sum.splits)
  have "length h = 4" and s: "s = h @ s1"
    using readexactly_okD [OF h] by auto
  then obtain a b c d where hd: "h = [a, b, c, d]"
    by (auto simp: length_Suc_conv numeral_eq_Suc)
  have a: "a = TPKT_VERSION"
    using body hd by (auto simp: rd_simps split: if_splits)
  then have rd: "readexactly (int (be_nat [c, d]) - 4) s1 = (Inr p, r)"
    using body hd by (simp add: slice_def split: if_splits)
  from readexactly_okD [OF rd] have s1: "s1 = p @ r" and len: "be_nat [c, d] = length p + 4"
    by auto
  have "be_bytes 2 (be_nat [c, d]) = [c, d]"
    using be_bytes_be_nat [of "[c, d]"] by (simp add: numeral_2_eq_2)
  moreover have "be_nat [c, d] < 65536"
    using be_nat_less [of "[c, d]"] by simp
  ultimately show ?thesis
    using s hd a s1 len by (auto simp: tpkt_fits_def)
qed

lemma read_tpkt_accepts:
  assumes "tpkt_fits p"
  shows "read_tpkt [] ([TPKT_VERSION, x] @ be_bytes 2 (length p + 4) @ p @ r) = (Inr p, r)"
proof -
  have "be_nat (be_bytes 2 (length p + 4)) = length p + 4"
    using assms by (intro be_nat_be_bytes) (simp add: tpkt_fits_def)
  then show ?thesis
    by (simp add: read_tpkt_def rd_simps Let_def readexactly_def slice_def be_bytes_2)
qed

text \<open>
  C14: A TPKT reader accepts exactly the well-formed frames: it returns the payload \<open>p\<close> and leaves
  the stream \<open>r\<close> if and only if the stream starts with the version byte 3, any reserved byte, and
  the 16-bit big-endian length of header and payload, followed by \<open>p\<close> and then \<open>r\<close>.
\<close>

theorem read_tpkt_exact:
  "read_tpkt [] s = (Inr p, r) \<longleftrightarrow>
     (\<exists>x. s = [TPKT_VERSION, x] @ be_bytes 2 (length p + 4) @ p @ r \<and> length p + 4 < 65536)"
  using read_tpkt_okD [of s p r] read_tpkt_accepts [of p _ r] by (auto simp: tpkt_fits_def)

text \<open>
  Payloads framed by \<^verbatim>\<open>build_tpkt\<close> and sent one after the other on a connection are read back
  one by one, in order, and the bytes after the last frame are not touched.
\<close>

lemma tpkt_stream_roundtrip:
  assumes "map build_tpkt ps = map Inr fs"
  shows "read_many (read_tpkt []) (length ps) (concat fs @ rest) = (Inr ps, rest)"
proof -
  have "list_all tpkt_fits ps \<and> fs = map tpkt_frame ps"
    using assms
    by (induction ps arbitrary: fs) (auto simp: build_tpkt_frame split: if_splits)
  then show ?thesis using tpkt.read_many_frames [of ps rest] by simp
qed

lemma tpkt_stream_roundtrip_witness:
  "read_many (read_tpkt []) 2 (concat [[3, 0, 0, 5, 7], [3, 0, 0, 4]] @ [9]) = (Inr [[7], []], [9])"
proof -
  have "map build_tpkt [[7], []] = map Inr [[3, 0, 0, 5, 7], [3, 0, 0, 4]]"
    by (simp add: build_tpkt_def pack_be16_def TPKT_VERSION_def be_bytes_2)
  from tpkt_stream_roundtrip [OF this, of "[9]"] show ?thesis by (simp add: numeral_2_eq_2)
qed

lemma x224_cr_payload:
  assumes "build_x224_cr r = Inr f"
  shows "read_tpkt [] (f @ rest) =
    (Inr ([0x0e, 0xe0, 0, 0, 0, 0, 0] @ [0x01, 0x00, 0x08, 0x00] @ le_bytes 4 r), rest) \<and> r < 4294967296"
  using assms
  by (auto simp: build_x224_cr_def pack_le32_def read_tpkt_build split: if_splits)

lemma extract_requested_after:
  assumes "0x01 \<notin> set a" and "length v = 4"
  shows "extract_requested_protocols (a @ [0x01, 0x00, 0x08, 0x00] @ v @ b) = le_nat v"
proof -
  have "py_find [0x01, 0x00, 0x08, 0x00] (a @ [0x01, 0x00, 0x08, 0x00] @ v @ b) = Some (length a)"
    using py_find_hd_notin [OF assms(1), of "[0x00, 0x08, 0x00]" "v @ b"] by simp
  with assms(2) show ?thesis
    by (simp add: extract_requested_protocols_def slice_def)
qed

text \<open>
  A connection request that the proxy sends to a backend, read with the proxy's own reader,
  yields the protocol flags it was built with, for every 32-bit value of the flags; larger values
  are refused with \<^verbatim>\<open>struct.error\<close> and no request is built.
\<close>

lemma x224_cr_roundtrip:
  "case build_x224_cr r of
     Inl e \<Rightarrow> e = StructError \<and> 4294967296 \<le> r
   | Inr f \<Rightarrow> \<exists>p. read_tpkt [] f = (Inr p, []) \<and> extract_requested_protocols p = r"
proof (cases "r < 4294967296")
  case True
  then obtain f where f: "build_x224_cr r = Inr f"
    by (simp add: build_x224_cr_def pack_le32_def build_tpkt_frame tpkt_fits_def)
  let ?p = "[0x0e, 0xe0, 0, 0, 0, 0, 0] @ [0x01, 0x00, 0x08, 0x00] @ le_bytes 4 r @ []"
  have "read_tpkt [] f = (Inr ?p, [])"
    using x224_cr_payload [OF f, of "[]"] by simp
  moreover have "extract_requested_protocols ?p = le_nat (le_bytes 4 r)"
    by (rule extract_requested_after) simp_all
  ultimately show ?thesis
    using f True by (auto simp: le_nat_le_bytes)
next
  case False
  then show ?thesis by (simp add: build_x224_cr_def pack_le32_def)
qed

section \<open>Properties of the routing token\<close>

lemma unat_word_of_nat_ascii: "c < 128 \<Longrightarrow> unat (word_of_nat c :: byte) = c"
  by (simp add: unat_of_nat)

lemma decode_word_ascii:
  "list_all (\<lambda>c. c < 128) s \<Longrightarrow> utf8_decode_ignore (map word_of_nat s) = s"
  using utf8_encode_ascii utf8_decode_ignore_encode by blast

lemma printable_not_space: "33 \<le> c \<Longrightarrow> c < 127 \<Longrightarrow> \<not> py_isspace c"
  by (auto simp: py_isspace_def py_spaces_def)

text \<open>
  A routing cookie is found and returned as it was sent: when the first packet carries
  \<^verbatim>\<open>Cookie: msts=\<close>, a value of printable ASCII characters and a line end, after a header without the
  letter C, the extracted token is exactly that value, whatever follows.
\<close>

lemma cookie_token_extracted:
  assumes "67 \<notin> set pre" and "tok \<noteq> []" and "list_all (\<lambda>c. 33 \<le> c \<and> c < 127) tok"
  shows "extract_cookie_token (pre @ blit ''Cookie: msts='' @ map word_of_nat tok @ [13, 10] @ rest) = Inr tok"
proof -
  let ?m = "blit ''Cookie: msts=''" and ?t = "map word_of_nat tok :: bytes"
  let ?p = "pre @ ?m @ ?t @ [13, 10] @ rest"
  have m: "?m = 67 # drop 1 ?m" by (simp add: lit_eval)
  have f1: "py_find ?m ?p = Some (length pre)"
    using py_find_hd_notin [OF assms(1), of "drop 1 ?m" "?t @ [13, 10] @ rest"]
    by (simp only: m [symmetric])
  have "(13 :: byte) \<noteq> word_of_nat c" if "c \<in> set tok" for c
    using assms(3) that unat_word_of_nat_ascii [of c] by (auto simp: list_all_iff)
  then have "(13 :: byte) \<notin> set ?t" by auto
  from py_find_hd_notin [OF this, of "[10]" rest]
  have f2: "py_find_from crlf ?p (length pre + length ?m) = Some (length pre + length ?m + length tok)"
    by (simp add: py_find_from_def crlf_def)
  have dec: "utf8_decode_ignore ?t = tok"
    using assms(3) by (intro decode_word_ascii) (auto simp: list_all_iff)
  have "strip tok = tok"
    using assms(3) printable_not_space by (intro strip_no_space) (auto simp: list_all_iff)
  moreover have "slice ?p (length pre + length ?m) (length pre + length ?m + length tok) = ?t"
    by (simp add: slice_def)
  ultimately have "first_cookie cookie_markers ?p = Some tok"
    using f1 f2 dec assms(2) by (simp add: cookie_markers_def Let_def)
  then show ?thesis by (simp add: extract_cookie_token_def)
qed

lemma cookie_token_extracted_witness:
  "extract_cookie_token ([0x20, 0xe0, 0, 0, 0, 0, 0] @ blit ''Cookie: msts='' @ map word_of_nat (lit ''abc_1'')
     @ [13, 10] @ [1, 0, 8, 0, 3, 0, 0, 0]) = Inr (lit ''abc_1'')"
  by (rule cookie_token_extracted) (simp_all add: lit_eval)

lemma successively_infix: "successively P (a @ m @ b) \<Longrightarrow> successively P m"
  by (simp add: successively_append_iff)

lemma no_marker_no_cookie:
  assumes "successively (\<lambda>a b. \<not> (a = 58 \<and> b = 32)) p"
  shows "first_cookie cookie_markers p = None"
proof -
  have none: "py_find m p = None" if "\<not> successively (\<lambda>a b. \<not> (a = 58 \<and> b = 32)) m" for m
  proof (rule ccontr)
    assume "py_find m p \<noteq> None"
    then obtain i where "starts_with m (drop i p)"
      using py_find_SomeD by blast
    then have "p = take i p @ m @ drop (length m) (drop i p)"
      by (metis append_take_drop_id starts_withE)
    then show False using assms successively_infix that by metis
  qed
  show ?thesis
    by (simp add: cookie_markers_def none lit_eval)
qed

lemma token_char_simps:
  "token_char b \<Longrightarrow> b \<noteq> 58 \<and> b \<noteq> 32 \<and> unat b < 128"
  by (auto simp: token_char_def)

text \<open>The first packet of a client that sends the token as routing data, as it does for the
  \<^verbatim>\<open>loadbalanceinfo\<close> line of the .rdp file: the X.224 header, the token, a line end and the
  negotiation request with one byte of protocol flags.\<close>

definition routing_cr :: "byte \<Rightarrow> bytes \<Rightarrow> byte \<Rightarrow> bytes" where
  "routing_cr li tok flags =
     [li, 0xe0, 0, 0, 0, 0, 0] @ tok @ [13, 10] @ [1, 0, 8, 0] @ [flags, 0, 0, 0]"

lemma routing_cr_adjacent:
  "list_all token_char tok \<Longrightarrow> successively (\<lambda>a b. \<not> (a = 58 \<and> b = 32)) (routing_cr li tok flags)"
proof -
  assume "list_all token_char tok"
  then have "\<forall>b \<in> set tok. b \<noteq> 58 \<and> b \<noteq> 32"
    using token_char_simps by (auto simp: list_all_iff)
  then have "successively (\<lambda>a b. \<not> (a = 58 \<and> b = 32)) tok"
    by (induction tok rule: induct_list012) auto
  then have "successively (\<lambda>a b. \<not> (a = 58 \<and> b = 32)) ([0] @ tok @ [13, 10, 1, 0, 8, 0, flags, 0, 0, 0])"
    by (auto simp only: successively_append_iff) simp_all
  then show ?thesis
    by (simp add: routing_cr_def)
qed

lemma runs_routing_cr:
  assumes "list_all token_char tok" and "20 \<le> length tok"
  shows "filter (\<lambda>r. 20 \<le> length r) (runs token_char (routing_cr li tok flags)) = [tok]"
proof -
  have nt: "\<not> token_char 0" "\<not> token_char 0xe0" "\<not> token_char 13" "\<not> token_char 10" "\<not> token_char 1"
    "\<not> token_char 8"
    by (simp_all add: token_char_def)
  have short: "filter (\<lambda>r. 20 \<le> length r) (runs token_char (b # c # s))
      = filter (\<lambda>r. 20 \<le> length r) (runs token_char s)" if "\<not> token_char c" for b c s
  proof (cases "token_char b")
    case True
    then have "runs token_char ([b] @ c # s) = [b] # runs token_char (c # s)"
      using that by (intro runs_run) simp_all
    then show ?thesis by (simp add: runs_skip that)
  next
    case False
    then show ?thesis by (simp add: runs_skip that)
  qed
  have "tok \<noteq> []" using assms(2) by auto
  then have "runs token_char (tok @ 13 # s) = tok # runs token_char (13 # s)" for s
    using assms(1) nt by (intro runs_run) simp_all
  then show ?thesis
    using assms(2) nt by (simp add: routing_cr_def short runs_skip)
qed

text \<open>
  A token that the client sends as bare routing data is accepted if and only if it contains a
  hyphen or an underscore, or has at least 32 characters with both a digit and a letter among them;
  every other token of at least 20 token characters is refused with \<^verbatim>\<open>ValueError\<close>. In particular
  a token of letters only, which \<^verbatim>\<open>secrets.token_urlsafe(32)\<close> can return, is refused.
\<close>

lemma routing_token_accepted:
  assumes "list_all token_char tok" and "20 \<le> length tok"
  shows "extract_cookie_token (routing_cr li tok flags) =
     (if accept_candidate (map unat tok) then Inr (map unat tok) else Inl ValueError)"
proof -
  have "list_all (\<lambda>b. unat b < 128) tok"
    using assms(1) token_char_simps by (auto simp: list_all_iff)
  then have "utf8_decode_ignore tok = map unat tok"
    by (rule utf8_decode_ignore_ascii)
  moreover have "first_cookie cookie_markers (routing_cr li tok flags) = None"
    using assms(1) by (intro no_marker_no_cookie routing_cr_adjacent)
  ultimately show ?thesis
    using runs_routing_cr [OF assms] by (simp add: extract_cookie_token_def)
qed

lemma routing_token_accepted_witness:
  "extract_cookie_token (routing_cr 59 (blit ''abcdefghijklmnopqrstuvwxyzABCDEFGHIJKLMNOPQ'') 3) = Inl ValueError
   \<and> extract_cookie_token (routing_cr 59 (blit ''abcdefghijklmnopqrstuvwxyzABCDEFGHIJKLMNOP_'') 3)
       = Inr (lit ''abcdefghijklmnopqrstuvwxyzABCDEFGHIJKLMNOP_'')"
proof
  let ?a = "blit ''abcdefghijklmnopqrstuvwxyzABCDEFGHIJKLMNOPQ''"
  let ?b = "blit ''abcdefghijklmnopqrstuvwxyzABCDEFGHIJKLMNOP_''"
  have "list_all token_char ?a" "20 \<le> length ?a" "\<not> accept_candidate (map unat ?a)"
    by (simp_all add: lit_eval token_char_def accept_candidate_def ascii_isdigit_def)
  then show "extract_cookie_token (routing_cr 59 ?a 3) = Inl ValueError"
    using routing_token_accepted [of ?a 59 3] by simp
  have "list_all token_char ?b" "20 \<le> length ?b" "accept_candidate (map unat ?b)"
    "map unat ?b = lit ''abcdefghijklmnopqrstuvwxyzABCDEFGHIJKLMNOP_''"
    by (simp_all add: lit_eval token_char_def accept_candidate_def)
  then show "extract_cookie_token (routing_cr 59 ?b 3) = Inr (lit ''abcdefghijklmnopqrstuvwxyzABCDEFGHIJKLMNOP_'')"
    using routing_token_accepted [of ?b 59 3] by simp
qed

end
