(* ===== verification/Mcs.thy ===== *)
theory Mcs
  imports Tpkt_X224
begin

text \<open>
  MCS patching (\<^verbatim>\<open>src/libs/rdp/mcs.py\<close>): the scan of a packet for the client core block
  \<^verbatim>\<open>TS_UD_CS_CORE\<close> or the server core block \<^verbatim>\<open>TS_UD_SC_CORE\<close> and the in-place rewrite of one
  32-bit field. Every \<^verbatim>\<open>struct\<close> access can raise in the model. The theorems give each scan as a
  closed formula over the first block that qualifies, from which follow that no access is ever out
  of bounds, that the length is kept, and that patching twice is patching once.
\<close>

definition TS_UD_CS_CORE :: nat where
  "TS_UD_CS_CORE = 0xC001"

definition TS_UD_SC_CORE :: nat where
  "TS_UD_SC_CORE = 0x0C01"

section \<open>The code\<close>

text \<open>The loop over the sizes of the optional fields: the position after them, unless one of them
  does not fit before the end of the block.\<close>

fun skip_fields :: "nat \<Rightarrow> nat \<Rightarrow> nat list \<Rightarrow> nat option" where
  "skip_fields pos core_payload_end [] = Some pos"
| "skip_fields pos core_payload_end (sz # sizes) =
     (if pos + sz > core_payload_end then None
      else skip_fields (pos + sz) core_payload_end sizes)"

definition patch_cs_core_server_selected_protocol :: "bytes \<Rightarrow> nat \<Rightarrow> nat \<Rightarrow> (nat option \<times> bytes) result" where
  "patch_cs_core_server_selected_protocol packet core_payload_off core_block_len =
     (let core_payload_end = core_payload_off + (core_block_len - 4) in
      if core_payload_end > length packet then Inr (None, packet)
      else let pos = core_payload_off + 128 in
      if pos > core_payload_end then Inr (None, packet)
      else case skip_fields pos core_payload_end [2, 2, 4, 2, 2, 2, 64, 1, 1] of
        None \<Rightarrow> Inr (None, packet)
      | Some pos \<Rightarrow>
          if pos + 4 > core_payload_end then Inr (None, packet)
          else bind_result (unpack_le32 packet pos) (\<lambda>current.
            if current = 0x00000001
            then bind_result (pack_into_le32 packet pos 0x00000002) (\<lambda>packet'. Inr (Some pos, packet'))
            else Inr (Some pos, packet)))"

fun patch_mcs_client_loop :: "bytes \<Rightarrow> nat list \<Rightarrow> bytes result" where
  "patch_mcs_client_loop packet [] = Inr packet"
| "patch_mcs_client_loop packet (i # is) =
     bind_result (unpack_le16 packet i) (\<lambda>block_type.
       if block_type \<noteq> TS_UD_CS_CORE then patch_mcs_client_loop packet is
       else bind_result (unpack_le16 packet (i + 2)) (\<lambda>block_len.
         if block_len < 132 \<or> i + block_len > length packet then patch_mcs_client_loop packet is
         else case patch_cs_core_server_selected_protocol packet (i + 4) block_len of
                Inl e \<Rightarrow> Inl e
              | Inr (None, packet') \<Rightarrow> patch_mcs_client_loop packet' is
              | Inr (Some _, packet') \<Rightarrow> Inr packet'))"

definition patch_mcs_client :: "bytes \<Rightarrow> bytes result" where
  "patch_mcs_client data = patch_mcs_client_loop data [0..<length data - 3]"

fun patch_mcs_server_loop :: "nat option \<Rightarrow> bytes \<Rightarrow> nat list \<Rightarrow> bytes result" where
  "patch_mcs_server_loop client_requested_protocols packet [] = Inr packet"
| "patch_mcs_server_loop client_requested_protocols packet (i # is) =
     bind_result (unpack_le16 packet i) (\<lambda>block_type.
       if block_type \<noteq> TS_UD_SC_CORE then patch_mcs_server_loop client_requested_protocols packet is
       else bind_result (unpack_le16 packet (i + 2)) (\<lambda>block_len.
         if block_len < 12 \<or> i + block_len > length packet
         then patch_mcs_server_loop client_requested_protocols packet is
         else let off = i + 8 in
           bind_result (unpack_le32 packet off) (\<lambda>current.
             let target = (case client_requested_protocols of Some v \<Rightarrow> v | None \<Rightarrow> PROTOCOL_SSL)
             in if current \<noteq> target then pack_into_le32 packet off target else Inr packet)))"

definition patch_mcs_server :: "bytes \<Rightarrow> nat option \<Rightarrow> bytes result" where
  "patch_mcs_server data client_requested_protocols =
     patch_mcs_server_loop client_requested_protocols data [0..<length data - 3]"

section \<open>Specification\<close>

text \<open>The field at a position, the packet with the field replaced, and the blocks the two scans
  look for. The server-selected protocol lies 212 bytes after the start of the client core block,
  the client-requested protocols 8 bytes after the start of the server core block.\<close>

definition le16_at :: "bytes \<Rightarrow> nat \<Rightarrow> nat" where
  "le16_at p i = le_nat (slice p i (i + 2))"

definition le32_at :: "bytes \<Rightarrow> nat \<Rightarrow> nat" where
  "le32_at p i = le_nat (slice p i (i + 4))"

definition set_le32 :: "bytes \<Rightarrow> nat \<Rightarrow> nat \<Rightarrow> bytes" where
  "set_le32 p i v = take i p @ le_bytes 4 v @ drop (i + 4) p"

definition block_at :: "nat \<Rightarrow> nat \<Rightarrow> bytes \<Rightarrow> nat \<Rightarrow> bool" where
  "block_at type min_len p i \<longleftrightarrow>
     le16_at p i = type \<and> min_len \<le> le16_at p (i + 2) \<and> i + le16_at p (i + 2) \<le> length p"

definition first_block :: "nat \<Rightarrow> nat \<Rightarrow> bytes \<Rightarrow> nat option" where
  "first_block type min_len p = find (block_at type min_len p) [0..<length p - 3]"

definition mcs_client_spec :: "bytes \<Rightarrow> bytes" where
  "mcs_client_spec p =
     (case first_block TS_UD_CS_CORE 216 p of
        None \<Rightarrow> p
      | Some i \<Rightarrow> if le32_at p (i + 212) = 1 then set_le32 p (i + 212) 2 else p)"

definition mcs_server_spec :: "nat \<Rightarrow> bytes \<Rightarrow> bytes" where
  "mcs_server_spec target p =
     (case first_block TS_UD_SC_CORE 12 p of
        None \<Rightarrow> p
      | Some i \<Rightarrow> set_le32 p (i + 8) target)"

lemma skip_fields_sum:
  "pos \<le> e \<Longrightarrow>
     skip_fields pos e sizes = (if pos + sum_list sizes \<le> e then Some (pos + sum_list sizes) else None)"
  by (induction sizes arbitrary: pos) (auto simp: add.assoc)

lemma patch_cs_core_spec:
  assumes "off + (bl - 4) \<le> length p" and "132 \<le> bl"
  shows "patch_cs_core_server_selected_protocol p off bl =
    (if bl < 216 then Inr (None, p)
     else Inr (Some (off + 208), if le32_at p (off + 208) = 1 then set_le32 p (off + 208) 2 else p))"
proof -
  let ?e = "off + (bl - 4)"
  have sk: "skip_fields (off + 128) ?e [2, 2, 4, 2, 2, 2, 64, 1, 1]
      = (if off + 208 \<le> ?e then Some (off + 208) else None)"
    using assms by (subst skip_fields_sum) simp_all
  have e: "\<not> length p < ?e" "\<not> ?e < off + 128"
    using assms by auto
  show ?thesis
  proof (cases "bl < 216")
    case True
    then have "off + 208 \<le> ?e \<Longrightarrow> ?e < off + 208 + 4" by auto
    with True e sk show ?thesis
      by (simp only: patch_cs_core_server_selected_protocol_def Let_def if_False if_True)
         (auto split: if_splits)
  next
    case False
    then have f: "off + 208 \<le> ?e" "\<not> ?e < off + 208 + 4" "off + 208 + 4 \<le> length p"
      using assms by auto
    with sk have "skip_fields (off + 128) ?e [2, 2, 4, 2, 2, 2, 64, 1, 1] = Some (off + 208)"
      by (simp only: if_True)
    moreover have "unpack_le32 p (off + 208) = Inr (le32_at p (off + 208))"
      "pack_into_le32 p (off + 208) 2 = Inr (set_le32 p (off + 208) 2)"
      using f(3) by (simp_all add: unpack_le32_def le32_at_def pack_into_le32_def set_le32_def)
    ultimately show ?thesis
      using False e f
      by (simp only: patch_cs_core_server_selected_protocol_def Let_def if_False option.case
          bind_result_simps) (simp split: if_splits)
  qed
qed

lemma unpack_le16_at: "i + 2 \<le> length p \<Longrightarrow> unpack_le16 p i = Inr (le16_at p i)"
  by (simp add: unpack_le16_def le16_at_def)

lemma client_loop_spec:
  assumes "\<forall>i \<in> set is. i + 4 \<le> length p"
  shows "patch_mcs_client_loop p is = Inr (case find (block_at TS_UD_CS_CORE 216 p) is of
     None \<Rightarrow> p | Some i \<Rightarrow> if le32_at p (i + 212) = 1 then set_le32 p (i + 212) 2 else p)"
  using assms
proof (induction "is")
  case (Cons i "is")
  have u: "unpack_le16 p i = Inr (le16_at p i)" "unpack_le16 p (i + 2) = Inr (le16_at p (i + 2))"
    using Cons.prems by (simp_all add: unpack_le16_at)
  have IH: "patch_mcs_client_loop p is = Inr (case find (block_at TS_UD_CS_CORE 216 p) is of
     None \<Rightarrow> p | Some i \<Rightarrow> if le32_at p (i + 212) = 1 then set_le32 p (i + 212) 2 else p)"
    using Cons by simp
  show ?case
  proof (cases "le16_at p i = TS_UD_CS_CORE \<and> 132 \<le> le16_at p (i + 2) \<and> i + le16_at p (i + 2) \<le> length p")
    case True
    then have "patch_cs_core_server_selected_protocol p (i + 4) (le16_at p (i + 2)) =
      (if le16_at p (i + 2) < 216 then Inr (None, p)
       else Inr (Some (i + 4 + 208),
          if le32_at p (i + 4 + 208) = 1 then set_le32 p (i + 4 + 208) 2 else p))"
      by (intro patch_cs_core_spec) auto
    with True u have "patch_mcs_client_loop p (i # is) =
        (if le16_at p (i + 2) < 216 then patch_mcs_client_loop p is
         else Inr (if le32_at p (i + 212) = 1 then set_le32 p (i + 212) 2 else p))"
      by (simp add: add.assoc)
    moreover have "block_at TS_UD_CS_CORE 216 p i \<longleftrightarrow> \<not> le16_at p (i + 2) < 216"
      using True by (auto simp: block_at_def)
    ultimately show ?thesis using IH by simp
  next
    case False
    then have "\<not> block_at TS_UD_CS_CORE 216 p i" by (auto simp: block_at_def)
    moreover have "patch_mcs_client_loop p (i # is) = patch_mcs_client_loop p is"
      using False u by auto
    ultimately show ?thesis using IH by simp
  qed
qed simp

lemma patch_mcs_client_spec: "patch_mcs_client p = Inr (mcs_client_spec p)"
  unfolding patch_mcs_client_def mcs_client_spec_def first_block_def
  by (rule client_loop_spec) auto

lemma le32_at_less: "i + 4 \<le> length p \<Longrightarrow> le32_at p i < 4294967296"
  unfolding le32_at_def by (rule le32_less) (simp add: length_slice)

lemma set_le32_same: "i + 4 \<le> length p \<Longrightarrow> set_le32 p i (le32_at p i) = p"
proof -
  assume "i + 4 \<le> length p"
  then have "length (slice p i (i + 4)) = 4" by (simp add: length_slice)
  then have "le_bytes 4 (le32_at p i) = slice p i (i + 4)"
    using le_bytes_le_nat [of "slice p i (i + 4)"] by (simp add: le32_at_def)
  then show ?thesis
    by (simp add: set_le32_def slice_def) (metis add.commute append_take_drop_id drop_drop)
qed

lemma server_loop_spec:
  assumes "\<forall>i \<in> set is. i + 4 \<le> length p" and "t < 4294967296"
  shows "patch_mcs_server_loop (Some t) p is = Inr (case find (block_at TS_UD_SC_CORE 12 p) is of
     None \<Rightarrow> p | Some i \<Rightarrow> set_le32 p (i + 8) t)"
  using assms(1)
proof (induction "is")
  case (Cons i "is")
  have u: "unpack_le16 p i = Inr (le16_at p i)" "unpack_le16 p (i + 2) = Inr (le16_at p (i + 2))"
    using Cons.prems by (simp_all add: unpack_le16_at)
  show ?case
  proof (cases "block_at TS_UD_SC_CORE 12 p i")
    case True
    then have b: "i + 8 + 4 \<le> length p" by (auto simp: block_at_def)
    then have "unpack_le32 p (i + 8) = Inr (le32_at p (i + 8))"
      "pack_into_le32 p (i + 8) t = Inr (set_le32 p (i + 8) t)"
      using assms(2) by (simp_all add: unpack_le32_def le32_at_def pack_into_le32_def set_le32_def)
    with True u set_le32_same [OF b] show ?thesis by (auto simp: block_at_def Let_def)
  next
    case False
    then have "patch_mcs_server_loop (Some t) p (i # is) = patch_mcs_server_loop (Some t) p is"
      using u by (auto simp: block_at_def)
    with False Cons show ?thesis by simp
  qed
qed simp

lemma server_loop_None:
  "patch_mcs_server_loop None p is = patch_mcs_server_loop (Some PROTOCOL_SSL) p is"
  by (induction "is") (simp_all cong: if_cong)

lemma patch_mcs_server_spec:
  "t < 4294967296 \<Longrightarrow> patch_mcs_server p (Some t) = Inr (mcs_server_spec t p)"
  unfolding patch_mcs_server_def mcs_server_spec_def first_block_def
  by (rule server_loop_spec) auto

lemma patch_mcs_server_default: "patch_mcs_server p None = Inr (mcs_server_spec 1 p)"
  using patch_mcs_server_spec [of 1 p]
  by (simp add: patch_mcs_server_def server_loop_None PROTOCOL_SSL_def)

section \<open>Properties\<close>

lemma first_block_Some:
  "first_block ty m p = Some i \<longleftrightarrow>
     i < length p - 3 \<and> block_at ty m p i \<and> (\<forall>j < i. \<not> block_at ty m p j)"
  by (auto simp: first_block_def find_Some_iff)

lemma length_set_le32: "i + 4 \<le> length p \<Longrightarrow> length (set_le32 p i v) = length p"
  by (simp add: set_le32_def)

lemma slice_drop_take: "i \<le> j \<Longrightarrow> slice xs i j = drop i (take j xs)"
  by (simp add: slice_def drop_take)

lemma le16_at_set_le32: "k + 2 \<le> i \<Longrightarrow> i + 4 \<le> length p \<Longrightarrow> le16_at (set_le32 p i v) k = le16_at p k"
proof -
  assume "k + 2 \<le> i" "i + 4 \<le> length p"
  then have "take (k + 2) (set_le32 p i v) = take (k + 2) p"
    by (simp add: set_le32_def min_absorb1)
  then show ?thesis by (simp only: le16_at_def slice_drop_take [of k "k + 2"] le_add1)
qed

lemma le32_at_set_le32: "i + 4 \<le> length p \<Longrightarrow> v < 4294967296 \<Longrightarrow> le32_at (set_le32 p i v) i = v"
  by (simp add: le32_at_def set_le32_def slice_def codec)

lemma first_block_set_le32:
  assumes "first_block ty m p = Some i" and "4 \<le> d" and "i + d + 4 \<le> length p"
  shows "first_block ty m (set_le32 p (i + d) v) = Some i"
proof -
  have "block_at ty m (set_le32 p (i + d) v) j = block_at ty m p j" if "j \<le> i" for j
    using assms(2,3) that by (simp add: block_at_def le16_at_set_le32 length_set_le32)
  with assms show ?thesis by (simp add: first_block_Some length_set_le32)
qed

text \<open>
  C24: Patching the MCS Connect-Initial of a client always succeeds, on every byte string: no access
  is out of bounds, and the result is given by the first complete \<^verbatim>\<open>TS_UD_CS_CORE\<close> block of at
  least 216 bytes. If there is one and its server-selected protocol is SSL, that one 32-bit field
  becomes HYBRID; in all other cases the packet is unchanged.
\<close>

theorem patch_mcs_client_correct:
  "patch_mcs_client p = Inr
     (case first_block TS_UD_CS_CORE 216 p of
        None \<Rightarrow> p
      | Some i \<Rightarrow> if le32_at p (i + 212) = PROTOCOL_SSL then set_le32 p (i + 212) PROTOCOL_HYBRID else p)"
  unfolding patch_mcs_client_spec mcs_client_spec_def PROTOCOL_SSL_def PROTOCOL_HYBRID_def by simp

text \<open>
  Patching a server packet with the client's requested protocols keeps its length, and if the
  packet has a complete \<^verbatim>\<open>TS_UD_SC_CORE\<close> block then the field that the client will compare with
  its own request holds exactly what the client requested, while the block is still the first one.
\<close>

lemma patch_mcs_server_restores_request:
  assumes "first_block TS_UD_SC_CORE 12 p = Some i" and "t < 4294967296"
  shows "\<exists>q. patch_mcs_server p (Some t) = Inr q \<and> length q = length p
     \<and> first_block TS_UD_SC_CORE 12 q = Some i \<and> le32_at q (i + 8) = t"
proof -
  have b: "i + 8 + 4 \<le> length p"
    using assms(1) by (auto simp: first_block_Some block_at_def)
  have "patch_mcs_server p (Some t) = Inr (set_le32 p (i + 8) t)"
    using assms by (simp add: patch_mcs_server_spec mcs_server_spec_def)
  moreover have "first_block TS_UD_SC_CORE 12 (set_le32 p (i + 8) t) = Some i"
    using b assms(1) by (intro first_block_set_le32) simp_all
  ultimately show ?thesis
    using b assms(2) by (simp add: length_set_le32 le32_at_set_le32)
qed

lemma patch_mcs_server_restores_request_witness:
  "\<exists>q. patch_mcs_server [0x01, 0x0C, 12, 0, 4, 0, 8, 0, 1, 0, 0, 0] (Some 3) = Inr q \<and> length q = 12
     \<and> first_block TS_UD_SC_CORE 12 q = Some 0 \<and> le32_at q 8 = 3"
proof -
  have "first_block TS_UD_SC_CORE 12 [0x01, 0x0C, 12, 0, 4, 0, 8, 0, 1, 0, 0, 0] = Some 0"
    by (simp add: first_block_def block_at_def le16_at_def slice_def TS_UD_SC_CORE_def upt_rec)
  moreover have "length [0x01, 0x0C, 12, 0, 4, 0, 8, 0, 1, 0, 0, 0 :: byte] = 12" by simp
  ultimately show ?thesis
    using patch_mcs_server_restores_request [of "[0x01, 0x0C, 12, 0, 4, 0, 8, 0, 1, 0, 0, 0]" 0 3]
    by (simp only: add_0)
qed

text \<open>
  Patching a client packet keeps its length, and patching the result again changes nothing: the
  rewrite does not create or hide a core block.
\<close>

lemma patch_mcs_client_idempotent:
  assumes "patch_mcs_client p = Inr q"
  shows "length q = length p \<and> patch_mcs_client q = Inr q"
proof -
  have q: "q = mcs_client_spec p" using assms by (simp add: patch_mcs_client_spec)
  show ?thesis
  proof (cases "first_block TS_UD_CS_CORE 216 p")
    case None
    with q show ?thesis by (simp add: patch_mcs_client_spec mcs_client_spec_def)
  next
    case (Some i)
    then have b: "i + 212 + 4 \<le> length p"
      by (auto simp: first_block_Some block_at_def)
    then have "first_block TS_UD_CS_CORE 216 (set_le32 p (i + 212) 2) = Some i"
      using Some by (intro first_block_set_le32) simp_all
    moreover have "le32_at (set_le32 p (i + 212) 2) (i + 212) = 2"
      using b by (simp add: le32_at_set_le32)
    ultimately show ?thesis
      using q Some b by (simp add: patch_mcs_client_spec mcs_client_spec_def length_set_le32)
  qed
qed

lemma patch_mcs_client_idempotent_witness:
  "length [0x01, 0xC0, 0 :: byte] = length [0x01, 0xC0, 0 :: byte]
     \<and> patch_mcs_client [0x01, 0xC0, 0] = Inr [0x01, 0xC0, 0]"
  by (rule patch_mcs_client_idempotent) (simp add: patch_mcs_client_def)

lemma length_patch_mcs_client: "patch_mcs_client p = Inr q \<Longrightarrow> length q = length p"
  by (auto simp: patch_mcs_client_spec mcs_client_spec_def first_block_Some block_at_def
      length_set_le32 split: option.splits)

lemma length_server_loop: "patch_mcs_server_loop o1 p is = Inr q \<Longrightarrow> length q = length p"
  by (induction o1 p "is" rule: patch_mcs_server_loop.induct)
    (auto simp: bind_result_Inr Let_def dest: length_pack_into_le32 split: if_splits)

lemma length_patch_mcs_server: "patch_mcs_server p o1 = Inr q \<Longrightarrow> length q = length p"
  by (auto simp: patch_mcs_server_def dest: length_server_loop)

end
