(* ===== verification/Proxy_Protocol.thy ===== *)
theory Proxy_Protocol
  imports Utf_Codec
begin

text \<open>
  The PROXY protocol reader (\<^verbatim>\<open>src/libs/proxy_protocol/parser.py\<close>), versions 1 and 2, over a byte
  stream. IPv6 addresses are printed as \<^verbatim>\<open>ipaddress.IPv6Address\<close> prints them. The theorems show
  that headers in the form the specification of the protocol prescribes are parsed to the addresses
  and ports they carry, with the stream left at the first byte of the payload, and that the reader
  consumes a bounded prefix of the stream, also when it raises.
\<close>

definition PP_V2_SIGNATURE :: bytes where
  "PP_V2_SIGNATURE = [13, 10, 13, 10, 0, 13, 10, 81, 85, 73, 84, 10]"

definition PP_V1_PREFIX :: bytes where
  "PP_V1_PREFIX = blit ''PROXY ''"

record ProxyInfo =
  src_addr :: ustr
  src_port :: int
  dst_addr :: ustr
  dst_port :: int
  version :: nat

section \<open>Addresses\<close>

definition dotted :: "bytes \<Rightarrow> ustr" where
  "dotted bs = join (lit ''.'') (map (\<lambda>b. nat_str (unat b)) bs)"

fun hex_str :: "nat \<Rightarrow> ustr" where
  "hex_str n = (if n < 16 then [hex_char n] else hex_str (n div 16) @ [hex_char (n mod 16)])"

declare hex_str.simps [simp del]

fun hextets :: "bytes \<Rightarrow> nat list" where
  "hextets (a # b # bs) = be_nat [a, b] # hextets bs"
| "hextets bs = []"

text \<open>The longest run of zero groups, the first one among the longest: its start and length.\<close>

fun best_zero_run :: "nat list \<Rightarrow> nat \<Rightarrow> nat option \<times> nat \<Rightarrow> nat \<times> nat \<Rightarrow> nat \<times> nat" where
  "best_zero_run [] index (start, len) (best_start, best_len) = (best_start, best_len)"
| "best_zero_run (h # hs) index (start, len) (best_start, best_len) =
     (if h = 0 then
        let len' = len + 1; start' = (case start of None \<Rightarrow> index | Some s \<Rightarrow> s)
        in best_zero_run hs (index + 1) (Some start', len')
             (if len' > best_len then (start', len') else (best_start, best_len))
      else best_zero_run hs (index + 1) (None, 0) (best_start, best_len))"

definition ipv6_str :: "bytes \<Rightarrow> ustr" where
  "ipv6_str bs =
     (let hs = hextets bs; gs = map hex_str hs; (s, l) = best_zero_run hs 0 (None, 0) (0, 0) in
      if l > 1 then
        let gs1 = (if s + l = length gs then gs @ [[]] else gs);
            gs2 = take s gs1 @ [[]] @ drop (s + l) gs1;
            gs3 = (if s = 0 then [] # gs2 else gs2)
        in join (lit '':'') gs3
      else join (lit '':'') gs)"

section \<open>The parser\<close>

text \<open>What the version 2 parser makes of the version and command byte, the address family byte and
  the address block.\<close>

definition v2_info :: "nat \<Rightarrow> nat \<Rightarrow> bytes \<Rightarrow> ProxyInfo result" where
  "v2_info ver_cmd family addr_data =
     (let ver = ver_cmd div 16; cmd = ver_cmd mod 16 in
      if ver \<noteq> 2 then Inl ValueError
      else if cmd = 0 then
        Inr \<lparr>src_addr = lit ''local'', src_port = 0, dst_addr = lit ''local'', dst_port = 0, version = 2\<rparr>
      else let af = family div 16 in
        if af = 1 then
          (if length addr_data < 12 then Inl ValueError
           else Inr \<lparr>src_addr = dotted (slice addr_data 0 4),
                     src_port = int (be_nat (slice addr_data 8 10)),
                     dst_addr = dotted (slice addr_data 4 8),
                     dst_port = int (be_nat (slice addr_data 10 12)), version = 2\<rparr>)
        else if af = 2 then
          (if length addr_data < 36 then Inl ValueError
           else Inr \<lparr>src_addr = ipv6_str (slice addr_data 0 16),
                     src_port = int (be_nat (slice addr_data 32 34)),
                     dst_addr = ipv6_str (slice addr_data 16 32),
                     dst_port = int (be_nat (slice addr_data 34 36)), version = 2\<rparr>)
        else Inl ValueError)"

definition parse_v2 :: "bytes \<Rightarrow> ProxyInfo rd" where
  "parse_v2 initial =
     rbind (readexactly 3) (\<lambda>more.
       let header = initial @ more;
           ver_cmd = unat (header ! 12);
           family = unat (header ! 13);
           addr_len = be_nat (slice header 14 16)
       in rbind (if addr_len > 0 then readexactly (int addr_len) else rreturn [])
            (\<lambda>addr_data. rlift (v2_info ver_cmd family addr_data)))"

text \<open>The loop of the version 1 parser: one byte at a time until the line end is in the buffer.
  \<open>readexactly 1\<close> on an empty stream raises.\<close>

fun fill_line :: "bytes \<Rightarrow> bytes \<Rightarrow> bytes result \<times> bytes" where
  "fill_line buf s =
     (if py_contains [13, 10] buf then (Inr buf, s)
      else case s of
        [] \<Rightarrow> (Inl IncompleteReadError, [])
      | chunk # s' \<Rightarrow>
          if length (buf @ [chunk]) > 512 then (Inl ValueError, s')
          else fill_line (buf @ [chunk]) s')"

declare fill_line.simps [simp del]

definition parse_line :: "bytes \<Rightarrow> ProxyInfo result" where
  "parse_line buf =
     (let line_end = (case py_find [13, 10] buf of Some i \<Rightarrow> i | None \<Rightarrow> 0) in
      bind_result (ascii_decode (take line_end buf)) (\<lambda>line.
        let parts = split_ws line in
        if length parts < 6 then Inl ValueError
        else bind_result (py_int (parts ! 4)) (\<lambda>sport.
          bind_result (py_int (parts ! 5)) (\<lambda>dport.
            Inr \<lparr>src_addr = parts ! 2, src_port = sport, dst_addr = parts ! 3, dst_port = dport,
                 version = 1\<rparr>))))"

definition parse_v1 :: "bytes \<Rightarrow> ProxyInfo rd" where
  "parse_v1 initial = rbind (fill_line initial) (\<lambda>buf. rlift (parse_line buf))"

definition read_proxy_protocol :: "ProxyInfo rd" where
  "read_proxy_protocol =
     rbind (readexactly 13) (\<lambda>peeked.
       if take 12 peeked = PP_V2_SIGNATURE then parse_v2 peeked
       else if take 6 peeked = PP_V1_PREFIX then parse_v1 peeked
       else rraise ValueError)"

section \<open>Properties\<close>

lemma fill_line_bounded: "rd_bounded (1 + (512 - length buf)) (fill_line buf)"
proof (rule rd_boundedI)
  fix s s' :: bytes and r
  show "fill_line buf s = (r, s') \<Longrightarrow> \<exists>c. s = c @ s' \<and> length c \<le> 1 + (512 - length buf)"
  proof (induction buf s arbitrary: r s' rule: fill_line.induct)
    case (1 buf s)
    show ?case
    proof (cases "py_contains [13, 10] buf \<or> s = []")
      case True
      with "1.prems" show ?thesis by (auto simp: fill_line.simps [of buf s] split: if_splits)
    next
      case False
      then obtain ch t where s: "s = ch # t" by (cases s) auto
      show ?thesis
      proof (cases "length (buf @ [ch]) > 512")
        case True
        with "1.prems" s False have "s = [ch] @ s'"
          by (simp add: fill_line.simps [of buf "ch # t"])
        then show ?thesis by (intro exI [of _ "[ch]"]) simp
      next
        case f: False
        with "1.prems" s False have "fill_line (buf @ [ch]) t = (r, s')"
          by (simp add: fill_line.simps [of buf "ch # t"])
        with "1.IH" False s f obtain c where "t = c @ s'" "length c \<le> 1 + (512 - length (buf @ [ch]))"
          by blast
        with s f show ?thesis by (intro exI [of _ "ch # c"]) auto
      qed
    qed
  qed
qed

lemma parse_v2_bounded: "rd_bounded 65538 (parse_v2 initial)"
proof -
  have "rd_bounded (3 + 65535) (parse_v2 initial)"
    unfolding parse_v2_def Let_def
  proof (intro rd_bounded_rbind)
    fix more
    have "be_nat (slice (initial @ more) 14 16) < 256 ^ length (slice (initial @ more) 14 16)"
      by (rule be_nat_less)
    also have "\<dots> \<le> 256 ^ 2"
      by (intro power_increasing) (simp_all add: length_slice)
    finally have "be_nat (slice (initial @ more) 14 16) \<le> 65535" by simp
    then have "rd_bounded 65535 (if 0 < be_nat (slice (initial @ more) 14 16)
        then readexactly (int (be_nat (slice (initial @ more) 14 16))) else rreturn [])"
      by (auto intro: rd_bounded_readexactly)
    then have "rd_bounded (65535 + 0) (rbind (if 0 < be_nat (slice (initial @ more) 14 16)
        then readexactly (int (be_nat (slice (initial @ more) 14 16))) else rreturn [])
        (\<lambda>addr_data. rlift (v2_info (unat ((initial @ more) ! 12)) (unat ((initial @ more) ! 13)) addr_data)))"
      by (intro rd_bounded_rbind) auto
    then show "rd_bounded 65535 (rbind (if 0 < be_nat (slice (initial @ more) 14 16)
        then readexactly (int (be_nat (slice (initial @ more) 14 16))) else rreturn [])
        (\<lambda>addr_data. rlift (v2_info (unat ((initial @ more) ! 12)) (unat ((initial @ more) ! 13)) addr_data)))"
      by simp
  qed (simp add: rd_bounded_readexactly)
  then show ?thesis by simp
qed

lemma parse_v1_bounded: "rd_bounded 513 (parse_v1 initial)"
proof -
  have "rd_bounded ((1 + (512 - length initial)) + 0) (parse_v1 initial)"
    unfolding parse_v1_def by (intro rd_bounded_rbind fill_line_bounded) auto
  then show ?thesis by (rule rd_bounded_mono) simp
qed

text \<open>
  C25: Reading a PROXY header consumes a prefix of the stream of at most 65551 bytes, whether it
  returns or raises; the version 1 loop reads at most 513 bytes however long the line is.
\<close>

theorem read_proxy_protocol_bounded:
  "\<exists>c. s = c @ snd (read_proxy_protocol s) \<and> length c \<le> 65551"
proof -
  have "rd_bounded (13 + 65538) read_proxy_protocol"
    unfolding read_proxy_protocol_def
    by (intro rd_bounded_rbind)
       (auto intro: rd_bounded_readexactly parse_v2_bounded rd_bounded_mono [OF parse_v1_bounded])
  then have "rd_bounded 65551 read_proxy_protocol" by simp
  then show ?thesis by (rule rd_boundedD [OF _ prod.collapse [symmetric]])
qed

lemma read_v2_header:
  assumes "length data < 65536"
  shows "read_proxy_protocol (PP_V2_SIGNATURE @ [vc, fam] @ be_bytes 2 (length data) @ data @ rest)
    = (v2_info (unat vc) (unat fam) data, rest)"
proof -
  obtain h l where be: "be_bytes 2 (length data) = [h, l]"
    by (simp add: be_bytes_2)
  have len: "be_nat [h, l] = length data"
    using be_nat_be_bytes [of "length data" 2] assms be by simp
  have "readexactly 13 (PP_V2_SIGNATURE @ [vc, fam] @ be_bytes 2 (length data) @ data @ rest)
      = (Inr (PP_V2_SIGNATURE @ [vc]), [fam] @ [h, l] @ data @ rest)"
    by (simp add: be readexactly_def PP_V2_SIGNATURE_def)
  moreover have "take 12 (PP_V2_SIGNATURE @ [vc]) = PP_V2_SIGNATURE"
    by (simp add: PP_V2_SIGNATURE_def)
  moreover have "readexactly 3 ([fam] @ [h, l] @ data @ rest) = (Inr [fam, h, l], data @ rest)"
    by (simp add: readexactly_def)
  moreover have "(PP_V2_SIGNATURE @ [vc] @ [fam, h, l]) ! 12 = vc"
    "(PP_V2_SIGNATURE @ [vc] @ [fam, h, l]) ! 13 = fam"
    "slice (PP_V2_SIGNATURE @ [vc] @ [fam, h, l]) 14 16 = [h, l]"
    by (simp_all add: PP_V2_SIGNATURE_def slice_def)
  ultimately show ?thesis
    by (auto simp: read_proxy_protocol_def parse_v2_def rd_simps Let_def len)
qed

text \<open>
  A version 2 header for TCP or UDP over IPv4, as a trusted load balancer sends it, is parsed to
  the source and destination addresses and ports it carries, for every address, port and list of
  extension bytes that fits the 16-bit length, and the stream is left at the first byte after the
  header.
\<close>

lemma pp_v2_inet_roundtrip:
  assumes "length src = 4" and "length dst = 4" and "sport < 65536" and "dport < 65536"
    and "length ext + 12 < 65536" and "unat vc div 16 = 2" and "unat vc mod 16 \<noteq> 0"
    and "unat fam div 16 = 1"
  shows "read_proxy_protocol (PP_V2_SIGNATURE @ [vc, fam] @ be_bytes 2 (length ext + 12)
      @ (src @ dst @ be_bytes 2 sport @ be_bytes 2 dport @ ext) @ rest)
    = (Inr \<lparr>src_addr = dotted src, src_port = int sport, dst_addr = dotted dst,
            dst_port = int dport, version = 2\<rparr>, rest)"
proof -
  let ?data = "src @ dst @ be_bytes 2 sport @ be_bytes 2 dport @ ext"
  have len: "length ?data = length ext + 12" using assms(1,2) by simp
  have "slice ?data 0 4 = src" "slice ?data 4 8 = dst" "slice ?data 8 10 = be_bytes 2 sport"
    "slice ?data 10 12 = be_bytes 2 dport"
    using assms(1,2) by (simp_all add: slice_def)
  then have "v2_info (unat vc) (unat fam) ?data = Inr \<lparr>src_addr = dotted src, src_port = int sport,
      dst_addr = dotted dst, dst_port = int dport, version = 2\<rparr>"
    using assms len by (simp add: v2_info_def Let_def be_nat_be_bytes)
  then show ?thesis
    using read_v2_header [of ?data vc fam rest] assms(5) by (simp only: len)
qed

lemma pp_v2_inet_roundtrip_witness:
  "read_proxy_protocol (PP_V2_SIGNATURE @ [0x21, 0x11] @ be_bytes 2 (length ([] :: bytes) + 12)
      @ ([10, 0, 0, 7] @ [192, 168, 1, 1] @ be_bytes 2 50000 @ be_bytes 2 443 @ []) @ [3, 0])
    = (Inr \<lparr>src_addr = dotted [10, 0, 0, 7], src_port = int 50000, dst_addr = dotted [192, 168, 1, 1],
            dst_port = int 443, version = 2\<rparr>, [3, 0])"
  by (rule pp_v2_inet_roundtrip) simp_all

lemma py_contains_notin: "13 \<notin> set s \<Longrightarrow> \<not> py_contains [13, 10] s"
  "13 \<notin> set s \<Longrightarrow> \<not> py_contains [13, 10] (s @ [13 :: byte])"
proof -
  show "13 \<notin> set s \<Longrightarrow> \<not> py_contains [13, 10] s"
    by (induction s) (auto simp: py_contains_def starts_with_def split: if_splits)
  show "13 \<notin> set s \<Longrightarrow> \<not> py_contains [13, 10] (s @ [13 :: byte])"
    by (induction s) (auto simp: py_contains_def starts_with_def split: if_splits)
qed

lemma fill_line_text:
  assumes "13 \<notin> set (buf @ t)" and "length buf + length t + 2 \<le> 512"
  shows "fill_line buf (t @ [13, 10] @ rest) = (Inr (buf @ t @ [13, 10]), rest)"
  using assms
proof (induction t arbitrary: buf)
  case Nil
  have "py_contains [13, 10] (buf @ [13, 10])"
    using py_find_hd_notin [of 13 buf "[10]" "[]"] Nil by (simp add: py_contains_def)
  then show ?case
    using Nil by (simp add: fill_line.simps [of buf] fill_line.simps [of "buf @ [13]"]
        fill_line.simps [of "buf @ [13, 10]"] py_contains_notin)
next
  case (Cons c t)
  have "fill_line buf ((c # t) @ [13, 10] @ rest) = fill_line (buf @ [c]) (t @ [13, 10] @ rest)"
    using Cons.prems by (simp add: fill_line.simps [of buf] py_contains_notin)
  with Cons show ?case by simp
qed

lemma split_ws_words:
  "list_all (\<lambda>w. w \<noteq> [] \<and> list_all (\<lambda>c. \<not> py_isspace c) w) ws \<Longrightarrow> split_ws (join [32] ws) = ws"
proof (induction "[32 :: nat]" ws rule: join.induct)
  case (2 x)
  then show ?case using runs_run [of "\<lambda>c. \<not> py_isspace c" x "[]"] by (simp add: split_ws_def)
next
  case (3 x y ys)
  have sp: "py_isspace 32" by (simp add: py_isspace_def py_spaces_def)
  have "runs (\<lambda>c. \<not> py_isspace c) (x @ 32 # join [32] (y # ys))
      = x # runs (\<lambda>c. \<not> py_isspace c) (32 # join [32] (y # ys))"
    using "3.prems" sp by (intro runs_run) auto
  with 3 sp show ?case by (simp add: split_ws_def runs_skip)
qed (simp add: split_ws_def)

definition word_ok :: "ustr \<Rightarrow> bool" where
  "word_ok w \<longleftrightarrow> w \<noteq> [] \<and> list_all (\<lambda>c. 33 \<le> c \<and> c < 127) w"

lemma word_ok_int_str: "word_ok (int_str i)"
  using nat_str_digits by (fastforce simp: word_ok_def int_str_def list_all_iff)

lemma text_char_not_space: "33 \<le> c \<Longrightarrow> c < 127 \<Longrightarrow> \<not> py_isspace c"
  by (simp add: py_isspace_def py_spaces_def)

lemma word_ok_split: "list_all word_ok ws \<Longrightarrow> split_ws (join [32] ws) = ws"
  using text_char_not_space by (intro split_ws_words) (fastforce simp: list_all_iff word_ok_def)

lemma word_ok_join: "list_all word_ok ws \<Longrightarrow> list_all (\<lambda>c. 32 \<le> c \<and> c < 127) (join [32] ws)"
proof (induction "[32 :: nat]" ws rule: join.induct)
  case (2 x)
  then show ?case by (auto simp: word_ok_def list_all_iff)
next
  case (3 x y ys)
  then have "list_all (\<lambda>c. 32 \<le> c \<and> c < 127) (join [32] (y # ys))" by simp
  moreover have "list_all (\<lambda>c. 32 \<le> c \<and> c < 127) x"
    using "3.prems" by (auto simp: word_ok_def list_all_iff)
  ultimately show ?case by simp
qed simp

lemma length_join_words:
  "list_all word_ok ws \<Longrightarrow> 2 * length ws \<le> Suc (length (join [32] ws))"
proof (induction "[32 :: nat]" ws rule: join.induct)
  case (2 x)
  then show ?case by (simp add: word_ok_def Suc_le_eq)
next
  case (3 x y ys)
  then have "Suc 0 \<le> length x" by (simp add: word_ok_def Suc_le_eq)
  with 3 show ?case by (simp del: length_greater_0_conv)
qed simp

lemma unat_byte_of_nat: "c < 128 \<Longrightarrow> unat (word_of_nat c :: byte) = c"
  by (simp add: unat_of_nat)

lemma no_cr_in_text:
  assumes "list_all (\<lambda>c. 32 \<le> c \<and> c < 127) s"
  shows "(13 :: byte) \<notin> set (map word_of_nat s)"
proof
  assume "(13 :: byte) \<in> set (map word_of_nat s)"
  then obtain c where c: "c \<in> set s" "(13 :: byte) = word_of_nat c" unfolding set_map by blast
  with assms have r: "32 \<le> c" "c < 127" by (auto simp: list_all_iff)
  have "unat (13 :: byte) = c" unfolding c(2) using r by (intro unat_byte_of_nat) simp
  with r show False by simp
qed

lemma ascii_decode_words:
  "list_all (\<lambda>c. 32 \<le> c \<and> c < 127) s \<Longrightarrow> ascii_decode (map word_of_nat s) = Inr s"
  by (auto simp: ascii_decode_def list_all_iff unat_byte_of_nat o_def intro!: map_idI)

lemma parse_line_words:
  assumes "list_all word_ok [p0, fam, src, dst]"
  shows "parse_line (map word_of_nat (join [32] [p0, fam, src, dst, int_str sp, int_str dp]) @ [13, 10])
    = Inr \<lparr>src_addr = src, src_port = sp, dst_addr = dst, dst_port = dp, version = 1\<rparr>"
proof -
  let ?ws = "[p0, fam, src, dst, int_str sp, int_str dp]"
  have ok: "list_all word_ok ?ws" using assms word_ok_int_str by simp
  note tx = word_ok_join [OF ok]
  from py_find_hd_notin [OF no_cr_in_text [OF tx], of "[10]" "[]"]
  have "py_find [13, 10] (map word_of_nat (join [32] ?ws) @ [13, 10 :: byte]) = Some (length (join [32] ?ws))"
    by simp
  then show ?thesis
    using ascii_decode_words [OF tx] word_ok_split [OF ok]
    by (simp add: parse_line_def Let_def del: join.simps)
qed

text \<open>
  A version 1 header line, with any protocol word, addresses of printable characters and any two
  integers as ports, is parsed to those addresses and ports if the line has at most 512 bytes, and
  the stream is left at the first byte after the line end.
\<close>

lemma pp_v1_roundtrip:
  assumes "word_ok fam" and "word_ok src" and "word_ok dst"
    and "length (join [32] [lit ''PROXY'', fam, src, dst, int_str sp, int_str dp]) \<le> 510"
  shows "read_proxy_protocol
      (map word_of_nat (join [32] [lit ''PROXY'', fam, src, dst, int_str sp, int_str dp]) @ [13, 10] @ rest)
    = (Inr \<lparr>src_addr = src, src_port = sp, dst_addr = dst, dst_port = dp, version = 1\<rparr>, rest)"
proof -
  let ?ws = "[lit ''PROXY'', fam, src, dst, int_str sp, int_str dp]"
  let ?b = "map word_of_nat (join [32] ?ws) :: bytes"
  have p: "word_ok (lit ''PROXY'')" by (simp add: word_ok_def lit_eval)
  then have ok: "list_all word_ok ?ws" using assms(1-3) word_ok_int_str by simp
  have long: "13 \<le> length ?b"
    using length_join_words [OF ok] assms(1-3) by (cases fam; cases src; cases dst)
      (auto simp: word_ok_def lit_eval)
  have no13: "13 \<notin> set ?b" by (rule no_cr_in_text [OF word_ok_join [OF ok]])
  have b6: "take 6 ?b = PP_V1_PREFIX"
    by (simp add: PP_V1_PREFIX_def lit_eval)
  have "readexactly 13 (?b @ [13, 10] @ rest) = (Inr (take 13 ?b), drop 13 ?b @ [13, 10] @ rest)"
    using long by (simp add: readexactly_def del: join.simps)
  moreover have "take 12 (take 13 ?b) \<noteq> PP_V2_SIGNATURE"
    by (simp add: PP_V2_SIGNATURE_def lit_eval)
  moreover have "take 6 (take 13 ?b) = PP_V1_PREFIX"
    using b6 by (simp add: min_def del: join.simps)
  moreover have "fill_line (take 13 ?b) (drop 13 ?b @ [13, 10] @ rest) = (Inr (?b @ [13, 10]), rest)"
    using fill_line_text [of "take 13 ?b" "drop 13 ?b" rest] no13 assms(4) long
    by (simp del: join.simps)
  moreover have "parse_line (?b @ [13, 10])
      = Inr \<lparr>src_addr = src, src_port = sp, dst_addr = dst, dst_port = dp, version = 1\<rparr>"
    using p assms(1-3) by (intro parse_line_words) simp
  ultimately show ?thesis
    by (simp add: read_proxy_protocol_def parse_v1_def rd_simps del: join.simps)
qed

lemma pp_v1_roundtrip_witness:
  "read_proxy_protocol
      (map word_of_nat (join [32] [lit ''PROXY'', lit ''TCP4'', lit ''1.2.3.4'', lit ''5.6.7.8'',
         int_str 1024, int_str 443]) @ [13, 10] @ [3])
    = (Inr \<lparr>src_addr = lit ''1.2.3.4'', src_port = 1024, dst_addr = lit ''5.6.7.8'', dst_port = 443,
            version = 1\<rparr>, [3])"
  by (rule pp_v1_roundtrip) (simp_all add: word_ok_def lit_eval int_str_def nat_str.simps)

end
