(* ===== verification/Redis_Store.thy ===== *)
theory Redis_Store
  imports Complex_Main Py_Text
begin

text \<open>
  The Redis server as the services see it, and the key patterns of
  \<^verbatim>\<open>src/libs/redis_store/keys.py\<close>.

  Redis is a service: every definition that talks to it takes a record of its commands as a
  parameter. What the code relies on is the documented behaviour of those commands, stated in the
  locale \<open>redis_server\<close> over two observations of a database: the live keys with the milliseconds
  they have left, and the key that the own connection watches. A concrete server, a map with
  expiry times, shows that the laws can be met; it is the parameter in the witnesses.

  A stored string is either plain text or the JSON text of a value; JSON texts are represented by
  the value they denote, so that \<^verbatim>\<open>json.dumps\<close> and \<^verbatim>\<open>json.loads\<close> are inverse to each other.
\<close>

section \<open>Values\<close>

datatype json = JNull | JBool bool | JInt int | JFloat rat | JStr ustr | JArr "json list" | JObj "(ustr \<times> json) list"

datatype rval = RText ustr | RJson json

text \<open>\<^verbatim>\<open>if not raw\<close>: a missing key or an empty string. A JSON text is never empty.\<close>

fun raw_truthy :: "rval option \<Rightarrow> bool" where
  "raw_truthy None = False"
| "raw_truthy (Some (RText s)) = (s \<noteq> [])"
| "raw_truthy (Some (RJson j)) = True"

fun json_loads :: "rval option \<Rightarrow> json result" where
  "json_loads None = Inl TypeError"
| "json_loads (Some (RText s)) = Inl ValueError"
| "json_loads (Some (RJson j)) = Inr j"

fun json_truthy :: "json \<Rightarrow> bool" where
  "json_truthy JNull = False"
| "json_truthy (JBool b) = b"
| "json_truthy (JInt i) = (i \<noteq> 0)"
| "json_truthy (JFloat r) = (r \<noteq> 0)"
| "json_truthy (JStr s) = (s \<noteq> [])"
| "json_truthy (JArr xs) = (xs \<noteq> [])"
| "json_truthy (JObj o1) = (o1 \<noteq> [])"

fun set_field :: "ustr \<Rightarrow> json \<Rightarrow> (ustr \<times> json) list \<Rightarrow> (ustr \<times> json) list" where
  "set_field f v [] = [(f, v)]"
| "set_field f v ((g, w) # r) = (if g = f then (f, v) # r else (g, w) # set_field f v r)"

lemma map_of_set_field [simp]: "map_of (set_field f v o1) = (map_of o1)(f \<mapsto> v)"
  by (induction f v o1 rule: set_field.induct) auto

text \<open>\<^verbatim>\<open>payload[f]\<close>, \<^verbatim>\<open>payload.get(f)\<close> and \<^verbatim>\<open>payload[f] = v\<close> on a parsed JSON value.\<close>

fun jitem :: "json \<Rightarrow> ustr \<Rightarrow> json result" where
  "jitem (JObj o1) f = (case map_of o1 f of None \<Rightarrow> Inl KeyError | Some v \<Rightarrow> Inr v)"
| "jitem _ f = Inl TypeError"

fun jget :: "json \<Rightarrow> ustr \<Rightarrow> json \<Rightarrow> json result" where
  "jget (JObj o1) f d = Inr (case map_of o1 f of None \<Rightarrow> d | Some v \<Rightarrow> v)"
| "jget _ f d = Inl OtherException"

fun jset :: "json \<Rightarrow> ustr \<Rightarrow> json \<Rightarrow> json result" where
  "jset (JObj o1) f v = Inr (JObj (set_field f v o1))"
| "jset _ f v = Inl TypeError"

text \<open>\<^verbatim>\<open>int(v)\<close> on a JSON value.\<close>

fun jint :: "json \<Rightarrow> int result" where
  "jint (JInt i) = Inr i"
| "jint (JFloat r) = Inr (if 0 \<le> r then floor r else ceiling r)"
| "jint (JBool b) = Inr (if b then 1 else 0)"
| "jint (JStr s) = py_int s"
| "jint _ = Inl TypeError"

section \<open>Commands\<close>

text \<open>
  The commands that change the database. \<^verbatim>\<open>IWait\<close> and \<^verbatim>\<open>ICmd\<close> are what can happen between two
  commands of a connection: time passes, and other connections run commands.
\<close>

datatype rcmd = Setex ustr int rval | Del ustr | Incr ustr | Expire ustr int

datatype istep = IWait nat | ICmd rcmd

fun cmd_key :: "rcmd \<Rightarrow> ustr" where
  "cmd_key (Setex k t v) = k"
| "cmd_key (Del k) = k"
| "cmd_key (Incr k) = k"
| "cmd_key (Expire k t) = k"

record 'db redis =
  r_get :: "'db \<Rightarrow> ustr \<Rightarrow> rval option"
  r_exists :: "'db \<Rightarrow> ustr \<Rightarrow> bool"
  r_ttl :: "'db \<Rightarrow> ustr \<Rightarrow> int"
  r_scan :: "'db \<Rightarrow> ustr \<Rightarrow> ustr list"
  r_setex :: "'db \<Rightarrow> ustr \<Rightarrow> int \<Rightarrow> rval \<Rightarrow> 'db result"
  r_delete :: "'db \<Rightarrow> ustr \<Rightarrow> 'db"
  r_incr :: "'db \<Rightarrow> ustr \<Rightarrow> (int \<times> 'db) result"
  r_expire :: "'db \<Rightarrow> ustr \<Rightarrow> int \<Rightarrow> 'db"
  r_watch :: "'db \<Rightarrow> ustr \<Rightarrow> 'db"
  r_unwatch :: "'db \<Rightarrow> 'db"
  r_exec :: "'db \<Rightarrow> rcmd \<Rightarrow> bool \<times> 'db"
  r_step :: "'db \<Rightarrow> istep \<Rightarrow> 'db"

text \<open>
  \<open>r_exec\<close> is \<^verbatim>\<open>MULTI\<close>, one queued command and \<^verbatim>\<open>EXEC\<close>, as every transaction of the code has it;
  \<open>False\<close> stands for the \<^verbatim>\<open>WatchError\<close>. \<open>r_setex\<close> is also \<^verbatim>\<open>set(key, value, ex=seconds)\<close>.
\<close>

definition r_env :: "'db redis \<Rightarrow> 'db \<Rightarrow> istep list \<Rightarrow> 'db" where
  "r_env R db is = foldl (r_step R) db is"

lemma r_env_Nil [simp]: "r_env R db [] = db"
  by (simp add: r_env_def)

lemma r_env_Cons [simp]: "r_env R db (i # is) = r_env R (r_step R db i) is"
  by (simp add: r_env_def)

text \<open>The commands as effects on the database.\<close>

definition x_get :: "'db redis \<Rightarrow> ustr \<Rightarrow> ('db, rval option) eff" where
  "x_get R k db = (Inr (r_get R db k), db)"

definition x_exists :: "'db redis \<Rightarrow> ustr \<Rightarrow> ('db, bool) eff" where
  "x_exists R k db = (Inr (r_exists R db k), db)"

definition x_ttl :: "'db redis \<Rightarrow> ustr \<Rightarrow> ('db, int) eff" where
  "x_ttl R k db = (Inr (r_ttl R db k), db)"

definition x_scan :: "'db redis \<Rightarrow> ustr \<Rightarrow> ('db, ustr list) eff" where
  "x_scan R p db = (Inr (r_scan R db p), db)"

definition x_setex :: "'db redis \<Rightarrow> ustr \<Rightarrow> int \<Rightarrow> rval \<Rightarrow> ('db, unit) eff" where
  "x_setex R k t v db = (case r_setex R db k t v of Inl e \<Rightarrow> (Inl e, db) | Inr db' \<Rightarrow> (Inr (), db'))"

definition x_incr :: "'db redis \<Rightarrow> ustr \<Rightarrow> ('db, int) eff" where
  "x_incr R k db = (case r_incr R db k of Inl e \<Rightarrow> (Inl e, db) | Inr (n, db') \<Rightarrow> (Inr n, db'))"

definition x_expire :: "'db redis \<Rightarrow> ustr \<Rightarrow> int \<Rightarrow> ('db, unit) eff" where
  "x_expire R k t db = (Inr (), r_expire R db k t)"

definition x_delete :: "'db redis \<Rightarrow> ustr \<Rightarrow> ('db, unit) eff" where
  "x_delete R k db = (Inr (), r_delete R db k)"

definition x_watch :: "'db redis \<Rightarrow> ustr \<Rightarrow> ('db, unit) eff" where
  "x_watch R k db = (Inr (), r_watch R db k)"

definition x_exec :: "'db redis \<Rightarrow> rcmd \<Rightarrow> ('db, bool) eff" where
  "x_exec R c db = (case r_exec R db c of (b, db') \<Rightarrow> (Inr b, db'))"

definition x_env :: "'db redis \<Rightarrow> istep list \<Rightarrow> ('db, unit) eff" where
  "x_env R is db = (Inr (), r_env R db is)"

text \<open>\<^verbatim>\<open>with client.pipeline() as pipe\<close>: leaving the block, also by an exception, ends the watch.\<close>

definition with_pipeline :: "'db redis \<Rightarrow> ('db, 'a) eff \<Rightarrow> ('db, 'a) eff" where
  "with_pipeline R m db = (case m db of (r, db') \<Rightarrow> (r, r_unwatch R db'))"

lemmas x_simps = x_get_def x_exists_def x_ttl_def x_scan_def x_setex_def x_incr_def x_expire_def
  x_delete_def x_watch_def x_exec_def x_env_def

section \<open>The documented behaviour\<close>

type_synonym rlook = "ustr \<Rightarrow> (rval \<times> nat option) option"

text \<open>What is left of a key after some milliseconds; a key without expiry stays.\<close>

fun age :: "nat \<Rightarrow> (rval \<times> nat option) option \<Rightarrow> (rval \<times> nat option) option" where
  "age n None = None"
| "age n (Some (v, None)) = Some (v, None)"
| "age n (Some (v, Some ms)) = (if n < ms then Some (v, Some (ms - n)) else None)"

lemma age_0: "(\<And>v. e \<noteq> Some (v, Some 0)) \<Longrightarrow> age 0 e = e"
  by (cases "(0 :: nat, e)" rule: age.cases) auto

lemma age_age: "age n (age m e) = age (m + n) e"
  by (cases "(m, e)" rule: age.cases) auto

lemma age_SomeD: "age n e = Some (v, x) \<Longrightarrow> \<exists>y. e = Some (v, y)"
  by (cases "(n, e)" rule: age.cases) (auto split: if_splits)

fun ttl_of :: "(rval \<times> nat option) option \<Rightarrow> int" where
  "ttl_of None = -2"
| "ttl_of (Some (v, None)) = -1"
| "ttl_of (Some (v, Some ms)) = int ((ms + 500) div 1000)"

lemma ttl_of_pos: "0 < ttl_of e \<longleftrightarrow> (\<exists>v ms. e = Some (v, Some ms) \<and> 500 \<le> ms)"
  by (cases e rule: ttl_of.cases) auto

fun waited :: "istep list \<Rightarrow> nat" where
  "waited [] = 0"
| "waited (IWait n # is) = n + waited is"
| "waited (ICmd c # is) = waited is"

definition untouched :: "ustr \<Rightarrow> istep list \<Rightarrow> bool" where
  "untouched k is = list_all (\<lambda>i. case i of ICmd c \<Rightarrow> cmd_key c \<noteq> k | IWait n \<Rightarrow> True) is"

lemma untouched_simps [simp]:
  "untouched k []"
  "untouched k (IWait n # is) = untouched k is"
  "untouched k (ICmd c # is) = (cmd_key c \<noteq> k \<and> untouched k is)"
  by (simp_all add: untouched_def)

locale redis_server =
  fixes R :: "'db redis"
    and look :: "'db \<Rightarrow> rlook"
    and watch_state :: "'db \<Rightarrow> (ustr \<times> bool) option"
  assumes get_look: "r_get R db k = map_option fst (look db k)"
    and exists_look: "r_exists R db k = (look db k \<noteq> None)"
    and ttl_look: "r_ttl R db k = ttl_of (look db k)"
    and look_live: "look db k \<noteq> Some (v, Some 0)"
    and scan_look: "list_all (\<lambda>c. c \<notin> {42, 63, 91, 92}) p
      \<Longrightarrow> set (r_scan R db (p @ lit ''*'')) = {k. starts_with p k \<and> look db k \<noteq> None}"
    and setex_ok: "0 < t \<Longrightarrow> \<exists>db'. r_setex R db k t v = Inr db'
      \<and> look db' = (look db)(k \<mapsto> (v, Some (1000 * nat t)))"
    and setex_err: "t \<le> 0 \<Longrightarrow> r_setex R db k t v = Inl ResponseError"
    and delete_look: "look (r_delete R db k) = (look db)(k := None)"
    and incr_frame: "r_incr R db k = Inr (m, db') \<Longrightarrow> k' \<noteq> k \<Longrightarrow> look db' k' = look db k'"
    and incr_new: "look db k = None \<Longrightarrow> \<exists>db'. r_incr R db k = Inr (1, db')
      \<and> look db' = (look db)(k \<mapsto> (RText (int_str 1), None))"
    and incr_old: "look db k = Some (RText (int_str m), e) \<Longrightarrow> - (2 ^ 63) \<le> m \<Longrightarrow> m < 2 ^ 63 - 1 \<Longrightarrow>
      \<exists>db'. r_incr R db k = Inr (m + 1, db')
        \<and> look db' = (look db)(k \<mapsto> (RText (int_str (m + 1)), e))"
    and expire_look: "0 < t \<Longrightarrow> look (r_expire R db k t)
      = (look db)(k := map_option (\<lambda>e. (fst e, Some (1000 * nat t))) (look db k))"
    and watch_look: "look (r_watch R db k) = look db"
    and watch_watch: "watch_state db = None \<Longrightarrow> watch_state (r_watch R db k) = Some (k, True)"
    and setex_none: "watch_state db = None \<Longrightarrow> r_setex R db k t v = Inr db' \<Longrightarrow> watch_state db' = None"
    and step_none: "watch_state db = None \<Longrightarrow> watch_state (r_step R db i) = None"
    and unwatch: "look (r_unwatch R db) = look db \<and> watch_state (r_unwatch R db) = None"
    and wait_look: "look (r_step R db (IWait n)) k = age n (look db k)"
    and wait_watch: "watch_state (r_step R db (IWait n)) = Some (k, True) \<Longrightarrow> watch_state db = Some (k, True)"
    and wait_clean: "watch_state db = Some (k, True) \<Longrightarrow> look (r_step R db (IWait n)) k \<noteq> None
      \<Longrightarrow> watch_state (r_step R db (IWait n)) = Some (k, True)"
    and cmd_other: "cmd_key c \<noteq> k \<Longrightarrow> look (r_step R db (ICmd c)) k = look db k"
    and cmd_setex: "0 < t \<Longrightarrow> look (r_step R db (ICmd (Setex k t v))) = (look db)(k \<mapsto> (v, Some (1000 * nat t)))"
    and cmd_watch: "watch_state (r_step R db (ICmd c)) = Some (k, True) \<Longrightarrow>
      watch_state db = Some (k, True) \<and> look (r_step R db (ICmd c)) k = look db k"
    and cmd_clean: "watch_state db = Some (k, True) \<Longrightarrow> cmd_key c \<noteq> k \<Longrightarrow>
      watch_state (r_step R db (ICmd c)) = Some (k, True)"
    and cmd_touch: "watch_state db = Some (k, True) \<Longrightarrow> 0 < t \<Longrightarrow>
      watch_state (r_step R db (ICmd (Setex k t v))) = Some (k, False)"
    and step_dirty: "watch_state db = Some (k, False) \<Longrightarrow> watch_state (r_step R db i) = Some (k, False)"
    and watch_key: "watch_state db = Some (k, b) \<Longrightarrow> \<exists>b'. watch_state (r_step R db i) = Some (k, b')"
    and exec_setex: "watch_state db = Some (k, True) \<Longrightarrow> 0 < t \<Longrightarrow>
      \<exists>db'. r_exec R db (Setex k t v) = (True, db')
        \<and> look db' = (look db)(k \<mapsto> (v, Some (1000 * nat t))) \<and> watch_state db' = None"
    and exec_del: "watch_state db = Some (k, True) \<Longrightarrow>
      \<exists>db'. r_exec R db (Del k) = (True, db') \<and> look db' = (look db)(k := None) \<and> watch_state db' = None"
    and exec_dirty: "watch_state db = Some (k, False) \<Longrightarrow>
      \<exists>db'. r_exec R db c = (False, db') \<and> look db' = look db \<and> watch_state db' = None"
begin

text \<open>A key that is still clean after what others did was only aged.\<close>

lemma env_clean:
  "watch_state (r_env R db is) = Some (k, True) \<Longrightarrow>
    watch_state db = Some (k, True) \<and> look (r_env R db is) k = age (waited is) (look db k)"
proof (induction "is" arbitrary: db)
  case Nil
  then show ?case using look_live [of db k] by (auto intro!: age_0 [symmetric])
next
  case (Cons i "is")
  show ?case
  proof (cases i)
    case (IWait n)
    with Cons show ?thesis by (auto simp: wait_look age_age dest!: Cons.IH wait_watch)
  next
    case (ICmd c)
    have c: "watch_state (r_step R db (ICmd c)) = Some (k, True)"
      and l: "look (r_env R (r_step R db (ICmd c)) is) k = age (waited is) (look (r_step R db (ICmd c)) k)"
      using Cons.IH [of "r_step R db (ICmd c)"] Cons.prems ICmd by auto
    from cmd_watch [OF c] l ICmd show ?thesis by simp
  qed
qed

lemma env_watching: "watch_state db = Some (k, b) \<Longrightarrow> \<exists>b'. watch_state (r_env R db is) = Some (k, b')"
proof (induction "is" arbitrary: db b)
  case (Cons i "is")
  from watch_key [OF Cons.prems, of i] show ?case using Cons.IH by auto
qed simp

lemma env_look: "untouched k is \<Longrightarrow> look (r_env R db is) k = age (waited is) (look db k)"
proof (induction "is" arbitrary: db)
  case Nil
  then show ?case using look_live [of db k] by (auto intro!: age_0 [symmetric])
next
  case (Cons i "is")
  then show ?case by (cases i) (auto simp: wait_look age_age cmd_other)
qed

lemma env_quiet:
  "watch_state db = Some (k, True) \<Longrightarrow> untouched k is \<Longrightarrow> age (waited is) (look db k) \<noteq> None \<Longrightarrow>
    watch_state (r_env R db is) = Some (k, True)"
proof (induction "is" arbitrary: db)
  case (Cons i "is")
  show ?case
  proof (cases i)
    case (IWait n)
    with Cons.prems(3) have a: "age (waited is) (age n (look db k)) \<noteq> None" by (simp add: age_age)
    then have "look (r_step R db (IWait n)) k \<noteq> None" by (auto simp: wait_look dest: age_SomeD)
    from wait_clean [OF Cons.prems(1) this] Cons a IWait show ?thesis by (simp add: wait_look)
  next
    case (ICmd c)
    with Cons cmd_clean [OF Cons.prems(1), of c] show ?thesis by (simp add: cmd_other)
  qed
qed simp

lemma env_dirty: "watch_state db = Some (k, False) \<Longrightarrow> watch_state (r_env R db is) = Some (k, False)"
  by (induction "is" arbitrary: db) (auto dest: step_dirty)

end

section \<open>A server in memory\<close>

record mem_db =
  items :: "(ustr \<times> rval \<times> nat option) list"
  mem_watch :: "(ustr \<times> bool) option"

definition mem_look :: "mem_db \<Rightarrow> rlook" where
  "mem_look db k = age 0 (map_of (items db) k)"

definition mem_put :: "mem_db \<Rightarrow> ustr \<Rightarrow> rval \<times> nat option \<Rightarrow> mem_db" where
  "mem_put db k e = db\<lparr>items := (k, e) # filter (\<lambda>x. fst x \<noteq> k) (items db)\<rparr>"

definition mem_del :: "mem_db \<Rightarrow> ustr \<Rightarrow> mem_db" where
  "mem_del db k = db\<lparr>items := filter (\<lambda>x. fst x \<noteq> k) (items db)\<rparr>"

definition mem_setex :: "mem_db \<Rightarrow> ustr \<Rightarrow> int \<Rightarrow> rval \<Rightarrow> mem_db result" where
  "mem_setex db k t v =
    (if 0 < t then Inr (mem_put db k (v, Some (1000 * nat t))) else Inl ResponseError)"

definition mem_incr :: "mem_db \<Rightarrow> ustr \<Rightarrow> (int \<times> mem_db) result" where
  "mem_incr db k = (case mem_look db k of
      None \<Rightarrow> Inr (1, mem_put db k (RText (int_str 1), None))
    | Some (RText s, e) \<Rightarrow> (case py_int s of
        Inr n \<Rightarrow> if - (2 ^ 63) \<le> n \<and> n < 2 ^ 63 - 1
                 then Inr (n + 1, mem_put db k (RText (int_str (n + 1)), e)) else Inl ResponseError
      | Inl x \<Rightarrow> Inl ResponseError)
    | Some (RJson j, e) \<Rightarrow> Inl ResponseError)"

definition mem_expire :: "mem_db \<Rightarrow> ustr \<Rightarrow> int \<Rightarrow> mem_db" where
  "mem_expire db k t = (case mem_look db k of
      None \<Rightarrow> db
    | Some (v, e) \<Rightarrow> if 0 < t then mem_put db k (v, Some (1000 * nat t)) else mem_del db k)"

definition mem_scan :: "mem_db \<Rightarrow> ustr \<Rightarrow> ustr list" where
  "mem_scan db pat = filter (\<lambda>k. mem_look db k \<noteq> None \<and>
      (if pat \<noteq> [] \<and> last pat = 42 then starts_with (butlast pat) k else pat = k)) (map fst (items db))"

fun mem_cmd :: "mem_db \<Rightarrow> rcmd \<Rightarrow> mem_db" where
  "mem_cmd db (Setex k t v) = (case mem_setex db k t v of Inr db' \<Rightarrow> db' | Inl e \<Rightarrow> db)"
| "mem_cmd db (Del k) = mem_del db k"
| "mem_cmd db (Incr k) = (case mem_incr db k of Inr (n, db') \<Rightarrow> db' | Inl e \<Rightarrow> db)"
| "mem_cmd db (Expire k t) = mem_expire db k t"

text \<open>Any command on the watched key that changes what it holds, or writes it, breaks the watch.\<close>

fun mem_touch :: "rcmd \<Rightarrow> mem_db \<Rightarrow> mem_db" where
  "mem_touch c db = (case mem_watch db of
      Some (k, True) \<Rightarrow> if cmd_key c = k then db\<lparr>mem_watch := Some (k, False)\<rparr> else db
    | _ \<Rightarrow> db)"

fun shrink :: "nat \<Rightarrow> rval \<times> nat option \<Rightarrow> rval \<times> nat option" where
  "shrink n (v, None) = (v, None)"
| "shrink n (v, Some ms) = (v, Some (ms - n))"

definition mem_wait :: "mem_db \<Rightarrow> nat \<Rightarrow> mem_db" where
  "mem_wait db n = db\<lparr>items := map (\<lambda>(k, e). (k, shrink n e)) (items db)\<rparr>"

fun mem_step :: "mem_db \<Rightarrow> istep \<Rightarrow> mem_db" where
  "mem_step db (IWait n) = mem_wait db n"
| "mem_step db (ICmd c) = mem_touch c (mem_cmd db c)"

definition mem_exec :: "mem_db \<Rightarrow> rcmd \<Rightarrow> bool \<times> mem_db" where
  "mem_exec db c = (case mem_watch db of
      Some (k, False) \<Rightarrow> (False, db\<lparr>mem_watch := None\<rparr>)
    | _ \<Rightarrow> (True, (mem_cmd db c)\<lparr>mem_watch := None\<rparr>))"

definition mem_redis :: "mem_db redis" where
  "mem_redis = \<lparr>
    r_get = (\<lambda>db k. map_option fst (mem_look db k)),
    r_exists = (\<lambda>db k. mem_look db k \<noteq> None),
    r_ttl = (\<lambda>db k. ttl_of (mem_look db k)),
    r_scan = mem_scan,
    r_setex = mem_setex,
    r_delete = mem_del,
    r_incr = mem_incr,
    r_expire = mem_expire,
    r_watch = (\<lambda>db k. db\<lparr>mem_watch := Some (k, True)\<rparr>),
    r_unwatch = (\<lambda>db. db\<lparr>mem_watch := None\<rparr>),
    r_exec = mem_exec,
    r_step = mem_step\<rparr>"

definition empty_db :: mem_db where
  "empty_db = \<lparr>items = [], mem_watch = None\<rparr>"

lemma map_of_filter_key: "map_of (filter (\<lambda>x. fst x \<noteq> k) xs) = (map_of xs)(k := None)"
  by (induction xs) (auto simp: fun_eq_iff)

lemma mem_look_put: "snd e \<noteq> Some 0 \<Longrightarrow> mem_look (mem_put db k e) = (mem_look db)(k \<mapsto> e)"
  by (cases e; cases "snd e") (auto simp: mem_look_def mem_put_def map_of_filter_key fun_eq_iff)

lemma mem_look_del: "mem_look (mem_del db k) = (mem_look db)(k := None)"
  by (auto simp: mem_look_def mem_del_def map_of_filter_key fun_eq_iff)

lemma mem_look_watch [simp]: "mem_look (db\<lparr>mem_watch := w\<rparr>) = mem_look db"
  by (simp add: mem_look_def fun_eq_iff)

lemma mem_look_live: "mem_look db k \<noteq> Some (v, Some 0)"
proof -
  have "age 0 e \<noteq> Some (v, Some 0)" for e
    by (cases "(0 :: nat, e)" rule: age.cases) auto
  then show ?thesis by (simp add: mem_look_def)
qed

lemma mem_look_wait: "mem_look (mem_wait db n) k = age n (mem_look db k)"
proof -
  have "age 0 (map_option (shrink n) e) = age n (age 0 e)" for e
    by (cases "(n, e)" rule: age.cases) auto
  then show ?thesis by (simp add: mem_look_def mem_wait_def map_of_map)
qed

lemma mem_look_item: "mem_look db k \<noteq> None \<Longrightarrow> k \<in> fst ` set (items db)"
  by (cases "map_of (items db) k") (auto simp: mem_look_def dest!: map_of_SomeD intro: rev_image_eqI)

lemma mem_watch_keep [simp]:
  "mem_watch (mem_put db k e) = mem_watch db" "mem_watch (mem_wait db n) = mem_watch db"
  by (simp_all add: mem_put_def mem_wait_def)

lemma mem_look_touch [simp]: "mem_look (mem_touch c db) = mem_look db"
  by (simp add: mem_look_def fun_eq_iff split: option.split bool.split)

lemma mem_cmd_other: "cmd_key c \<noteq> k \<Longrightarrow> mem_look (mem_cmd db c) k = mem_look db k"
proof (cases c)
  case (Incr k')
  moreover have "snd e \<noteq> Some 0" if "mem_look db k' = Some e" for e
    using that mem_look_live [of db k' "fst e"] by (cases e) auto
  moreover assume "cmd_key c \<noteq> k"
  ultimately show ?thesis
    by (fastforce simp: mem_incr_def mem_look_put split: option.splits rval.splits sum.splits if_splits)
qed (auto simp: mem_setex_def mem_look_put mem_look_del mem_expire_def split: option.splits)

lemma mem_cmd_watch [simp]: "mem_watch (mem_cmd db c) = mem_watch db"
  by (cases c) (auto simp: mem_setex_def mem_put_def mem_del_def mem_incr_def mem_expire_def
      split: option.splits sum.splits rval.splits if_splits)

lemma mem_step_dirty:
  "mem_watch db = Some (k, False) \<Longrightarrow> mem_watch (mem_step db i) = Some (k, False)"
  by (cases i) simp_all

lemma mem_step_none: "mem_watch db = None \<Longrightarrow> mem_watch (mem_step db i) = None"
  by (cases i) simp_all

lemma mem_step_watch:
  "mem_watch db = Some (k, b) \<Longrightarrow> \<exists>b'. mem_watch (mem_step db i) = Some (k, b')"
  by (cases i) (simp_all add: ex_bool_eq split: bool.split)

lemmas mem_look_simps = mem_look_put mem_look_del mem_look_wait mem_look_watch

interpretation mem: redis_server mem_redis mem_look mem_watch
proof unfold_locales
  fix db :: mem_db and p
  assume "list_all (\<lambda>c. c \<notin> {42, 63, 91, 92}) (p :: ustr)"
  show "set (r_scan mem_redis db (p @ lit ''*'')) = {k. starts_with p k \<and> mem_look db k \<noteq> None}"
    using mem_look_item [of db] by (auto simp: mem_redis_def mem_scan_def lit_eval)
next
  fix db :: mem_db and k m e
  assume "mem_look db k = Some (RText (int_str m), e)" "- (2 ^ 63) \<le> m" "m < 2 ^ 63 - 1"
  then show "\<exists>db'. r_incr mem_redis db k = Inr (m + 1, db')
      \<and> mem_look db' = (mem_look db)(k \<mapsto> (RText (int_str (m + 1)), e))"
    using mem_look_live [of db k "RText (int_str m)"]
    by (auto simp: mem_redis_def mem_incr_def mem_look_put)
next
  fix db :: mem_db and k m db' k'
  assume "r_incr mem_redis db k = Inr (m, db')" "k' \<noteq> k"
  then show "mem_look db' k' = mem_look db k'"
    using mem_cmd_other [of "Incr k" k' db] by (simp add: mem_redis_def)
qed (auto simp: mem_redis_def mem_setex_def mem_look_simps mem_look_live mem_incr_def mem_expire_def
    mem_exec_def mem_cmd_other mem_step_none mem_step_dirty mem_step_watch fun_eq_iff split: option.splits if_splits bool.splits)

section \<open>Key patterns\<close>

definition TOKEN :: "ustr \<Rightarrow> ustr" where
  "TOKEN token = lit ''rdp:token:'' @ token"

definition WEB_SESSION :: "ustr \<Rightarrow> ustr" where
  "WEB_SESSION session_id = lit ''rdp:web:'' @ session_id"

definition ADMIN_WEB_SESSION :: "ustr \<Rightarrow> ustr" where
  "ADMIN_WEB_SESSION session_id = lit ''rdp:admin:web:'' @ session_id"

definition ACTIVE_SESSION :: "ustr \<Rightarrow> ustr \<Rightarrow> ustr" where
  "ACTIVE_SESSION instance_id connection_id = lit ''rdp:active:'' @ instance_id @ lit '':'' @ connection_id"

definition ACTIVE_SCAN :: ustr where
  "ACTIVE_SCAN = lit ''rdp:active:*''"

definition KILL_SESSION :: "ustr \<Rightarrow> ustr" where
  "KILL_SESSION connection_id = lit ''rdp:kill:'' @ connection_id"

definition CONN_TOKEN :: "ustr \<Rightarrow> ustr" where
  "CONN_TOKEN connection_id = lit ''rdp:conn-token:'' @ connection_id"

definition PORTAL_FAIL_IP :: "ustr \<Rightarrow> ustr" where
  "PORTAL_FAIL_IP ip = lit ''rdp:fail:ip:'' @ ip"

definition PORTAL_FAIL_USER :: "ustr \<Rightarrow> ustr" where
  "PORTAL_FAIL_USER username = lit ''rdp:fail:user:'' @ username"

definition PORTAL_LOCK_IP :: "ustr \<Rightarrow> ustr" where
  "PORTAL_LOCK_IP ip = lit ''rdp:lock:ip:'' @ ip"

definition PORTAL_LOCK_USER :: "ustr \<Rightarrow> ustr" where
  "PORTAL_LOCK_USER username = lit ''rdp:lock:user:'' @ username"

definition ADMIN_FAIL_IP :: "ustr \<Rightarrow> ustr" where
  "ADMIN_FAIL_IP ip = lit ''rdp:admin:fail:ip:'' @ ip"

definition ADMIN_FAIL_USER :: "ustr \<Rightarrow> ustr" where
  "ADMIN_FAIL_USER username = lit ''rdp:admin:fail:user:'' @ username"

definition ADMIN_LOCK_IP :: "ustr \<Rightarrow> ustr" where
  "ADMIN_LOCK_IP ip = lit ''rdp:admin:lock:ip:'' @ ip"

definition ADMIN_LOCK_USER :: "ustr \<Rightarrow> ustr" where
  "ADMIN_LOCK_USER username = lit ''rdp:admin:lock:user:'' @ username"

definition KILL_TTL :: int where
  "KILL_TTL = 60"

definition FAIL_COUNTER_TTL :: int where
  "FAIL_COUNTER_TTL = 60"

lemmas key_defs = TOKEN_def WEB_SESSION_def ADMIN_WEB_SESSION_def ACTIVE_SESSION_def ACTIVE_SCAN_def
  KILL_SESSION_def CONN_TOKEN_def PORTAL_FAIL_IP_def PORTAL_FAIL_USER_def PORTAL_LOCK_IP_def
  PORTAL_LOCK_USER_def ADMIN_FAIL_IP_def ADMIN_FAIL_USER_def ADMIN_LOCK_IP_def ADMIN_LOCK_USER_def

end
