(* ===== verification/Login_Limiter.thy ===== *)
theory Login_Limiter
  imports Redis_Store
begin

text \<open>
  The login rate limiter of \<^verbatim>\<open>src/libs/security/login_limiter.py\<close>, shared by the portal and the
  administration. Its contract needs four key patterns that never collide; the locale
  \<open>limiter_keys\<close> states that, the portal and the administration patterns fulfil it, and the lock-out
  theorem holds for both. \<^verbatim>\<open>str.lower\<close> is a parameter.
\<close>

section \<open>The limiter\<close>

record limiter =
  fail_ip :: "ustr \<Rightarrow> ustr"
  fail_user :: "ustr \<Rightarrow> ustr"
  lock_ip :: "ustr \<Rightarrow> ustr"
  lock_user :: "ustr \<Rightarrow> ustr"

definition uname_of :: "(ustr \<Rightarrow> ustr) \<Rightarrow> ustr \<Rightarrow> ustr" where
  "uname_of lower username =
    (let u = lower (strip username) in if u = [] then lit ''_'' else u)"

definition is_locked :: "'db redis \<Rightarrow> (ustr \<Rightarrow> ustr) \<Rightarrow> limiter \<Rightarrow> ustr \<Rightarrow> ustr \<Rightarrow> ('db, bool) eff" where
  "is_locked R lower L ip username =
    (let uname = uname_of lower username in
     rbind (x_exists R (lock_ip L ip)) (\<lambda>a.
     if a then rreturn True else x_exists R (lock_user L uname)))"

definition record_failure :: "'db redis \<Rightarrow> (ustr \<Rightarrow> ustr) \<Rightarrow> limiter \<Rightarrow> ustr \<Rightarrow> ustr \<Rightarrow> int \<Rightarrow> int \<Rightarrow> ('db, unit) eff" where
  "record_failure R lower L ip username max_attempts lock_seconds =
    (let uname = uname_of lower username;
         ip_key = fail_ip L ip;
         user_key = fail_user L uname in
     rbind (x_incr R ip_key) (\<lambda>ip_cnt.
     rbind (x_incr R user_key) (\<lambda>user_cnt.
     rbind (x_expire R ip_key FAIL_COUNTER_TTL) (\<lambda>_.
     rbind (x_expire R user_key FAIL_COUNTER_TTL) (\<lambda>_.
     rbind (if max_attempts < ip_cnt
            then x_setex R (lock_ip L ip) lock_seconds (RText (lit ''1'')) else rreturn ()) (\<lambda>_.
     if max_attempts < user_cnt
     then x_setex R (lock_user L uname) lock_seconds (RText (lit ''1'')) else rreturn ()))))))"

definition clear :: "'db redis \<Rightarrow> (ustr \<Rightarrow> ustr) \<Rightarrow> limiter \<Rightarrow> ustr \<Rightarrow> ustr \<Rightarrow> ('db, unit) eff" where
  "clear R lower L ip username =
    (let uname = uname_of lower username in
     rbind (x_delete R (fail_ip L ip)) (\<lambda>_. x_delete R (fail_user L uname)))"

definition portal_limiter :: limiter where
  "portal_limiter = \<lparr>fail_ip = PORTAL_FAIL_IP, fail_user = PORTAL_FAIL_USER,
     lock_ip = PORTAL_LOCK_IP, lock_user = PORTAL_LOCK_USER\<rparr>"

definition admin_limiter :: limiter where
  "admin_limiter = \<lparr>fail_ip = ADMIN_FAIL_IP, fail_user = ADMIN_FAIL_USER,
     lock_ip = ADMIN_LOCK_IP, lock_user = ADMIN_LOCK_USER\<rparr>"

section \<open>Keys that do not collide\<close>

locale limiter_keys =
  fixes L :: limiter
  assumes fail_ip_inj: "fail_ip L a = fail_ip L b \<longleftrightarrow> a = b"
    and fail_user_inj: "fail_user L a = fail_user L b \<longleftrightarrow> a = b"
    and lock_ip_inj: "lock_ip L a = lock_ip L b \<longleftrightarrow> a = b"
    and lock_user_inj: "lock_user L a = lock_user L b \<longleftrightarrow> a = b"
    and fail_lock: "fail_ip L a \<noteq> lock_ip L b" "fail_ip L a \<noteq> lock_user L b"
      "fail_user L a \<noteq> lock_ip L b" "fail_user L a \<noteq> lock_user L b"
    and ip_user: "fail_ip L a \<noteq> fail_user L b" "lock_ip L a \<noteq> lock_user L b"
begin

lemmas distinct_keys = fail_ip_inj fail_user_inj lock_ip_inj lock_user_inj
  fail_lock fail_lock [symmetric] ip_user ip_user [symmetric]

end

interpretation portal: limiter_keys portal_limiter
  by unfold_locales (simp_all add: portal_limiter_def key_defs lit_eval)

interpretation admin: limiter_keys admin_limiter
  by unfold_locales (simp_all add: admin_limiter_def key_defs lit_eval)

section \<open>Counting failures\<close>

text \<open>A run of failed logins from one address, with the milliseconds that pass after each.\<close>

fun failures :: "'db redis \<Rightarrow> (ustr \<Rightarrow> ustr) \<Rightarrow> limiter \<Rightarrow> ustr \<Rightarrow> int \<Rightarrow> int \<Rightarrow> (ustr \<times> nat) list \<Rightarrow> ('db, unit) eff" where
  "failures R lower L ip mx ls [] = rreturn ()"
| "failures R lower L ip mx ls ((u, gap) # as) =
     rbind (record_failure R lower L ip u mx ls) (\<lambda>_.
     rbind (x_env R [IWait gap]) (\<lambda>_. failures R lower L ip mx ls as))"

definition counts :: "(rval \<times> nat option) option \<Rightarrow> int \<Rightarrow> bool" where
  "counts e n \<longleftrightarrow> (n = 0 \<and> e = None) \<or> (0 < n \<and> (\<exists>x. e = Some (RText (int_str n), x)))"

definition counters_ok :: "limiter \<Rightarrow> rlook \<Rightarrow> int \<Rightarrow> bool" where
  "counters_ok L l b \<longleftrightarrow> (\<forall>u. \<exists>n. counts (l (fail_user L u)) n \<and> n \<le> b)"

lemma counts_age: "counts e n \<Longrightarrow> \<exists>m. counts (age t e) m \<and> m \<le> n"
  by (cases "(t, e)" rule: age.cases) (auto simp: counts_def intro: exI [of _ 0] exI [of _ n])

lemma counts_nonneg: "counts e n \<Longrightarrow> 0 \<le> n"
  by (auto simp: counts_def)

lemma counters_ok_age: "counters_ok L l b \<Longrightarrow> counters_ok L (\<lambda>k. age t (l k)) b"
  unfolding counters_ok_def by (meson counts_age order_trans)

locale login_limiter = redis_server R look watch_state + limiter_keys L
  for R :: "'db redis" and look watch_state L +
  fixes lower :: "ustr \<Rightarrow> ustr"
begin

lemma incr_counts:
  assumes "counts (look db k) n" and "n < 2 ^ 63 - 1"
  shows "\<exists>db' x. r_incr R db k = Inr (n + 1, db') \<and> look db' = (look db)(k \<mapsto> (RText (int_str (n + 1)), x))"
proof (cases "n = 0")
  case True
  with assms(1) have "look db k = None" by (simp add: counts_def)
  from incr_new [OF this] True show ?thesis by auto
next
  case False
  with assms(1) obtain x where l: "look db k = Some (RText (int_str n), x)" and "0 < n"
    by (auto simp: counts_def)
  then have "- (2 ^ 63) \<le> n" by simp
  from incr_old [OF l this assms(2)] show ?thesis by auto
qed

lemma record_failure_look:
  assumes n: "counts (look db (fail_ip L ip)) n" "n < 2 ^ 63 - 1"
    and m: "counts (look db (fail_user L (uname_of lower u))) m" "m < 2 ^ 63 - 1"
    and ls: "0 < ls"
  shows "\<exists>db'. record_failure R lower L ip u mx ls db = (Inr (), db')
    \<and> look db' = (\<lambda>k. if k = fail_ip L ip then Some (RText (int_str (n + 1)), Some 60000)
        else if k = fail_user L (uname_of lower u) then Some (RText (int_str (m + 1)), Some 60000)
        else if k = lock_ip L ip \<and> mx < n + 1 then Some (RText (lit ''1''), Some (1000 * nat ls))
        else if k = lock_user L (uname_of lower u) \<and> mx < m + 1 then Some (RText (lit ''1''), Some (1000 * nat ls))
        else look db k)"
proof -
  let ?i = "fail_ip L ip" and ?u = "fail_user L (uname_of lower u)"
  obtain d1 x where 1: "r_incr R db ?i = Inr (n + 1, d1)"
    "look d1 = (look db)(?i \<mapsto> (RText (int_str (n + 1)), x))"
    using incr_counts [OF n] by blast
  then have "counts (look d1 ?u) m" using m(1) by (simp add: ip_user [symmetric])
  from incr_counts [OF this m(2)] obtain d2 y where 2: "r_incr R d1 ?u = Inr (m + 1, d2)"
    "look d2 = (look d1)(?u \<mapsto> (RText (int_str (m + 1)), y))" by blast
  define d4 where "d4 = r_expire R (r_expire R d2 ?i 60) ?u 60"
  have 4: "look d4 = (look db)(?i \<mapsto> (RText (int_str (n + 1)), Some 60000),
      ?u \<mapsto> (RText (int_str (m + 1)), Some 60000))"
    by (auto simp: d4_def expire_look 1 2 distinct_keys fun_eq_iff)
  obtain d5 where 5: "(if mx < n + 1 then x_setex R (lock_ip L ip) ls (RText (lit ''1'')) else rreturn ()) d4 = (Inr (), d5)"
    "look d5 = (if mx < n + 1 then (look d4)(lock_ip L ip \<mapsto> (RText (lit ''1''), Some (1000 * nat ls))) else look d4)"
    using setex_ok [OF ls, of d4 "lock_ip L ip" "RText (lit ''1'')"]
    by (cases "mx < n + 1") (auto simp: x_setex_def rreturn_def)
  obtain d6 where 6: "(if mx < m + 1 then x_setex R (lock_user L (uname_of lower u)) ls (RText (lit ''1'')) else rreturn ()) d5 = (Inr (), d6)"
    "look d6 = (if mx < m + 1 then (look d5)(lock_user L (uname_of lower u) \<mapsto> (RText (lit ''1''), Some (1000 * nat ls))) else look d5)"
    using setex_ok [OF ls, of d5 "lock_user L (uname_of lower u)" "RText (lit ''1'')"]
    by (cases "mx < m + 1") (auto simp: x_setex_def rreturn_def)
  have "record_failure R lower L ip u mx ls db = (Inr (), d6)"
    using 5(1) 6(1)
    by (simp add: record_failure_def Let_def rbind_def x_incr_def x_expire_def 1 2 FAIL_COUNTER_TTL_def
        d4_def [symmetric])
  moreover have "look d6 = (\<lambda>k. if k = ?i then Some (RText (int_str (n + 1)), Some 60000)
        else if k = ?u then Some (RText (int_str (m + 1)), Some 60000)
        else if k = lock_ip L ip \<and> mx < n + 1 then Some (RText (lit ''1''), Some (1000 * nat ls))
        else if k = lock_user L (uname_of lower u) \<and> mx < m + 1 then Some (RText (lit ''1''), Some (1000 * nat ls))
        else look db k)"
    by (auto simp: 6 5 4 distinct_keys fun_eq_iff)
  ultimately show ?thesis by blast
qed

lemma failures_count:
  assumes "counts (look db (fail_ip L ip)) n" and "counters_ok L (look db) b"
    and "n + int (length as) < 2 ^ 63" and "b + int (length as) < 2 ^ 63"
    and "look db (lock_ip L ip) \<noteq> None \<longleftrightarrow> mx < n"
    and "0 < ls" and "\<forall>a \<in> set as. snd a < 60000 \<and> snd a < 1000 * nat ls"
  shows "\<exists>db'. failures R lower L ip mx ls as db = (Inr (), db')
    \<and> counts (look db' (fail_ip L ip)) (n + int (length as))
    \<and> (look db' (lock_ip L ip) \<noteq> None \<longleftrightarrow> mx < n + int (length as))"
  using assms
proof (induction as arbitrary: db n b)
  case Nil
  then show ?case by (simp add: rreturn_def)
next
  case (Cons a as)
  obtain u gap where a: "a = (u, gap)" by force
  let ?un = "uname_of lower u"
  obtain m where m: "counts (look db (fail_user L ?un)) m" "m \<le> b"
    using Cons.prems(2) by (auto simp: counters_ok_def)
  have lim: "n < 2 ^ 63 - 1" "m < 2 ^ 63 - 1" using Cons.prems(3,4) m(2) by auto
  obtain db1 where rf: "record_failure R lower L ip u mx ls db = (Inr (), db1)"
    and l1: "look db1 = (\<lambda>k. if k = fail_ip L ip then Some (RText (int_str (n + 1)), Some 60000)
        else if k = fail_user L ?un then Some (RText (int_str (m + 1)), Some 60000)
        else if k = lock_ip L ip \<and> mx < n + 1 then Some (RText (lit ''1''), Some (1000 * nat ls))
        else if k = lock_user L ?un \<and> mx < m + 1 then Some (RText (lit ''1''), Some (1000 * nat ls))
        else look db k)"
    using record_failure_look [OF Cons.prems(1) lim(1) m(1) lim(2) Cons.prems(6)] by blast
  let ?db2 = "r_step R db1 (IWait gap)"
  have gap: "gap < 60000" "gap < 1000 * nat ls" using Cons.prems(7) a by auto
  have "0 \<le> n" "0 \<le> m" using Cons.prems(1) m(1) counts_nonneg by auto
  then have c2: "counts (look ?db2 (fail_ip L ip)) (n + 1)"
    using gap by (simp add: wait_look l1 counts_def)
  have "counters_ok L (look db1) (b + 1)"
    unfolding counters_ok_def
  proof
    fix v
    show "\<exists>i. counts (look db1 (fail_user L v)) i \<and> i \<le> b + 1"
    proof (cases "v = ?un")
      case True
      with m(2) \<open>0 \<le> m\<close> show ?thesis by (intro exI [of _ "m + 1"]) (simp add: l1 distinct_keys counts_def)
    next
      case False
      then have "look db1 (fail_user L v) = look db (fail_user L v)" by (simp add: l1 distinct_keys)
      with Cons.prems(2) show ?thesis
        unfolding counters_ok_def by (metis add.commute add_increasing zero_le_one)
    qed
  qed
  then have k2: "counters_ok L (look ?db2) (b + 1)"
    by (simp add: counters_ok_age wait_look [abs_def])
  have "mx < n \<Longrightarrow> mx < n + 1" by simp
  then have lk2: "look ?db2 (lock_ip L ip) \<noteq> None \<longleftrightarrow> mx < n + 1"
    using gap Cons.prems(5) by (auto simp: wait_look l1 distinct_keys dest: age_SomeD)
  from Cons.IH [OF c2 k2 _ _ lk2 Cons.prems(6)] Cons.prems(3,4,7)
  obtain db' where "failures R lower L ip mx ls as ?db2 = (Inr (), db')"
    "counts (look db' (fail_ip L ip)) (n + 1 + int (length as))"
    "look db' (lock_ip L ip) \<noteq> None \<longleftrightarrow> mx < n + 1 + int (length as)" by auto
  then show ?case
    using rf a by (auto simp: rbind_def x_env_def add.assoc)
qed

lemma is_locked_look:
  "is_locked R lower L ip v db = (Inr (look db (lock_ip L ip) \<noteq> None \<or> look db (lock_user L (uname_of lower v)) \<noteq> None), db)"
  by (simp add: is_locked_def Let_def rbind_def x_exists_def exists_look rreturn_def)

lemma x_frame:
  "k \<noteq> k' \<Longrightarrow> look (snd (x_incr R k' db)) k = look db k"
  "k \<noteq> k' \<Longrightarrow> look (snd (x_setex R k' t v db)) k = look db k"
  "k \<noteq> k' \<Longrightarrow> look (snd (x_expire R k' FAIL_COUNTER_TTL db)) k = look db k"
proof -
  assume k: "k \<noteq> k'"
  then show "look (snd (x_incr R k' db)) k = look db k"
    by (auto simp: x_incr_def incr_frame split: sum.split)
  show "look (snd (x_expire R k' FAIL_COUNTER_TTL db)) k = look db k"
    using k by (simp add: x_expire_def FAIL_COUNTER_TTL_def expire_look)
  show "look (snd (x_setex R k' t v db)) k = look db k"
    using k setex_ok [of t db k' v] setex_err [of t db k' v]
    by (cases "0 < t") (auto simp: x_setex_def)
qed

lemma rbind_frame:
  assumes "look (snd (m db)) k = look db k" and "\<And>a db. look (snd (f a db)) k = look db k"
  shows "look (snd (rbind m f db)) k = look db k"
  using assms by (auto simp: rbind_def split: prod.split sum.split)

lemma record_failure_frame:
  assumes "\<And>a. k \<noteq> fail_ip L a" "\<And>a. k \<noteq> fail_user L a" "\<And>a. k \<noteq> lock_ip L a" "\<And>a. k \<noteq> lock_user L a"
  shows "look (snd (record_failure R lower L ip u mx ls db)) k = look db k"
  unfolding record_failure_def Let_def
  using assms by (intro rbind_frame) (simp_all add: x_frame rreturn_def)

lemma clear_look:
  "\<exists>db'. clear R lower L ip v db = (Inr (), db')
    \<and> look db' = (look db)(fail_ip L ip := None, fail_user L (uname_of lower v) := None)"
  by (simp add: clear_def Let_def rbind_def x_delete_def delete_look)

lemma lock_out:
  assumes "look db (fail_ip L ip) = None" and "look db (lock_ip L ip) = None"
    and "counters_ok L (look db) b" and "b + int (length as) < 2 ^ 63" and "int (length as) < 2 ^ 63"
    and "0 \<le> mx" and "0 < ls" and "\<forall>a \<in> set as. snd a < 60000 \<and> snd a < 1000 * nat ls"
  shows "\<exists>db'. failures R lower L ip mx ls as db = (Inr (), db')
    \<and> (mx < int (length as) \<longrightarrow> is_locked R lower L ip v db' = (Inr True, db'))
    \<and> (int (length as) \<le> mx \<longrightarrow> look db' (lock_ip L ip) = None)"
  using failures_count [of db ip 0 b as mx ls] assms by (fastforce simp: counts_def is_locked_look)

end

lemma limiter_instances:
  assumes "redis_server R look watch_state" and "L = portal_limiter \<or> L = admin_limiter"
  shows "login_limiter R look watch_state L"
  using assms portal.limiter_keys_axioms admin.limiter_keys_axioms by (auto simp: login_limiter_def)

section \<open>Properties\<close>


lemma empty_counters: "counters_ok L (mem_look empty_db) 0"
  by (simp add: counters_ok_def counts_def empty_db_def mem_look_def)


text \<open>
  The limiters of the portal and of the administration do not influence each other: recording
  a failure or clearing the counters of one never changes a counter or a lock of the other, also
  when a command raises half-way.
\<close>

lemma limiters_isolated:
  assumes "redis_server R look watch_state"
    and "L = portal_limiter \<and> M = admin_limiter \<or> L = admin_limiter \<and> M = portal_limiter"
    and "k \<in> range (fail_ip M) \<union> range (fail_user M) \<union> range (lock_ip M) \<union> range (lock_user M)"
  shows "look (snd (record_failure R lower L ip u mx ls db)) k = look db k
    \<and> look (snd (clear R lower L ip u db)) k = look db k"
proof -
  have L: "login_limiter R look watch_state L"
    using assms(1,2) by (intro limiter_instances) auto
  have k: "k \<noteq> fail_ip L a" "k \<noteq> fail_user L a" "k \<noteq> lock_ip L a" "k \<noteq> lock_user L a" for a
    using assms(2,3) by (auto simp: portal_limiter_def admin_limiter_def key_defs lit_eval)
  from login_limiter.record_failure_frame [OF L k] login_limiter.clear_look [OF L, of lower ip u db]
  show ?thesis by (auto simp: k)
qed

lemma limiters_isolated_witness:
  "mem_look (snd (record_failure mem_redis id portal_limiter (lit ''10.0.0.1'') (lit ''a'') 0 300 empty_db))
      (lock_ip admin_limiter (lit ''10.0.0.1''))
    = mem_look empty_db (lock_ip admin_limiter (lit ''10.0.0.1''))
    \<and> mem_look (snd (clear mem_redis id portal_limiter (lit ''10.0.0.1'') (lit ''a'') empty_db))
      (lock_ip admin_limiter (lit ''10.0.0.1''))
    = mem_look empty_db (lock_ip admin_limiter (lit ''10.0.0.1''))"
  by (rule limiters_isolated [where M = admin_limiter, OF mem.redis_server_axioms]) simp_all

end
