(* ===== verification/Encryption.thy ===== *)
theory Encryption
  imports Utf_Codec
begin

text \<open>
  The password encryption of \<^verbatim>\<open>src/libs/redis_store/encryption.py\<close>: \<^verbatim>\<open>bytes.fromhex\<close> and base64
  as the standard library codes them, and the encryptor around an AEAD cipher. The cipher
  (\<^verbatim>\<open>AESGCM\<close> of the cryptography package) is a parameter; what the code relies on is \<open>aead_ok\<close>:
  decrypting what was encrypted under the same key, nonce and associated data gives it back, and a
  wrong associated data raises. The random nonce is an argument.
\<close>

section \<open>Hexadecimal and base64\<close>

definition hex_nibble :: "nat \<Rightarrow> nat option" where
  "hex_nibble c = (if c < 128 then hex_digit c else None)"

function fromhex :: "ustr \<Rightarrow> bytes result" where
  "fromhex s = (case dropWhile (\<lambda>c. c \<in> {9, 10, 11, 12, 13, 32}) s of
      [] \<Rightarrow> Inr []
    | [c] \<Rightarrow> Inl ValueError
    | c # d # r \<Rightarrow> (case (hex_nibble c, hex_nibble d) of
        (Some a, Some b) \<Rightarrow> bind_result (fromhex r) (\<lambda>bs. Inr (word_of_nat (16 * a + b) # bs))
      | _ \<Rightarrow> Inl ValueError))"
  by auto

termination fromhex
proof (relation "measure length", goal_cases)
  case (2 s c t d r)
  have "length (c # d # r) \<le> length s"
    using length_dropWhile_le [of "\<lambda>c. c \<in> {9, 10, 11, 12, 13, 32}" s] 2 by simp
  then show ?case by simp
qed simp

definition b64_char :: "nat \<Rightarrow> nat" where
  "b64_char v = (if v < 26 then 65 + v else if v < 52 then 71 + v else if v < 62 then v - 4
     else if v = 62 then 43 else 47)"

definition b64_val :: "nat \<Rightarrow> nat option" where
  "b64_val c = (if 65 \<le> c \<and> c \<le> 90 then Some (c - 65) else if 97 \<le> c \<and> c \<le> 122 then Some (c - 71)
     else if 48 \<le> c \<and> c \<le> 57 then Some (c + 4) else if c = 43 then Some 62
     else if c = 47 then Some 63 else None)"

fun b64encode :: "bytes \<Rightarrow> ustr" where
  "b64encode [] = []"
| "b64encode [a] = (let a = unat a in [b64_char (a div 4), b64_char (a mod 4 * 16), 61, 61])"
| "b64encode [a, b] = (let a = unat a; b = unat b in
     [b64_char (a div 4), b64_char (a mod 4 * 16 + b div 16), b64_char (b mod 16 * 4), 61])"
| "b64encode (a # b # c # r) = (let a = unat a; b = unat b; c = unat c in
     [b64_char (a div 4), b64_char (a mod 4 * 16 + b div 16), b64_char (b mod 16 * 4 + c div 64),
      b64_char (c mod 64)]) @ b64encode r"

text \<open>
  \<^verbatim>\<open>base64.b64decode\<close> without validation: characters outside the alphabet are skipped, padding ends
  the input once the quad is complete, and an incomplete quad raises. \<open>q\<close> is the position in the
  quad, \<open>l\<close> the bits left over and \<open>p\<close> the number of padding characters seen.
\<close>

definition b64_emit :: "nat \<Rightarrow> bytes result \<Rightarrow> bytes result" where
  "b64_emit n r = bind_result r (\<lambda>bs. Inr (word_of_nat n # bs))"

fun b64_dec :: "nat \<Rightarrow> nat \<Rightarrow> nat \<Rightarrow> ustr \<Rightarrow> bytes result" where
  "b64_dec q l p [] = (if q = 0 then Inr [] else Inl ValueError)"
| "b64_dec q l p (c # cs) =
     (if c = 61 then
        if 2 \<le> q then if 4 \<le> q + (p + 1) then Inr [] else b64_dec q l (p + 1) cs
        else b64_dec q l p cs
      else case b64_val c of
        None \<Rightarrow> b64_dec q l p cs
      | Some v \<Rightarrow>
          if q = 0 then b64_dec 1 v 0 cs
          else if q = 1 then b64_emit (l * 4 + v div 16) (b64_dec 2 (v mod 16) 0 cs)
          else if q = 2 then b64_emit (l * 16 + v div 4) (b64_dec 3 (v mod 4) 0 cs)
          else b64_emit (l * 64 + v) (b64_dec 0 0 0 cs))"

definition b64decode :: "ustr \<Rightarrow> bytes result" where
  "b64decode s = b64_dec 0 0 0 s"

lemma b64_val_char [simp]: "v < 64 \<Longrightarrow> b64_val (b64_char v) = Some v"
  by (auto simp: b64_val_def b64_char_def)

lemma b64_char_not_pad [simp]: "v < 64 \<Longrightarrow> b64_char v \<noteq> 61"
  by (auto simp: b64_char_def)

lemma quad_ranges:
  fixes a b c :: nat
  assumes "a < 256" and "b < 256" and "c < 256"
  shows "a div 4 < 64" "a mod 4 * 16 + b div 16 < 64" "b mod 16 * 4 + c div 64 < 64" "c mod 64 < 64"
proof -
  have "a mod 4 < 4" "b mod 16 < 16" "b div 16 < 16" "c div 64 < 4"
    using assms by (simp_all add: less_mult_imp_div_less)
  then show "a mod 4 * 16 + b div 16 < 64" "b mod 16 * 4 + c div 64 < 64" by simp_all
  show "a div 4 < 64" "c mod 64 < 64" using assms by (simp_all add: less_mult_imp_div_less)
qed

lemma quad_joins:
  fixes a b c :: nat
  assumes "b < 256" and "c < 256"
  shows "a div 4 * 4 + (a mod 4 * 16 + b div 16) div 16 = a"
    "(a mod 4 * 16 + b div 16) mod 16 * 16 + (b mod 16 * 4 + c div 64) div 4 = b"
    "(b mod 16 * 4 + c div 64) mod 4 * 64 + c mod 64 = c"
proof -
  have d: "b div 16 < 16" "c div 64 < 4" using assms by (simp_all add: less_mult_imp_div_less)
  then have e: "(a mod 4 * 16 + b div 16) div 16 = a mod 4" "(a mod 4 * 16 + b div 16) mod 16 = b div 16"
    "(b mod 16 * 4 + c div 64) div 4 = b mod 16" "(b mod 16 * 4 + c div 64) mod 4 = c div 64"
    by simp_all
  show "a div 4 * 4 + (a mod 4 * 16 + b div 16) div 16 = a"
    "(a mod 4 * 16 + b div 16) mod 16 * 16 + (b mod 16 * 4 + c div 64) div 4 = b"
    "(b mod 16 * 4 + c div 64) mod 4 * 64 + c mod 64 = c"
    unfolding e by (simp_all add: div_mult_mod_eq)
qed

lemma b64_quad:
  assumes "v < 64" "w < 64" "x < 64" "y < 64"
  shows "b64_dec 0 0 0 (b64_char v # b64_char w # b64_char x # b64_char y # cs)
    = b64_emit (v * 4 + w div 16) (b64_emit (w mod 16 * 16 + x div 4) (b64_emit (x mod 4 * 64 + y) (b64_dec 0 0 0 cs)))"
  using assms by simp

lemma b64_pad1:
  assumes "v < 64" "w < 64" "x < 64"
  shows "b64_dec 0 0 0 [b64_char v, b64_char w, b64_char x, 61]
    = b64_emit (v * 4 + w div 16) (b64_emit (w mod 16 * 16 + x div 4) (Inr []))"
  using assms by simp

lemma b64_pad2:
  assumes "v < 64" "w < 64"
  shows "b64_dec 0 0 0 [b64_char v, b64_char w, 61, 61] = b64_emit (v * 4 + w div 16) (Inr [])"
  using assms by simp

lemma b64_dec_encode: "b64_dec 0 0 0 (b64encode bs) = Inr bs"
proof (induction bs rule: b64encode.induct)
  case (2 a)
  then show ?case
    using quad_ranges [of "unat a" 0 0] quad_joins(1) [of 0 0 "unat a"] b64_pad2 [of "unat a div 4" "unat a mod 4 * 16"]
    by (simp add: b64_emit_def Let_def unat_byte_less del: b64_dec.simps)
next
  case (3 a b)
  then show ?case
    using quad_ranges [of "unat a" "unat b" 0] quad_joins(1,2) [of "unat b" 0 "unat a"]
      b64_pad1 [of "unat a div 4" "unat a mod 4 * 16 + unat b div 16" "unat b mod 16 * 4"]
    by (simp add: b64_emit_def Let_def unat_byte_less del: b64_dec.simps)
next
  case (4 a b c r)
  note lt = unat_byte_less [of a] unat_byte_less [of b] unat_byte_less [of c]
  have "b64_dec 0 0 0 (b64encode (a # b # c # r))
      = b64_emit (unat a) (b64_emit (unat b) (b64_emit (unat c) (b64_dec 0 0 0 (b64encode r))))"
    using b64_quad [OF quad_ranges [OF lt]] unfolding quad_joins [OF lt(2,3)]
    by (simp add: Let_def del: b64_dec.simps)
  with 4 show ?case by (simp add: b64_emit_def)
qed simp

lemma b64encode_ascii: "list_all (\<lambda>c. c < 128) (b64encode bs)"
proof -
  have "b64_char v < 128" for v by (auto simp: b64_char_def)
  then show ?thesis by (induction bs rule: b64encode.induct) (simp_all add: Let_def)
qed

section \<open>The encryptor\<close>

record aead =
  aes_enc :: "bytes \<Rightarrow> bytes \<Rightarrow> bytes \<Rightarrow> bytes \<Rightarrow> bytes"
  aes_dec :: "bytes \<Rightarrow> bytes \<Rightarrow> bytes \<Rightarrow> bytes \<Rightarrow> bytes result"

definition aead_ok :: "aead \<Rightarrow> bool" where
  "aead_ok A \<longleftrightarrow> (\<forall>k n p a b. length k = 32 \<longrightarrow> length n = 12 \<longrightarrow>
     aes_dec A k n (aes_enc A k n p a) b = (if a = b then Inr p else Inl InvalidTag))"

definition AESEncryptor :: "ustr \<Rightarrow> bytes result" where
  "AESEncryptor key_hex =
    bind_result (fromhex key_hex) (\<lambda>key. if length key \<noteq> 32 then Inl ValueError else Inr key)"

definition encrypt :: "aead \<Rightarrow> bytes \<Rightarrow> bytes \<Rightarrow> ustr \<Rightarrow> bytes \<Rightarrow> ustr result" where
  "encrypt A key nonce plaintext aad =
    bind_result (utf8_encode plaintext) (\<lambda>plain. Inr (b64encode (nonce @ aes_enc A key nonce plain aad)))"

definition decrypt :: "aead \<Rightarrow> bytes \<Rightarrow> ustr \<Rightarrow> bytes \<Rightarrow> ustr result" where
  "decrypt A key blob aad =
    (if \<not> list_all (\<lambda>c. c < 128) blob then Inl UnicodeError
     else bind_result (b64decode blob) (\<lambda>raw.
          bind_result (aes_dec A key (take 12 raw) (drop 12 raw) aad) utf8_decode))"

lemma decrypt_encrypt:
  assumes "aead_ok A" and "length key = 32" and "length nonce = 12" and "encrypt A key nonce s aad = Inr blob"
  shows "decrypt A key blob aad' = (if aad = aad' then Inr s else Inl InvalidTag)"
proof -
  obtain plain where "utf8_encode s = Inr plain" "blob = b64encode (nonce @ aes_enc A key nonce plain aad)"
    using assms(4) by (auto simp: encrypt_def bind_result_Inr)
  with assms(1-3) show ?thesis
    using b64encode_ascii by (auto simp: decrypt_def b64decode_def b64_dec_encode aead_ok_def utf8_decode_encode)
qed

text \<open>
  A cipher for the witnesses: the cipher text carries the associated data, so that a wrong one is
  noticed.
\<close>

definition ref_aead :: aead where
  "ref_aead = \<lparr>
    aes_enc = (\<lambda>k n p a. replicate (length a) 1 @ [0] @ a @ p),
    aes_dec = (\<lambda>k n c b.
      let l = length (takeWhile (\<lambda>x. x = 1) c); r = drop (l + 1) c in
      if take l r = b then Inr (drop l r) else Inl InvalidTag)\<rparr>"

lemma aead_ok_ref: "aead_ok ref_aead"
proof -
  have "length (takeWhile (\<lambda>x. x = 1) (replicate n 1 @ 0 # ys)) = n" for n and ys :: bytes
    by (induction n) simp_all
  then show ?thesis by (simp add: aead_ok_def ref_aead_def Let_def)
qed

end
