(* ===== verification/Session_Store.thy ===== *)
theory Session_Store
  imports Redis_Store Encryption
begin

text \<open>
  The session store of \<^verbatim>\<open>src/libs/redis_store/sessions.py\<close>: tokens of RDP connections, web sessions
  of the portal and web sessions of administrators, all kept in Redis with a time to live, with
  passwords encrypted. Random tokens, nonces and the clock are arguments; the database is passed
  through every operation; what other connections do between the commands of a transaction is an
  explicit argument. The store writes every payload itself, so that texts are the only values
  expected where it reads one.
\<close>

section \<open>Data\<close>

record SessionData =
  sd_token :: ustr
  sd_username :: ustr
  sd_target_host :: ustr
  sd_target_port :: int
  sd_password :: ustr
  sd_fingerprint :: json
  sd_server_id :: json
  sd_server_display :: json

record WebSessionData =
  ws_session_id :: ustr
  ws_username :: ustr
  ws_groups :: "ustr list"
  ws_group_guids :: "ustr list"
  ws_password :: ustr

record AdminWebSessionData =
  as_session_id :: ustr
  as_admin_user_id :: ustr
  as_username :: ustr
  as_must_change_password :: bool
  as_allowed_ips :: "ustr list"

text \<open>The configuration of a store, with the cipher and the hash function it calls.\<close>

record SessionStore =
  web_ttl :: int
  rdp_token_ttl :: int
  web_idle_ttl :: int
  enc_key :: bytes
  cipher :: aead
  sha256_hex :: "bytes \<Rightarrow> ustr"

fun jtext :: "json \<Rightarrow> ustr result" where
  "jtext (JStr s) = Inr s"
| "jtext _ = Inl TypeError"

fun jtexts :: "json list \<Rightarrow> ustr list result" where
  "jtexts [] = Inr []"
| "jtexts (j # js) = bind_result (jtext j) (\<lambda>s. bind_result (jtexts js) (\<lambda>r. Inr (s # r)))"

fun jlist :: "json \<Rightarrow> json list result" where
  "jlist (JArr js) = Inr js"
| "jlist _ = Inl TypeError"

fun jopt :: "ustr option \<Rightarrow> json" where
  "jopt None = JNull"
| "jopt (Some s) = JStr s"

lemma jtexts_map [simp]: "jtexts (map JStr ss) = Inr ss"
  by (induction ss) auto

definition password_aad :: "ustr \<Rightarrow> ustr \<Rightarrow> ustr \<Rightarrow> bytes result" where
  "password_aad pfx identifier username = utf8_encode (pfx @ lit '':'' @ identifier @ lit '':'' @ username)"

definition fingerprint_digest :: "SessionStore \<Rightarrow> ustr \<Rightarrow> ustr result" where
  "fingerprint_digest S fingerprint = bind_result (utf8_encode fingerprint) (\<lambda>b. Inr (sha256_hex S b))"

section \<open>RDP tokens\<close>

definition create_session :: "'db redis \<Rightarrow> SessionStore \<Rightarrow> ustr \<Rightarrow> bytes \<Rightarrow> ustr \<Rightarrow> ustr \<Rightarrow> ustr \<Rightarrow> int
    \<Rightarrow> ustr option \<Rightarrow> ustr option \<Rightarrow> ('db, ustr) eff" where
  "create_session R S token nonce username password target_host target_port server_id server_display =
    rbind (rlift (password_aad (lit ''rdp:token'') token username)) (\<lambda>aad.
    rbind (rlift (encrypt (cipher S) (enc_key S) nonce password aad)) (\<lambda>password_enc.
    let payload = JObj [
      (lit ''username'', JStr username),
      (lit ''password_enc'', JStr password_enc),
      (lit ''target_host'', JStr target_host),
      (lit ''target_port'', JInt target_port),
      (lit ''fingerprint'', JNull),
      (lit ''server_id'', jopt server_id),
      (lit ''server_display'', jopt server_display)] in
    rbind (x_setex R (TOKEN token) (rdp_token_ttl S) (RJson payload)) (\<lambda>_. rreturn token)))"

definition session_of :: "SessionStore \<Rightarrow> ustr \<Rightarrow> json \<Rightarrow> SessionData result" where
  "session_of S token payload =
    bind_result (bind_result (jitem payload (lit ''username'')) jtext) (\<lambda>username.
    bind_result (password_aad (lit ''rdp:token'') token username) (\<lambda>aad.
    bind_result (bind_result (jitem payload (lit ''target_host'')) jtext) (\<lambda>target_host.
    bind_result (bind_result (jitem payload (lit ''target_port'')) jint) (\<lambda>target_port.
    bind_result (bind_result (jitem payload (lit ''password_enc'')) jtext) (\<lambda>password_enc.
    bind_result (decrypt (cipher S) (enc_key S) password_enc aad) (\<lambda>password.
    bind_result (jget payload (lit ''fingerprint'') JNull) (\<lambda>fingerprint.
    bind_result (jget payload (lit ''server_id'') JNull) (\<lambda>server_id.
    bind_result (jget payload (lit ''server_display'') JNull) (\<lambda>server_display.
    Inr \<lparr>sd_token = token, sd_username = username, sd_target_host = target_host,
      sd_target_port = target_port, sd_password = password, sd_fingerprint = fingerprint,
      sd_server_id = server_id, sd_server_display = server_display\<rparr>)))))))))"

definition get_session :: "'db redis \<Rightarrow> SessionStore \<Rightarrow> ustr \<Rightarrow> ('db, SessionData option) eff" where
  "get_session R S token =
    rbind (x_get R (TOKEN token)) (\<lambda>raw.
    if \<not> raw_truthy raw then rreturn None
    else rbind (rlift (json_loads raw)) (\<lambda>payload.
         rbind (rlift (session_of S token payload)) (\<lambda>d. rreturn (Some d))))"

text \<open>
  One round of the optimistic loop, with what others do before each of its commands; \<open>None\<close> is the
  \<^verbatim>\<open>WatchError\<close>. The loop runs round after round; \<open>None\<close> means that all the rounds considered were
  disturbed.
\<close>

type_synonym round = "istep list \<times> istep list \<times> istep list"

definition fingerprint_round :: "'db redis \<Rightarrow> SessionStore \<Rightarrow> ustr \<Rightarrow> ustr \<Rightarrow> round \<Rightarrow> ('db, bool option) eff" where
  "fingerprint_round R S token fingerprint = (\<lambda>(i1, i2, i3).
    let key = TOKEN token in
    rbind (x_watch R key) (\<lambda>_.
    rbind (x_env R i1) (\<lambda>_.
    rbind (x_get R key) (\<lambda>raw.
    if \<not> raw_truthy raw then rreturn (Some False)
    else
    rbind (rlift (json_loads raw)) (\<lambda>payload.
    rbind (rlift (fingerprint_digest S fingerprint)) (\<lambda>d.
    rbind (rlift (jset payload (lit ''fingerprint'') (JStr d))) (\<lambda>payload.
    rbind (x_env R i2) (\<lambda>_.
    rbind (x_ttl R key) (\<lambda>ttl.
    if ttl \<le> 0 then rreturn (Some False)
    else
    rbind (x_env R i3) (\<lambda>_.
    rbind (x_exec R (Setex key ttl (RJson payload))) (\<lambda>ok.
    rreturn (if ok then Some True else None))))))))))))"

fun fingerprint_loop :: "'db redis \<Rightarrow> SessionStore \<Rightarrow> ustr \<Rightarrow> ustr \<Rightarrow> round list \<Rightarrow> ('db, bool option) eff" where
  "fingerprint_loop R S token fingerprint [] = rreturn None"
| "fingerprint_loop R S token fingerprint (r # rs) =
     rbind (fingerprint_round R S token fingerprint r) (\<lambda>a.
     case a of None \<Rightarrow> fingerprint_loop R S token fingerprint rs | Some b \<Rightarrow> rreturn (Some b))"

definition set_token_fingerprint :: "'db redis \<Rightarrow> SessionStore \<Rightarrow> ustr \<Rightarrow> ustr \<Rightarrow> round list \<Rightarrow> ('db, bool option) eff" where
  "set_token_fingerprint R S token fingerprint rounds =
    with_pipeline R (fingerprint_loop R S token fingerprint rounds)"

definition token_fingerprint_matches :: "'db redis \<Rightarrow> SessionStore \<Rightarrow> ustr \<Rightarrow> ustr \<Rightarrow> ('db, bool) eff" where
  "token_fingerprint_matches R S token fingerprint =
    rbind (x_get R (TOKEN token)) (\<lambda>raw.
    if \<not> raw_truthy raw then rreturn False
    else
    rbind (rlift (json_loads raw)) (\<lambda>payload.
    rbind (rlift (jget payload (lit ''fingerprint'') JNull)) (\<lambda>expected.
    if \<not> json_truthy expected then rreturn False
    else rbind (rlift (fingerprint_digest S fingerprint)) (\<lambda>d. rreturn (expected = JStr d)))))"

definition delete_session :: "'db redis \<Rightarrow> ustr \<Rightarrow> ('db, unit) eff" where
  "delete_session R token = x_delete R (TOKEN token)"

section \<open>Web sessions\<close>

definition create_web_session :: "'db redis \<Rightarrow> SessionStore \<Rightarrow> ustr \<Rightarrow> bytes \<Rightarrow> int \<Rightarrow> ustr \<Rightarrow> ustr \<Rightarrow> ustr list
    \<Rightarrow> ustr list \<Rightarrow> ustr \<Rightarrow> ('db, ustr) eff" where
  "create_web_session R S session_id nonce now username password groups group_guids browser_fingerprint =
    rbind (rlift (password_aad (lit ''rdp:web'') session_id username)) (\<lambda>aad.
    rbind (rlift (encrypt (cipher S) (enc_key S) nonce password aad)) (\<lambda>password_enc.
    rbind (rlift (fingerprint_digest S browser_fingerprint)) (\<lambda>fp.
    let payload = JObj [
      (lit ''username'', JStr username),
      (lit ''password_enc'', JStr password_enc),
      (lit ''groups'', JArr (map JStr groups)),
      (lit ''group_guids'', JArr (map JStr group_guids)),
      (lit ''browser_fingerprint'', JStr fp),
      (lit ''last_seen_ts'', JInt now)] in
    rbind (x_setex R (WEB_SESSION session_id) (web_ttl S) (RJson payload)) (\<lambda>_. rreturn session_id))))"

text \<open>
  The transaction that \<^verbatim>\<open>get_web_session\<close> and \<^verbatim>\<open>get_admin_web_session\<close> share: check the fingerprint and
  the idle time, and write the payload back with the time of this access. \<open>None\<close> means that the
  function returns \<^verbatim>\<open>None\<close>; after a \<^verbatim>\<open>WatchError\<close> it goes on with the payload it has read.
\<close>

definition drop_session :: "'db redis \<Rightarrow> ustr \<Rightarrow> istep list \<Rightarrow> json \<Rightarrow> ('db, json option) eff" where
  "drop_session R key i2 payload =
    rbind (x_env R i2) (\<lambda>_.
    rbind (x_exec R (Del key)) (\<lambda>ok.
    rreturn (if ok then None else Some payload)))"

definition touch_session :: "'db redis \<Rightarrow> SessionStore \<Rightarrow> ustr \<Rightarrow> int \<Rightarrow> ustr \<Rightarrow> round \<Rightarrow> ('db, json option) eff" where
  "touch_session R S key now browser_fingerprint = (\<lambda>(i1, i2, i3).
    rbind (x_watch R key) (\<lambda>_.
    rbind (x_env R i1) (\<lambda>_.
    rbind (x_get R key) (\<lambda>raw.
    if \<not> raw_truthy raw then rreturn None
    else
    rbind (rlift (json_loads raw)) (\<lambda>payload.
    rbind (rlift (jget payload (lit ''browser_fingerprint'') JNull)) (\<lambda>expected_fp.
    rbind (if json_truthy expected_fp
           then rbind (rlift (fingerprint_digest S browser_fingerprint)) (\<lambda>d. rreturn (expected_fp \<noteq> JStr d))
           else rreturn False) (\<lambda>mismatch.
    if mismatch then drop_session R key i2 payload
    else
    rbind (rlift (bind_result (jget payload (lit ''last_seen_ts'') (JInt now)) jint)) (\<lambda>last_seen_ts.
    if web_idle_ttl S < now - last_seen_ts then drop_session R key i2 payload
    else
    rbind (rlift (jset payload (lit ''last_seen_ts'') (JInt now))) (\<lambda>payload.
    rbind (x_env R i2) (\<lambda>_.
    rbind (x_ttl R key) (\<lambda>ttl.
    if 0 < ttl
    then rbind (x_env R i3) (\<lambda>_.
         rbind (x_exec R (Setex key ttl (RJson payload))) (\<lambda>_. rreturn (Some payload)))
    else rreturn (Some payload))))))))))))"

definition web_session_of :: "SessionStore \<Rightarrow> ustr \<Rightarrow> json \<Rightarrow> WebSessionData result" where
  "web_session_of S session_id payload =
    bind_result (bind_result (jitem payload (lit ''username'')) jtext) (\<lambda>username.
    bind_result (password_aad (lit ''rdp:web'') session_id username) (\<lambda>aad.
    bind_result (bind_result (jget payload (lit ''groups'') (JArr [])) jlist) (\<lambda>groups.
    bind_result (jtexts groups) (\<lambda>groups.
    bind_result (bind_result (jget payload (lit ''group_guids'') (JArr [])) jlist) (\<lambda>group_guids.
    bind_result (jtexts group_guids) (\<lambda>group_guids.
    bind_result (bind_result (jitem payload (lit ''password_enc'')) jtext) (\<lambda>password_enc.
    bind_result (decrypt (cipher S) (enc_key S) password_enc aad) (\<lambda>password.
    Inr \<lparr>ws_session_id = session_id, ws_username = username, ws_groups = groups,
      ws_group_guids = group_guids, ws_password = password\<rparr>))))))))"

definition get_web_session :: "'db redis \<Rightarrow> SessionStore \<Rightarrow> ustr \<Rightarrow> ustr \<Rightarrow> int \<Rightarrow> round \<Rightarrow> ('db, WebSessionData option) eff" where
  "get_web_session R S session_id browser_fingerprint now r =
    rbind (with_pipeline R (touch_session R S (WEB_SESSION session_id) now browser_fingerprint r)) (\<lambda>p.
    case p of None \<Rightarrow> rreturn None
    | Some payload \<Rightarrow> rbind (rlift (web_session_of S session_id payload)) (\<lambda>d. rreturn (Some d)))"

definition delete_web_session :: "'db redis \<Rightarrow> ustr \<Rightarrow> ('db, unit) eff" where
  "delete_web_session R session_id = x_delete R (WEB_SESSION session_id)"

section \<open>Admin web sessions\<close>

definition create_admin_web_session :: "'db redis \<Rightarrow> SessionStore \<Rightarrow> ustr \<Rightarrow> int \<Rightarrow> ustr \<Rightarrow> ustr \<Rightarrow> bool \<Rightarrow> ustr
    \<Rightarrow> ustr list option \<Rightarrow> ('db, ustr) eff" where
  "create_admin_web_session R S session_id now admin_user_id username must_change_password browser_fingerprint allowed_ips =
    rbind (rlift (fingerprint_digest S browser_fingerprint)) (\<lambda>fp.
    let payload = JObj [
      (lit ''admin_user_id'', JStr admin_user_id),
      (lit ''username'', JStr username),
      (lit ''must_change_password'', JBool must_change_password),
      (lit ''browser_fingerprint'', JStr fp),
      (lit ''last_seen_ts'', JInt now),
      (lit ''allowed_ips'', JArr (map JStr (case allowed_ips of None \<Rightarrow> [] | Some ips \<Rightarrow> ips)))] in
    rbind (x_setex R (ADMIN_WEB_SESSION session_id) (web_ttl S) (RJson payload)) (\<lambda>_. rreturn session_id))"

definition admin_session_of :: "ustr \<Rightarrow> json \<Rightarrow> AdminWebSessionData result" where
  "admin_session_of session_id payload =
    bind_result (bind_result (jitem payload (lit ''admin_user_id'')) jtext) (\<lambda>admin_user_id.
    bind_result (bind_result (jitem payload (lit ''username'')) jtext) (\<lambda>username.
    bind_result (jget payload (lit ''must_change_password'') JNull) (\<lambda>must_change_password.
    bind_result (jget payload (lit ''allowed_ips'') JNull) (\<lambda>allowed_ips.
    bind_result (if json_truthy allowed_ips then bind_result (jlist allowed_ips) jtexts else Inr []) (\<lambda>allowed_ips.
    Inr \<lparr>as_session_id = session_id, as_admin_user_id = admin_user_id, as_username = username,
      as_must_change_password = json_truthy must_change_password, as_allowed_ips = allowed_ips\<rparr>)))))"

definition get_admin_web_session :: "'db redis \<Rightarrow> SessionStore \<Rightarrow> ustr \<Rightarrow> ustr \<Rightarrow> int \<Rightarrow> round \<Rightarrow> ('db, AdminWebSessionData option) eff" where
  "get_admin_web_session R S session_id browser_fingerprint now r =
    rbind (with_pipeline R (touch_session R S (ADMIN_WEB_SESSION session_id) now browser_fingerprint r)) (\<lambda>p.
    case p of None \<Rightarrow> rreturn None
    | Some payload \<Rightarrow> rbind (rlift (admin_session_of session_id payload)) (\<lambda>d. rreturn (Some d)))"

definition update_admin_must_change :: "'db redis \<Rightarrow> ustr \<Rightarrow> bool \<Rightarrow> ('db, unit) eff" where
  "update_admin_must_change R session_id must_change_password =
    (let key = ADMIN_WEB_SESSION session_id in
    rbind (x_get R key) (\<lambda>raw.
    if \<not> raw_truthy raw then rreturn ()
    else
    rbind (rlift (json_loads raw)) (\<lambda>payload.
    rbind (rlift (jset payload (lit ''must_change_password'') (JBool must_change_password))) (\<lambda>payload.
    rbind (x_ttl R key) (\<lambda>ttl.
    if 0 < ttl then x_setex R key ttl (RJson payload) else rreturn ())))))"

definition delete_admin_web_session :: "'db redis \<Rightarrow> ustr \<Rightarrow> ('db, unit) eff" where
  "delete_admin_web_session R session_id = x_delete R (ADMIN_WEB_SESSION session_id)"

section \<open>What a guarded session does\<close>

definition quiet :: "ustr \<Rightarrow> round \<Rightarrow> bool" where
  "quiet k r = (case r of (i1, i2, i3) \<Rightarrow> untouched k i1 \<and> untouched k i2 \<and> untouched k i3)"

definition round_ms :: "round \<Rightarrow> nat" where
  "round_ms r = (case r of (i1, i2, i3) \<Rightarrow> waited i1 + waited i2 + waited i3)"

context redis_server
begin

lemma exec_simps:
  "watch_state db = Some (k, True) \<Longrightarrow> 0 < t \<Longrightarrow> \<exists>db'. x_exec R (Setex k t v) db = (Inr True, db')
     \<and> look db' = (look db)(k \<mapsto> (v, Some (1000 * nat t)))"
  "watch_state db = Some (k, True) \<Longrightarrow> \<exists>db'. x_exec R (Del k) db = (Inr True, db') \<and> look db' = (look db)(k := None)"
  "watch_state db = Some (k, False) \<Longrightarrow> \<exists>db'. x_exec R c db = (Inr False, db') \<and> look db' = look db \<and> watch_state db' = None"
  using exec_setex [of db k t v] exec_del [of db k] exec_dirty [of db k c] by (auto simp: x_exec_def)

lemma watch_env:
  assumes "watch_state db = None" and "untouched k is" and "look db k = Some (v, Some ms)" and "waited is < ms"
  shows "watch_state (r_env R (r_watch R db k) is) = Some (k, True)"
    and "look (r_env R (r_watch R db k) is) k = Some (v, Some (ms - waited is))"
  using assms env_quiet [OF watch_watch [OF assms(1)] assms(2)] env_look [OF assms(2), of "r_watch R db k"]
  by (auto simp: watch_look)

lemma step_env:
  assumes "watch_state db = Some (k, True)" and "untouched k is" and "look db k = Some (v, Some ms)" and "waited is < ms"
  shows "watch_state (r_env R db is) = Some (k, True)"
    and "look (r_env R db is) k = Some (v, Some (ms - waited is))"
  using assms env_quiet [OF assms(1,2)] env_look [OF assms(2), of db] by auto

lemma drop_session_quiet:
  assumes "watch_state db = Some (k, True)" and "untouched k i2" and "look db k = Some (v, Some ms)" and "waited i2 < ms"
  shows "\<exists>db'. drop_session R k i2 p db = (Inr None, db') \<and> look db' k = None"
proof -
  from exec_simps(2) [OF step_env(1) [OF assms]]
  show ?thesis by (auto simp: drop_session_def rbind_def x_env_def rreturn_def)
qed

lemma touch_quiet:
  fixes now :: int
  assumes w: "watch_state db = None" and l: "look db k = Some (RJson (JObj p), Some ms)"
    and q: "quiet k r" "round_ms r < ms"
    and fp: "map_of p (lit ''browser_fingerprint'') = Some (JStr d0)" "d0 \<noteq> []"
    and ls: "map_of p (lit ''last_seen_ts'') = Some (JInt ls)"
    and d: "fingerprint_digest S fp = Inr d"
  defines "q \<equiv> set_field (lit ''last_seen_ts'') (JInt now) p"
    and "bad \<equiv> d0 \<noteq> d \<or> web_idle_ttl S < now - ls"
  shows "\<exists>db'. with_pipeline R (touch_session R S k now fp r) db = (Inr (if bad then None else Some (JObj q)), db')
    \<and> watch_state db' = None
    \<and> (if bad then look db' k = None
       else \<exists>ms'. (look db' k = Some (RJson (JObj p), Some ms') \<or> look db' k = Some (RJson (JObj q), Some ms'))
              \<and> ms' \<le> ms + 500)"
proof -
  obtain i1 i2 i3 where r: "r = (i1, i2, i3)" by (cases r)
  let ?db1 = "r_env R (r_watch R db k) i1"
  have 1: "watch_state ?db1 = Some (k, True)" "look ?db1 k = Some (RJson (JObj p), Some (ms - waited i1))"
    using watch_env [OF w _ l, of i1] q by (auto simp: r quiet_def round_ms_def)
  let ?db2 = "r_env R ?db1 i2"
  have 2: "watch_state ?db2 = Some (k, True)" "look ?db2 k = Some (RJson (JObj p), Some (ms - waited i1 - waited i2))"
    using step_env [OF 1(1) _ 1(2), of i2] q by (auto simp: r quiet_def round_ms_def)
  let ?db3 = "r_env R ?db2 i3"
  have 3: "watch_state ?db3 = Some (k, True)"
    using step_env(1) [OF 2(1) _ 2(2), of i3] q by (auto simp: r quiet_def round_ms_def)
  have "untouched k i2" "waited i2 < ms - waited i1"
    using q by (auto simp: r quiet_def round_ms_def)
  from drop_session_quiet [OF 1(1) this(1) 1(2) this(2)]
  obtain db4 where 4: "drop_session R k i2 (JObj p) ?db1 = (Inr None, db4)" "look db4 k = None"
    by blast
  let ?ttl = "ttl_of (look ?db2 k)"
  have get: "r_get R ?db1 k = Some (RJson (JObj p))" by (simp add: get_look 1)
  show ?thesis
  proof (cases bad)
    case True
    then have "touch_session R S k now fp r db = (Inr None, db4)"
      using fp ls d get 4(1) unfolding bad_def
      by (auto simp: touch_session_def r x_simps rd_simps)
    with True 4(2) show ?thesis by (simp add: with_pipeline_def unwatch)
  next
    case False
    show ?thesis
    proof (cases "0 < ?ttl")
      case True
      obtain db5 where 5: "x_exec R (Setex k ?ttl (RJson (JObj q))) ?db3 = (Inr True, db5)"
        "look db5 k = Some (RJson (JObj q), Some (1000 * nat ?ttl))"
        using exec_simps(1) [OF 3 True] by fastforce
      have "touch_session R S k now fp r db = (Inr (Some (JObj q)), db5)"
        using fp ls d get False True 5(1) unfolding bad_def q_def
        by (auto simp: touch_session_def r x_get_def x_env_def x_watch_def x_ttl_def rd_simps ttl_look)
      moreover have "1000 * nat ?ttl \<le> ms + 500" by (simp add: 2)
      ultimately show ?thesis using False 5(2) by (auto simp: with_pipeline_def unwatch)
    next
      case False': False
      have "touch_session R S k now fp r db = (Inr (Some (JObj q)), ?db2)"
        using fp ls d get False False' unfolding bad_def q_def
        by (auto simp: touch_session_def r x_get_def x_env_def x_watch_def x_ttl_def rd_simps ttl_look)
      with False 2 show ?thesis by (auto simp: with_pipeline_def unwatch)
    qed
  qed
qed


lemma setex_then_wait:
  assumes "watch_state db = None" and "0 < t" and "x_setex R k t v db = (Inr u, db1)" and "wait < 1000 * nat t"
  shows "watch_state (r_step R db1 (IWait wait)) = None"
    and "look (r_step R db1 (IWait wait)) k = Some (v, Some (1000 * nat t - wait))"
  using assms setex_ok [OF assms(2), of db k v] setex_none [OF assms(1), of k t v db1] step_none [of db1]
  by (auto simp: x_setex_def wait_look split: sum.splits)

lemma setex_okD: "x_setex R k t v db = (Inr u, db1) \<Longrightarrow> 0 < t"
  using setex_err [of t db k v] by (cases "0 < t") (auto simp: x_setex_def)

end

section \<open>The fingerprint of a token\<close>

text \<open>A round that another connection disturbs by writing the token before the transaction runs.\<close>

definition disturbed :: "ustr \<Rightarrow> int \<times> (ustr \<times> json) list \<Rightarrow> round" where
  "disturbed token w = (case w of (t, p) \<Rightarrow> ([], [], [ICmd (Setex (TOKEN token) t (RJson (JObj p)))]))"

context redis_server
begin

lemma round_quiet:
  assumes w: "watch_state db = None" and l: "look db (TOKEN token) = Some (RJson (JObj p), Some ms)"
    and q: "quiet (TOKEN token) r" "round_ms r + 500 \<le> ms" and d: "fingerprint_digest S fp = Inr d"
  shows "\<exists>db' ms'. fingerprint_round R S token fp r db = (Inr (Some True), db')
    \<and> look db' (TOKEN token) = Some (RJson (JObj (set_field (lit ''fingerprint'') (JStr d) p)), Some ms')
    \<and> ms' \<le> ms + 500 \<and> ms \<le> ms' + 500 + round_ms r"
proof -
  let ?k = "TOKEN token" and ?p = "set_field (lit ''fingerprint'') (JStr d) p"
  obtain i1 i2 i3 where r: "r = (i1, i2, i3)" by (cases r)
  have u: "untouched ?k i1" "untouched ?k i2" "untouched ?k i3" "waited i1 < ms" "waited i2 < ms - waited i1"
    "waited i3 < ms - waited i1 - waited i2" "500 \<le> ms - waited i1 - waited i2"
    using q by (auto simp: r quiet_def round_ms_def)
  let ?db1 = "r_env R (r_watch R db ?k) i1"
  note 1 = watch_env [OF w u(1) l u(4)]
  let ?db2 = "r_env R ?db1 i2"
  note 2 = step_env [OF 1(1) u(2) 1(2) u(5)]
  note 3 = step_env(1) [OF 2(1) u(3) 2(2) u(6)]
  define ttl where "ttl = ttl_of (look ?db2 ?k)"
  have t: "0 < ttl" "nat ttl = (ms - waited i1 - waited i2 + 500) div 1000"
    using u(7) by (auto simp: ttl_def 2(2))
  have ms': "1000 * nat ttl \<le> ms + 500" "ms \<le> 1000 * nat ttl + 500 + round_ms r"
    unfolding t(2) using u by (auto simp: r round_ms_def)
  obtain db5 where 5: "x_exec R (Setex ?k ttl (RJson (JObj ?p))) (r_env R ?db2 i3) = (Inr True, db5)"
    "look db5 ?k = Some (RJson (JObj ?p), Some (1000 * nat ttl))"
    using exec_simps(1) [OF 3 t(1)] by fastforce
  have "fingerprint_round R S token fp r db = (Inr (Some True), db5)"
    using d 5(1) t(1) 1(2)
    by (simp add: fingerprint_round_def r x_get_def x_env_def x_watch_def x_ttl_def rd_simps ttl_look
        get_look Let_def ttl_def)
  with 5(2) ms' show ?thesis by blast
qed

lemma round_disturbed:
  assumes w: "watch_state db = None" and l: "look db (TOKEN token) = Some (RJson (JObj p), Some ms)" "500 \<le> ms"
    and t: "0 < t" and d: "fingerprint_digest S fp = Inr d"
  shows "\<exists>db'. fingerprint_round R S token fp (disturbed token (t, p')) db = (Inr None, db')
    \<and> look db' (TOKEN token) = Some (RJson (JObj p'), Some (1000 * nat t)) \<and> watch_state db' = None"
proof -
  let ?k = "TOKEN token" and ?p = "set_field (lit ''fingerprint'') (JStr d) p"
  let ?db1 = "r_watch R db ?k"
  define ttl where "ttl = ttl_of (look ?db1 ?k)"
  have ttl: "0 < ttl" using l(2) by (simp add: ttl_def watch_look l(1))
  let ?db3 = "r_step R ?db1 (ICmd (Setex ?k t (RJson (JObj p'))))"
  obtain db5 where 5: "x_exec R (Setex ?k ttl (RJson (JObj ?p))) ?db3 = (Inr False, db5)"
    "look db5 = look ?db3" "watch_state db5 = None"
    using exec_simps(3) [OF cmd_touch [OF watch_watch [OF w] t]] by blast
  have "fingerprint_round R S token fp (disturbed token (t, p')) db = (Inr None, db5)"
    using d 5(1) ttl l(1)
    by (simp add: fingerprint_round_def disturbed_def x_get_def x_env_def x_watch_def x_ttl_def rd_simps ttl_look
        get_look Let_def ttl_def watch_look)
  with 5(2,3) t show ?thesis by (simp add: cmd_setex)
qed

lemma loop_retries:
  assumes "watch_state db = None" and "look db (TOKEN token) = Some (RJson (JObj p), Some ms)" "500 \<le> ms"
    and "\<forall>w \<in> set ws. 0 < fst w" and "fingerprint_digest S fp = Inr d"
  shows "\<exists>db' ms'. fingerprint_loop R S token fp (map (disturbed token) ws @ rs) db = fingerprint_loop R S token fp rs db'
    \<and> watch_state db' = None
    \<and> look db' (TOKEN token) = Some (RJson (JObj (last (p # map snd ws))), Some ms')
    \<and> ms' = (if ws = [] then ms else 1000 * nat (fst (last ws)))"
  using assms
proof (induction ws arbitrary: db p ms)
  case Nil
  then show ?case by auto
next
  case (Cons w ws)
  obtain t p' where w: "w = (t, p')" by (cases w)
  with Cons.prems(4) have t: "0 < t" by simp
  from round_disturbed [OF Cons.prems(1-3) t Cons.prems(5)] obtain db1 where
    1: "fingerprint_round R S token fp (disturbed token (t, p')) db = (Inr None, db1)"
    "look db1 (TOKEN token) = Some (RJson (JObj p'), Some (1000 * nat t))" "watch_state db1 = None"
    by blast
  have "500 \<le> 1000 * nat t" using t by simp
  from Cons.IH [OF 1(3,2) this _ Cons.prems(5)] Cons.prems(4) 1(1) w show ?case
    by (auto simp: rd_simps)
qed

lemma matches_stored:
  assumes "look db (TOKEN token) = Some (RJson (JObj p), e)" and "map_of p (lit ''fingerprint'') = Some (JStr d)"
    and "d \<noteq> []" and "fingerprint_digest S fp = Inr d'"
  shows "token_fingerprint_matches R S token fp db = (Inr (d = d'), db)"
  using assms by (simp add: token_fingerprint_matches_def rd_simps x_get_def get_look)

end

section \<open>The contract of guarded sessions\<close>

text \<open>
  The contract that web sessions and admin sessions share: a key pattern and a reader of the
  payload that does not depend on the time of the last access.
\<close>

locale guarded_session = redis_server R look watch_state
  for R :: "'db redis" and look watch_state +
  fixes S :: SessionStore
    and key_of :: "ustr \<Rightarrow> ustr"
    and build :: "ustr \<Rightarrow> json \<Rightarrow> 'a result"
    and get :: "ustr \<Rightarrow> ustr \<Rightarrow> int \<Rightarrow> round \<Rightarrow> ('db, 'a option) eff"
  assumes get_eq: "get sid fp now r =
      rbind (with_pipeline R (touch_session R S (key_of sid) now fp r)) (\<lambda>p.
      case p of None \<Rightarrow> rreturn None | Some payload \<Rightarrow> rbind (rlift (build sid payload)) (\<lambda>d. rreturn (Some d)))"
    and build_seen: "build sid (JObj (set_field (lit ''last_seen_ts'') v p)) = build sid (JObj p)"
begin

lemma get_quiet:
  assumes "watch_state db = None" and "look db (key_of sid) = Some (RJson (JObj p), Some ms)"
    and "quiet (key_of sid) r" "round_ms r < ms"
    and "map_of p (lit ''browser_fingerprint'') = Some (JStr d0)" "d0 \<noteq> []"
    and "map_of p (lit ''last_seen_ts'') = Some (JInt ls)"
    and "fingerprint_digest S fp = Inr d" and b: "build sid (JObj p) = Inr data"
  shows "\<exists>db'. get sid fp now r db
      = (Inr (if d0 = d \<and> now - ls \<le> web_idle_ttl S then Some data else None), db')
    \<and> watch_state db' = None
    \<and> (\<not> (d0 = d \<and> now - ls \<le> web_idle_ttl S) \<longrightarrow> look db' (key_of sid) = None)"
proof -
  from touch_quiet [OF assms(1-8), of now] show ?thesis
    by (cases "d0 \<noteq> d \<or> web_idle_ttl S < now - ls") (auto simp: get_eq rd_simps build_seen b)
qed

text \<open>A write by another connection after the payload was read breaks the watch.\<close>

lemma drop_session_race:
  assumes "watch_state db = Some (k, True)" and "0 < t"
  shows "\<exists>db'. drop_session R k [ICmd (Setex k t v)] p db = (Inr (Some p), db')
    \<and> look db' k = look (r_step R db (ICmd (Setex k t v))) k"
  using exec_simps(3) [OF cmd_touch [OF assms, of v], of "Del k"]
  by (auto simp: drop_session_def rd_simps x_env_def)

lemma get_race:
  assumes w: "watch_state db = None" and l: "look db (key_of sid) = Some (RJson (JObj p), Some ms)"
    and fp: "map_of p (lit ''browser_fingerprint'') = Some (JStr d0)" "d0 \<noteq> []" "d0 \<noteq> d"
    and d: "fingerprint_digest S fp = Inr d" and b: "build sid (JObj p) = Inr data" and "0 < t"
  shows "\<exists>db'. get sid fp now ([], [ICmd (Setex (key_of sid) t v)], i3) db = (Inr (Some data), db')"
proof -
  let ?k = "key_of sid" and ?db1 = "r_watch R db (key_of sid)"
  have "r_get R ?db1 ?k = Some (RJson (JObj p))" by (simp add: get_look watch_look l)
  moreover obtain db4 where "drop_session R ?k [ICmd (Setex ?k t v)] (JObj p) ?db1 = (Inr (Some (JObj p)), db4)"
    using drop_session_race [OF watch_watch [OF w] \<open>0 < t\<close>, of "key_of sid" v "JObj p"] by blast
  ultimately have "touch_session R S ?k now fp ([], [ICmd (Setex ?k t v)], i3) db = (Inr (Some (JObj p)), db4)"
    using fp d by (simp add: touch_session_def x_simps rd_simps del: r_env_Cons)
  then show ?thesis by (simp add: get_eq with_pipeline_def rd_simps b)
qed

end

sublocale redis_server \<subseteq> web: guarded_session R look watch_state S WEB_SESSION "web_session_of S" "get_web_session R S" for S
  by unfold_locales (simp_all add: get_web_session_def web_session_of_def lit_eval)

sublocale redis_server \<subseteq> admin: guarded_session R look watch_state S ADMIN_WEB_SESSION admin_session_of "get_admin_web_session R S" for S
  by unfold_locales (simp_all add: get_admin_web_session_def admin_session_of_def lit_eval)

context redis_server
begin

lemmas guarded_web = web.get_quiet web.get_race

lemmas guarded_admin = admin.get_quiet admin.get_race

end

section \<open>Properties\<close>

definition store_ok :: "SessionStore \<Rightarrow> bool" where
  "store_ok S \<longleftrightarrow> aead_ok (cipher S) \<and> length (enc_key S) = 32 \<and> (\<forall>b. sha256_hex S b \<noteq> [])"

lemma digest_not_Nil: "store_ok S \<Longrightarrow> fingerprint_digest S fp = Inr d \<Longrightarrow> d \<noteq> []"
  by (auto simp: store_ok_def fingerprint_digest_def bind_result_Inr)

lemma decrypt_stored:
  "store_ok S \<Longrightarrow> length nonce = 12 \<Longrightarrow> encrypt (cipher S) (enc_key S) nonce s aad = Inr blob \<Longrightarrow>
    decrypt (cipher S) (enc_key S) blob aad = Inr s"
  by (simp add: store_ok_def decrypt_encrypt)

context redis_server
begin

lemma create_session_stored:
  assumes "store_ok S" and "length nonce = 12"
    and "create_session R S token nonce username password host port server_id display db = (Inr t, db1)"
  shows "\<exists>p. look db1 (TOKEN token) = Some (RJson (JObj p), Some (1000 * nat (rdp_token_ttl S)))
    \<and> session_of S token (JObj p) = Inr \<lparr>sd_token = token, sd_username = username, sd_target_host = host,
        sd_target_port = port, sd_password = password, sd_fingerprint = JNull,
        sd_server_id = jopt server_id, sd_server_display = jopt display\<rparr>"
proof -
  obtain aad enc where a: "password_aad (lit ''rdp:token'') token username = Inr aad"
    and e: "encrypt (cipher S) (enc_key S) nonce password aad = Inr enc"
    using assms(3) by (auto simp: create_session_def rd_simps split: sum.splits)
  define p where "p = [(lit ''username'', JStr username), (lit ''password_enc'', JStr enc),
      (lit ''target_host'', JStr host), (lit ''target_port'', JInt port), (lit ''fingerprint'', JNull),
      (lit ''server_id'', jopt server_id), (lit ''server_display'', jopt display)]"
  have x: "x_setex R (TOKEN token) (rdp_token_ttl S) (RJson (JObj p)) db = (Inr (), db1)"
    using assms(3) a e by (auto simp: create_session_def rd_simps p_def split: prod.splits sum.splits)
  from x setex_ok [OF setex_okD [OF x], of db "TOKEN token" "RJson (JObj p)"]
  have "look db1 (TOKEN token) = Some (RJson (JObj p), Some (1000 * nat (rdp_token_ttl S)))"
    by (auto simp: x_setex_def)
  moreover have "session_of S token (JObj p) = Inr \<lparr>sd_token = token, sd_username = username, sd_target_host = host,
        sd_target_port = port, sd_password = password, sd_fingerprint = JNull,
        sd_server_id = jopt server_id, sd_server_display = jopt display\<rparr>"
    using a decrypt_stored [OF assms(1,2) e] by (simp add: session_of_def p_def lit_eval)
  ultimately show ?thesis by blast
qed

lemma create_web_session_stored:
  assumes "store_ok S" and "length nonce = 12" and w: "watch_state db = None"
    and c: "create_web_session R S sid nonce now username password groups guids fp db = (Inr t, db1)"
    and d: "fingerprint_digest S fp = Inr d" and wait: "wait < 1000 * nat (web_ttl S)"
  shows "watch_state (r_step R db1 (IWait wait)) = None
    \<and> (\<exists>p. look (r_step R db1 (IWait wait)) (WEB_SESSION sid) = Some (RJson (JObj p), Some (1000 * nat (web_ttl S) - wait))
      \<and> map_of p (lit ''browser_fingerprint'') = Some (JStr d) \<and> map_of p (lit ''last_seen_ts'') = Some (JInt now)
      \<and> web_session_of S sid (JObj p) = Inr \<lparr>ws_session_id = sid, ws_username = username, ws_groups = groups,
          ws_group_guids = guids, ws_password = password\<rparr>)"
proof -
  obtain aad enc where a: "password_aad (lit ''rdp:web'') sid username = Inr aad"
    and e: "encrypt (cipher S) (enc_key S) nonce password aad = Inr enc"
    using c by (auto simp: create_web_session_def rd_simps split: sum.splits)
  define p where "p = [(lit ''username'', JStr username), (lit ''password_enc'', JStr enc),
      (lit ''groups'', JArr (map JStr groups)), (lit ''group_guids'', JArr (map JStr guids)),
      (lit ''browser_fingerprint'', JStr d), (lit ''last_seen_ts'', JInt now)]"
  have x: "x_setex R (WEB_SESSION sid) (web_ttl S) (RJson (JObj p)) db = (Inr (), db1)"
    using c a e d by (auto simp: create_web_session_def rd_simps p_def split: prod.splits sum.splits)
  have "map_of p (lit ''browser_fingerprint'') = Some (JStr d)" "map_of p (lit ''last_seen_ts'') = Some (JInt now)"
    "web_session_of S sid (JObj p) = Inr \<lparr>ws_session_id = sid, ws_username = username, ws_groups = groups,
       ws_group_guids = guids, ws_password = password\<rparr>"
    using a decrypt_stored [OF assms(1,2) e] by (simp_all add: web_session_of_def p_def lit_eval)
  with setex_then_wait [OF w setex_okD [OF x] x wait] show ?thesis by blast
qed

lemma create_admin_session_stored:
  assumes w: "watch_state db = None"
    and c: "create_admin_web_session R S sid now uid username must fp ips db = (Inr t, db1)"
    and d: "fingerprint_digest S fp = Inr d" and wait: "wait < 1000 * nat (web_ttl S)"
  shows "watch_state (r_step R db1 (IWait wait)) = None
    \<and> (\<exists>p. look (r_step R db1 (IWait wait)) (ADMIN_WEB_SESSION sid) = Some (RJson (JObj p), Some (1000 * nat (web_ttl S) - wait))
      \<and> map_of p (lit ''browser_fingerprint'') = Some (JStr d) \<and> map_of p (lit ''last_seen_ts'') = Some (JInt now)
      \<and> admin_session_of sid (JObj p) = Inr \<lparr>as_session_id = sid, as_admin_user_id = uid, as_username = username,
          as_must_change_password = must, as_allowed_ips = (case ips of None \<Rightarrow> [] | Some l \<Rightarrow> l)\<rparr>)"
proof -
  define p where "p = [(lit ''admin_user_id'', JStr uid), (lit ''username'', JStr username),
      (lit ''must_change_password'', JBool must), (lit ''browser_fingerprint'', JStr d), (lit ''last_seen_ts'', JInt now),
      (lit ''allowed_ips'', JArr (map JStr (case ips of None \<Rightarrow> [] | Some l \<Rightarrow> l)))]"
  have x: "x_setex R (ADMIN_WEB_SESSION sid) (web_ttl S) (RJson (JObj p)) db = (Inr (), db1)"
    using c d by (auto simp: create_admin_web_session_def rd_simps p_def split: prod.splits sum.splits)
  have "map_of p (lit ''browser_fingerprint'') = Some (JStr d)" "map_of p (lit ''last_seen_ts'') = Some (JInt now)"
    "admin_session_of sid (JObj p) = Inr \<lparr>as_session_id = sid, as_admin_user_id = uid, as_username = username,
       as_must_change_password = must, as_allowed_ips = (case ips of None \<Rightarrow> [] | Some l \<Rightarrow> l)\<rparr>"
    by (auto simp: admin_session_of_def p_def lit_eval)
  with setex_then_wait [OF w setex_okD [OF x] x wait] show ?thesis by blast
qed

end

text \<open>A store for the witnesses.\<close>

definition ref_store :: SessionStore where
  "ref_store = \<lparr>web_ttl = 28800, rdp_token_ttl = 300, web_idle_ttl = 3600, enc_key = replicate 32 7,
     cipher = ref_aead, sha256_hex = (\<lambda>b. 49 # map unat b)\<rparr>"

lemma store_ok_ref: "store_ok ref_store"
  using aead_ok_ref by (simp add: store_ok_def ref_store_def)

text \<open>
  C18: The life of an RDP token. What \<^verbatim>\<open>create_session\<close> stored, with the password encrypted, is
  what \<^verbatim>\<open>get_session\<close> returns for the token, password included, until the time to live is over;
  from then on it returns nothing.
\<close>

theorem rdp_token_lifecycle:
  assumes "redis_server R look watch_state" and "store_ok S" and "length nonce = 12"
    and "create_session R S token nonce username password host port server_id display db = (Inr t, db1)"
  shows "fst (get_session R S token (r_step R db1 (IWait wait))) = Inr
    (if wait < 1000 * nat (rdp_token_ttl S)
     then Some \<lparr>sd_token = token, sd_username = username, sd_target_host = host, sd_target_port = port,
            sd_password = password, sd_fingerprint = JNull, sd_server_id = jopt server_id,
            sd_server_display = jopt display\<rparr>
     else None)"
proof -
  note R = assms(1)
  from redis_server.create_session_stored [OF R assms(2-4)] show ?thesis
    by (auto simp: get_session_def rd_simps x_get_def redis_server.get_look [OF R] redis_server.wait_look [OF R])
qed

theorem rdp_token_lifecycle_witness:
  "\<exists>db1. fst (get_session mem_redis ref_store (lit ''t-1'') (mem_step db1 (IWait 1000))) = Inr (Some
     \<lparr>sd_token = lit ''t-1'', sd_username = lit ''u'', sd_target_host = lit ''h'', sd_target_port = 3389,
      sd_password = lit ''p'', sd_fingerprint = JNull, sd_server_id = JNull, sd_server_display = JStr (lit ''d'')\<rparr>)"
proof -
  let ?c = "create_session mem_redis ref_store (lit ''t-1'') (replicate 12 0) (lit ''u'') (lit ''p'') (lit ''h'') 3389
     None (Some (lit ''d'')) empty_db"
  have "?c = (Inr (lit ''t-1''), snd ?c)"
    by (simp add: create_session_def rd_simps password_aad_def encrypt_def utf8_encode_def scalar_def lit_eval
        x_setex_def mem_redis_def mem_setex_def ref_store_def)
  from rdp_token_lifecycle [OF mem.redis_server_axioms store_ok_ref _ this, of 1000]
  show ?thesis by (auto simp: ref_store_def mem_redis_def)
qed

lemma stored_web_session:
  assumes "redis_server R look watch_state" and "store_ok S" and "length nonce = 12" and "watch_state db = None"
    and "create_web_session R S sid nonce now username password groups guids fp db = (Inr t, db1)"
    and "fingerprint_digest S fp = Inr d" and "fingerprint_digest S fp' = Inr d'"
    and "quiet (WEB_SESSION sid) r" and "wait + round_ms r < 1000 * nat (web_ttl S)"
  shows "\<exists>db2. get_web_session R S sid fp' now' r (r_step R db1 (IWait wait)) = (Inr
      (if d = d' \<and> now' - now \<le> web_idle_ttl S
       then Some \<lparr>ws_session_id = sid, ws_username = username, ws_groups = groups, ws_group_guids = guids,
              ws_password = password\<rparr>
       else None), db2)
    \<and> (\<not> (d = d' \<and> now' - now \<le> web_idle_ttl S) \<longrightarrow> look db2 (WEB_SESSION sid) = None)"
proof -
  note R = assms(1)
  have "wait < 1000 * nat (web_ttl S)" and r: "round_ms r < 1000 * nat (web_ttl S) - wait" using assms(9) by auto
  from redis_server.create_web_session_stored [OF R assms(2-6) this(1)]
  obtain p where "watch_state (r_step R db1 (IWait wait)) = None"
    "look (r_step R db1 (IWait wait)) (WEB_SESSION sid) = Some (RJson (JObj p), Some (1000 * nat (web_ttl S) - wait))"
    "map_of p (lit ''browser_fingerprint'') = Some (JStr d)" "map_of p (lit ''last_seen_ts'') = Some (JInt now)"
    "web_session_of S sid (JObj p) = Inr \<lparr>ws_session_id = sid, ws_username = username, ws_groups = groups,
       ws_group_guids = guids, ws_password = password\<rparr>" by blast
  from redis_server.guarded_web(1) [OF R this(1,2) assms(8) r this(3) digest_not_Nil [OF assms(2,6)] this(4) assms(7) this(5)]
  show ?thesis by blast
qed



text \<open>
  The life of an administrator session: the same guard, and the stored identity, the
  change-password flag and the list of allowed addresses are what is returned.
\<close>

lemma admin_session_lifecycle:
  assumes "redis_server R look watch_state" and "store_ok S" and "watch_state db = None"
    and "create_admin_web_session R S sid now uid username must fp ips db = (Inr t, db1)"
    and "fingerprint_digest S fp = Inr d" and "fingerprint_digest S fp' = Inr d'"
    and "quiet (ADMIN_WEB_SESSION sid) r" and "wait + round_ms r < 1000 * nat (web_ttl S)"
  shows "\<exists>db2. get_admin_web_session R S sid fp' now' r (r_step R db1 (IWait wait)) = (Inr
      (if d = d' \<and> now' - now \<le> web_idle_ttl S
       then Some \<lparr>as_session_id = sid, as_admin_user_id = uid, as_username = username,
              as_must_change_password = must, as_allowed_ips = (case ips of None \<Rightarrow> [] | Some l \<Rightarrow> l)\<rparr>
       else None), db2)
    \<and> (\<not> (d = d' \<and> now' - now \<le> web_idle_ttl S) \<longrightarrow> look db2 (ADMIN_WEB_SESSION sid) = None)"
proof -
  note R = assms(1)
  have "wait < 1000 * nat (web_ttl S)" and r: "round_ms r < 1000 * nat (web_ttl S) - wait" using assms(8) by auto
  from redis_server.create_admin_session_stored [OF R assms(3-5) this(1)]
  obtain p where "watch_state (r_step R db1 (IWait wait)) = None"
    "look (r_step R db1 (IWait wait)) (ADMIN_WEB_SESSION sid) = Some (RJson (JObj p), Some (1000 * nat (web_ttl S) - wait))"
    "map_of p (lit ''browser_fingerprint'') = Some (JStr d)" "map_of p (lit ''last_seen_ts'') = Some (JInt now)"
    "admin_session_of sid (JObj p) = Inr \<lparr>as_session_id = sid, as_admin_user_id = uid, as_username = username,
       as_must_change_password = must, as_allowed_ips = (case ips of None \<Rightarrow> [] | Some l \<Rightarrow> l)\<rparr>" by blast
  from redis_server.guarded_admin(1) [OF R this(1,2) assms(7) r this(3) digest_not_Nil [OF assms(2,5)] this(4) assms(6) this(5)]
  show ?thesis by blast
qed

lemma admin_session_lifecycle_witness:
  "\<exists>db1 db2. get_admin_web_session mem_redis ref_store (lit ''s'') (lit ''g'') 1060 ([], [], [])
      (mem_step db1 (IWait 60000)) = (Inr None, db2) \<and> mem_look db2 (ADMIN_WEB_SESSION (lit ''s'')) = None"
proof -
  let ?c = "create_admin_web_session mem_redis ref_store (lit ''s'') 1000 (lit ''1'') (lit ''root'') True (lit ''f'') None empty_db"
  have c: "?c = (Inr (lit ''s''), snd ?c)"
    by (simp add: create_admin_web_session_def rd_simps utf8_encode_def scalar_def lit_eval
        fingerprint_digest_def x_setex_def mem_redis_def mem_setex_def ref_store_def)
  have d: "fingerprint_digest ref_store (lit ''f'') = Inr [49, 102]" "fingerprint_digest ref_store (lit ''g'') = Inr [49, 103]"
    by (simp_all add: fingerprint_digest_def utf8_encode_def scalar_def lit_eval utf8_char_def ref_store_def)
  have q: "quiet k ([], [], [])" for k by (simp add: quiet_def)
  from admin_session_lifecycle [OF mem.redis_server_axioms store_ok_ref _ c d q, of 60000 1060]
  show ?thesis by (auto simp: empty_db_def ref_store_def mem_redis_def round_ms_def)
qed

text \<open>
  C26: The guard has a race. When another connection writes the session between the read and the
  transaction, as a concurrent request of the legitimate browser does, \<^verbatim>\<open>get_web_session\<close> and
  \<^verbatim>\<open>get_admin_web_session\<close> swallow the \<^verbatim>\<open>WatchError\<close> and return the session, although the fingerprint
  is a different one.
\<close>

theorem session_guard_race:
  assumes "redis_server R look watch_state" and "watch_state db = None" and "0 < t"
    and "fingerprint_digest S fp = Inr d"
    and "map_of p (lit ''browser_fingerprint'') = Some (JStr d0)" and "d0 \<noteq> []" and "d0 \<noteq> d"
  shows "(look db (WEB_SESSION sid) = Some (RJson (JObj p), Some ms) \<longrightarrow> web_session_of S sid (JObj p) = Inr web \<longrightarrow>
      (\<exists>db'. get_web_session R S sid fp now ([], [ICmd (Setex (WEB_SESSION sid) t v)], []) db = (Inr (Some web), db')))
    \<and> (look db (ADMIN_WEB_SESSION sid) = Some (RJson (JObj p), Some ms) \<longrightarrow> admin_session_of sid (JObj p) = Inr adm \<longrightarrow>
      (\<exists>db'. get_admin_web_session R S sid fp now ([], [ICmd (Setex (ADMIN_WEB_SESSION sid) t v)], []) db = (Inr (Some adm), db')))"
  using redis_server.guarded_web(2) [OF assms(1,2) _ assms(5-7,4) _ assms(3)]
    redis_server.guarded_admin(2) [OF assms(1,2) _ assms(5-7,4) _ assms(3)]
  by blast

definition race_payload :: "(ustr \<times> json) list" where
  "race_payload = [(lit ''admin_user_id'', JStr (lit ''1'')), (lit ''username'', JStr (lit ''root'')),
     (lit ''browser_fingerprint'', JStr (lit ''abc'')), (lit ''last_seen_ts'', JInt 0)]"

definition race_db :: mem_db where
  "race_db = \<lparr>items = [(ADMIN_WEB_SESSION (lit ''s''), RJson (JObj race_payload), Some 5000)], mem_watch = None\<rparr>"

theorem session_guard_race_witness:
  "\<exists>db'. get_admin_web_session mem_redis ref_store (lit ''s'') (lit ''f'') 9999999
      ([], [ICmd (Setex (ADMIN_WEB_SESSION (lit ''s'')) 5 (RJson (JObj race_payload)))], []) race_db
    = (Inr (Some \<lparr>as_session_id = lit ''s'', as_admin_user_id = lit ''1'', as_username = lit ''root'',
        as_must_change_password = False, as_allowed_ips = []\<rparr>), db')"
proof -
  have "fingerprint_digest ref_store (lit ''f'') = Inr [49, 102]"
    by (simp add: fingerprint_digest_def utf8_encode_def scalar_def lit_eval utf8_char_def ref_store_def)
  moreover have "map_of race_payload (lit ''browser_fingerprint'') = Some (JStr (lit ''abc''))"
    by (simp add: race_payload_def lit_eval)
  moreover have "mem_look race_db (ADMIN_WEB_SESSION (lit ''s'')) = Some (RJson (JObj race_payload), Some 5000)"
    by (simp add: mem_look_def race_db_def)
  moreover have "admin_session_of (lit ''s'') (JObj race_payload) = Inr \<lparr>as_session_id = lit ''s'',
      as_admin_user_id = lit ''1'', as_username = lit ''root'', as_must_change_password = False, as_allowed_ips = []\<rparr>"
    by (simp add: admin_session_of_def race_payload_def lit_eval)
  ultimately show ?thesis
    using session_guard_race [OF mem.redis_server_axioms, of race_db 5 ref_store "lit ''f''" "[49, 102]" race_payload "lit ''abc''" "lit ''s''" 5000]
    by (simp add: race_db_def lit_eval)
qed

text \<open>
  C27: Binding a token to a client. \<^verbatim>\<open>set_token_fingerprint\<close> repeats its transaction as often as other
  connections write the token under it, and returns true in the first undisturbed round: the
  payload is then the one written last by others, with the new fingerprint and nothing else
  changed, so that no update is lost. From then on \<^verbatim>\<open>token_fingerprint_matches\<close> accepts exactly the
  fingerprints with the same digest. The life of the token is not extended by more than half a
  second.
\<close>

theorem token_fingerprint_bound:
  assumes "redis_server R look watch_state" and "store_ok S" and "watch_state db = None"
    and "look db (TOKEN token) = Some (RJson (JObj p), Some ms)" and "500 \<le> ms"
    and "\<forall>w \<in> set ws. 0 < fst w"
    and "quiet (TOKEN token) r"
    and "round_ms r + 500 \<le> (if ws = [] then ms else 1000 * nat (fst (last ws)))"
    and "fingerprint_digest S fp = Inr d" and "fingerprint_digest S fp' = Inr d'"
  shows "\<exists>db' ms'. set_token_fingerprint R S token fp (map (disturbed token) ws @ r # rs) db = (Inr (Some True), db')
    \<and> look db' (TOKEN token)
        = Some (RJson (JObj (set_field (lit ''fingerprint'') (JStr d) (last (p # map snd ws)))), Some ms')
    \<and> ms' \<le> (if ws = [] then ms else 1000 * nat (fst (last ws))) + 500
    \<and> token_fingerprint_matches R S token fp' db' = (Inr (d = d'), db')"
proof -
  note R = assms(1)
  obtain db1 where 1: "fingerprint_loop R S token fp (map (disturbed token) ws @ r # rs) db = fingerprint_loop R S token fp (r # rs) db1"
    "watch_state db1 = None" "look db1 (TOKEN token) = Some (RJson (JObj (last (p # map snd ws))),
       Some (if ws = [] then ms else 1000 * nat (fst (last ws))))"
    using redis_server.loop_retries [OF R assms(3-6,9), of "r # rs"] by auto
  obtain db2 ms' where 2: "fingerprint_round R S token fp r db1 = (Inr (Some True), db2)"
    "look db2 (TOKEN token) = Some (RJson (JObj (set_field (lit ''fingerprint'') (JStr d) (last (p # map snd ws)))), Some ms')"
    "ms' \<le> (if ws = [] then ms else 1000 * nat (fst (last ws))) + 500"
    using redis_server.round_quiet [OF R 1(2,3) assms(7,8,9)] by blast
  have "look (r_unwatch R db2) = look db2" using redis_server.unwatch [OF R] by blast
  moreover have "set_token_fingerprint R S token fp (map (disturbed token) ws @ r # rs) db = (Inr (Some True), r_unwatch R db2)"
    by (simp add: set_token_fingerprint_def with_pipeline_def 1(1) rd_simps 2(1))
  moreover have "token_fingerprint_matches R S token fp' (r_unwatch R db2) = (Inr (d = d'), r_unwatch R db2)"
    using redis_server.matches_stored [OF R _ _ digest_not_Nil [OF assms(2,9)] assms(10)] 2(2)
    by (simp add: calculation(1))
  ultimately show ?thesis using 2(2,3) by auto
qed

definition token_db :: mem_db where
  "token_db = \<lparr>items = [(TOKEN (lit ''t''), RJson (JObj [(lit ''username'', JStr (lit ''u''))]), Some 5000)], mem_watch = None\<rparr>"

theorem token_fingerprint_bound_witness:
  "\<exists>db' ms'. set_token_fingerprint mem_redis ref_store (lit ''t'') (lit ''f'')
        (map (disturbed (lit ''t'')) [(7, [(lit ''username'', JStr (lit ''v''))])] @ ([], [], []) # []) token_db = (Inr (Some True), db')
    \<and> mem_look db' (TOKEN (lit ''t'')) = Some (RJson (JObj (set_field (lit ''fingerprint'') (JStr [49, 102])
          (last ([(lit ''username'', JStr (lit ''u''))] # map snd [(7 :: int, [(lit ''username'', JStr (lit ''v''))])])))), Some ms')
    \<and> ms' \<le> (if [(7 :: int, [(lit ''username'', JStr (lit ''v''))])] = [] then 5000
          else 1000 * nat (fst (last [(7 :: int, [(lit ''username'', JStr (lit ''v''))])]))) + 500
    \<and> token_fingerprint_matches mem_redis ref_store (lit ''t'') (lit ''g'') db' = (Inr ([49, 102 :: nat] = [49, 103]), db')"
  by (rule token_fingerprint_bound [OF mem.redis_server_axioms store_ok_ref])
    (simp_all add: token_db_def mem_look_def quiet_def round_ms_def fingerprint_digest_def utf8_encode_def
      scalar_def lit_eval utf8_char_def ref_store_def)

end
