(* ===== verification/Relay_Plugins.thy ===== *)
theory Relay_Plugins
  imports Mcs
begin

text \<open>
  The plugins of the relay (\<^verbatim>\<open>src/services/rdp_relay/plugins/\<close>: \<^verbatim>\<open>base.py\<close>, \<^verbatim>\<open>registry.py\<close>,
  \<^verbatim>\<open>mcs_patch.py\<close>, \<^verbatim>\<open>session_monitor.py\<close>, and the packet hooks and the task table of
  \<^verbatim>\<open>connection_quality.py\<close>) and the one-way pump and its result (\<^verbatim>\<open>src/services/rdp_relay/relay.py\<close>).
  Times of the monotonic clock are integers of nanoseconds. The locale \<open>packet_hook\<close> is the
  contract of a data hook, that it keeps the length of a packet; the registry keeps it, whatever
  plugins raise.
\<close>

section \<open>Plugins\<close>

record SessionContext =
  connection_id :: ustr
  ctx_username :: ustr
  client_ip :: ustr
  ctx_target_host :: ustr
  ctx_target_port :: int
  ctx_instance_id :: ustr
  client_requested_protocols :: "nat option"
  has_sockets :: bool

record McsPatchPlugin =
  client_first :: bool
  backend_first :: bool

record SessionMonitorPlugin =
  idle_timeout :: int
  max_session_duration :: int
  last_activity :: int
  started_at :: int

datatype plugin =
    McsPatch McsPatchPlugin
  | SessionMonitor SessionMonitorPlugin
  | ConnectionQuality "ustr list"

definition seconds :: "int \<Rightarrow> int" where
  "seconds n = n * 10 ^ 9"

definition mcs_session_start :: "McsPatchPlugin \<Rightarrow> McsPatchPlugin" where
  "mcs_session_start p = p\<lparr>client_first := True, backend_first := True\<rparr>"

definition mcs_client_packet :: "bytes \<Rightarrow> McsPatchPlugin \<Rightarrow> bytes result \<times> McsPatchPlugin" where
  "mcs_client_packet data p =
    (if client_first p then (patch_mcs_client data, p\<lparr>client_first := False\<rparr>) else (Inr data, p))"

definition mcs_backend_packet :: "SessionContext \<Rightarrow> bytes \<Rightarrow> McsPatchPlugin \<Rightarrow> bytes result \<times> McsPatchPlugin" where
  "mcs_backend_packet ctx data p =
    (if backend_first p
     then (patch_mcs_server data (client_requested_protocols ctx), p\<lparr>backend_first := False\<rparr>)
     else (Inr data, p))"

definition update_timeouts :: "int \<Rightarrow> int \<Rightarrow> SessionMonitorPlugin \<Rightarrow> SessionMonitorPlugin" where
  "update_timeouts idle dur p = p\<lparr>idle_timeout := idle, max_session_duration := dur\<rparr>"

definition monitor_session_start :: "int \<Rightarrow> SessionMonitorPlugin \<Rightarrow> SessionMonitorPlugin" where
  "monitor_session_start now p = p\<lparr>last_activity := now, started_at := now\<rparr>"

definition monitor_packet :: "int \<Rightarrow> SessionMonitorPlugin \<Rightarrow> SessionMonitorPlugin" where
  "monitor_packet now p = p\<lparr>last_activity := now\<rparr>"

definition is_idle :: "int \<Rightarrow> SessionMonitorPlugin \<Rightarrow> bool" where
  "is_idle now p \<longleftrightarrow> 0 < idle_timeout p \<and> seconds (idle_timeout p) < now - last_activity p"

definition is_duration_exceeded :: "int \<Rightarrow> SessionMonitorPlugin \<Rightarrow> bool" where
  "is_duration_exceeded now p =
    (if max_session_duration p \<le> 0 then False else seconds (max_session_duration p) < now - started_at p)"

text \<open>
  The hooks of a plugin. The quality plugin keeps one monitoring task per connection and does not
  look at packets; the session monitor only notes the time.
\<close>

fun plugin_session_start :: "int \<Rightarrow> SessionContext \<Rightarrow> plugin \<Rightarrow> plugin" where
  "plugin_session_start now ctx (McsPatch p) = McsPatch (mcs_session_start p)"
| "plugin_session_start now ctx (SessionMonitor p) = SessionMonitor (monitor_session_start now p)"
| "plugin_session_start now ctx (ConnectionQuality tasks) =
     (if has_sockets ctx then ConnectionQuality (connection_id ctx # removeAll (connection_id ctx) tasks)
      else ConnectionQuality tasks)"

fun plugin_client_packet :: "int \<Rightarrow> SessionContext \<Rightarrow> plugin \<Rightarrow> bytes \<Rightarrow> bytes result \<times> plugin" where
  "plugin_client_packet now ctx (McsPatch p) data =
     (case mcs_client_packet data p of (r, p') \<Rightarrow> (r, McsPatch p'))"
| "plugin_client_packet now ctx (SessionMonitor p) data = (Inr data, SessionMonitor (monitor_packet now p))"
| "plugin_client_packet now ctx (ConnectionQuality tasks) data = (Inr data, ConnectionQuality tasks)"

fun plugin_backend_packet :: "int \<Rightarrow> SessionContext \<Rightarrow> plugin \<Rightarrow> bytes \<Rightarrow> bytes result \<times> plugin" where
  "plugin_backend_packet now ctx (McsPatch p) data =
     (case mcs_backend_packet ctx data p of (r, p') \<Rightarrow> (r, McsPatch p'))"
| "plugin_backend_packet now ctx (SessionMonitor p) data = (Inr data, SessionMonitor (monitor_packet now p))"
| "plugin_backend_packet now ctx (ConnectionQuality tasks) data = (Inr data, ConnectionQuality tasks)"

fun plugin_session_end :: "SessionContext \<Rightarrow> plugin \<Rightarrow> plugin" where
  "plugin_session_end ctx (ConnectionQuality tasks) = ConnectionQuality (removeAll (connection_id ctx) tasks)"
| "plugin_session_end ctx p = p"

section \<open>The registry\<close>

text \<open>A hook that raises is logged and the packet goes on as it was.\<close>

fun chain :: "('p \<Rightarrow> bytes \<Rightarrow> bytes result \<times> 'p) \<Rightarrow> 'p list \<Rightarrow> bytes \<Rightarrow> bytes \<times> 'p list" where
  "chain h [] data = (data, [])"
| "chain h (p # ps) data = (case h p data of (r, p') \<Rightarrow>
     (case chain h ps (case r of Inr d \<Rightarrow> d | Inl e \<Rightarrow> data) of (d, ps') \<Rightarrow> (d, p' # ps')))"

definition on_session_start :: "int \<Rightarrow> SessionContext \<Rightarrow> plugin list \<Rightarrow> plugin list" where
  "on_session_start now ctx ps = map (plugin_session_start now ctx) ps"

definition on_client_packet :: "int \<Rightarrow> SessionContext \<Rightarrow> plugin list \<Rightarrow> bytes \<Rightarrow> bytes \<times> plugin list" where
  "on_client_packet now ctx = chain (plugin_client_packet now ctx)"

definition on_backend_packet :: "int \<Rightarrow> SessionContext \<Rightarrow> plugin list \<Rightarrow> bytes \<Rightarrow> bytes \<times> plugin list" where
  "on_backend_packet now ctx = chain (plugin_backend_packet now ctx)"

definition on_session_end :: "SessionContext \<Rightarrow> plugin list \<Rightarrow> plugin list" where
  "on_session_end ctx ps = map (plugin_session_end ctx) ps"

fun get_monitor :: "plugin list \<Rightarrow> SessionMonitorPlugin option" where
  "get_monitor [] = None"
| "get_monitor (SessionMonitor p # ps) = Some p"
| "get_monitor (_ # ps) = get_monitor ps"

text \<open>The plugins of the service, as \<^verbatim>\<open>run_server\<close> registers them once for all connections.\<close>

definition relay_plugins :: "int \<Rightarrow> int \<Rightarrow> plugin list" where
  "relay_plugins idle dur = [McsPatch \<lparr>client_first = True, backend_first = True\<rparr>,
     SessionMonitor \<lparr>idle_timeout = idle, max_session_duration = dur, last_activity = 0, started_at = 0\<rparr>,
     ConnectionQuality []]"

section \<open>The pump\<close>

datatype leg_reason = Eof | Killed | IncompleteRead | SslError | ConnectionError | SslShutdownTimeout | OtherError exn

datatype direction = ClientToBackend | BackendToClient

record LegResult =
  leg_direction :: direction
  transferred :: nat
  leg_reason :: leg_reason

fun reason_of :: "exn \<Rightarrow> leg_reason" where
  "reason_of IncompleteReadError = IncompleteRead"
| "reason_of SSLError = SslError"
| "reason_of ConnectionResetError = ConnectionError"
| "reason_of ConnectionAbortedError = ConnectionError"
| "reason_of BrokenPipeError = ConnectionError"
| "reason_of TimeoutError = SslShutdownTimeout"
| "reason_of e = OtherError e"

text \<open>
  What one turn of the loop meets: whether the kill event is set, the time, the outcome of the read
  (an empty chunk is the end of the stream) and of the write.
\<close>

record turn =
  kill_set :: bool
  clock :: int
  chunk :: "bytes result"
  write_error :: "exn option"

fun pipe :: "direction \<Rightarrow> SessionContext \<Rightarrow> turn list \<Rightarrow> plugin list \<Rightarrow> nat \<Rightarrow> bytes list \<times> LegResult \<times> plugin list" where
  "pipe dir ctx [] ps n = ([], \<lparr>leg_direction = dir, transferred = n, leg_reason = Eof\<rparr>, ps)"
| "pipe dir ctx (t # ts) ps n =
     (if kill_set t then ([], \<lparr>leg_direction = dir, transferred = n, leg_reason = Killed\<rparr>, ps)
      else case chunk t of
        Inl e \<Rightarrow> ([], \<lparr>leg_direction = dir, transferred = n, leg_reason = reason_of e\<rparr>, ps)
      | Inr [] \<Rightarrow> ([], \<lparr>leg_direction = dir, transferred = n, leg_reason = Eof\<rparr>, ps)
      | Inr data \<Rightarrow>
          (case (if dir = ClientToBackend then on_client_packet (clock t) ctx ps data
                 else on_backend_packet (clock t) ctx ps data) of
            (data, ps) \<Rightarrow>
              (case write_error t of
                Some e \<Rightarrow> ([data], \<lparr>leg_direction = dir, transferred = n + length data, leg_reason = reason_of e\<rparr>, ps)
              | None \<Rightarrow> (case pipe dir ctx ts ps (n + length data) of (out, r, ps) \<Rightarrow> (data # out, r, ps)))))"

record RelayResult =
  bytes_to_client :: nat
  bytes_to_backend :: nat
  legs :: "LegResult list"

text \<open>The result of the two tasks; a task that was cancelled or raised has no leg.\<close>

definition relay_result :: "LegResult result list \<Rightarrow> RelayResult" where
  "relay_result results = foldl (\<lambda>acc item. case item of
      Inl e \<Rightarrow> acc
    | Inr l \<Rightarrow> (let acc = acc\<lparr>legs := legs acc @ [l]\<rparr> in
        if leg_direction l = ClientToBackend then acc\<lparr>bytes_to_backend := transferred l\<rparr>
        else acc\<lparr>bytes_to_client := transferred l\<rparr>))
    \<lparr>bytes_to_client = 0, bytes_to_backend = 0, legs = []\<rparr> results"

text \<open>The poller asks until a check says kill or the relay cancels it; the event is set at most once.\<close>

fun kill_poller :: "bool list \<Rightarrow> bool" where
  "kill_poller [] = False"
| "kill_poller (killed # rest) = (if killed then True else kill_poller rest)"

section \<open>Hooks keep the length\<close>

locale packet_hook =
  fixes h :: "'p \<Rightarrow> bytes \<Rightarrow> bytes result \<times> 'p"
  assumes keeps_length: "h p data = (Inr d, p') \<Longrightarrow> length d = length data"
begin

lemma chain_length: "length (fst (chain h ps data)) = length data"
proof (induction ps arbitrary: data)
  case (Cons p ps)
  obtain r p' where r: "h p data = (r, p')" by force
  show ?case
  proof (cases r)
    case (Inl e)
    then show ?thesis using Cons [of data] r by (cases "chain h ps data") simp
  next
    case (Inr d)
    then show ?thesis using Cons [of d] r keeps_length [of p data d p'] by (cases "chain h ps d") simp
  qed
qed simp

end

interpretation client_hook: packet_hook "plugin_client_packet now ctx" for now ctx
proof
  fix p data d p'
  show "plugin_client_packet now ctx p data = (Inr d, p') \<Longrightarrow> length d = length data"
    using length_patch_mcs_client
    by (cases p) (auto simp: mcs_client_packet_def split: if_splits prod.splits)
qed

interpretation backend_hook: packet_hook "plugin_backend_packet now ctx" for now ctx
proof
  fix p data d p'
  show "plugin_backend_packet now ctx p data = (Inr d, p') \<Longrightarrow> length d = length data"
    using length_patch_mcs_server
    by (cases p) (auto simp: mcs_backend_packet_def split: if_splits prod.splits)
qed

section \<open>What a leg forwards\<close>

text \<open>The chunks that a leg reads before it stops.\<close>

fun chunks :: "turn list \<Rightarrow> bytes list" where
  "chunks [] = []"
| "chunks (t # ts) = (if kill_set t then [] else case chunk t of
     Inl e \<Rightarrow> [] | Inr [] \<Rightarrow> []
   | Inr data \<Rightarrow> data # (if write_error t = None then chunks ts else []))"

lemma patch_mcs_client_Inr: "patch_mcs_client data = Inr (mcs_client_spec data)"
  by (rule patch_mcs_client_spec)

definition patched_by_client :: "bool \<Rightarrow> bytes list \<Rightarrow> bytes list" where
  "patched_by_client first ds = (case ds of [] \<Rightarrow> [] | d # r \<Rightarrow> (if first then mcs_client_spec d else d) # r)"

definition patched_by_server :: "SessionContext \<Rightarrow> bool \<Rightarrow> bytes list \<Rightarrow> bytes list" where
  "patched_by_server ctx first ds = (case ds of [] \<Rightarrow> []
   | d # r \<Rightarrow> (if first then (case patch_mcs_server d (client_requested_protocols ctx) of Inr d' \<Rightarrow> d' | Inl e \<Rightarrow> d) else d) # r)"

lemma on_client_packet_service:
  "on_client_packet now ctx [McsPatch a, SessionMonitor b, ConnectionQuality c] data =
    (if client_first a then mcs_client_spec data else data,
     [McsPatch (a\<lparr>client_first := False\<rparr>), SessionMonitor (b\<lparr>last_activity := now\<rparr>), ConnectionQuality c])"
  by (simp add: on_client_packet_def mcs_client_packet_def patch_mcs_client_Inr monitor_packet_def)

lemma on_backend_packet_service:
  "on_backend_packet now ctx [McsPatch a, SessionMonitor b, ConnectionQuality c] data =
    (if backend_first a then (case patch_mcs_server data (client_requested_protocols ctx) of Inr d \<Rightarrow> d | Inl e \<Rightarrow> data) else data,
     [McsPatch (a\<lparr>backend_first := False\<rparr>), SessionMonitor (b\<lparr>last_activity := now\<rparr>), ConnectionQuality c])"
  by (simp add: on_backend_packet_def mcs_backend_packet_def monitor_packet_def split: sum.split)

lemma pipe_client_chunks:
  "fst (pipe ClientToBackend ctx ts [McsPatch a, SessionMonitor b, ConnectionQuality c] n)
    = patched_by_client (client_first a) (chunks ts)"
proof (induction ts arbitrary: a b n)
  case (Cons t ts)
  show ?case
  proof (cases "chunk t")
    case (Inr data)
    show ?thesis
    proof (cases data)
      case (Cons x xs)
      obtain out r ps where "pipe ClientToBackend ctx ts [McsPatch (a\<lparr>client_first := False\<rparr>),
          SessionMonitor (b\<lparr>last_activity := clock t\<rparr>), ConnectionQuality c]
          (n + length (if client_first a then mcs_client_spec data else data)) = (out, r, ps)" by (metis prod_cases3)
      with Cons.IH [of "a\<lparr>client_first := False\<rparr>" "b\<lparr>last_activity := clock t\<rparr>"
          "n + length (if client_first a then mcs_client_spec data else data)"] Inr Cons
      show ?thesis
        by (auto simp: on_client_packet_service patched_by_client_def split: option.split list.splits)
    qed (simp add: Inr patched_by_client_def)
  qed (simp add: patched_by_client_def)
qed (simp add: patched_by_client_def)

lemma pipe_backend_chunks:
  "fst (pipe BackendToClient ctx ts [McsPatch a, SessionMonitor b, ConnectionQuality c] n)
    = patched_by_server ctx (backend_first a) (chunks ts)"
proof (induction ts arbitrary: a b n)
  case (Cons t ts)
  show ?case
  proof (cases "chunk t")
    case (Inr data)
    show ?thesis
    proof (cases data)
      case (Cons x xs)
      let ?d = "fst (on_backend_packet (clock t) ctx [McsPatch a, SessionMonitor b, ConnectionQuality c] data)"
      obtain out r ps where "pipe BackendToClient ctx ts [McsPatch (a\<lparr>backend_first := False\<rparr>),
          SessionMonitor (b\<lparr>last_activity := clock t\<rparr>), ConnectionQuality c] (n + length ?d) = (out, r, ps)"
        by (metis prod_cases3)
      with Cons.IH [of "a\<lparr>backend_first := False\<rparr>" "b\<lparr>last_activity := clock t\<rparr>" "n + length ?d"] Inr Cons
      show ?thesis
        by (auto simp: on_backend_packet_service patched_by_server_def split: option.split list.splits)
    qed (simp add: Inr patched_by_server_def)
  qed (simp add: patched_by_server_def)
qed (simp add: patched_by_server_def)

lemma pipe_transferred:
  "case pipe dir ctx ts ps n of (out, r, ps') \<Rightarrow>
    transferred r = n + length (concat (chunks ts)) \<and> leg_direction r = dir"
proof (induction ts arbitrary: ps n)
  case (Cons t ts)
  have len: "length (fst (on_client_packet (clock t) ctx ps data)) = length data"
    "length (fst (on_backend_packet (clock t) ctx ps data)) = length data" for data
    unfolding on_client_packet_def on_backend_packet_def
    by (rule client_hook.chain_length, rule backend_hook.chain_length)
  show ?case
  proof (cases "chunk t")
    case (Inr data)
    let ?h = "if dir = ClientToBackend then on_client_packet (clock t) ctx ps data else on_backend_packet (clock t) ctx ps data"
    have "length (fst ?h) = length data" using len by simp
    with Cons [of "n + length (fst ?h)" "snd ?h"] Inr show ?thesis
      by (cases ?h; cases data) (auto split: option.split prod.splits)
  qed simp
qed simp

section \<open>Properties\<close>

text \<open>
  What the relay forwards. Of a connection that the service's plugins serve alone, every chunk
  goes to the other side unchanged and in order, except that the first one from the client has the
  selected protocol patched and the first one from the backend the requested protocols restored;
  the count of a leg is the number of bytes read, because no hook changes the length of a packet.
\<close>

lemma relay_forwards:
  "fst (pipe ClientToBackend ctx ts (on_session_start now ctx (relay_plugins idle dur)) 0)
      = patched_by_client True (chunks ts)
    \<and> fst (pipe BackendToClient ctx ts (on_session_start now ctx (relay_plugins idle dur)) 0)
      = patched_by_server ctx True (chunks ts)
    \<and> transferred (fst (snd (pipe dir ctx ts (on_session_start now ctx (relay_plugins idle dur)) 0)))
      = length (concat (chunks ts))"
proof -
  obtain c where ps: "on_session_start now ctx (relay_plugins idle dur) = [McsPatch \<lparr>client_first = True, backend_first = True\<rparr>,
      SessionMonitor \<lparr>idle_timeout = idle, max_session_duration = dur, last_activity = now, started_at = now\<rparr>, ConnectionQuality c]"
    by (cases "has_sockets ctx") (simp_all add: on_session_start_def relay_plugins_def mcs_session_start_def monitor_session_start_def)
  show ?thesis
    using pipe_transferred [where ps = "on_session_start now ctx (relay_plugins idle dur)" and n = 0 and dir = dir and ctx = ctx and ts = ts]
    by (auto simp: ps pipe_client_chunks pipe_backend_chunks split: prod.splits)
qed

section \<open>Connections that share the registry\<close>

text \<open>
  The service has one registry for all its connections. What the connections do, in the order in
  which the event loop serves them, with the time of each event.
\<close>

datatype relay_event = EStart SessionContext | EClient SessionContext bytes | EBackend SessionContext bytes
  | EEnd SessionContext

fun serve :: "(int \<times> relay_event) list \<Rightarrow> plugin list \<Rightarrow> bytes list \<times> plugin list" where
  "serve [] ps = ([], ps)"
| "serve ((now, EStart ctx) # es) ps = serve es (on_session_start now ctx ps)"
| "serve ((now, EClient ctx d) # es) ps = (case on_client_packet now ctx ps d of
     (d', ps) \<Rightarrow> (case serve es ps of (out, ps) \<Rightarrow> (d' # out, ps)))"
| "serve ((now, EBackend ctx d) # es) ps = (case on_backend_packet now ctx ps d of
     (d', ps) \<Rightarrow> (case serve es ps of (out, ps) \<Rightarrow> (d' # out, ps)))"
| "serve ((now, EEnd ctx) # es) ps = serve es (on_session_end ctx ps)"

definition service_shape :: "plugin list \<Rightarrow> bool" where
  "service_shape ps \<longleftrightarrow> (\<exists>a b c. ps = [McsPatch a, SessionMonitor b, ConnectionQuality c])"

lemma service_shape_start: "service_shape ps \<Longrightarrow> service_shape (on_session_start now ctx ps)"
  by (auto simp: service_shape_def on_session_start_def)

lemma service_shape_end: "service_shape ps \<Longrightarrow> service_shape (on_session_end ctx ps)"
  by (auto simp: service_shape_def on_session_end_def)

lemma serve_shape: "service_shape ps \<Longrightarrow> service_shape (snd (serve es ps))"
proof (induction es ps rule: serve.induct)
  case (3 now ctx d es ps)
  then obtain a b c where "ps = [McsPatch a, SessionMonitor b, ConnectionQuality c]" by (auto simp: service_shape_def)
  with 3 show ?case by (auto simp: on_client_packet_service service_shape_def split: prod.split)
next
  case (4 now ctx d es ps)
  then obtain a b c where "ps = [McsPatch a, SessionMonitor b, ConnectionQuality c]" by (auto simp: service_shape_def)
  with 4 show ?case by (auto simp: on_backend_packet_service service_shape_def split: prod.split)
qed (simp_all add: service_shape_start service_shape_end)

lemma serve_append: "serve (es @ fs) ps = (case serve es ps of (o1, ps') \<Rightarrow>
    (case serve fs ps' of (o2, ps'') \<Rightarrow> (o1 @ o2, ps'')))"
  by (induction es ps rule: serve.induct) (auto split: prod.split)

lemma shape_relay_plugins: "service_shape (relay_plugins idle dur)"
  by (simp add: service_shape_def relay_plugins_def)

text \<open>
  C28: Connections that share the plugins disturb each other. Whatever happened before: if connection
  B starts while A runs, the next packet of A is patched again and the first packet of B, its MCS
  Connect-Initial, is not patched; and right after any packet of B the monitor that A's kill check
  asks says that A is not idle, for however long A has sent nothing.
\<close>

theorem shared_plugins_interfere:
  "fst (serve (es @ [(t1, EStart ctx_b), (t2, EClient ctx_a d1), (t3, EClient ctx_b d2)]) (relay_plugins idle dur))
      = fst (serve es (relay_plugins idle dur)) @ [mcs_client_spec d1, d2]
    \<and> map_option (is_idle t3) (get_monitor (snd (serve (es @ [(t3, EClient ctx_b d2)]) (relay_plugins idle dur)))) = Some False"
proof -
  obtain o1 ps where s: "serve es (relay_plugins idle dur) = (o1, ps)" by force
  then have "service_shape ps" using serve_shape [OF shape_relay_plugins, of es idle dur] by simp
  then obtain a b c where "ps = [McsPatch a, SessionMonitor b, ConnectionQuality c]" by (auto simp: service_shape_def)
  with s show ?thesis
    by (simp add: serve_append on_session_start_def on_client_packet_service mcs_session_start_def
        monitor_session_start_def is_idle_def seconds_def)
qed

end
