(* ===== verification/Connection_Quality.thy ===== *)
theory Connection_Quality
  imports Relay_Plugins Redis_Store
begin

text \<open>
  The measurement of \<^verbatim>\<open>src/services/rdp_relay/plugins/connection_quality.py\<close>: the fields of the
  kernel's \<^verbatim>\<open>struct tcp_info\<close>, the sampling of round-trip time, jitter and retransmissions over a
  sliding window, the rating, and its publication in the active-session record of Redis. Floating
  point numbers are modelled as exact rationals.
\<close>

section \<open>TCP info\<close>

definition WINDOW_SIZE :: nat where
  "WINDOW_SIZE = 20"

record TcpInfo =
  tcpi_retransmits :: nat
  tcpi_lost :: nat
  tcpi_rtt :: nat
  tcpi_rttvar :: nat
  tcpi_snd_cwnd :: nat
  tcpi_total_retrans :: nat

text \<open>
  The structure has eight bytes and twenty-four 32-bit fields in the byte order of the host, little
  endian here: 104 bytes. A shorter buffer is a \<^verbatim>\<open>ValueError\<close>.
\<close>

definition u32_at :: "bytes \<Rightarrow> nat \<Rightarrow> nat" where
  "u32_at buf i = le_nat (slice buf i (i + 4))"

definition from_buffer_copy :: "bytes \<Rightarrow> TcpInfo result" where
  "from_buffer_copy buf = (if length buf < 104 then Inl ValueError else Inr \<lparr>
     tcpi_retransmits = unat (buf ! 2), tcpi_lost = u32_at buf 32, tcpi_rtt = u32_at buf 68,
     tcpi_rttvar = u32_at buf 72, tcpi_snd_cwnd = u32_at buf 80, tcpi_total_retrans = u32_at buf 100\<rparr>)"

definition read_tcp_info :: "bytes result \<Rightarrow> TcpInfo option result" where
  "read_tcp_info sockopt = (case bind_result sockopt from_buffer_copy of
      Inr i \<Rightarrow> Inr (Some i)
    | Inl e \<Rightarrow> if e = OSError \<or> e = ValueError then Inr None else Inl e)"

section \<open>Rating\<close>

datatype rating = Poor | Fair | Good | Excellent

fun rank :: "rating \<Rightarrow> nat" where
  "rank Poor = 0" | "rank Fair = 1" | "rank Good = 2" | "rank Excellent = 3"

lemma rank_inject: "rank a = rank b \<longleftrightarrow> a = b"
  by (cases a; cases b) simp_all

instantiation rating :: linorder
begin

definition less_eq_rating :: "rating \<Rightarrow> rating \<Rightarrow> bool" where
  "less_eq_rating a b \<longleftrightarrow> rank a \<le> rank b"

definition less_rating :: "rating \<Rightarrow> rating \<Rightarrow> bool" where
  "less_rating a b \<longleftrightarrow> rank a < rank b"

instance
  by standard (auto simp: less_eq_rating_def less_rating_def rank_inject)

end

definition compute_rating :: "rat \<Rightarrow> rat \<Rightarrow> int \<Rightarrow> rating" where
  "compute_rating rtt_ms jitter_ms retrans_per_interval =
    (if rtt_ms < 20 \<and> jitter_ms < 5 \<and> retrans_per_interval = 0 then Excellent
     else if rtt_ms < 50 \<and> jitter_ms < 15 \<and> retrans_per_interval < 5 then Good
     else if rtt_ms < 150 \<and> jitter_ms < 40 then Fair
     else Poor)"

section \<open>Sampling\<close>

record QualitySnapshot =
  rtt_ms :: rat
  rtt_var_ms :: rat
  jitter_ms :: rat
  retransmits :: nat
  total_retrans :: nat
  lost :: nat
  cwnd :: nat
  snap_rating :: rating

text \<open>\<^verbatim>\<open>round(x, 2)\<close>, ties to the even digit.\<close>

definition round_even :: "rat \<Rightarrow> int" where
  "round_even x = (let f = floor x; d = x - of_int f in
     if d < 1 / 2 then f else if 1 / 2 < d then f + 1 else if even f then f else f + 1)"

definition round2 :: "rat \<Rightarrow> rat" where
  "round2 x = of_int (round_even (x * 100)) / 100"

definition deque_append :: "rat list \<Rightarrow> rat \<Rightarrow> rat list" where
  "deque_append h x = (let h = h @ [x] in drop (length h - WINDOW_SIZE) h)"

definition jitter_of :: "rat list \<Rightarrow> rat" where
  "jitter_of h = (if 2 \<le> length h
     then let mean = sum_list h / of_nat (length h) in sum_list (map (\<lambda>v. \<bar>v - mean\<bar>) h) / of_nat (length h)
     else 0)"

definition sample :: "TcpInfo option \<Rightarrow> TcpInfo option \<Rightarrow> rat list \<Rightarrow> nat \<Rightarrow> QualitySnapshot option \<times> nat \<times> rat list" where
  "sample c_info b_info rtt_history prev_total_retrans = (case (c_info, b_info) of
      (Some c, Some b) \<Rightarrow>
        let rtt = of_nat (tcpi_rtt c + tcpi_rtt b) / 1000;
            rtt_var = of_nat (tcpi_rttvar c + tcpi_rttvar b) / 1000;
            rtt_history = deque_append rtt_history rtt;
            jitter = jitter_of rtt_history;
            total = tcpi_total_retrans c + tcpi_total_retrans b;
            retrans_delta = max 0 (int total - int prev_total_retrans)
        in (Some \<lparr>rtt_ms = round2 rtt, rtt_var_ms = round2 rtt_var, jitter_ms = round2 jitter,
              retransmits = tcpi_retransmits c + tcpi_retransmits b, total_retrans = total,
              lost = tcpi_lost c + tcpi_lost b, cwnd = min (tcpi_snd_cwnd c) (tcpi_snd_cwnd b),
              snap_rating = compute_rating rtt jitter retrans_delta\<rparr>, total, rtt_history)
    | _ \<Rightarrow> (None, prev_total_retrans, rtt_history))"

text \<open>The loop of the monitoring task: the snapshots it publishes, one per reading.\<close>

fun monitor_loop :: "(TcpInfo option \<times> TcpInfo option) list \<Rightarrow> rat list \<Rightarrow> nat \<Rightarrow> QualitySnapshot list" where
  "monitor_loop [] h prev = []"
| "monitor_loop ((c, b) # rs) h prev = (case sample c b h prev of
     (None, prev, h) \<Rightarrow> monitor_loop rs h prev
   | (Some s, prev, h) \<Rightarrow> s # monitor_loop rs h prev)"

section \<open>Publication\<close>

fun rating_str :: "rating \<Rightarrow> ustr" where
  "rating_str Excellent = lit ''excellent''"
| "rating_str Good = lit ''good''"
| "rating_str Fair = lit ''fair''"
| "rating_str Poor = lit ''poor''"

definition asdict :: "QualitySnapshot \<Rightarrow> json" where
  "asdict s = JObj [
     (lit ''rtt_ms'', JFloat (rtt_ms s)),
     (lit ''rtt_var_ms'', JFloat (rtt_var_ms s)),
     (lit ''jitter_ms'', JFloat (jitter_ms s)),
     (lit ''retransmits'', JInt (int (retransmits s))),
     (lit ''total_retrans'', JInt (int (total_retrans s))),
     (lit ''lost'', JInt (int (lost s))),
     (lit ''cwnd'', JInt (int (cwnd s))),
     (lit ''rating'', JStr (rating_str (snap_rating s)))]"

text \<open>Every exception, the \<^verbatim>\<open>WatchError\<close> included, is logged and swallowed.\<close>

definition publish_body :: "'db redis \<Rightarrow> ustr \<Rightarrow> QualitySnapshot \<Rightarrow> istep list \<times> istep list \<Rightarrow> ('db, unit) eff" where
  "publish_body R key snapshot = (\<lambda>(i1, i2).
    rbind (x_watch R key) (\<lambda>_.
    rbind (x_env R i1) (\<lambda>_.
    rbind (x_get R key) (\<lambda>raw.
    rbind (if raw_truthy raw \<and> raw \<noteq> Some (RText (lit ''1'')) then rlift (json_loads raw) else rreturn (JObj [])) (\<lambda>data.
    rbind (rlift (jset data (lit ''connection_quality'') (JStr (rating_str (snap_rating snapshot))))) (\<lambda>data.
    rbind (rlift (jset data (lit ''quality_detail'') (asdict snapshot))) (\<lambda>data.
    rbind (x_env R i2) (\<lambda>_.
    rbind (x_exec R (Setex key (24 * 3600) (RJson data))) (\<lambda>_. rreturn ())))))))))"

definition publish :: "'db redis \<Rightarrow> ustr \<Rightarrow> ustr \<Rightarrow> QualitySnapshot \<Rightarrow> istep list \<times> istep list \<Rightarrow> ('db, unit) eff" where
  "publish R instance_id cid snapshot i db =
    (case with_pipeline R (publish_body R (ACTIVE_SESSION instance_id cid) snapshot i) db of (r, db') \<Rightarrow> (Inr (), db'))"

section \<open>Properties\<close>

lemma length_deque_append: "length (deque_append h x) = min WINDOW_SIZE (Suc (length h))"
  by (simp add: deque_append_def Let_def WINDOW_SIZE_def)

lemma jitter_nonneg: "0 \<le> jitter_of h"
proof -
  have "0 \<le> sum_list (map (\<lambda>v. \<bar>v - m\<bar>) h)" for m :: rat
    by (rule sum_list_nonneg) auto
  then show ?thesis by (simp add: jitter_of_def Let_def)
qed

text \<open>
  The rating is monotone: a connection with no shorter round-trip time, no smaller jitter and
  no fewer retransmissions is never rated better.
\<close>

lemma rating_monotone:
  assumes "r \<le> r'" and "j \<le> j'" and "n \<le> n'" and "0 \<le> n"
  shows "compute_rating r' j' n' \<le> compute_rating r j n"
  using assms by (simp add: compute_rating_def less_eq_rating_def)

lemma rating_monotone_witness:
  "compute_rating 60 3 2 \<le> compute_rating 10 3 0 \<and> compute_rating 10 3 0 = Excellent \<and> compute_rating 60 3 2 = Fair"
  using rating_monotone [of 10 60 3 3 0 2] by (simp add: compute_rating_def)

text \<open>
  Publishing brings the record of an active session into being if it is not there: after
  \<^verbatim>\<open>finish\<close> has removed it, a monitoring task that still runs creates it again, with the quality
  only and a day to live, so that a closed session is listed as active. A record that is there
  keeps its other fields. The call never raises.
\<close>

lemma publish_creates_record:
  assumes "redis_server R look watch_state" and "watch_state db = None"
    and "look db (ACTIVE_SESSION iid cid) = (if missing then None else Some (RJson (JObj p), e))"
  shows "\<exists>db' q. publish R iid cid s ([], []) db = (Inr (), db')
    \<and> look db' (ACTIVE_SESSION iid cid) = Some (RJson (JObj q), Some 86400000)
    \<and> map_of q = (if missing then Map.empty else map_of p)
         (lit ''connection_quality'' \<mapsto> JStr (rating_str (snap_rating s)), lit ''quality_detail'' \<mapsto> asdict s)"
proof -
  note R = assms(1)
  let ?k = "ACTIVE_SESSION iid cid" and ?db1 = "r_watch R db (ACTIVE_SESSION iid cid)"
  define q where "q = set_field (lit ''quality_detail'') (asdict s) (set_field (lit ''connection_quality'')
      (JStr (rating_str (snap_rating s))) (if missing then [] else p))"
  have "watch_state ?db1 = Some (?k, True)" by (rule redis_server.watch_watch [OF R assms(2)])
  from redis_server.exec_setex [OF R this, of 86400 "RJson (JObj q)"] obtain db2
    where 2: "r_exec R ?db1 (Setex ?k 86400 (RJson (JObj q))) = (True, db2)"
      "look db2 ?k = Some (RJson (JObj q), Some 86400000)" by auto
  have "r_get R ?db1 ?k = (if missing then None else Some (RJson (JObj p)))"
    using assms(3) by (simp add: redis_server.get_look [OF R] redis_server.watch_look [OF R])
  then have "publish_body R ?k s ([], []) db = (Inr (), db2)"
    using 2(1) by (cases missing) (simp_all add: publish_body_def rd_simps x_simps q_def)
  with 2(2) redis_server.unwatch [OF R, of db2] show ?thesis
    by (intro exI [of _ "r_unwatch R db2"] exI [of _ q]) (simp add: publish_def with_pipeline_def q_def)
qed

definition ref_snapshot :: QualitySnapshot where
  "ref_snapshot = \<lparr>rtt_ms = 10, rtt_var_ms = 1, jitter_ms = 0, retransmits = 0, total_retrans = 0, lost = 0,
     cwnd = 10, snap_rating = Excellent\<rparr>"

lemma publish_creates_record_witness:
  "\<exists>db' q. publish mem_redis (lit ''n'') (lit ''c'') ref_snapshot ([], []) empty_db = (Inr (), db')
    \<and> mem_look db' (ACTIVE_SESSION (lit ''n'') (lit ''c'')) = Some (RJson (JObj q), Some 86400000)
    \<and> map_of q = (if True then Map.empty else map_of [])
         (lit ''connection_quality'' \<mapsto> JStr (rating_str (snap_rating ref_snapshot)), lit ''quality_detail'' \<mapsto> asdict ref_snapshot)"
  by (rule publish_creates_record [OF mem.redis_server_axioms, where e = None])
    (simp_all add: empty_db_def mem_look_def)

end
