(* ===== verification/Uuid.thy ===== *)
theory Uuid
  imports Py_Text
begin

text \<open>
  \<^verbatim>\<open>uuid.UUID(text)\<close> and \<^verbatim>\<open>str(uuid)\<close> of the standard library. A UUID is its 128-bit number.
  Parsing accepts many spellings of the same UUID (upper case, braces, a URN prefix, hyphens
  anywhere); printing gives one of them, which is parsed back.
\<close>

text \<open>\<^verbatim>\<open>int(h, 16)\<close>: whitespace, one sign, an optional \<^verbatim>\<open>0x\<close>, hexadecimal digits with underscores.\<close>

definition unsigned_hex :: "ustr \<Rightarrow> nat option" where
  "unsigned_hex s = (case s of
      a # b # r \<Rightarrow> if a = 48 \<and> (b = 120 \<or> b = 88)
        then (case r of c # r' \<Rightarrow> if c = 95 then unsigned_val hex_digit 16 r' else unsigned_val hex_digit 16 r
              | [] \<Rightarrow> None)
        else unsigned_val hex_digit 16 s
    | _ \<Rightarrow> unsigned_val hex_digit 16 s)"

definition int_base16 :: "ustr \<Rightarrow> int result" where
  "int_base16 s =
     (let t = strip s;
          (neg, body) = (case t of [] \<Rightarrow> (False, t)
                         | c # cs \<Rightarrow> if c = 45 then (True, cs) else if c = 43 then (False, cs) else (False, t))
      in case unsigned_hex body of
           None \<Rightarrow> Inl ValueError
         | Some v \<Rightarrow> Inr (if neg then - int v else int v))"

definition strip_braces :: "ustr \<Rightarrow> ustr" where
  "strip_braces s = rev (dropWhile (\<lambda>c. c = 123 \<or> c = 125) (rev (dropWhile (\<lambda>c. c = 123 \<or> c = 125) s)))"

definition uuid_of :: "ustr \<Rightarrow> nat result" where
  "uuid_of s =
    (let h = py_replace (lit ''uuid:'') [] (py_replace (lit ''urn:'') [] s);
         h = filter (\<lambda>c. c \<noteq> 45) (strip_braces h)
     in if length h \<noteq> 32 then Inl ValueError
        else bind_result (int_base16 h) (\<lambda>i. if 0 \<le> i \<and> i < 2 ^ 128 then Inr (nat i) else Inl ValueError))"

text \<open>The last \<open>k\<close> hexadecimal digits of a number, and the canonical spelling.\<close>

fun hex_fixed :: "nat \<Rightarrow> nat \<Rightarrow> ustr" where
  "hex_fixed 0 n = []"
| "hex_fixed (Suc k) n = hex_fixed k (n div 16) @ [hex_char (n mod 16)]"

definition uuid_str :: "nat \<Rightarrow> ustr" where
  "uuid_str n = (let h = hex_fixed 32 n in
     take 8 h @ [45] @ take 4 (drop 8 h) @ [45] @ take 4 (drop 12 h) @ [45] @ take 4 (drop 16 h) @ [45] @ drop 20 h)"

lemma length_hex_fixed [simp]: "length (hex_fixed k n) = k"
  by (induction k arbitrary: n) auto

lemma hex_char_range: "d < 16 \<Longrightarrow> 48 \<le> hex_char d \<and> hex_char d \<le> 57 \<or> 97 \<le> hex_char d \<and> hex_char d \<le> 102"
  by (auto simp: hex_char_def)

lemma hex_fixed_range: "c \<in> set (hex_fixed k n) \<Longrightarrow> 48 \<le> c \<and> c \<le> 57 \<or> 97 \<le> c \<and> c \<le> 102"
proof (induction k arbitrary: n)
  case (Suc k)
  then consider "c \<in> set (hex_fixed k (n div 16))" | "c = hex_char (n mod 16)" by auto
  then show ?case using Suc.IH hex_char_range [of "n mod 16"] by cases auto
qed simp

lemma digits_val_snoc:
  "list_all (\<lambda>c. dig c \<noteq> None) s \<Longrightarrow> dig c = Some d \<Longrightarrow>
    digits_val dig b acc (s @ [c]) = map_option (\<lambda>v. v * b + d) (digits_val dig b acc s)"
  by (induction s arbitrary: acc) auto

lemma hex_fixed_digits: "list_all (\<lambda>c. hex_digit c \<noteq> None) (hex_fixed k n)"
  by (induction k arbitrary: n) (auto simp: hex_digit_char)

lemma digits_val_hex_fixed: "digits_val hex_digit 16 acc (hex_fixed k n) = Some (acc * 16 ^ k + n mod 16 ^ k)"
proof (induction k arbitrary: n)
  case (Suc k)
  have "(acc * 16 ^ k + n div 16 mod 16 ^ k) * 16 + n mod 16 = acc * 16 ^ Suc k + n mod 16 ^ Suc k"
    by (simp add: mod_mult2_eq algebra_simps)
  moreover have "digits_val hex_digit 16 acc (hex_fixed (Suc k) n)
      = map_option (\<lambda>v. v * 16 + n mod 16) (digits_val hex_digit 16 acc (hex_fixed k (n div 16)))"
    using digits_val_snoc [OF hex_fixed_digits, where c = "hex_char (n mod 16)" and d = "n mod 16"]
    by (simp add: hex_digit_char)
  ultimately show ?case by (simp only: Suc) simp
qed simp

lemma replace_absent: "list_all (\<lambda>c. c \<noteq> hd old) s \<Longrightarrow> old \<noteq> [] \<Longrightarrow> replace_at old new s = s"
proof (induction s)
  case (Cons a s)
  then have "\<not> starts_with old (a # s)" by (cases old) (auto simp: starts_with_def)
  with Cons show ?case by (simp add: replace_at.simps [of _ _ "a # s"])
qed (simp add: replace_at.simps)

lemma uuid_str_chars: "c \<in> set (uuid_str n) \<Longrightarrow> c = 45 \<or> 48 \<le> c \<and> c \<le> 57 \<or> 97 \<le> c \<and> c \<le> 102"
  using hex_fixed_range [of c 32 n]
  by (auto simp: uuid_str_def Let_def dest: in_set_takeD in_set_dropD)

lemma filter_hyphens: "filter (\<lambda>c. c \<noteq> 45) (uuid_str n) = hex_fixed 32 n"
proof -
  define h where "h = hex_fixed 32 n"
  have f: "filter (\<lambda>c. c \<noteq> 45) s = s" if "set s \<subseteq> set h" for s
    using that hex_fixed_range [of 45 32 n] by (auto simp: h_def filter_id_conv)
  have s: "set (take i (drop j h)) \<subseteq> set h" "set (drop j h) \<subseteq> set h" "set (take i h) \<subseteq> set h" for i j
    by (auto dest: in_set_takeD in_set_dropD)
  have "take 8 h @ take 4 (drop 8 h) @ take 4 (drop 12 h) @ take 4 (drop 16 h) @ drop 20 h = h"
    using append_take_drop_id [of 8 h] append_take_drop_id [of 4 "drop 8 h"]
      append_take_drop_id [of 4 "drop 12 h"] append_take_drop_id [of 4 "drop 16 h"] by simp
  then show ?thesis
    unfolding uuid_str_def Let_def h_def [symmetric] by (simp add: f s)
qed

lemma strip_braces_id: "list_all (\<lambda>c. c \<noteq> 123 \<and> c \<noteq> 125) s \<Longrightarrow> strip_braces s = s"
proof -
  assume a: "list_all (\<lambda>c. c \<noteq> 123 \<and> c \<noteq> 125) s"
  then have "dropWhile (\<lambda>c. c = 123 \<or> c = 125) s = s" "dropWhile (\<lambda>c. c = 123 \<or> c = 125) (rev s) = rev s"
    by (auto simp: dropWhile_eq_self_iff list_all_iff hd_rev)
  then show ?thesis by (simp add: strip_braces_def)
qed

lemma int_base16_hex_fixed: "int_base16 (hex_fixed (Suc (Suc k)) n) = Inr (int (n mod 16 ^ Suc (Suc k)))"
proof -
  obtain a b r where h: "hex_fixed (Suc (Suc k)) n = a # b # r"
    using length_hex_fixed [of "Suc (Suc k)" n] by (metis length_Suc_conv)
  have ch: "48 \<le> c \<and> c \<le> 57 \<or> 97 \<le> c \<and> c \<le> 102" if "c \<in> set (a # b # r)" for c
    using hex_fixed_range [of c "Suc (Suc k)" n] that unfolding h .
  have "\<not> py_isspace c" if "c \<in> set (a # b # r)" for c
    using ch [OF that] by (auto simp: py_isspace_def py_spaces_def)
  then have "strip (a # b # r) = a # b # r" by (intro strip_no_space) (simp add: list_all_iff)
  moreover have "a \<noteq> 45" "a \<noteq> 43" "b \<noteq> 120" "b \<noteq> 88" using ch [of a] ch [of b] by auto
  moreover have "unsigned_val hex_digit 16 (a # b # r) = Some (n mod 16 ^ Suc (Suc k))"
  proof -
    have "hex_digit a \<noteq> None" using hex_fixed_digits [of "Suc (Suc k)" n] unfolding h by simp
    then obtain d where "hex_digit a = Some d" by auto
    then have "unsigned_val hex_digit 16 (a # b # r) = digits_val hex_digit 16 0 (a # b # r)"
      by (simp add: unsigned_val_def)
    then show ?thesis using digits_val_hex_fixed [of 0 "Suc (Suc k)" n] by (simp only: h) simp
  qed
  ultimately show ?thesis unfolding h by (simp add: int_base16_def unsigned_hex_def)
qed

lemma uuid_of_uuid_str: "n < 2 ^ 128 \<Longrightarrow> uuid_of (uuid_str n) = Inr n"
proof -
  assume n: "n < 2 ^ 128"
  have "list_all (\<lambda>c. c \<noteq> 117) (uuid_str n)" "list_all (\<lambda>c. c \<noteq> 123 \<and> c \<noteq> 125) (uuid_str n)"
    using uuid_str_chars by (fastforce simp: list_all_iff)+
  then have "py_replace (lit ''uuid:'') [] (py_replace (lit ''urn:'') [] (uuid_str n)) = uuid_str n"
    "strip_braces (uuid_str n) = uuid_str n"
    by (simp_all add: py_replace_def replace_absent strip_braces_id lit_eval)
  moreover have "int_base16 (hex_fixed 32 n) = Inr (int n)"
    using int_base16_hex_fixed [of 30 n] n by simp
  ultimately show ?thesis using n by (simp add: uuid_of_def filter_hyphens)
qed

lemma uuid_str_inject: "a < 2 ^ 128 \<Longrightarrow> b < 2 ^ 128 \<Longrightarrow> uuid_str a = uuid_str b \<Longrightarrow> a = b"
  by (metis uuid_of_uuid_str Inr_inject)

lemma length_uuid_str: "length (uuid_str n) = 36"
  by (simp add: uuid_str_def slice_def Let_def)

lemma uuid_str_no_colon: "58 \<notin> set (uuid_str n)"
  using uuid_str_chars [of 58 n] by auto

lemma uuid_str_hyphen: "45 \<in> set (uuid_str n)"
  by (simp add: uuid_str_def Let_def)

end
