(* ===== verification/Connection_Tracker.thy ===== *)
theory Connection_Tracker
  imports Redis_Store Uuid
begin

text \<open>
  The connection tracker of \<^verbatim>\<open>src/libs/redis_store/active_tracker.py\<close> over the tables of
  \<^verbatim>\<open>src/libs/db/models/history.py\<close> and the active-session keys of Redis. A table is the list of its
  rows and a statement of the source is its meaning on that list; a database error is an argument
  of the operation: the transaction then has no effect and the exception goes on. Times are integers;
  \<^verbatim>\<open>isoformat()\<close> texts are arguments.
\<close>

section \<open>Tables\<close>

datatype conn_status = SActive | SClosed | SError | SKilled

record ConnectionHistory =
  h_id :: nat
  h_instance_id :: ustr
  h_username :: ustr
  h_server_id :: "nat option"
  h_server_display :: "ustr option"
  h_server_address :: ustr
  h_server_port :: int
  h_client_ip :: ustr
  h_started_at :: int
  h_ended_at :: "int option"
  h_bytes_to_client :: int
  h_bytes_to_backend :: int
  h_disconnect_reason :: "ustr option"
  h_status :: conn_status

record ConnectionEvent =
  ev_connection_id :: nat
  ev_ts :: int
  ev_type :: ustr
  ev_detail :: json

record 'db world =
  rdb :: 'db
  history :: "ConnectionHistory list"
  conn_events :: "ConnectionEvent list"

text \<open>An update of the rows that satisfy a condition, with its row count.\<close>

definition sql_update :: "('r \<Rightarrow> bool) \<Rightarrow> ('r \<Rightarrow> 'r) \<Rightarrow> 'r list \<Rightarrow> 'r list" where
  "sql_update c f rows = map (\<lambda>r. if c r then f r else r) rows"

definition rowcount :: "('r \<Rightarrow> bool) \<Rightarrow> 'r list \<Rightarrow> nat" where
  "rowcount c rows = length (filter c rows)"

definition on_redis :: "('db, 'a) eff \<Rightarrow> ('db world, 'a) eff" where
  "on_redis m w = (case m (rdb w) of (r, db) \<Rightarrow> (r, w\<lparr>rdb := db\<rparr>))"

definition on_db :: "exn option \<Rightarrow> ('db world \<Rightarrow> 'a \<times> 'db world) \<Rightarrow> ('db world, 'a) eff" where
  "on_db dbx f w = (case dbx of Some e \<Rightarrow> (Inl e, w) | None \<Rightarrow> (case f w of (a, w') \<Rightarrow> (Inr a, w')))"

section \<open>The tracker\<close>

record TrackedConnection =
  tc_connection_id :: ustr
  tc_username :: ustr
  tc_server_address :: ustr
  tc_server_port :: int

record ConnectionTracker =
  has_db :: bool
  has_redis :: bool
  t_instance_id :: ustr

definition parse_server_id :: "ustr option \<Rightarrow> nat option" where
  "parse_server_id server_id = (case server_id of
      None \<Rightarrow> None
    | Some s \<Rightarrow> if s = [] then None else (case uuid_of s of Inr u \<Rightarrow> Some u | Inl e \<Rightarrow> None))"

definition start :: "'db redis \<Rightarrow> ConnectionTracker \<Rightarrow> exn option \<Rightarrow> nat \<Rightarrow> int \<Rightarrow> ustr \<Rightarrow> ustr \<Rightarrow> ustr option
    \<Rightarrow> ustr option \<Rightarrow> ustr \<Rightarrow> int \<Rightarrow> ustr \<Rightarrow> ('db world, TrackedConnection) eff" where
  "start R T dbx uid now now_iso username server_id server_display server_address server_port client_ip =
    (let cid = uuid_str uid in
    rbind (if has_db T
      then on_db dbx (\<lambda>w. ((), w\<lparr>history := history w @ [\<lparr>h_id = uid, h_instance_id = t_instance_id T,
        h_username = username, h_server_id = parse_server_id server_id, h_server_display = server_display,
        h_server_address = server_address, h_server_port = server_port, h_client_ip = client_ip,
        h_started_at = now, h_ended_at = None, h_bytes_to_client = 0, h_bytes_to_backend = 0,
        h_disconnect_reason = None, h_status = SActive\<rparr>]\<rparr>))
      else rreturn ()) (\<lambda>_.
    rbind (if has_redis T
      then on_redis (x_setex R (ACTIVE_SESSION (t_instance_id T) cid) (24 * 3600) (RJson (JObj [
        (lit ''username'', JStr username),
        (lit ''server_display'', (case server_display of None \<Rightarrow> JNull | Some d \<Rightarrow> JStr d)),
        (lit ''server_address'', JStr server_address),
        (lit ''server_port'', JInt server_port),
        (lit ''client_ip'', JStr client_ip),
        (lit ''started_at'', JStr now_iso),
        (lit ''instance_id'', JStr (t_instance_id T))])))
      else rreturn ()) (\<lambda>_.
    rreturn \<lparr>tc_connection_id = cid, tc_username = username, tc_server_address = server_address,
      tc_server_port = server_port\<rparr>)))"

definition event :: "ConnectionTracker \<Rightarrow> exn option \<Rightarrow> int \<Rightarrow> ustr \<Rightarrow> ustr \<Rightarrow> json \<Rightarrow> ('db world, unit) eff" where
  "event T dbx now cid event_type detail =
    (if has_db T
     then rbind (rlift (uuid_of cid)) (\<lambda>u.
       on_db dbx (\<lambda>w. ((), w\<lparr>conn_events := conn_events w @
         [\<lparr>ev_connection_id = u, ev_ts = now, ev_type = event_type, ev_detail = detail\<rparr>]\<rparr>)))
     else rreturn ())"

definition finish_rows :: "nat \<Rightarrow> int \<Rightarrow> conn_status \<Rightarrow> ustr option \<Rightarrow> int \<Rightarrow> int \<Rightarrow> ConnectionHistory list \<Rightarrow> ConnectionHistory list" where
  "finish_rows cid now status reason btc btb rows =
    (let rows' = sql_update (\<lambda>r. h_id r = cid \<and> h_status r \<noteq> SKilled)
           (\<lambda>r. r\<lparr>h_ended_at := Some now, h_status := status, h_disconnect_reason := reason,
                 h_bytes_to_client := btc, h_bytes_to_backend := btb\<rparr>) rows
     in if rowcount (\<lambda>r. h_id r = cid \<and> h_status r \<noteq> SKilled) rows = 0
        then sql_update (\<lambda>r. h_id r = cid \<and> h_status r = SKilled)
           (\<lambda>r. r\<lparr>h_ended_at := Some now, h_bytes_to_client := btc, h_bytes_to_backend := btb\<rparr>) rows'
        else rows')"

definition finish :: "'db redis \<Rightarrow> ConnectionTracker \<Rightarrow> exn option \<Rightarrow> int \<Rightarrow> ustr \<Rightarrow> conn_status \<Rightarrow> ustr option
    \<Rightarrow> int \<Rightarrow> int \<Rightarrow> ('db world, unit) eff" where
  "finish R T dbx now cid status reason btc btb =
    rbind (if has_db T
      then rbind (rlift (uuid_of cid)) (\<lambda>u.
        on_db dbx (\<lambda>w. ((), w\<lparr>history := finish_rows u now status reason btc btb (history w)\<rparr>)))
      else rreturn ()) (\<lambda>_.
    if has_redis T then on_redis (x_delete R (ACTIVE_SESSION (t_instance_id T) cid)) else rreturn ())"

definition stale :: "ustr \<Rightarrow> ConnectionHistory \<Rightarrow> bool" where
  "stale iid r \<longleftrightarrow> h_instance_id r = iid \<and> h_status r = SActive \<and> h_ended_at r = None"

definition reconcile_rows :: "ustr \<Rightarrow> int \<Rightarrow> ConnectionHistory list \<Rightarrow> ConnectionHistory list" where
  "reconcile_rows iid now rows = sql_update (stale iid)
     (\<lambda>r. r\<lparr>h_ended_at := Some now, h_status := SError, h_disconnect_reason := Some (lit ''relay-restart'')\<rparr>) rows"

definition flush_patterns :: "ustr \<Rightarrow> ustr list" where
  "flush_patterns iid = [ACTIVE_SESSION iid [] @ lit ''*'', lit ''rdp:token:*'', lit ''rdp:conn-token:*'',
     lit ''rdp:kill:*'', lit ''rdp:web:*'', lit ''rdp:admin:web:*'']"

definition delete_keys :: "'db redis \<Rightarrow> ustr list \<Rightarrow> 'db \<Rightarrow> 'db" where
  "delete_keys R ks db = foldl (r_delete R) db ks"

fun flush :: "'db redis \<Rightarrow> ustr list \<Rightarrow> nat \<Rightarrow> 'db \<Rightarrow> nat \<times> 'db" where
  "flush R [] n db = (n, db)"
| "flush R (p # ps) n db = (let ks = r_scan R db p in flush R ps (n + length ks) (delete_keys R ks db))"

definition reconcile_stale_active_on_startup :: "'db redis \<Rightarrow> ConnectionTracker \<Rightarrow> exn option \<Rightarrow> int \<Rightarrow> ('db world, nat \<times> nat) eff" where
  "reconcile_stale_active_on_startup R T dbx now =
    rbind (if has_db T
      then on_db dbx (\<lambda>w. (rowcount (stale (t_instance_id T)) (history w),
             w\<lparr>history := reconcile_rows (t_instance_id T) now (history w)\<rparr>))
      else rreturn 0) (\<lambda>db_updated.
    rbind (if has_redis T
      then (\<lambda>w. case flush R (flush_patterns (t_instance_id T)) 0 (rdb w) of (n, db) \<Rightarrow> (Inr n, w\<lparr>rdb := db\<rparr>))
      else rreturn 0) (\<lambda>redis_deleted.
    rreturn (db_updated, redis_deleted)))"

text \<open>The statement of the two kill routes of the administration.\<close>

definition kill_rows :: "nat \<Rightarrow> ustr \<Rightarrow> ConnectionHistory list \<Rightarrow> ConnectionHistory list" where
  "kill_rows cid reason rows = sql_update (\<lambda>r. h_id r = cid \<and> h_status r = SActive)
     (\<lambda>r. r\<lparr>h_status := SKilled, h_disconnect_reason := Some reason\<rparr>) rows"

section \<open>The life of a history row\<close>

text \<open>
  What the services do to the table, in any order: a relay inserts and finishes rows, an
  administrator kills, a relay that starts reconciles.
\<close>

inductive hist_step :: "ConnectionHistory list \<Rightarrow> ConnectionHistory list \<Rightarrow> bool" where
  started: "h_status r = SActive \<Longrightarrow> h_ended_at r = None \<Longrightarrow> h_id r \<notin> h_id ` set rows \<Longrightarrow> hist_step rows (rows @ [r])"
| finished: "status \<noteq> SActive \<Longrightarrow> hist_step rows (finish_rows cid now status reason btc btb rows)"
| killed: "hist_step rows (kill_rows cid reason rows)"
| reconciled: "hist_step rows (reconcile_rows iid now rows)"

definition wf_history :: "ConnectionHistory list \<Rightarrow> bool" where
  "wf_history rows \<longleftrightarrow> distinct (map h_id rows)
    \<and> list_all (\<lambda>r. h_status r = SActive \<longrightarrow> h_ended_at r = None) rows
    \<and> list_all (\<lambda>r. h_status r \<in> {SClosed, SError} \<longrightarrow> h_ended_at r \<noteq> None) rows"

lemma sql_update_ids: "(\<And>r. h_id (f r) = h_id r) \<Longrightarrow> map h_id (sql_update c f rows) = map h_id rows"
  by (auto simp: sql_update_def)

lemma set_sql_update: "set (sql_update c f rows) = (\<lambda>r. if c r then f r else r) ` set rows"
  by (simp add: sql_update_def)

lemma rowcount_zero: "rowcount c rows = 0 \<longleftrightarrow> (\<forall>r \<in> set rows. \<not> c r)"
  by (simp add: rowcount_def filter_empty_conv)

lemma sql_update_none: "(\<And>r. r \<in> set rows \<Longrightarrow> \<not> c r) \<Longrightarrow> sql_update c f rows = rows"
  by (simp add: sql_update_def map_idI)

text \<open>Finishing, in one formula: a killed row keeps status and reason.\<close>

definition finish_row :: "int \<Rightarrow> conn_status \<Rightarrow> ustr option \<Rightarrow> int \<Rightarrow> int \<Rightarrow> ConnectionHistory \<Rightarrow> ConnectionHistory" where
  "finish_row now status reason btc btb r = (if h_status r = SKilled
     then r\<lparr>h_ended_at := Some now, h_bytes_to_client := btc, h_bytes_to_backend := btb\<rparr>
     else r\<lparr>h_ended_at := Some now, h_status := status, h_disconnect_reason := reason,
            h_bytes_to_client := btc, h_bytes_to_backend := btb\<rparr>)"

lemma finish_rows_eq:
  assumes "distinct (map h_id rows)"
  shows "finish_rows cid now status reason btc btb rows
    = map (\<lambda>r. if h_id r = cid then finish_row now status reason btc btb r else r) rows"
proof (cases "\<exists>r \<in> set rows. h_id r = cid \<and> h_status r \<noteq> SKilled")
  case True
  then have "rowcount (\<lambda>r. h_id r = cid \<and> h_status r \<noteq> SKilled) rows \<noteq> 0" by (auto simp: rowcount_zero)
  moreover have "\<not> (h_id r = cid \<and> h_status r = SKilled)" if "r \<in> set rows" for r
    using True that assms by (auto simp: distinct_map dest: inj_onD)
  ultimately show ?thesis by (auto simp: finish_rows_def Let_def sql_update_def finish_row_def)
next
  case False
  then have c: "rowcount (\<lambda>r. h_id r = cid \<and> h_status r \<noteq> SKilled) rows = 0" by (auto simp: rowcount_zero)
  have "sql_update (\<lambda>r. h_id r = cid \<and> h_status r \<noteq> SKilled) f rows = rows" for f
    using False by (intro sql_update_none) blast
  with False show ?thesis by (auto simp: finish_rows_def Let_def c sql_update_def finish_row_def)
qed

lemma finish_row_simps [simp]:
  "h_id (finish_row now status reason btc btb r) = h_id r"
  "h_ended_at (finish_row now status reason btc btb r) = Some now"
  "h_status (finish_row now status reason btc btb r) = (if h_status r = SKilled then SKilled else status)"
  by (simp_all add: finish_row_def)

lemma hist_step_wf:
  assumes "hist_step rows rows'" and wf: "wf_history rows"
  shows "wf_history rows'"
  using assms(1)
proof (cases rule: hist_step.cases)
  case (finished status cid now reason btc btb)
  have "h_id \<circ> (\<lambda>r. if h_id r = cid then finish_row now status reason btc btb r else r) = h_id"
    by (simp add: fun_eq_iff)
  with wf finished show ?thesis
    by (auto simp: wf_history_def finish_rows_eq list_all_iff split: if_splits)
next
  case (killed cid reason)
  with wf show ?thesis
    by (auto simp: wf_history_def kill_rows_def sql_update_ids list_all_iff set_sql_update)
next
  case (reconciled iid now)
  with wf show ?thesis
    by (auto simp: wf_history_def reconcile_rows_def sql_update_ids list_all_iff set_sql_update)
qed (use wf in \<open>auto simp: wf_history_def\<close>)

text \<open>A killed row keeps its reason under every step.\<close>

lemma hist_step_killed:
  assumes "hist_step rows rows'" and "wf_history rows" and "r \<in> set rows" and "h_status r = SKilled"
  shows "\<exists>r' \<in> set rows'. h_id r' = h_id r \<and> h_status r' = SKilled \<and> h_disconnect_reason r' = h_disconnect_reason r"
  using assms(1)
proof (cases rule: hist_step.cases)
  case (finished status cid now reason btc btb)
  let ?f = "\<lambda>r. if h_id r = cid then finish_row now status reason btc btb r else r"
  have "?f r \<in> set rows'" using assms(2,3) finished by (simp add: wf_history_def finish_rows_eq)
  moreover have "h_id (?f r) = h_id r \<and> h_status (?f r) = SKilled \<and> h_disconnect_reason (?f r) = h_disconnect_reason r"
    using assms(4) by (simp add: finish_row_def)
  ultimately show ?thesis by blast
qed (use assms(3,4) in \<open>auto simp: kill_rows_def reconcile_rows_def set_sql_update stale_def intro!: bexI [of _ r]\<close>)

lemma start_effect:
  assumes "redis_server R look watch_state" and "has_db T" and "has_redis T"
  shows "\<exists>row db t. start R T None uid now stamp user sid disp addr port ip w
      = (Inr t, w\<lparr>history := history w @ [row], rdb := db\<rparr>)
    \<and> h_id row = uid \<and> tc_connection_id t = uuid_str uid"
proof -
  have "\<exists>db. x_setex R k 86400 v (rdb w) = (Inr (), db)" for k v
    using redis_server.setex_ok [OF assms(1), of 86400 "rdb w" k v] by (auto simp: x_setex_def)
  then obtain db where db: "x_setex R (ACTIVE_SESSION (t_instance_id T) (uuid_str uid)) 86400 (RJson (JObj [
        (lit ''username'', JStr user),
        (lit ''server_display'', (case disp of None \<Rightarrow> JNull | Some d \<Rightarrow> JStr d)),
        (lit ''server_address'', JStr addr), (lit ''server_port'', JInt port), (lit ''client_ip'', JStr ip),
        (lit ''started_at'', JStr stamp), (lit ''instance_id'', JStr (t_instance_id T))])) (rdb w) = (Inr (), db)" by blast
  then show ?thesis
    using assms(2,3) by (auto simp: start_def Let_def rbind_def on_db_def on_redis_def rreturn_def)
qed

lemma finish_effect:
  assumes "redis_server R look watch_state" and "uid < 2 ^ 128" and "has_db T" and "has_redis T"
    and "distinct (map h_id (history w))"
  shows "\<exists>w'. finish R T None now (uuid_str uid) status reason btc btb w = (Inr (), w')
    \<and> history w' = map (\<lambda>r. if h_id r = uid then finish_row now status reason btc btb r else r) (history w)
    \<and> conn_events w' = conn_events w
    \<and> look (rdb w') = (look (rdb w))(ACTIVE_SESSION (t_instance_id T) (uuid_str uid) := None)"
  using assms uuid_of_uuid_str [OF assms(2)] redis_server.delete_look [OF assms(1)]
  by (simp add: finish_def rd_simps on_db_def on_redis_def x_delete_def finish_rows_eq)

section \<open>Properties\<close>

text \<open>
  C9: A kill is final. Whatever relays and administrators do after an administrator has killed a
  connection, in any order, its row stays, with status killed and the administrator's reason; the
  table keeps one row per connection, open rows have no end time and closed or failed ones have.
\<close>

theorem killed_is_final:
  assumes "hist_step\<^sup>*\<^sup>* rows rows'" and "wf_history rows" and "r \<in> set rows" and "h_status r = SKilled"
  shows "wf_history rows' \<and> (\<exists>r' \<in> set rows'. h_id r' = h_id r \<and> h_status r' = SKilled
      \<and> h_disconnect_reason r' = h_disconnect_reason r)"
  using assms(1)
proof (induction rule: rtranclp_induct)
  case base
  then show ?case using assms(2-4) by blast
next
  case (step y z)
  then obtain r' where "r' \<in> set y" "h_id r' = h_id r" "h_status r' = SKilled"
    "h_disconnect_reason r' = h_disconnect_reason r" by blast
  with hist_step_killed [OF step.hyps(2) _ this(1,3)] hist_step_wf [OF step.hyps(2)] step.IH
  show ?case by auto
qed

definition ref_row :: ConnectionHistory where
  "ref_row = \<lparr>h_id = 1, h_instance_id = lit ''n'', h_username = lit ''u'', h_server_id = None, h_server_display = None,
     h_server_address = lit ''h'', h_server_port = 3389, h_client_ip = lit ''c'', h_started_at = 0, h_ended_at = None,
     h_bytes_to_client = 0, h_bytes_to_backend = 0, h_disconnect_reason = Some (lit ''admin_kill''), h_status = SKilled\<rparr>"

theorem killed_is_final_witness:
  "wf_history (finish_rows 1 9 SClosed (Some (lit ''normal'')) 5 6 [ref_row])
    \<and> (\<exists>r' \<in> set (finish_rows 1 9 SClosed (Some (lit ''normal'')) 5 6 [ref_row]). h_id r' = h_id ref_row
      \<and> h_status r' = SKilled \<and> h_disconnect_reason r' = h_disconnect_reason ref_row)"
  by (rule killed_is_final [of "[ref_row]"])
    (auto intro!: r_into_rtranclp hist_step.finished simp: wf_history_def ref_row_def)

text \<open>
  Finishing a connection through its identifier closes exactly the row of that connection: end
  time and byte counts are set, status and reason too unless the row was killed; every other row
  is left as it was, and the active-session key is gone.
\<close>

lemma finish_closes_row:
  assumes "redis_server R look watch_state" and "uid < 2 ^ 128" and "has_db T" and "has_redis T"
    and "distinct (map h_id (history w))"
  shows "\<exists>w'. finish R T None now (uuid_str uid) status reason btc btb w = (Inr (), w')
    \<and> history w' = map (\<lambda>r. if h_id r = uid then finish_row now status reason btc btb r else r) (history w)
    \<and> conn_events w' = conn_events w
    \<and> look (rdb w') = (look (rdb w))(ACTIVE_SESSION (t_instance_id T) (uuid_str uid) := None)"
  by (rule finish_effect [OF assms])

lemma finish_closes_row_witness:
  "\<exists>w'. finish mem_redis \<lparr>has_db = True, has_redis = True, t_instance_id = lit ''n''\<rparr> None 9 (uuid_str 1) SClosed None 5 6
        \<lparr>rdb = empty_db, history = [ref_row], conn_events = []\<rparr> = (Inr (), w')
    \<and> history w' = map (\<lambda>r. if h_id r = 1 then finish_row 9 SClosed None 5 6 r else r) [ref_row]
    \<and> conn_events w' = []
    \<and> mem_look (rdb w') = (mem_look empty_db)(ACTIVE_SESSION (lit ''n'') (uuid_str 1) := None)"
  using finish_closes_row [OF mem.redis_server_axioms, of 1 "\<lparr>has_db = True, has_redis = True, t_instance_id = lit ''n''\<rparr>"
      "\<lparr>rdb = empty_db, history = [ref_row], conn_events = []\<rparr>" 9 SClosed None 5 6]
  by simp

section \<open>Start-up\<close>

definition flush_prefixes :: "ustr \<Rightarrow> ustr list" where
  "flush_prefixes iid = [ACTIVE_SESSION iid [], TOKEN [], CONN_TOKEN [], KILL_SESSION [], WEB_SESSION [], ADMIN_WEB_SESSION []]"

lemma flush_patterns_prefixes: "flush_patterns iid = map (\<lambda>p. p @ lit ''*'') (flush_prefixes iid)"
  by (simp add: flush_patterns_def flush_prefixes_def key_defs lit_eval)

context redis_server
begin

lemma delete_keys_look: "look (delete_keys R ks db) k = (if k \<in> set ks then None else look db k)"
  by (induction ks arbitrary: db) (auto simp: delete_keys_def delete_look)

lemma flush_look:
  assumes "list_all (list_all (\<lambda>c. c \<notin> {42, 63, 91, 92})) ps"
  shows "look (snd (flush R (map (\<lambda>p. p @ lit ''*'') ps) n db)) k
    = (if \<exists>p \<in> set ps. starts_with p k then None else look db k)"
  using assms
proof (induction ps arbitrary: n db)
  case (Cons p ps)
  then have "set (r_scan R db (p @ lit ''*'')) = {k. starts_with p k \<and> look db k \<noteq> None}" by (simp add: scan_look)
  with Cons show ?case by (cases "look db k") (auto simp: delete_keys_look Let_def)
qed simp

end

text \<open>
  A relay that starts leaves a clean state. No row of its instance stays open; rows of other
  instances, and rows that are already closed, failed or killed, are not touched. In Redis every
  token, connection token, kill mark, portal session and administrator session is gone, of all
  instances, and of the active-session keys exactly those of its own instance; every other key is
  as before.
\<close>

lemma reconcile_on_startup:
  assumes "redis_server R look watch_state" and "has_db T" and "has_redis T"
    and "list_all (\<lambda>c. c \<notin> {42, 63, 91, 92}) (t_instance_id T)"
  shows "\<exists>n w'. reconcile_stale_active_on_startup R T None now w
      = (Inr (length (filter (stale (t_instance_id T)) (history w)), n), w')
    \<and> (\<forall>r \<in> set (history w'). \<not> stale (t_instance_id T) r)
    \<and> (\<forall>i < length (history w). \<not> stale (t_instance_id T) (history w ! i) \<longrightarrow> history w' ! i = history w ! i)
    \<and> length (history w') = length (history w)
    \<and> (\<forall>k. look (rdb w') k = (if \<exists>p \<in> set (flush_prefixes (t_instance_id T)). starts_with p k
         then None else look (rdb w) k))"
proof -
  obtain n db where f: "flush R (flush_patterns (t_instance_id T)) 0 (rdb w) = (n, db)" by force
  have "list_all (list_all (\<lambda>c. c \<notin> {42, 63, 91, 92})) (flush_prefixes (t_instance_id T))"
    using assms(4) by (simp add: flush_prefixes_def key_defs lit_eval)
  from redis_server.flush_look [OF assms(1) this, of 0 "rdb w"] f
  have l: "look db k = (if \<exists>p \<in> set (flush_prefixes (t_instance_id T)). starts_with p k then None else look (rdb w) k)" for k
    by (simp add: flush_patterns_prefixes)
  let ?w = "w\<lparr>history := reconcile_rows (t_instance_id T) now (history w), rdb := db\<rparr>"
  have "reconcile_stale_active_on_startup R T None now w
      = (Inr (length (filter (stale (t_instance_id T)) (history w)), n), ?w)"
    using assms(2,3) f by (simp add: reconcile_stale_active_on_startup_def rd_simps on_db_def rowcount_def)
  moreover have "\<forall>r \<in> set (history ?w). \<not> stale (t_instance_id T) r"
    by (auto simp: reconcile_rows_def set_sql_update stale_def)
  moreover have "\<forall>i < length (history w). \<not> stale (t_instance_id T) (history w ! i) \<longrightarrow> history ?w ! i = history w ! i"
    "length (history ?w) = length (history w)"
    by (simp_all add: reconcile_rows_def sql_update_def)
  moreover have "\<forall>k. look (rdb ?w) k = (if \<exists>p \<in> set (flush_prefixes (t_instance_id T)). starts_with p k
      then None else look (rdb w) k)" using l by simp
  ultimately show ?thesis by blast
qed

lemma reconcile_on_startup_witness:
  "\<exists>n w'. reconcile_stale_active_on_startup mem_redis \<lparr>has_db = True, has_redis = True, t_instance_id = lit ''n''\<rparr> None 9
        \<lparr>rdb = empty_db, history = [ref_row], conn_events = []\<rparr> = (Inr (length (filter (stale (lit ''n'')) [ref_row]), n), w')
    \<and> (\<forall>r \<in> set (history w'). \<not> stale (lit ''n'') r)
    \<and> (\<forall>k. mem_look (rdb w') k = (if \<exists>p \<in> set (flush_prefixes (lit ''n'')). starts_with p k then None else mem_look empty_db k))"
proof -
  let ?T = "\<lparr>has_db = True, has_redis = True, t_instance_id = lit ''n''\<rparr>"
  let ?w = "\<lparr>rdb = empty_db, history = [ref_row], conn_events = []\<rparr>"
  have "has_db ?T" "has_redis ?T" "list_all (\<lambda>c. c \<notin> {42, 63, 91, 92}) (t_instance_id ?T)" by (simp_all add: lit_eval)
  from reconcile_on_startup [OF mem.redis_server_axioms this, of 9 ?w] obtain n w' where
    "reconcile_stale_active_on_startup mem_redis ?T None 9 ?w = (Inr (length (filter (stale (t_instance_id ?T)) (history ?w)), n), w')"
    "\<forall>r \<in> set (history w'). \<not> stale (t_instance_id ?T) r"
    "\<forall>k. mem_look (rdb w') k = (if \<exists>p \<in> set (flush_prefixes (t_instance_id ?T)). starts_with p k then None else mem_look (rdb ?w) k)"
    by blast
  then show ?thesis
    by (intro exI [of _ n] exI [of _ w']) (simp only: ConnectionTracker.simps world.simps simp_thms)
qed

end
