(* ===== verification/Config.thy ===== *)
theory Config
  imports Redis_Store
begin

text \<open>
  The configuration of the services (\<^verbatim>\<open>src/libs/config/loader.py\<close>): one record per model class with
  the defaults of the source, and the construction of each from a mapping. How a scalar is accepted
  and converted is pydantic's and a parameter (\<open>scalars\<close>); unknown keys are ignored, a missing
  required key is a validation error, which is a \<^verbatim>\<open>ValueError\<close>. Reading the file and parsing YAML is
  the argument of \<open>load_config\<close>.
\<close>

type_synonym jobj = "(ustr \<times> json) list"

section \<open>Fields\<close>

record scalars =
  c_int :: "json \<Rightarrow> int result"
  c_str :: "json \<Rightarrow> ustr result"
  c_bool :: "json \<Rightarrow> bool result"
  c_float :: "json \<Rightarrow> rat result"
  c_strs :: "json \<Rightarrow> ustr list result"

definition opt_field :: "(json \<Rightarrow> 'a result) \<Rightarrow> string \<Rightarrow> 'a \<Rightarrow> jobj \<Rightarrow> 'a result" where
  "opt_field conv name d data = (case map_of data (lit name) of None \<Rightarrow> Inr d | Some v \<Rightarrow> conv v)"

definition req_field :: "(json \<Rightarrow> 'a result) \<Rightarrow> string \<Rightarrow> jobj \<Rightarrow> 'a result" where
  "req_field conv name data = (case map_of data (lit name) of None \<Rightarrow> Inl ValueError | Some v \<Rightarrow> conv v)"

text \<open>A section of the configuration: the model of its mapping, or of the empty one.\<close>

fun section_of :: "(jobj \<Rightarrow> 'a result) \<Rightarrow> json \<Rightarrow> 'a result" where
  "section_of model (JObj o1) = model o1"
| "section_of model _ = Inl ValueError"

definition opt_section :: "(jobj \<Rightarrow> 'a result) \<Rightarrow> string \<Rightarrow> jobj \<Rightarrow> 'a result" where
  "opt_section model name data = (case map_of data (lit name) of None \<Rightarrow> model [] | Some v \<Rightarrow> section_of model v)"

section \<open>Models\<close>

record InstanceConfig =
  i_id :: ustr
  cluster_name :: ustr
  lan_ip :: ustr

definition InstanceConfig_of :: "scalars \<Rightarrow> jobj \<Rightarrow> InstanceConfig result" where
  "InstanceConfig_of P d =
    bind_result (opt_field (c_str P) ''id'' (lit ''node-1'') d) (\<lambda>i.
    bind_result (opt_field (c_str P) ''cluster_name'' (lit ''rdpproxy-prod'') d) (\<lambda>c.
    bind_result (opt_field (c_str P) ''lan_ip'' (lit ''0.0.0.0'') d) (\<lambda>l.
    Inr \<lparr>i_id = i, cluster_name = c, lan_ip = l\<rparr>)))"

record LdapConfig =
  l_server :: ustr
  l_mode :: ustr
  l_port :: int
  l_tls_verify :: bool
  l_bind_dn :: ustr
  l_bind_password :: ustr
  l_users_dn :: ustr
  l_domain :: ustr
  l_user_filter :: ustr

definition LdapConfig_of :: "scalars \<Rightarrow> jobj \<Rightarrow> LdapConfig result" where
  "LdapConfig_of P d =
    bind_result (req_field (c_str P) ''server'' d) (\<lambda>s.
    bind_result (opt_field (c_str P) ''mode'' (lit ''plain'') d) (\<lambda>m.
    bind_result (opt_field (c_int P) ''port'' 389 d) (\<lambda>p.
    bind_result (opt_field (c_bool P) ''tls_verify'' False d) (\<lambda>t.
    bind_result (req_field (c_str P) ''bind_dn'' d) (\<lambda>b.
    bind_result (req_field (c_str P) ''bind_password'' d) (\<lambda>pw.
    bind_result (req_field (c_str P) ''users_dn'' d) (\<lambda>u.
    bind_result (req_field (c_str P) ''domain'' d) (\<lambda>dom.
    bind_result (opt_field (c_str P) ''user_filter'' [] d) (\<lambda>f.
    Inr \<lparr>l_server = s, l_mode = m, l_port = p, l_tls_verify = t, l_bind_dn = b, l_bind_password = pw,
      l_users_dn = u, l_domain = dom, l_user_filter = f\<rparr>)))))))))"

record DatabaseConfig =
  db_url :: ustr
  pool_size :: int
  max_overflow :: int
  echo :: bool

definition DatabaseConfig_of :: "scalars \<Rightarrow> jobj \<Rightarrow> DatabaseConfig result" where
  "DatabaseConfig_of P d =
    bind_result (req_field (c_str P) ''url'' d) (\<lambda>u.
    bind_result (opt_field (c_int P) ''pool_size'' 20 d) (\<lambda>p.
    bind_result (opt_field (c_int P) ''max_overflow'' 10 d) (\<lambda>m.
    bind_result (opt_field (c_bool P) ''echo'' False d) (\<lambda>e.
    Inr \<lparr>db_url = u, pool_size = p, max_overflow = m, echo = e\<rparr>))))"

record DnsConfig =
  d_servers :: "ustr list"
  d_timeout :: rat
  d_cache_ttl :: int

definition DnsConfig_of :: "scalars \<Rightarrow> jobj \<Rightarrow> DnsConfig result" where
  "DnsConfig_of P d =
    bind_result (opt_field (c_strs P) ''servers'' [] d) (\<lambda>s.
    bind_result (opt_field (c_float P) ''timeout'' 3 d) (\<lambda>t.
    bind_result (opt_field (c_int P) ''cache_ttl'' 300 d) (\<lambda>c.
    Inr \<lparr>d_servers = s, d_timeout = t, d_cache_ttl = c\<rparr>)))"

record ProxyConfig =
  public_host :: ustr
  public_port :: int
  cert_path :: ustr
  key_path :: ustr
  p_secure_cookies :: bool

definition ProxyConfig_of :: "scalars \<Rightarrow> jobj \<Rightarrow> ProxyConfig result" where
  "ProxyConfig_of P d =
    bind_result (opt_field (c_str P) ''public_host'' (lit ''rdp.example.com'') d) (\<lambda>h.
    bind_result (opt_field (c_int P) ''public_port'' 443 d) (\<lambda>p.
    bind_result (opt_field (c_str P) ''cert_path'' [] d) (\<lambda>c.
    bind_result (opt_field (c_str P) ''key_path'' [] d) (\<lambda>k.
    bind_result (opt_field (c_bool P) ''secure_cookies'' True d) (\<lambda>s.
    Inr \<lparr>public_host = h, public_port = p, cert_path = c, key_path = k, p_secure_cookies = s\<rparr>)))))"

record PortalConfig =
  portal_host :: ustr
  portal_port :: int

definition PortalConfig_of :: "scalars \<Rightarrow> jobj \<Rightarrow> PortalConfig result" where
  "PortalConfig_of P d =
    bind_result (opt_field (c_str P) ''host'' (lit ''0.0.0.0'') d) (\<lambda>h.
    bind_result (opt_field (c_int P) ''port'' 8001 d) (\<lambda>p.
    Inr \<lparr>portal_host = h, portal_port = p\<rparr>))"

record AdminConfig =
  admin_host :: ustr
  admin_port :: int
  allowed_networks :: "ustr list"
  a_secure_cookies :: bool

definition AdminConfig_of :: "scalars \<Rightarrow> jobj \<Rightarrow> AdminConfig result" where
  "AdminConfig_of P d =
    bind_result (opt_field (c_str P) ''host'' (lit ''0.0.0.0'') d) (\<lambda>h.
    bind_result (opt_field (c_int P) ''port'' 9090 d) (\<lambda>p.
    bind_result (opt_field (c_strs P) ''allowed_networks'' [] d) (\<lambda>n.
    bind_result (opt_field (c_bool P) ''secure_cookies'' False d) (\<lambda>s.
    Inr \<lparr>admin_host = h, admin_port = p, allowed_networks = n, a_secure_cookies = s\<rparr>))))"

record RdpRelayConfig =
  relay_host :: ustr
  relay_port :: int
  cfg_proxy_protocol :: bool
  cfg_trusted_proxies :: "ustr list"
  max_connections :: int
  idle_timeout :: int
  max_session_duration :: int

definition RdpRelayConfig_of :: "scalars \<Rightarrow> jobj \<Rightarrow> RdpRelayConfig result" where
  "RdpRelayConfig_of P d =
    bind_result (opt_field (c_str P) ''host'' (lit ''0.0.0.0'') d) (\<lambda>h.
    bind_result (opt_field (c_int P) ''port'' 8002 d) (\<lambda>p.
    bind_result (opt_field (c_bool P) ''proxy_protocol'' True d) (\<lambda>pp.
    bind_result (opt_field (c_strs P) ''trusted_proxies'' [] d) (\<lambda>t.
    bind_result (opt_field (c_int P) ''max_connections'' 500 d) (\<lambda>m.
    bind_result (opt_field (c_int P) ''idle_timeout'' 3600 d) (\<lambda>i.
    bind_result (opt_field (c_int P) ''max_session_duration'' 0 d) (\<lambda>x.
    Inr \<lparr>relay_host = h, relay_port = p, cfg_proxy_protocol = pp, cfg_trusted_proxies = t,
      max_connections = m, idle_timeout = i, max_session_duration = x\<rparr>)))))))"

record RedisConfig =
  redis_host :: ustr
  redis_port :: int
  redis_password :: ustr
  redis_db :: int
  web_session_ttl :: int
  cfg_web_idle_ttl :: int
  cfg_token_ttl :: int

definition RedisConfig_of :: "scalars \<Rightarrow> jobj \<Rightarrow> RedisConfig result" where
  "RedisConfig_of P d =
    bind_result (opt_field (c_str P) ''host'' (lit ''redis'') d) (\<lambda>h.
    bind_result (opt_field (c_int P) ''port'' 6379 d) (\<lambda>p.
    bind_result (opt_field (c_str P) ''password'' [] d) (\<lambda>pw.
    bind_result (opt_field (c_int P) ''db'' 0 d) (\<lambda>n.
    bind_result (opt_field (c_int P) ''web_session_ttl'' 28800 d) (\<lambda>w.
    bind_result (opt_field (c_int P) ''web_idle_ttl'' 1800 d) (\<lambda>i.
    bind_result (opt_field (c_int P) ''rdp_token_ttl'' 300 d) (\<lambda>t.
    Inr \<lparr>redis_host = h, redis_port = p, redis_password = pw, redis_db = n, web_session_ttl = w,
      cfg_web_idle_ttl = i, cfg_token_ttl = t\<rparr>)))))))"

record SecurityConfig =
  encryption_key :: ustr
  token_fingerprint_enforce :: bool
  login_attempts_per_minute :: int
  login_lock_seconds :: int
  admin_groups :: "ustr list"
  delete_token_on_disconnect :: bool

definition SecurityConfig_of :: "scalars \<Rightarrow> jobj \<Rightarrow> SecurityConfig result" where
  "SecurityConfig_of P d =
    bind_result (req_field (c_str P) ''encryption_key'' d) (\<lambda>k.
    bind_result (opt_field (c_bool P) ''token_fingerprint_enforce'' True d) (\<lambda>f.
    bind_result (opt_field (c_int P) ''login_attempts_per_minute'' 8 d) (\<lambda>a.
    bind_result (opt_field (c_int P) ''login_lock_seconds'' 120 d) (\<lambda>l.
    bind_result (opt_field (c_strs P) ''admin_groups'' [] d) (\<lambda>g.
    bind_result (opt_field (c_bool P) ''delete_token_on_disconnect'' False d) (\<lambda>x.
    Inr \<lparr>encryption_key = k, token_fingerprint_enforce = f, login_attempts_per_minute = a,
      login_lock_seconds = l, admin_groups = g, delete_token_on_disconnect = x\<rparr>))))))"

record AppConfig =
  instance_cfg :: InstanceConfig
  ldap_cfg :: "LdapConfig option"
  database :: DatabaseConfig
  dns_cfg :: DnsConfig
  proxy_cfg :: ProxyConfig
  portal_cfg :: PortalConfig
  admin_cfg :: AdminConfig
  relay_cfg :: RdpRelayConfig
  redis_cfg :: RedisConfig
  security :: SecurityConfig

definition ldap_section :: "scalars \<Rightarrow> jobj \<Rightarrow> LdapConfig option result" where
  "ldap_section P d = (case map_of d (lit ''ldap'') of
      None \<Rightarrow> Inr None
    | Some JNull \<Rightarrow> Inr None
    | Some v \<Rightarrow> bind_result (section_of (LdapConfig_of P) v) (\<lambda>l. Inr (Some l)))"

definition AppConfig_of :: "scalars \<Rightarrow> jobj \<Rightarrow> AppConfig result" where
  "AppConfig_of P d =
    bind_result (opt_section (InstanceConfig_of P) ''instance'' d) (\<lambda>i.
    bind_result (ldap_section P d) (\<lambda>l.
    bind_result (req_field (section_of (DatabaseConfig_of P)) ''database'' d) (\<lambda>b.
    bind_result (opt_section (DnsConfig_of P) ''dns'' d) (\<lambda>n.
    bind_result (opt_section (ProxyConfig_of P) ''proxy'' d) (\<lambda>p.
    bind_result (opt_section (PortalConfig_of P) ''portal'' d) (\<lambda>w.
    bind_result (opt_section (AdminConfig_of P) ''admin'' d) (\<lambda>a.
    bind_result (opt_section (RdpRelayConfig_of P) ''rdp_relay'' d) (\<lambda>y.
    bind_result (opt_section (RedisConfig_of P) ''redis'' d) (\<lambda>r.
    bind_result (req_field (section_of (SecurityConfig_of P)) ''security'' d) (\<lambda>s.
    Inr \<lparr>instance_cfg = i, ldap_cfg = l, database = b, dns_cfg = n, proxy_cfg = p, portal_cfg = w,
      admin_cfg = a, relay_cfg = y, redis_cfg = r, security = s\<rparr>))))))))))"

text \<open>The deprecation messages of the source are log lines.\<close>

definition load_config :: "scalars \<Rightarrow> json result \<Rightarrow> AppConfig result" where
  "load_config P parsed =
    bind_result parsed (\<lambda>data. section_of (AppConfig_of P) data)"

section \<open>Properties\<close>

lemma opt_field_Inr: "opt_field conv name d data = Inr v \<Longrightarrow>
    (case map_of data (lit name) of None \<Rightarrow> v = d | Some j \<Rightarrow> conv j = Inr v)"
  by (simp add: opt_field_def split: option.splits)

lemma req_field_Inr: "req_field conv name data = Inr v \<Longrightarrow> \<exists>j. map_of data (lit name) = Some j \<and> conv j = Inr v"
  by (simp add: req_field_def split: option.splits)

lemma section_of_Inr: "section_of model v = Inr x \<Longrightarrow> \<exists>o1. v = JObj o1 \<and> model o1 = Inr x"
  by (cases v) simp_all

lemma opt_section_Inr: "opt_section model name data = Inr x \<Longrightarrow>
    (map_of data (lit name) = None \<and> model [] = Inr x) \<or> (\<exists>o1. map_of data (lit name) = Some (JObj o1) \<and> model o1 = Inr x)"
  by (auto simp: opt_section_def split: option.splits dest: section_of_Inr)


definition ref_scalars :: scalars where
  "ref_scalars = \<lparr>c_int = jint, c_str = (\<lambda>j. case j of JStr s \<Rightarrow> Inr s | _ \<Rightarrow> Inl ValueError),
     c_bool = (\<lambda>j. case j of JBool b \<Rightarrow> Inr b | _ \<Rightarrow> Inl ValueError),
     c_float = (\<lambda>j. case j of JFloat r \<Rightarrow> Inr r | JInt i \<Rightarrow> Inr (of_int i) | _ \<Rightarrow> Inl ValueError),
     c_strs = (\<lambda>j. case j of JArr [] \<Rightarrow> Inr [] | _ \<Rightarrow> Inl ValueError)\<rparr>"

definition ref_config_data :: jobj where
  "ref_config_data = [(lit ''database'', JObj [(lit ''url'', JStr (lit ''u''))]),
     (lit ''security'', JObj [(lit ''encryption_key'', JStr (lit ''k''))])]"


definition ref_app_config :: AppConfig where
  "ref_app_config = \<lparr>instance_cfg = \<lparr>i_id = [], cluster_name = [], lan_ip = []\<rparr>, ldap_cfg = None,
     database = \<lparr>db_url = [], pool_size = 20, max_overflow = 10, echo = False\<rparr>,
     dns_cfg = \<lparr>d_servers = [], d_timeout = 3, d_cache_ttl = 300\<rparr>,
     proxy_cfg = \<lparr>public_host = lit ''h'', public_port = 443, cert_path = [], key_path = [], p_secure_cookies = True\<rparr>,
     portal_cfg = \<lparr>portal_host = [], portal_port = 8001\<rparr>,
     admin_cfg = \<lparr>admin_host = [], admin_port = 9090, allowed_networks = [], a_secure_cookies = False\<rparr>,
     relay_cfg = \<lparr>relay_host = [], relay_port = 8002, cfg_proxy_protocol = True, cfg_trusted_proxies = [],
       max_connections = 500, idle_timeout = 3600, max_session_duration = 0\<rparr>,
     redis_cfg = \<lparr>redis_host = [], redis_port = 6379, redis_password = [], redis_db = 0, web_session_ttl = 28800,
       cfg_web_idle_ttl = 1800, cfg_token_ttl = 300\<rparr>,
     security = \<lparr>encryption_key = [], token_fingerprint_enforce = True, login_attempts_per_minute = 8,
       login_lock_seconds = 120, admin_groups = [], delete_token_on_disconnect = False\<rparr>\<rparr>"

end
