(* ===== verification/Admin_Sessions.thy ===== *)
theory Admin_Sessions
  imports Connection_Tracker Config
begin

text \<open>
  The session routes of the administration that act on connections,
  \<^verbatim>\<open>src/services/admin/routes/sessions.py\<close>: listing the active sessions, killing one and killing
  all. They run with an administrator session, which the access theory models. The token that a
  connection came with is stored as plain text.
\<close>

section \<open>Killing\<close>

definition drop_token :: "'db redis \<Rightarrow> ustr \<Rightarrow> ('db, unit) eff" where
  "drop_token R connection_id =
    (let token_key = CONN_TOKEN connection_id in
     rbind (x_get R token_key) (\<lambda>raw_token.
     case raw_token of
       Some (RText t) \<Rightarrow>
         if t \<noteq> [] then rbind (x_delete R (TOKEN t)) (\<lambda>_. x_delete R token_key) else rreturn ()
     | _ \<Rightarrow> rreturn ()))"

definition kill_session :: "'db redis \<Rightarrow> ustr \<Rightarrow> exn option \<Rightarrow> ustr \<Rightarrow> ('db world, unit) eff" where
  "kill_session R iid dbx connection_id = (case uuid_of connection_id of
      Inl e \<Rightarrow> rraise (HTTPException 400)
    | Inr cid \<Rightarrow>
        rbind (on_redis (x_setex R (KILL_SESSION connection_id) KILL_TTL (RText (lit ''1'')))) (\<lambda>_.
        rbind (on_redis (x_delete R (ACTIVE_SESSION iid connection_id))) (\<lambda>_.
        rbind (on_redis (drop_token R connection_id)) (\<lambda>_.
        on_db dbx (\<lambda>w. ((), w\<lparr>history := kill_rows cid (lit ''admin_kill'') (history w)\<rparr>))))))"

text \<open>
  The loop over the keys keeps the rows of the open transaction; the commands to Redis take effect
  at once.
\<close>

fun kill_all_loop :: "'db redis \<Rightarrow> ustr list \<Rightarrow> ConnectionHistory list \<Rightarrow> nat \<Rightarrow> ('db, ConnectionHistory list \<times> nat) eff" where
  "kill_all_loop R [] rows n = rreturn (rows, n)"
| "kill_all_loop R (k # ks) rows n =
     (let parts = split_on 58 k in
      if length parts < 4 then kill_all_loop R ks rows n
      else let connection_id = parts ! 3 in
        rbind (x_setex R (KILL_SESSION connection_id) KILL_TTL (RText (lit ''1''))) (\<lambda>_.
        rbind (x_delete R k) (\<lambda>_.
        rbind (drop_token R connection_id) (\<lambda>_.
        rbind (rlift (uuid_of connection_id)) (\<lambda>cid.
        kill_all_loop R ks (kill_rows cid (lit ''admin_kill_all'') rows) (n + 1))))))"

definition kill_all_sessions :: "'db redis \<Rightarrow> exn option \<Rightarrow> ('db world, nat) eff" where
  "kill_all_sessions R dbx w =
    rbind (on_redis (x_scan R ACTIVE_SCAN)) (\<lambda>active_keys.
    rbind (on_redis (kill_all_loop R active_keys (history w) 0)) (\<lambda>(rows, n).
    on_db dbx (\<lambda>w. (n, w\<lparr>history := rows\<rparr>)))) w"

section \<open>Listing\<close>

record QualityDetail =
  rtt_ms :: "rat option"
  rtt_var_ms :: "rat option"
  jitter_ms :: "rat option"
  retransmits :: "int option"
  total_retrans :: "int option"
  lost :: "int option"
  cwnd :: "int option"
  q_rating :: "ustr option"

record ActiveSessionOut =
  o_connection_id :: ustr
  o_instance_id :: ustr
  o_username :: "ustr option"
  o_server_display :: "ustr option"
  o_server_address :: "ustr option"
  o_server_port :: "int option"
  o_client_ip :: "ustr option"
  o_started_at :: "ustr option"
  o_quality :: "ustr option"
  o_detail :: "QualityDetail option"

text \<open>An optional field: absent and null are \<open>None\<close>, else the conversion of the model class.\<close>

definition opt_value :: "(json \<Rightarrow> 'a result) \<Rightarrow> json \<Rightarrow> string \<Rightarrow> 'a option result" where
  "opt_value conv data name = bind_result (jget data (lit name) JNull) (\<lambda>v.
     if v = JNull then Inr None else bind_result (conv v) (\<lambda>x. Inr (Some x)))"

definition QualityDetail_of :: "scalars \<Rightarrow> json \<Rightarrow> QualityDetail result" where
  "QualityDetail_of P d =
    bind_result (opt_value (c_float P) d ''rtt_ms'') (\<lambda>a.
    bind_result (opt_value (c_float P) d ''rtt_var_ms'') (\<lambda>b.
    bind_result (opt_value (c_float P) d ''jitter_ms'') (\<lambda>c.
    bind_result (opt_value (c_int P) d ''retransmits'') (\<lambda>r.
    bind_result (opt_value (c_int P) d ''total_retrans'') (\<lambda>t.
    bind_result (opt_value (c_int P) d ''lost'') (\<lambda>l.
    bind_result (opt_value (c_int P) d ''cwnd'') (\<lambda>w.
    bind_result (opt_value (c_str P) d ''rating'') (\<lambda>q.
    Inr \<lparr>rtt_ms = a, rtt_var_ms = b, jitter_ms = c, retransmits = r, total_retrans = t, lost = l, cwnd = w, q_rating = q\<rparr>))))))))"

text \<open>
  A row of the list. A record that cannot be parsed counts as empty; a JSON value that is not an
  object has no \<^verbatim>\<open>get\<close>.
\<close>

definition active_row :: "scalars \<Rightarrow> rval option \<Rightarrow> ustr \<Rightarrow> ustr \<Rightarrow> ActiveSessionOut result" where
  "active_row P raw iid cid =
    (let data = (if raw_truthy raw \<and> raw \<noteq> Some (RText (lit ''1''))
                 then (case json_loads raw of Inr j \<Rightarrow> j | Inl e \<Rightarrow> JObj []) else JObj []) in
     bind_result (jget data (lit ''quality_detail'') JNull) (\<lambda>qd.
     bind_result (case qd of JObj d \<Rightarrow> bind_result (QualityDetail_of P qd) (\<lambda>q. Inr (Some q)) | _ \<Rightarrow> Inr None) (\<lambda>detail.
     bind_result (jget data (lit ''instance_id'') JNull) (\<lambda>i.
     bind_result (if json_truthy i then c_str P i else Inr iid) (\<lambda>iid.
     bind_result (opt_value jint data ''server_port'') (\<lambda>port.
     bind_result (opt_value (c_str P) data ''username'') (\<lambda>u.
     bind_result (opt_value (c_str P) data ''server_display'') (\<lambda>sd.
     bind_result (opt_value (c_str P) data ''server_address'') (\<lambda>sa.
     bind_result (opt_value (c_str P) data ''client_ip'') (\<lambda>ip.
     bind_result (opt_value (c_str P) data ''started_at'') (\<lambda>st.
     bind_result (opt_value (c_str P) data ''connection_quality'') (\<lambda>q.
     Inr \<lparr>o_connection_id = cid, o_instance_id = iid, o_username = u, o_server_display = sd, o_server_address = sa,
       o_server_port = port, o_client_ip = ip, o_started_at = st, o_quality = q, o_detail = detail\<rparr>))))))))))))"

fun active_loop :: "'db redis \<Rightarrow> scalars \<Rightarrow> ustr list \<Rightarrow> ('db, ActiveSessionOut list) eff" where
  "active_loop R P [] = rreturn []"
| "active_loop R P (k # ks) =
     (let parts = split_on 58 k in
      if length parts < 4 then active_loop R P ks
      else rbind (x_get R k) (\<lambda>raw.
           rbind (rlift (active_row P raw (parts ! 2) (parts ! 3))) (\<lambda>row.
           rbind (active_loop R P ks) (\<lambda>rows. rreturn (row # rows)))))"

definition active_sessions :: "'db redis \<Rightarrow> scalars \<Rightarrow> ('db, ActiveSessionOut list) eff" where
  "active_sessions R P = rbind (x_scan R ACTIVE_SCAN) (active_loop R P)"

section \<open>Properties\<close>

context redis_server
begin

lemma drop_token_look:
  "\<exists>db'. drop_token R cid db = (Inr (), db')
    \<and> look db' = (case look db (CONN_TOKEN cid) of
        Some (RText t, e) \<Rightarrow> if t \<noteq> [] then (look db)(TOKEN t := None, CONN_TOKEN cid := None) else look db
      | _ \<Rightarrow> look db)"
  by (auto simp: drop_token_def Let_def rd_simps x_get_def get_look x_delete_def delete_look
      split: option.split rval.split)

lemma kill_session_look:
  assumes "uuid_of s = Inr u"
  shows "\<exists>w'. kill_session R iid None s w = (Inr (), w')
    \<and> history w' = kill_rows u (lit ''admin_kill'') (history w)
    \<and> look (rdb w') (KILL_SESSION s) = Some (RText (lit ''1''), Some 60000)
    \<and> look (rdb w') (ACTIVE_SESSION iid s) = None
    \<and> (\<forall>t e. look (rdb w) (CONN_TOKEN s) = Some (RText t, e) \<longrightarrow> t \<noteq> [] \<longrightarrow>
         look (rdb w') (TOKEN t) = None \<and> look (rdb w') (CONN_TOKEN s) = None)
    \<and> (\<forall>x. x \<noteq> s \<longrightarrow> look (rdb w') (KILL_SESSION x) = look (rdb w) (KILL_SESSION x))"
proof -
  obtain d1 where 1: "r_setex R (rdb w) (KILL_SESSION s) 60 (RText (lit ''1'')) = Inr d1"
    "look d1 = (look (rdb w))(KILL_SESSION s \<mapsto> (RText (lit ''1''), Some 60000))"
    using setex_ok [of 60 "rdb w" "KILL_SESSION s" "RText (lit ''1'')"] by auto
  let ?d2 = "r_delete R d1 (ACTIVE_SESSION iid s)"
  obtain d3 where 3: "drop_token R s ?d2 = (Inr (), d3)"
    "look d3 = (case look ?d2 (CONN_TOKEN s) of
        Some (RText t, e) \<Rightarrow> if t \<noteq> [] then (look ?d2)(TOKEN t := None, CONN_TOKEN s := None) else look ?d2
      | _ \<Rightarrow> look ?d2)" using drop_token_look by blast
  let ?w = "w\<lparr>rdb := d3, history := kill_rows u (lit ''admin_kill'') (history w)\<rparr>"
  have ne: "KILL_SESSION a \<noteq> ACTIVE_SESSION b c" "KILL_SESSION a \<noteq> TOKEN t" "KILL_SESSION a \<noteq> CONN_TOKEN c"
    "ACTIVE_SESSION b c \<noteq> TOKEN t" "ACTIVE_SESSION b c \<noteq> CONN_TOKEN a" "TOKEN t \<noteq> CONN_TOKEN a"
    "KILL_SESSION a = KILL_SESSION c \<longleftrightarrow> a = c" for a b c t
    by (simp_all add: key_defs lit_eval)
  have "kill_session R iid None s w = (Inr (), ?w)"
    using assms 1(1) 3(1) by (simp add: kill_session_def rd_simps on_redis_def on_db_def x_setex_def x_delete_def KILL_TTL_def)
  moreover have "look d3 (KILL_SESSION s) = Some (RText (lit ''1''), Some 60000)" "look d3 (ACTIVE_SESSION iid s) = None"
    "x \<noteq> s \<Longrightarrow> look d3 (KILL_SESSION x) = look (rdb w) (KILL_SESSION x)" for x
    by (auto simp: 3(2) delete_look 1(2) ne ne(1-6) [symmetric] split: option.split rval.split)
  moreover have "look d3 (TOKEN t) = None \<and> look d3 (CONN_TOKEN s) = None"
    if "look (rdb w) (CONN_TOKEN s) = Some (RText t, e)" "t \<noteq> []" for t e
    using that by (simp add: 3(2) delete_look 1(2) ne ne(3,5) [symmetric])
  ultimately show ?thesis by (intro exI [of _ ?w]) simp
qed

end

text \<open>
  Killing a connection by its identifier marks it for the relay, removes it from the active
  list, revokes the token it came with and records the kill. The mark is what the relay's kill
  check reads, and it stays for a minute.
\<close>

lemma kill_takes_effect:
  assumes "redis_server R look watch_state" and "u < 2 ^ 128"
    and "look (rdb w) (CONN_TOKEN (uuid_str u)) = Some (RText t, e)" and "t \<noteq> []"
  shows "\<exists>w'. kill_session R iid None (uuid_str u) w = (Inr (), w')
    \<and> history w' = kill_rows u (lit ''admin_kill'') (history w)
    \<and> look (rdb w') (KILL_SESSION (uuid_str u)) = Some (RText (lit ''1''), Some 60000)
    \<and> look (rdb w') (ACTIVE_SESSION iid (uuid_str u)) = None
    \<and> look (rdb w') (TOKEN t) = None"
  using redis_server.kill_session_look [OF assms(1) uuid_of_uuid_str [OF assms(2)], of iid w] assms(3,4) by blast

definition kill_db :: "mem_db world" where
  "kill_db = \<lparr>rdb = \<lparr>items = [(CONN_TOKEN (uuid_str 1), RText (lit ''tok''), None)], mem_watch = None\<rparr>,
     history = [], conn_events = []\<rparr>"

lemma kill_takes_effect_witness:
  "\<exists>w'. kill_session mem_redis (lit ''n'') None (uuid_str 1) kill_db = (Inr (), w')
    \<and> history w' = kill_rows 1 (lit ''admin_kill'') (history kill_db)
    \<and> mem_look (rdb w') (KILL_SESSION (uuid_str 1)) = Some (RText (lit ''1''), Some 60000)
    \<and> mem_look (rdb w') (ACTIVE_SESSION (lit ''n'') (uuid_str 1)) = None
    \<and> mem_look (rdb w') (TOKEN (lit ''tok'')) = None"
  by (rule kill_takes_effect [OF mem.redis_server_axioms, where e = None])
    (simp_all add: kill_db_def mem_look_def lit_eval)

text \<open>
  A kill by another spelling of the identifier is recorded but not executed: when the path has
  the identifier in a form that is parsed to the same UUID but is not the canonical text, the
  history says killed while the mark that the relay looks for is not set.
\<close>

lemma noncanonical_kill_lost:
  assumes "redis_server R look watch_state" and "uuid_of s = Inr u" and "s \<noteq> uuid_str u"
    and "look (rdb w) (KILL_SESSION (uuid_str u)) = None"
  shows "\<exists>w'. kill_session R iid None s w = (Inr (), w')
    \<and> history w' = kill_rows u (lit ''admin_kill'') (history w)
    \<and> look (rdb w') (KILL_SESSION (uuid_str u)) = None"
proof -
  from redis_server.kill_session_look [OF assms(1,2), of iid w] obtain w' where
    "kill_session R iid None s w = (Inr (), w')" "history w' = kill_rows u (lit ''admin_kill'') (history w)"
    "\<forall>x. x \<noteq> s \<longrightarrow> look (rdb w') (KILL_SESSION x) = look (rdb w) (KILL_SESSION x)" by blast
  then show ?thesis using assms(3,4) by (intro exI [of _ w']) simp
qed

lemma plain_uuid: "uuid_of (hex_fixed 32 10) = Inr 10"
proof -
  have "list_all (\<lambda>c. c \<noteq> 117) (hex_fixed 32 10)" "list_all (\<lambda>c. c \<noteq> 123 \<and> c \<noteq> 125) (hex_fixed 32 10)"
    "list_all (\<lambda>c. c \<noteq> 45) (hex_fixed 32 10)"
    using hex_fixed_range by (fastforce simp: list_all_iff)+
  then have "py_replace (lit ''uuid:'') [] (py_replace (lit ''urn:'') [] (hex_fixed 32 10)) = hex_fixed 32 10"
    "strip_braces (hex_fixed 32 10) = hex_fixed 32 10" "filter (\<lambda>c. c \<noteq> 45) (hex_fixed 32 10) = hex_fixed 32 10"
    by (simp_all add: py_replace_def replace_absent strip_braces_id lit_eval filter_id_conv list_all_iff)
  then show ?thesis using int_base16_hex_fixed [of 30 10] by (simp add: uuid_of_def)
qed

lemma noncanonical_kill_lost_witness:
  "\<exists>w'. kill_session mem_redis (lit ''n'') None (hex_fixed 32 10) kill_db = (Inr (), w')
    \<and> history w' = kill_rows 10 (lit ''admin_kill'') (history kill_db)
    \<and> mem_look (rdb w') (KILL_SESSION (uuid_str 10)) = None"
proof -
  have "hex_fixed 32 10 \<noteq> uuid_str 10"
    using hex_fixed_range [of 45 32 10] uuid_str_hyphen [of 10] by auto
  moreover have "mem_look (rdb kill_db) (KILL_SESSION (uuid_str 10)) = None"
    by (simp add: kill_db_def mem_look_def key_defs lit_eval)
  ultimately show ?thesis by (intro noncanonical_kill_lost [OF mem.redis_server_axioms plain_uuid])
qed

end
