(* ===== verification/Ip_Networks.thy ===== *)
theory Ip_Networks
  imports Rdp_Prelude
begin

text \<open>
  The two membership tests of the services on lists of networks: the trusted proxies of the relay
  (\<^verbatim>\<open>_is_trusted_proxy\<close> in \<^verbatim>\<open>src/services/rdp_relay/handler.py\<close>) and the allowed networks of the
  administration (\<^verbatim>\<open>_ip_in_networks\<close> in \<^verbatim>\<open>src/services/admin/dependencies.py\<close>). Parsing addresses and
  networks (\<^verbatim>\<open>ipaddress\<close>) is a parameter: whether a text is an address, and whether an address lies in
  a network, which raises if the text is not a network.
\<close>

record ip_lib =
  ip_address :: "ustr \<Rightarrow> unit result"
  ip_in_network :: "ustr \<Rightarrow> ustr \<Rightarrow> bool result"
  ip_network :: "ustr \<Rightarrow> unit result"

fun trusted_loop :: "ip_lib \<Rightarrow> ustr \<Rightarrow> ustr list \<Rightarrow> bool result" where
  "trusted_loop I ip [] = Inr False"
| "trusted_loop I ip (net # nets) = (case ip_in_network I ip net of
     Inr True \<Rightarrow> Inr True
   | Inr False \<Rightarrow> trusted_loop I ip nets
   | Inl e \<Rightarrow> if e = ValueError then trusted_loop I ip nets else Inl e)"

definition is_trusted_proxy :: "ip_lib \<Rightarrow> ustr list \<Rightarrow> ustr \<Rightarrow> bool result" where
  "is_trusted_proxy I trusted_proxies ip_str = (case ip_address I ip_str of
     Inl e \<Rightarrow> if e = ValueError then Inr False else Inl e
   | Inr _ \<Rightarrow> trusted_loop I ip_str trusted_proxies)"

fun networks_loop :: "ip_lib \<Rightarrow> ustr \<Rightarrow> ustr list \<Rightarrow> bool result" where
  "networks_loop I ip [] = Inr False"
| "networks_loop I ip (net # nets) = (case ip_in_network I ip net of
     Inr True \<Rightarrow> Inr True
   | Inr False \<Rightarrow> networks_loop I ip nets
   | Inl e \<Rightarrow> if e = ValueError then (if ip = net then Inr True else networks_loop I ip nets) else Inl e)"

definition ip_in_networks :: "ip_lib \<Rightarrow> ustr \<Rightarrow> ustr list \<Rightarrow> bool result" where
  "ip_in_networks I ip_str networks = (case ip_address I ip_str of
     Inl e \<Rightarrow> if e = ValueError then Inr False else Inl e
   | Inr _ \<Rightarrow> networks_loop I ip_str networks)"

text \<open>A library that raises nothing but \<^verbatim>\<open>ValueError\<close>, as documented.\<close>

definition ip_lib_ok :: "ip_lib \<Rightarrow> bool" where
  "ip_lib_ok I \<longleftrightarrow> (\<forall>a e. ip_address I a = Inl e \<longrightarrow> e = ValueError) \<and> (\<forall>a n e. ip_in_network I a n = Inl e \<longrightarrow> e = ValueError)"

lemma trusted_loop_iff:
  "ip_lib_ok I \<Longrightarrow> trusted_loop I ip nets = Inr (\<exists>n \<in> set nets. ip_in_network I ip n = Inr True)"
  by (induction I ip nets rule: trusted_loop.induct) (auto simp: ip_lib_ok_def split: sum.splits bool.splits)

lemma networks_loop_iff:
  "ip_lib_ok I \<Longrightarrow> networks_loop I ip nets = Inr (\<exists>n \<in> set nets.
     ip_in_network I ip n = Inr True \<or> (ip_in_network I ip n = Inl ValueError \<and> ip = n))"
  by (induction I ip nets rule: networks_loop.induct) (auto simp: ip_lib_ok_def split: sum.splits bool.splits)

end
