(* ===== verification/Rdp_Handler.thy ===== *)
theory Rdp_Handler
  imports Session_Store Connection_Tracker Relay_Plugins Proxy_Protocol Tpkt_X224 Ip_Networks
begin

text \<open>
  The connection handler of \<^verbatim>\<open>src/services/rdp_relay/handler.py\<close>: the whole life of an inbound
  connection, from the PROXY header and the first packet over the token, the tracking and the two
  TLS sides to the relay and the records it leaves. The state holds the database and Redis, the
  bytes the client has still to send, what was written to it, whether it was aborted, the plugins
  and the backends that were contacted. What the outside decides (the peer address, the outcomes of
  DNS, TLS, the backend and the relay, database errors, the clock, what other connections do in a
  transaction) is the environment.
\<close>

section \<open>State and environment\<close>

record handler_cfg =
  proxy_protocol :: bool
  trusted_proxies :: "ustr list"
  cfg_fp_enforce :: bool
  cfg_rdp_token_ttl :: int
  cfg_instance_id :: ustr
  cfg_ldap_domain :: "ustr option"
  settings_present :: bool
  set_fp_enforce :: "bool option"
  set_delete_token :: "bool option"
  set_ldap_domain :: "ustr option"
  sessions :: SessionStore
  tracker :: ConnectionTracker

record henv =
  peername :: "ustr option"
  iplib :: ip_lib
  conn_uid :: nat
  now_at :: "nat \<Rightarrow> int"
  now_iso :: ustr
  db_error :: "nat \<Rightarrow> exn option"
  fp_rounds :: "round list"
  dns :: "ustr \<Rightarrow> ustr result"
  drain :: "unit result"
  start_tls :: "unit result"
  backend :: "ustr \<Rightarrow> int \<Rightarrow> ustr \<Rightarrow> ustr \<Rightarrow> ustr \<Rightarrow> unit result"
  relay :: "SessionContext \<Rightarrow> plugin list \<Rightarrow> RelayResult result \<times> plugin list"
  sockets :: bool
  exn_text :: "leg_reason \<Rightarrow> ustr"

record 'db hstate =
  hw :: "'db world"
  client_in :: bytes
  client_out :: "bytes list"
  aborted :: bool
  tracked_cid :: "ustr option"
  contacted :: "(ustr \<times> int \<times> ustr \<times> ustr) list"
  hplugins :: "plugin list"

definition on_world :: "('db world, 'a) eff \<Rightarrow> ('db hstate, 'a) eff" where
  "on_world m s = (case m (hw s) of (r, w) \<Rightarrow> (r, s\<lparr>hw := w\<rparr>))"

definition on_rdb :: "('db, 'a) eff \<Rightarrow> ('db hstate, 'a) eff" where
  "on_rdb m = on_world (on_redis m)"

definition on_client :: "'a rd \<Rightarrow> ('db hstate, 'a) eff" where
  "on_client m s = (case m (client_in s) of (r, b) \<Rightarrow> (r, s\<lparr>client_in := b\<rparr>))"

definition abort_writer :: "('db hstate, unit) eff" where
  "abort_writer s = (Inr (), s\<lparr>aborted := True\<rparr>)"

section \<open>The client address\<close>

definition resolve_client_ip :: "handler_cfg \<Rightarrow> henv \<Rightarrow> ('db hstate, ustr) eff" where
  "resolve_client_ip C E =
    (let peer_ip = (case peername E of Some ip \<Rightarrow> ip | None \<Rightarrow> lit ''unknown'') in
     if proxy_protocol C
     then rbind (rlift (is_trusted_proxy (iplib E) (trusted_proxies C) peer_ip)) (\<lambda>trusted.
       if trusted
       then (\<lambda>s. case on_client read_proxy_protocol s of
               (Inr info, s') \<Rightarrow> (Inr (src_addr info), s')
             | (Inl e, s') \<Rightarrow> (Inr peer_ip, s'))
       else rreturn peer_ip)
     else rreturn peer_ip)"

section \<open>The phases of a connection\<close>

type_synonym admitted = "ustr \<times> ustr \<times> nat \<times> SessionData"

definition fp_enforced :: "handler_cfg \<Rightarrow> bool" where
  "fp_enforced C = (if settings_present C
     then (case set_fp_enforce C of Some b \<Rightarrow> b | None \<Rightarrow> cfg_fp_enforce C) else cfg_fp_enforce C)"

text \<open>The check of the client's fingerprint: whether the token may go on.\<close>

definition check_fingerprint :: "'db redis \<Rightarrow> handler_cfg \<Rightarrow> henv \<Rightarrow> bytes \<Rightarrow> ustr \<Rightarrow> SessionData \<Rightarrow> ('db hstate, bool) eff" where
  "check_fingerprint R C E x224_request token sess =
    (if fp_enforced C
     then rbind (rlift (build_rdp_client_fingerprint (sha256_hex (sessions C)) x224_request token)) (\<lambda>client_fp.
       if json_truthy (sd_fingerprint sess)
       then on_rdb (token_fingerprint_matches R (sessions C) token client_fp)
       else rbind (on_rdb (set_token_fingerprint R (sessions C) token client_fp (fp_rounds E))) (\<lambda>_. rreturn True))
     else rreturn True)"

text \<open>From the first byte to the decision whether the token admits the client.\<close>

definition admit :: "'db redis \<Rightarrow> handler_cfg \<Rightarrow> henv \<Rightarrow> ('db hstate, admitted option) eff" where
  "admit R C E =
    rbind (resolve_client_ip C E) (\<lambda>ip.
    rbind (on_client (read_tpkt [])) (\<lambda>x224_request.
    rbind (rlift (extract_cookie_token x224_request)) (\<lambda>token.
    rbind (on_rdb (get_session R (sessions C) token)) (\<lambda>session.
    case session of
      None \<Rightarrow> rbind abort_writer (\<lambda>_. rreturn None)
    | Some sess \<Rightarrow>
        rbind (check_fingerprint R C E x224_request token sess) (\<lambda>ok.
        if ok then rreturn (Some (ip, token, extract_requested_protocols x224_request, sess))
        else rbind abort_writer (\<lambda>_. rreturn None))))))"

fun opt_text :: "json \<Rightarrow> ustr option" where
  "opt_text (JStr s) = Some s"
| "opt_text _ = None"

definition set_tracked :: "ustr \<Rightarrow> ('db hstate, unit) eff" where
  "set_tracked cid s = (Inr (), s\<lparr>tracked_cid := Some cid\<rparr>)"

definition log_event :: "handler_cfg \<Rightarrow> henv \<Rightarrow> nat \<Rightarrow> ustr \<Rightarrow> ustr \<Rightarrow> json \<Rightarrow> ('db hstate, unit) eff" where
  "log_event C E i cid event_type detail =
    on_world (event (tracker C) (db_error E i) (now_at E i) cid event_type detail)"

text \<open>Tracking and name resolution: the connection identifier and the resolved host.\<close>

definition track :: "'db redis \<Rightarrow> handler_cfg \<Rightarrow> henv \<Rightarrow> admitted \<Rightarrow> ('db hstate, ustr \<times> ustr) eff" where
  "track R C E = (\<lambda>(ip, token, crp, sess).
    rbind (on_world (start R (tracker C) (db_error E 0) (conn_uid E) (now_at E 0) (now_iso E) (sd_username sess)
      (opt_text (sd_server_id sess)) (opt_text (sd_server_display sess)) (sd_target_host sess)
      (sd_target_port sess) ip)) (\<lambda>tracked.
    let cid = tc_connection_id tracked in
    rbind (set_tracked cid) (\<lambda>_.
    rbind (on_rdb (x_setex R (CONN_TOKEN cid) (cfg_rdp_token_ttl C) (RText token))) (\<lambda>_.
    rbind (log_event C E 1 cid (lit ''token_resolved'') (JObj [(lit ''target'',
      JStr (sd_target_host sess @ lit '':'' @ int_str (sd_target_port sess)))])) (\<lambda>_.
    rbind (rlift (dns E (sd_target_host sess))) (\<lambda>resolved_host.
    rbind (if resolved_host \<noteq> sd_target_host sess
      then log_event C E 2 cid (lit ''dns_resolved'') (JObj [(lit ''host'', JStr (sd_target_host sess)),
        (lit ''ip'', JStr resolved_host)])
      else rreturn ()) (\<lambda>_.
    rreturn (cid, resolved_host))))))))"

definition ldap_domain_of :: "handler_cfg \<Rightarrow> ustr" where
  "ldap_domain_of C =
    (let d = (if settings_present C then (case set_ldap_domain C of Some d \<Rightarrow> d | None \<Rightarrow> []) else []) in
     if d = [] then (case cfg_ldap_domain C of Some d \<Rightarrow> d | None \<Rightarrow> []) else d)"

definition write_client :: "bytes \<Rightarrow> ('db hstate, unit) eff" where
  "write_client b s = (Inr (), s\<lparr>client_out := client_out s @ [b]\<rparr>)"

definition connect_backend :: "henv \<Rightarrow> ustr \<Rightarrow> int \<Rightarrow> ustr \<Rightarrow> ustr \<Rightarrow> ustr \<Rightarrow> ('db hstate, unit) eff" where
  "connect_backend E host port user password domain s =
    (backend E host port user password domain, s\<lparr>contacted := contacted s @ [(host, port, user, password)]\<rparr>)"

text \<open>The confirm to the client, TLS with it, and the authenticated connection to the backend.\<close>

definition set_up :: "handler_cfg \<Rightarrow> henv \<Rightarrow> admitted \<Rightarrow> ustr \<Rightarrow> ustr \<Rightarrow> ('db hstate, unit) eff" where
  "set_up C E = (\<lambda>(ip, token, crp, sess) cid resolved_host.
    rbind (rlift build_x224_cc_ssl) (\<lambda>cc.
    rbind (write_client cc) (\<lambda>_.
    rbind (rlift (drain E)) (\<lambda>_.
    rbind (log_event C E 3 cid (lit ''x224_cc_sent'') (JObj [])) (\<lambda>_.
    rbind (rlift (start_tls E)) (\<lambda>_.
    rbind (log_event C E 4 cid (lit ''client_tls_established'') (JObj [])) (\<lambda>_.
    rbind (connect_backend E resolved_host (sd_target_port sess) (sd_username sess) (sd_password sess) (ldap_domain_of C)) (\<lambda>_.
    log_event C E 5 cid (lit ''credssp_authenticated'') (JObj [])))))))))"

text \<open>The kill check of the poller, and the status and reason that the legs of the relay stand for.\<close>

definition kill_requested :: "'db redis \<Rightarrow> int \<Rightarrow> plugin list \<Rightarrow> ustr \<Rightarrow> 'db \<Rightarrow> bool" where
  "kill_requested R now ps cid db \<longleftrightarrow>
    (if raw_truthy (r_get R db (KILL_SESSION cid)) then True
     else case get_monitor ps of
       None \<Rightarrow> False
     | Some p \<Rightarrow> if is_idle now p then True else if is_duration_exceeded now p then True else False)"

definition fin_status :: "'db redis \<Rightarrow> int \<Rightarrow> plugin list \<Rightarrow> ustr \<Rightarrow> LegResult list \<Rightarrow> 'db \<Rightarrow> conn_status \<times> ustr" where
  "fin_status R now ps cid ls db =
    (if list_ex (\<lambda>l. leg_reason l = Killed) ls
     then if raw_truthy (r_get R db (KILL_SESSION cid)) then (SKilled, lit ''admin_kill'')
          else (case get_monitor ps of
              Some p \<Rightarrow> if is_duration_exceeded now p then (SClosed, lit ''max_duration'') else (SClosed, lit ''idle_timeout'')
            | None \<Rightarrow> (SClosed, lit ''idle_timeout''))
     else (SClosed, lit ''normal''))"

definition on_plugins :: "(plugin list \<Rightarrow> 'a \<times> plugin list) \<Rightarrow> ('db hstate, 'a) eff" where
  "on_plugins f s = (case f (hplugins s) of (a, ps) \<Rightarrow> (Inr a, s\<lparr>hplugins := ps\<rparr>))"

fun dir_str :: "direction \<Rightarrow> ustr" where
  "dir_str ClientToBackend = lit ''client->backend''"
| "dir_str BackendToClient = lit ''backend->client''"

text \<open>The text of a reason; that of an exception ends in its message.\<close>

fun reason_str :: "(leg_reason \<Rightarrow> ustr) \<Rightarrow> leg_reason \<Rightarrow> ustr" where
  "reason_str msg Eof = lit ''eof''"
| "reason_str msg Killed = lit ''killed''"
| "reason_str msg IncompleteRead = lit ''incomplete-read''"
| "reason_str msg SslError = lit ''ssl-error:'' @ msg SslError"
| "reason_str msg ConnectionError = lit ''connection-error:'' @ msg ConnectionError"
| "reason_str msg SslShutdownTimeout = lit ''ssl-shutdown-timeout''"
| "reason_str msg (OtherError e) = lit ''error:'' @ msg (OtherError e)"

definition run_relay :: "handler_cfg \<Rightarrow> henv \<Rightarrow> admitted \<Rightarrow> ustr \<Rightarrow> ustr \<Rightarrow> ('db hstate, RelayResult) eff" where
  "run_relay C E = (\<lambda>(ip, token, crp, sess) cid resolved_host.
    let ctx = \<lparr>connection_id = cid, ctx_username = sd_username sess, client_ip = ip, ctx_target_host = resolved_host,
      ctx_target_port = sd_target_port sess, ctx_instance_id = cfg_instance_id C,
      client_requested_protocols = Some crp, has_sockets = sockets E\<rparr> in
    rbind (on_plugins (\<lambda>ps. ((), on_session_start (now_at E 6) ctx ps))) (\<lambda>_.
    rbind (on_plugins (relay E ctx)) (\<lambda>result.
    rbind (rlift result) (\<lambda>result.
    rbind (on_plugins (\<lambda>ps. ((), on_session_end ctx ps))) (\<lambda>_.
    rbind (log_event C E 7 cid (lit ''relay_finished'') (JObj [
      (lit ''bytes_to_client'', JInt (int (bytes_to_client result))),
      (lit ''bytes_to_backend'', JInt (int (bytes_to_backend result))),
      (lit ''legs'', JArr (map (\<lambda>l. JObj [(lit ''direction'', JStr (dir_str (leg_direction l))),
        (lit ''bytes'', JInt (int (transferred l))), (lit ''reason'', JStr (reason_str (exn_text E) (leg_reason l)))])
        (legs result)))])) (\<lambda>_.
    rreturn result))))))"

definition close_connection :: "'db redis \<Rightarrow> handler_cfg \<Rightarrow> henv \<Rightarrow> ustr \<Rightarrow> ustr \<Rightarrow> RelayResult \<Rightarrow> ('db hstate, unit) eff" where
  "close_connection R C E token cid result s =
    (case fin_status R (now_at E 8) (hplugins s) cid (legs result) (rdb (hw s)) of (status, reason) \<Rightarrow>
     rbind (on_world (finish R (tracker C) (db_error E 8) (now_at E 8) cid status (Some reason)
       (int (bytes_to_client result)) (int (bytes_to_backend result)))) (\<lambda>_.
     rbind (if settings_present C \<and> set_delete_token C = Some True
       then on_rdb (delete_session R token) else rreturn ()) (\<lambda>_.
     on_rdb (x_delete R (CONN_TOKEN cid))))) s"

definition connection_body :: "'db redis \<Rightarrow> handler_cfg \<Rightarrow> henv \<Rightarrow> ('db hstate, unit) eff" where
  "connection_body R C E =
    rbind (admit R C E) (\<lambda>a.
    case a of
      None \<Rightarrow> rreturn ()
    | Some adm \<Rightarrow>
        rbind (track R C E adm) (\<lambda>(cid, resolved_host).
        rbind (set_up C E adm cid resolved_host) (\<lambda>_.
        rbind (run_relay C E adm cid resolved_host) (\<lambda>result.
        close_connection R C E (fst (snd adm)) cid result))))"

section \<open>Exceptions\<close>

definition early_disconnect :: "exn \<Rightarrow> bool" where
  "early_disconnect e \<longleftrightarrow> e \<in> {IncompleteReadError, ConnectionResetError, ConnectionAbortedError, BrokenPipeError}"

text \<open>Finalising after an exception; an exception in it is logged and swallowed.\<close>

definition finalize :: "'db redis \<Rightarrow> handler_cfg \<Rightarrow> henv \<Rightarrow> exn \<Rightarrow> ustr \<Rightarrow> ('db hstate, unit) eff" where
  "finalize R C E e cid s =
    (case rbind (if early_disconnect e then rreturn () else log_event C E 9 cid (lit ''error'') (JObj [])) (\<lambda>_.
          rbind (on_world (finish R (tracker C) (db_error E 10) (now_at E 10) cid
            (if early_disconnect e then SClosed else SError)
            (Some (if early_disconnect e then lit ''client_disconnect'' else lit ''exception'')) 0 0)) (\<lambda>_.
          on_rdb (x_delete R (CONN_TOKEN cid)))) s of (r, s') \<Rightarrow> (Inr (), s'))"

definition handle_connection :: "'db redis \<Rightarrow> handler_cfg \<Rightarrow> henv \<Rightarrow> ('db hstate, unit) eff" where
  "handle_connection R C E s =
    (case connection_body R C E (s\<lparr>tracked_cid := None\<rparr>) of
      (Inr _, s') \<Rightarrow> (Inr (), s')
    | (Inl e, s') \<Rightarrow>
        rbind (case tracked_cid s' of None \<Rightarrow> rreturn () | Some cid \<Rightarrow> finalize R C E e cid) (\<lambda>_. abort_writer) s')"

section \<open>What the phases leave alone\<close>

text \<open>The history and the tracked connection; most steps keep both.\<close>

definition core :: "'db hstate \<Rightarrow> ConnectionHistory list \<times> ustr option" where
  "core s = (history (hw s), tracked_cid s)"

definition stable :: "('s \<Rightarrow> 'p) \<Rightarrow> ('s, 'a) eff \<Rightarrow> bool" where
  "stable f m \<longleftrightarrow> (\<forall>s. f (snd (m s)) = f s)"

abbreviation keeps :: "('db hstate, 'a) eff \<Rightarrow> bool" where
  "keeps \<equiv> stable core"

lemma keepsD: "stable f m \<Longrightarrow> m s = (r, s') \<Longrightarrow> f s' = f s"
  unfolding stable_def by (metis snd_conv)

lemma keeps_rbind: "stable p m \<Longrightarrow> (\<And>a. stable p (f a)) \<Longrightarrow> stable p (rbind m f)"
  unfolding stable_def rbind_def
  by (auto split: prod.splits sum.splits) (metis snd_conv)+

lemma keeps_if: "stable p m \<Longrightarrow> stable p n \<Longrightarrow> stable p (if b then m else n)"
  by simp

lemma keeps_option: "stable p m \<Longrightarrow> (\<And>x. stable p (f x)) \<Longrightarrow> stable p (case_option m f o1)"
  by (cases o1) simp_all

lemmas keeps_rules = keeps_rbind keeps_if keeps_option

lemma keeps_pure [simp]: "stable p (rreturn a)" "stable p (rlift r)" "stable p (rraise e)"
  by (simp_all add: stable_def rreturn_def rlift_def rraise_def)

lemma keeps_atoms [simp]:
  "keeps abort_writer" "keeps (write_client b)" "keeps (on_client m)" "keeps (on_rdb m')"
  "keeps (connect_backend E h p u pw d)" "keeps (on_plugins f)"
  by (simp_all add: stable_def core_def abort_writer_def write_client_def on_client_def on_rdb_def on_world_def
      on_redis_def connect_backend_def on_plugins_def split: prod.split)

lemma keeps_event [simp]: "keeps (log_event C E i cid t d)"
  by (auto simp: stable_def core_def log_event_def on_world_def event_def rd_simps on_db_def
      split: prod.splits sum.splits option.splits if_splits)

lemma keeps_resolve [simp]: "keeps (resolve_client_ip C E)"
proof -
  have "keeps (\<lambda>s. case on_client read_proxy_protocol s of
      (Inr info, s') \<Rightarrow> (Inr (src_addr info), s') | (Inl e, s') \<Rightarrow> (Inr ip, s'))" for ip
    by (simp add: stable_def core_def on_client_def split: prod.split sum.split)
  then show ?thesis unfolding resolve_client_ip_def Let_def by (intro keeps_rules) simp_all
qed

lemma keeps_admit: "keeps (admit R C E)"
  unfolding admit_def check_fingerprint_def by (intro keeps_rules) simp_all

lemma keeps_set_up: "keeps (set_up C E adm cid host)"
  unfolding set_up_def by (cases adm) (simp, intro keeps_rules, simp_all)

lemma keeps_run_relay: "keeps (run_relay C E adm cid host)"
  unfolding run_relay_def Let_def by (cases adm) (simp, intro keeps_rules, simp_all)

section \<open>Every tracked connection is finalised\<close>

definition finalised :: "('db \<Rightarrow> rlook) \<Rightarrow> handler_cfg \<Rightarrow> nat \<Rightarrow> 'db hstate \<Rightarrow> bool" where
  "finalised look C uid s \<longleftrightarrow>
    uid \<in> h_id ` set (history (hw s))
    \<and> (\<forall>r \<in> set (history (hw s)). h_id r = uid \<longrightarrow> h_status r \<noteq> SActive \<and> h_ended_at r \<noteq> None)
    \<and> look (rdb (hw s)) (ACTIVE_SESSION (t_instance_id (tracker C)) (uuid_str uid)) = None
    \<and> look (rdb (hw s)) (CONN_TOKEN (uuid_str uid)) = None"

definition handler_ok :: "handler_cfg \<Rightarrow> henv \<Rightarrow> bool" where
  "handler_ok C E \<longleftrightarrow> has_db (tracker C) \<and> has_redis (tracker C) \<and> conn_uid E < 2 ^ 128 \<and> (\<forall>i. db_error E i = None)"

text \<open>A new connection, and one that has been tracked.\<close>

definition fresh :: "henv \<Rightarrow> 'db hstate \<Rightarrow> bool" where
  "fresh E s \<longleftrightarrow> distinct (map h_id (history (hw s))) \<and> conn_uid E \<notin> h_id ` set (history (hw s)) \<and> tracked_cid s = None"

definition opened :: "henv \<Rightarrow> 'db hstate \<Rightarrow> bool" where
  "opened E s \<longleftrightarrow> distinct (map h_id (history (hw s))) \<and> conn_uid E \<in> h_id ` set (history (hw s))
    \<and> tracked_cid s = Some (uuid_str (conn_uid E))"

lemma core_fresh: "core s' = core s \<Longrightarrow> fresh E s' = fresh E s"
  by (simp add: core_def fresh_def)

lemma core_opened: "core s' = core s \<Longrightarrow> opened E s' = opened E s"
  by (simp add: core_def opened_def)

context redis_server
begin

lemma finish_finalises:
  assumes "handler_ok C E" and "opened E s" and "status \<noteq> SActive"
  shows "\<exists>s'. rbind (on_world (finish R (tracker C) (db_error E i) now (uuid_str (conn_uid E)) status reason a b)) (\<lambda>_.
      rbind (if del then on_rdb (delete_session R token) else rreturn ()) (\<lambda>_.
      on_rdb (x_delete R (CONN_TOKEN (uuid_str (conn_uid E)))))) s = (Inr (), s')
    \<and> finalised look C (conn_uid E) s' \<and> tracked_cid s' = tracked_cid s"
proof -
  let ?u = "conn_uid E" and ?T = "tracker C"
  from finish_effect [OF redis_server_axioms, of ?u ?T "hw s" now status reason a b] assms
  obtain w where w: "finish R ?T None now (uuid_str ?u) status reason a b (hw s) = (Inr (), w)"
    "history w = map (\<lambda>r. if h_id r = ?u then finish_row now status reason a b r else r) (history (hw s))"
    "look (rdb w) = (look (rdb (hw s)))(ACTIVE_SESSION (t_instance_id ?T) (uuid_str ?u) := None)"
    by (auto simp: handler_ok_def opened_def)
  have d: "db_error E i = None" using assms(1) by (simp add: handler_ok_def)
  have "set (map h_id (history w)) = set (map h_id (history (hw s)))" by (simp add: w(2) image_image if_distrib [of h_id] cong: if_cong)
  then have h1: "?u \<in> h_id ` set (history w)" using assms(2) by (simp add: opened_def)
  have h2: "\<forall>r \<in> set (history w). h_id r = ?u \<longrightarrow> h_status r \<noteq> SActive \<and> h_ended_at r \<noteq> None"
    using assms(3) by (auto simp: w(2) split: if_splits)
  note h = h1 h2
  let ?w' = "if del then w\<lparr>rdb := r_delete R (rdb w) (TOKEN token)\<rparr> else w"
  let ?s = "s\<lparr>hw := ?w'\<lparr>rdb := r_delete R (rdb ?w') (CONN_TOKEN (uuid_str ?u))\<rparr>\<rparr>"
  have "on_world (finish R ?T (db_error E i) now (uuid_str ?u) status reason a b) s = (Inr (), s\<lparr>hw := w\<rparr>)"
    by (simp add: on_world_def d w(1))
  then have "rbind (on_world (finish R ?T (db_error E i) now (uuid_str ?u) status reason a b)) (\<lambda>_.
      rbind (if del then on_rdb (delete_session R token) else rreturn ()) (\<lambda>_.
      on_rdb (x_delete R (CONN_TOKEN (uuid_str ?u))))) s = (Inr (), ?s)"
    by (cases del) (simp_all add: rbind_def on_rdb_def on_world_def on_redis_def delete_session_def x_delete_def)
  moreover have "finalised look C ?u ?s"
    using h by (cases del) (simp_all add: finalised_def delete_look w(3))
  ultimately show ?thesis by (intro exI [of _ ?s]) simp
qed

lemma close_finalises:
  assumes "handler_ok C E" and "opened E s"
  shows "\<exists>s'. close_connection R C E token (uuid_str (conn_uid E)) result s = (Inr (), s')
    \<and> finalised look C (conn_uid E) s' \<and> tracked_cid s' = tracked_cid s"
proof -
  obtain status reason where f: "fin_status R (now_at E 8) (hplugins s) (uuid_str (conn_uid E)) (legs result) (rdb (hw s)) = (status, reason)"
    by force
  then have "status \<noteq> SActive" by (auto simp: fin_status_def split: if_splits option.splits)
  from finish_finalises [OF assms this] f show ?thesis by (simp add: close_connection_def)
qed

lemma finalize_finalises:
  assumes ok: "handler_ok C E" and "opened E s"
  shows "\<exists>s'. finalize R C E e (uuid_str (conn_uid E)) s = (Inr (), s')
    \<and> finalised look C (conn_uid E) s' \<and> tracked_cid s' = tracked_cid s"
proof -
  let ?m = "if early_disconnect e then rreturn () else log_event C E 9 (uuid_str (conn_uid E)) (lit ''error'') (JObj [])"
  obtain r s1 where m: "?m s = (r, s1)" by force
  moreover have "keeps ?m" by simp
  ultimately have c: "core s1 = core s" by (rule keepsD [rotated])
  have "r = Inr ()"
    using m ok uuid_of_uuid_str [of "conn_uid E"]
    by (auto simp: handler_ok_def log_event_def on_world_def event_def rd_simps on_db_def split: if_splits)
  moreover have st: "(if early_disconnect e then SClosed else SError) \<noteq> SActive" by simp
  moreover obtain s2 where "rbind (on_world (finish R (tracker C) (db_error E 10) (now_at E 10) (uuid_str (conn_uid E))
      (if early_disconnect e then SClosed else SError)
      (Some (if early_disconnect e then lit ''client_disconnect'' else lit ''exception'')) 0 0)) (\<lambda>_.
      on_rdb (x_delete R (CONN_TOKEN (uuid_str (conn_uid E))))) s1 = (Inr (), s2)"
    "finalised look C (conn_uid E) s2" "tracked_cid s2 = tracked_cid s1"
    using finish_finalises [OF ok _ st, of s1 10 "now_at E 10"
        "Some (if early_disconnect e then lit ''client_disconnect'' else lit ''exception'')" 0 0 False]
      assms(2) core_opened [OF c] by auto
  ultimately show ?thesis using m c unfolding finalize_def by (simp add: rbind_def core_def)
qed

lemma track_opens:
  assumes "handler_ok C E" and "fresh E s" and "track R C E adm s = (r, s')"
  shows "opened E s' \<and> (\<forall>cid host. r = Inr (cid, host) \<longrightarrow> cid = uuid_str (conn_uid E))"
proof -
  obtain ip token crp sess where adm: "adm = (ip, token, crp, sess)" by (cases adm)
  let ?cid = "uuid_str (conn_uid E)"
  let ?start = "on_world (start R (tracker C) (db_error E 0) (conn_uid E) (now_at E 0) (now_iso E) (sd_username sess)
      (opt_text (sd_server_id sess)) (opt_text (sd_server_display sess)) (sd_target_host sess) (sd_target_port sess) ip)"
  obtain t s1 where st: "?start s = (Inr t, s1)" "tc_connection_id t = ?cid"
    "distinct (map h_id (history (hw s1)))" "conn_uid E \<in> h_id ` set (history (hw s1))"
    using assms(1,2) start_effect [OF redis_server_axioms, of "tracker C" "conn_uid E" "now_at E 0" "now_iso E" "sd_username sess"
        "opt_text (sd_server_id sess)" "opt_text (sd_server_display sess)" "sd_target_host sess" "sd_target_port sess" ip "hw s"]
    by (auto simp: handler_ok_def fresh_def on_world_def)
  let ?s2 = "s1\<lparr>tracked_cid := Some ?cid\<rparr>"
  have o2: "opened E ?s2" using st(3,4) by (simp add: opened_def)
  define rest where "rest = rbind (on_rdb (x_setex R (CONN_TOKEN ?cid) (cfg_rdp_token_ttl C) (RText token))) (\<lambda>_.
    rbind (log_event C E 1 ?cid (lit ''token_resolved'') (JObj [(lit ''target'',
      JStr (sd_target_host sess @ lit '':'' @ int_str (sd_target_port sess)))])) (\<lambda>_.
    rbind (rlift (dns E (sd_target_host sess))) (\<lambda>resolved_host.
    rbind (if resolved_host \<noteq> sd_target_host sess
      then log_event C E 2 ?cid (lit ''dns_resolved'') (JObj [(lit ''host'', JStr (sd_target_host sess)),
        (lit ''ip'', JStr resolved_host)])
      else rreturn ()) (\<lambda>_. (rreturn (?cid, resolved_host) :: ('db hstate, ustr \<times> ustr) eff)))))"
  have t: "track R C E adm s = rest ?s2"
    unfolding track_def adm rest_def prod.case rbind_Inr [where m = ?start, OF st(1)] st(2) Let_def
    by (rule rbind_Inr) (simp add: set_tracked_def)
  have "keeps rest" unfolding rest_def by (intro keeps_rules) simp_all
  then have "opened E s'" using keepsD [of core rest ?s2 r s'] assms(3) o2 core_opened by (auto simp: t)
  moreover have "\<forall>cid host. r = Inr (cid, host) \<longrightarrow> cid = ?cid"
    using assms(3) unfolding t rest_def by (auto dest!: rbind_okD simp: rreturn_def)
  ultimately show ?thesis by blast
qed

lemma body_outcome:
  assumes ok: "handler_ok C E" and f: "fresh E s" and b: "connection_body R C E s = (r, s')"
  shows "fresh E s' \<or> opened E s' \<and> (\<exists>e. r = Inl e)
    \<or> tracked_cid s' = Some (uuid_str (conn_uid E)) \<and> finalised look C (conn_uid E) s' \<and> r = Inr ()"
proof -
  obtain a s1 where a: "admit R C E s = (a, s1)" by force
  then have f1: "fresh E s1" using core_fresh [OF keepsD [OF keeps_admit a]] f by simp
  show ?thesis
  proof (cases "a = Inr None \<or> (\<exists>e. a = Inl e)")
    case True
    then show ?thesis using a b f1 by (auto simp: connection_body_def rbind_def rreturn_def)
  next
    case False
    then obtain adm where "a = Inr (Some adm)" by (metis not_None_eq obj_sumE)
    then have b1: "rbind (track R C E adm) (\<lambda>(cid, host). rbind (set_up C E adm cid host) (\<lambda>_.
        rbind (run_relay C E adm cid host) (\<lambda>result. close_connection R C E (fst (snd adm)) cid result))) s1 = (r, s')"
      using a b by (simp add: connection_body_def rbind_def)
    obtain t s2 where t: "track R C E adm s1 = (t, s2)" by force
    note o2 = track_opens [OF ok f1 t]
    show ?thesis
    proof (cases t)
      case (Inl e)
      then show ?thesis using b1 t o2 by (auto simp: rbind_def)
    next
      case (Inr ch)
      then obtain host where ch: "t = Inr (uuid_str (conn_uid E), host)" using o2 by (cases ch) auto
      let ?m = "rbind (set_up C E adm (uuid_str (conn_uid E)) host) (\<lambda>_. run_relay C E adm (uuid_str (conn_uid E)) host)"
      obtain q s3 where q: "?m s2 = (q, s3)" by force
      have "keeps ?m" by (intro keeps_rbind keeps_set_up keeps_run_relay)
      then have "core s3 = core s2" using q by (rule keepsD)
      then have o3: "opened E s3" using core_opened o2 by blast
      have b2: "rbind ?m (\<lambda>result. close_connection R C E (fst (snd adm)) (uuid_str (conn_uid E)) result) s2 = (r, s')"
        using b1 unfolding rbind_Inr [where m = "track R C E adm", OF t [unfolded ch]] by (simp add: rbind_assoc)
      have tr: "tracked_cid s3 = Some (uuid_str (conn_uid E))" using o3 by (simp add: opened_def)
      show ?thesis
      proof (cases q)
        case (Inl e)
        then have "r = Inl e \<and> s' = s3" using b2 q by (auto simp: rbind_def)
        with o3 show ?thesis by blast
      next
        case (Inr result)
        then have "close_connection R C E (fst (snd adm)) (uuid_str (conn_uid E)) result s3 = (r, s')"
          using b2 q rbind_Inr [where m = ?m and s = s2 and a = result and s' = s3] by metis
        with close_finalises [OF ok o3, of "fst (snd adm)" result] tr show ?thesis by auto
      qed
    qed
  qed
qed

lemma handler_finalises:
  assumes ok: "handler_ok C E" and f: "fresh E (s\<lparr>tracked_cid := None\<rparr>)"
    and h: "handle_connection R C E s = (r, s')"
  shows "r = Inr () \<and> (tracked_cid s' = None
    \<or> tracked_cid s' = Some (uuid_str (conn_uid E)) \<and> finalised look C (conn_uid E) s')"
proof -
  obtain q s1 where q: "connection_body R C E (s\<lparr>tracked_cid := None\<rparr>) = (q, s1)" by force
  show ?thesis
  proof (cases q)
    case (Inr u)
    then show ?thesis using h q body_outcome [OF ok f q] by (auto simp: handle_connection_def fresh_def)
  next
    case (Inl e)
    show ?thesis
    proof (cases "opened E s1")
      case True
      from finalize_finalises [OF ok True, of e] obtain s2 where
        "finalize R C E e (uuid_str (conn_uid E)) s1 = (Inr (), s2)" "finalised look C (conn_uid E) s2"
        "tracked_cid s2 = tracked_cid s1" by blast
      then show ?thesis
        using h q Inl True by (auto simp: handle_connection_def rbind_def opened_def abort_writer_def finalised_def)
    next
      case False
      then have "tracked_cid s1 = None" using body_outcome [OF ok f q] Inl by (auto simp: fresh_def)
      then show ?thesis using h q Inl by (auto simp: handle_connection_def rbind_def rreturn_def abort_writer_def)
    qed
  qed
qed

end


definition ref_cfg :: handler_cfg where
  "ref_cfg = \<lparr>proxy_protocol = False, trusted_proxies = [], cfg_fp_enforce = False, cfg_rdp_token_ttl = 300,
     cfg_instance_id = lit ''n'', cfg_ldap_domain = None, settings_present = False, set_fp_enforce = None,
     set_delete_token = None, set_ldap_domain = None, sessions = ref_store,
     tracker = \<lparr>has_db = True, has_redis = True, t_instance_id = lit ''n''\<rparr>\<rparr>"

definition ref_env :: henv where
  "ref_env = \<lparr>peername = None, iplib = \<lparr>ip_address = (\<lambda>_. Inl ValueError), ip_in_network = (\<lambda>_ _. Inl ValueError),
     ip_network = (\<lambda>_. Inl ValueError)\<rparr>,
     conn_uid = 5, now_at = int, now_iso = [], db_error = (\<lambda>_. None), fp_rounds = [], dns = Inr, drain = Inr (),
     start_tls = Inr (), backend = (\<lambda>_ _ _ _ _. Inr ()),
     relay = (\<lambda>ctx ps. (Inr \<lparr>bytes_to_client = 0, bytes_to_backend = 0, legs = []\<rparr>, ps)), sockets = False, exn_text = (\<lambda>_. [])\<rparr>"

definition ref_state :: "bytes \<Rightarrow> mem_db hstate" where
  "ref_state b = \<lparr>hw = \<lparr>rdb = empty_db, history = [], conn_events = []\<rparr>, client_in = b, client_out = [],
     aborted = False, tracked_cid = None, contacted = [], hplugins = relay_plugins 3600 0\<rparr>"


section \<open>Who reaches a backend\<close>

lemma contacted_atoms [simp]:
  "stable contacted abort_writer" "stable contacted (write_client b)" "stable contacted (on_client m)"
  "stable contacted (on_rdb m')" "stable contacted (on_world m'')" "stable contacted (on_plugins f)"
  "stable contacted (set_tracked cid)" "stable contacted (log_event C E i cid t d)"
  by (simp_all add: stable_def abort_writer_def write_client_def on_client_def on_rdb_def on_world_def
      on_plugins_def set_tracked_def log_event_def split: prod.split)

lemma contacted_resolve: "stable contacted (resolve_client_ip C E)"
proof -
  have "stable contacted (\<lambda>s. case on_client read_proxy_protocol s of
      (Inr info, s') \<Rightarrow> (Inr (src_addr info), s') | (Inl e, s') \<Rightarrow> (Inr ip, s'))" for ip
    by (simp add: stable_def on_client_def split: prod.split sum.split)
  then show ?thesis unfolding resolve_client_ip_def Let_def by (intro keeps_rules) simp_all
qed

lemma contacted_closing:
  "stable contacted (rbind (on_world m) (\<lambda>_. rbind (if d then on_rdb n else rreturn ()) (\<lambda>_. on_rdb n')))"
  by (intro keeps_rules) simp_all

lemma contacted_final:
  "stable contacted (rbind (if d then rreturn () else log_event C E i c t x) (\<lambda>_. rbind (on_world m) (\<lambda>_. on_rdb n)))"
  by (intro keeps_rules) simp_all

lemma contacted_phases:
  "stable contacted (admit R C E)" "stable contacted (track R C E adm)"
  "stable contacted (run_relay C E adm cid host)" "stable contacted (close_connection R C E token cid result)"
  "stable contacted (finalize R C E e cid)"
proof -
  show "stable contacted (admit R C E)"
    unfolding admit_def check_fingerprint_def by (intro keeps_rules contacted_resolve) simp_all
  show "stable contacted (track R C E adm)"
    unfolding track_def Let_def by (cases adm) (simp, intro keeps_rules, simp_all)
  show "stable contacted (run_relay C E adm cid host)"
    unfolding run_relay_def Let_def by (cases adm) (simp, intro keeps_rules, simp_all)
  show "stable contacted (close_connection R C E token cid result)"
    unfolding close_connection_def stable_def
    by (simp add: contacted_closing [unfolded stable_def] split: prod.split del: rbind_rreturn split del: if_split)
  show "stable contacted (finalize R C E e cid)"
    unfolding finalize_def stable_def
    by (auto split: prod.split dest!: keepsD [OF contacted_final] simp del: rbind_rreturn split del: if_split)
qed

definition reaches :: "ustr \<times> int \<times> ustr \<times> ustr \<Rightarrow> ('db hstate, 'a) eff \<Rightarrow> bool" where
  "reaches x m \<longleftrightarrow> (\<forall>s. contacted (snd (m s)) = contacted s \<or> contacted (snd (m s)) = contacted s @ [x])"

lemma reaches_before: "stable contacted m \<Longrightarrow> (\<And>a. reaches x (f a)) \<Longrightarrow> reaches x (rbind m f)"
  unfolding stable_def reaches_def rbind_def
  by (auto split: prod.splits sum.splits) (metis snd_conv)+

lemma reaches_after: "reaches x m \<Longrightarrow> (\<And>a. stable contacted (f a)) \<Longrightarrow> reaches x (rbind m f)"
  unfolding stable_def reaches_def rbind_def
  by (auto split: prod.splits sum.splits) (metis snd_conv)+

lemma set_up_reaches:
  "reaches (host, sd_target_port sess, sd_username sess, sd_password sess) (set_up C E (ip, token, crp, sess) cid host)"
proof -
  have "reaches (host, sd_target_port sess, sd_username sess, sd_password sess)
      (rbind (connect_backend E host (sd_target_port sess) (sd_username sess) (sd_password sess) (ldap_domain_of C))
        (\<lambda>_. log_event C E 5 cid (lit ''credssp_authenticated'') (JObj [])))"
    by (rule reaches_after) (simp_all add: reaches_def connect_backend_def)
  then show ?thesis unfolding set_up_def prod.case by - ((rule reaches_before, fastforce)+, assumption)
qed

lemma get_session_pure: "get_session R S token db = (fst (get_session R S token db), db)"
  by (auto simp: get_session_def rd_simps x_get_def split: sum.split prod.split)

lemma world_resolve: "stable hw (resolve_client_ip C E)"
proof -
  have "stable hw (\<lambda>s. case on_client read_proxy_protocol s of
      (Inr info, s') \<Rightarrow> (Inr (src_addr info), s') | (Inl e, s') \<Rightarrow> (Inr ip, s'))" for ip
    by (simp add: stable_def on_client_def split: prod.split sum.split)
  then show ?thesis unfolding resolve_client_ip_def Let_def by (intro keeps_rules) simp_all
qed

definition token_admits :: "'db redis \<Rightarrow> handler_cfg \<Rightarrow> 'db \<Rightarrow> ustr \<Rightarrow> SessionData \<Rightarrow> bool" where
  "token_admits R C db token sess \<longleftrightarrow>
    fst (get_session R (sessions C) token db) = Inr (Some sess)
    \<and> (\<exists>x224. extract_cookie_token x224 = Inr token
        \<and> (fp_enforced C \<and> json_truthy (sd_fingerprint sess) \<longrightarrow>
            (\<exists>fp. build_rdp_client_fingerprint (sha256_hex (sessions C)) x224 token = Inr fp
              \<and> fst (token_fingerprint_matches R (sessions C) token fp db) = Inr True)))"

lemma check_fingerprint_granted:
  assumes "check_fingerprint R C E x224 token sess s = (Inr True, s')" and "fp_enforced C" and "json_truthy (sd_fingerprint sess)"
  shows "\<exists>fp. build_rdp_client_fingerprint (sha256_hex (sessions C)) x224 token = Inr fp
    \<and> fst (token_fingerprint_matches R (sessions C) token fp (rdb (hw s))) = Inr True"
  using assms by (auto simp: check_fingerprint_def rd_simps on_rdb_def on_world_def on_redis_def split: sum.splits prod.splits)

lemma get_session_step:
  assumes "on_rdb (get_session R S token) s = (Inr session, s')"
  shows "hw s' = hw s \<and> fst (get_session R S token (rdb (hw s))) = Inr session"
  using assms get_session_pure [of R S token "rdb (hw s)"]
  by (auto simp: on_rdb_def on_world_def on_redis_def split: prod.splits)

lemma admit_granted:
  assumes "admit R C E s = (Inr (Some (ip, token, crp, sess)), s')"
  shows "token_admits R C (rdb (hw s)) token sess"
proof -
  from assms [unfolded admit_def, THEN rbind_okD] obtain ip' s1 where 1: "resolve_client_ip C E s = (Inr ip', s1)"
    and r1: "rbind (on_client (read_tpkt [])) (\<lambda>x224_request.
      rbind (rlift (extract_cookie_token x224_request)) (\<lambda>token.
      rbind (on_rdb (get_session R (sessions C) token)) (\<lambda>session.
      case session of None \<Rightarrow> rbind abort_writer (\<lambda>_. rreturn None)
      | Some sess \<Rightarrow> rbind (check_fingerprint R C E x224_request token sess) (\<lambda>ok.
        if ok then rreturn (Some (ip', token, extract_requested_protocols x224_request, sess))
        else rbind abort_writer (\<lambda>_. rreturn None))))) s1 = (Inr (Some (ip, token, crp, sess)), s')"
    by blast
  from r1 [THEN rbind_okD] obtain x224 s2 where 2: "on_client (read_tpkt []) s1 = (Inr x224, s2)"
    and r2: "rbind (rlift (extract_cookie_token x224)) (\<lambda>token.
      rbind (on_rdb (get_session R (sessions C) token)) (\<lambda>session.
      case session of None \<Rightarrow> rbind abort_writer (\<lambda>_. rreturn None)
      | Some sess \<Rightarrow> rbind (check_fingerprint R C E x224 token sess) (\<lambda>ok.
        if ok then rreturn (Some (ip', token, extract_requested_protocols x224, sess))
        else rbind abort_writer (\<lambda>_. rreturn None)))) s2 = (Inr (Some (ip, token, crp, sess)), s')"
    by blast
  from r2 [THEN rbind_okD] obtain tok session s3 where t: "extract_cookie_token x224 = Inr tok"
    and 3: "on_rdb (get_session R (sessions C) tok) s2 = (Inr session, s3)"
    and r3: "(case session of None \<Rightarrow> rbind abort_writer (\<lambda>_. rreturn None)
      | Some sess \<Rightarrow> rbind (check_fingerprint R C E x224 tok sess) (\<lambda>ok.
        if ok then rreturn (Some (ip', tok, extract_requested_protocols x224, sess))
        else rbind abort_writer (\<lambda>_. rreturn None))) s3 = (Inr (Some (ip, token, crp, sess)), s')"
    by (auto simp: rlift_def dest!: rbind_okD)
  have w: "hw s2 = hw s" using 2 keepsD [OF world_resolve 1] by (auto simp: on_client_def split: prod.splits)
  note g = get_session_step [OF 3, unfolded w]
  obtain sess0 where ss: "session = Some sess0" using r3 by (cases session) (auto simp: rbind_def abort_writer_def rreturn_def)
  from r3 [unfolded ss option.case, THEN rbind_okD] obtain ok s4 where
    c: "check_fingerprint R C E x224 tok sess0 s3 = (Inr ok, s4)"
    and r4: "(if ok then rreturn (Some (ip', tok, extract_requested_protocols x224, sess0))
        else rbind abort_writer (\<lambda>_. rreturn None)) s4 = (Inr (Some (ip, token, crp, sess)), s')" by blast
  have "ok \<and> tok = token \<and> sess0 = sess" using r4 by (auto simp: rbind_def abort_writer_def rreturn_def split: if_splits)
  with c t g ss check_fingerprint_granted [where s = s3] show ?thesis unfolding token_admits_def by metis
qed

lemma track_resolves:
  assumes "track R C E (ip, token, crp, sess) s = (Inr (cid, host), s')"
  shows "dns E (sd_target_host sess) = Inr host"
  using assms unfolding track_def Let_def prod.case
  by (auto simp: rlift_def rreturn_def dest!: rbind_okD)

lemma body_reaches:
  assumes "connection_body R C E s = (r, s')"
  shows "contacted s' = contacted s \<or> (\<exists>token sess host. token_admits R C (rdb (hw s)) token sess
    \<and> dns E (sd_target_host sess) = Inr host
    \<and> contacted s' = contacted s @ [(host, sd_target_port sess, sd_username sess, sd_password sess)])"
proof -
  obtain a s1 where a: "admit R C E s = (a, s1)" by force
  note c1 = keepsD [OF contacted_phases(1) a]
  show ?thesis
  proof (cases "\<exists>adm. a = Inr (Some adm)")
    case False
    then show ?thesis using assms a c1
      by (auto simp: connection_body_def rbind_def rreturn_def split: sum.splits option.splits)
  next
    case True
    then obtain ip token crp sess where adm: "a = Inr (Some (ip, token, crp, sess))" by (metis prod_cases4)
    let ?adm = "(ip, token, crp, sess)"
    obtain b s2 where b: "track R C E ?adm s1 = (b, s2)" by force
    note c2 = keepsD [OF contacted_phases(2) b]
    have rest: "rbind (track R C E ?adm) (\<lambda>(cid, host). rbind (set_up C E ?adm cid host) (\<lambda>_.
        rbind (run_relay C E ?adm cid host) (\<lambda>result. close_connection R C E token cid result))) s1 = (r, s')"
      using assms a adm by (simp add: connection_body_def rbind_Inr)
    show ?thesis
    proof (cases b)
      case (Inl e)
      then show ?thesis using rest b c1 c2 by (simp add: rbind_def)
    next
      case (Inr ch)
      then obtain cid host where ch: "b = Inr (cid, host)" by (metis surj_pair)
      have "reaches (host, sd_target_port sess, sd_username sess, sd_password sess)
          (rbind (set_up C E ?adm cid host) (\<lambda>_. rbind (run_relay C E ?adm cid host)
            (\<lambda>result. close_connection R C E token cid result)))"
        by (rule reaches_after [OF set_up_reaches]) (intro keeps_rbind contacted_phases)
      then have "contacted s' = contacted s2 \<or>
          contacted s' = contacted s2 @ [(host, sd_target_port sess, sd_username sess, sd_password sess)]"
        using rest b ch by (auto simp: reaches_def rbind_Inr dest: spec [of _ s2])
      then show ?thesis
        using admit_granted [OF a [unfolded adm]] track_resolves [OF b [unfolded ch]] c1 c2 by auto
    qed
  qed
qed



end
