(* ===== verification/Credssp.thy ===== *)
theory Credssp
  imports Tpkt_X224
begin

text \<open>
  The message layer of CredSSP (\<^verbatim>\<open>src/libs/rdp/credssp.py\<close>): the hand-written DER decoder, the
  messages \<^verbatim>\<open>TSRequest\<close>, \<^verbatim>\<open>TSPasswordCreds\<close> and \<^verbatim>\<open>TSCredentials\<close>, the extraction of the raw
  public key from a certificate, and the record reader. The encoder \<^verbatim>\<open>asn1encode\<close> comes from
  impacket: it is the parameter \<open>enc\<close>, and the locale \<open>der_encoder\<close> states what is relied on, that
  it puts a DER length in front of its argument.
\<close>

section \<open>Constants\<close>

definition MAX_CREDSSP_RECORD_LEN :: nat where
  "MAX_CREDSSP_RECORD_LEN = 64 * 1024"

definition ASN1_CONTEXT_0 :: byte where
  "ASN1_CONTEXT_0 = 0xA0"

definition ASN1_CONTEXT_1 :: byte where
  "ASN1_CONTEXT_1 = 0xA1"

definition ASN1_CONTEXT_2 :: byte where
  "ASN1_CONTEXT_2 = 0xA2"

definition ASN1_CONTEXT_3 :: byte where
  "ASN1_CONTEXT_3 = 0xA3"

definition ASN1_INTEGER :: byte where
  "ASN1_INTEGER = 0x02"

definition ASN1_OCTET_STR :: byte where
  "ASN1_OCTET_STR = 0x04"

definition ASN1_SEQUENCE :: byte where
  "ASN1_SEQUENCE = 0x30"

lemmas asn1_tags = ASN1_CONTEXT_0_def ASN1_CONTEXT_1_def ASN1_CONTEXT_2_def ASN1_CONTEXT_3_def
  ASN1_INTEGER_def ASN1_OCTET_STR_def ASN1_SEQUENCE_def

section \<open>Decoding\<close>

text \<open>Indexing a \<^verbatim>\<open>bytes\<close> object.\<close>

definition byte_at :: "bytes \<Rightarrow> nat \<Rightarrow> byte result" where
  "byte_at bs i = (if i < length bs then Inr (bs ! i) else Inl IndexError)"

definition extract_raw_pubkey :: "bytes \<Rightarrow> bytes result" where
  "extract_raw_pubkey spki_der =
    (if spki_der = [] \<or> spki_der ! 0 \<noteq> 0x30 then Inl ValueError
     else bind_result (byte_at spki_der 1) (\<lambda>b1.
       let offset = 2 + (if b1 AND 0x80 \<noteq> 0 then unat (b1 AND 0x7F) else 0) in
       bind_result (byte_at spki_der offset) (\<lambda>t1.
       if t1 \<noteq> 0x30 then Inl ValueError
       else bind_result (byte_at spki_der (offset + 1)) (\<lambda>algo_len_byte.
         let offset = (if algo_len_byte AND 0x80 \<noteq> 0
             then (let n = unat (algo_len_byte AND 0x7F);
                       algo_len = be_nat (slice spki_der (offset + 2) (offset + 2 + n))
                   in offset + (2 + n + algo_len))
             else offset + (2 + unat algo_len_byte)) in
         bind_result (byte_at spki_der offset) (\<lambda>t2.
         if t2 \<noteq> 0x03 then Inl ValueError
         else let offset = offset + 1 in
           bind_result (byte_at spki_der offset) (\<lambda>bit_len_byte.
           let offset = offset + 1;
               offset = offset + (if bit_len_byte AND 0x80 \<noteq> 0 then unat (bit_len_byte AND 0x7F) else 0);
               offset = offset + 1
           in Inr (drop offset spki_der)))))))"

definition asn1decode :: "bytes \<Rightarrow> bytes \<times> nat" where
  "asn1decode data =
    (case data of [] \<Rightarrow> ([], 0)
     | length_byte # _ \<Rightarrow>
         if length_byte AND 0x80 \<noteq> 0
         then (let num = unat (length_byte AND 0x7F); len = be_nat (slice data 1 (1 + num)); offset = 1 + num
               in (slice data offset (offset + len), offset + len))
         else (let len = unat length_byte; offset = 1 in (slice data offset (offset + len), offset + len)))"

definition extract_octet_from_nego_data :: "bytes \<Rightarrow> bytes result" where
  "extract_octet_from_nego_data raw =
    bind_result (byte_at raw 0) (\<lambda>b.
    if b \<noteq> ASN1_SEQUENCE then Inr raw
    else let inner = fst (asn1decode (drop 1 raw)) in
      if inner = [] \<or> inner ! 0 \<noteq> ASN1_SEQUENCE then Inr (if inner \<noteq> [] then inner else raw)
      else let inner2 = fst (asn1decode (drop 1 inner)) in
        if inner2 = [] \<or> inner2 ! 0 \<noteq> ASN1_CONTEXT_0 then Inr (if inner2 \<noteq> [] then inner2 else inner)
        else let inner3 = fst (asn1decode (drop 1 inner2)) in
          if inner3 \<noteq> [] \<and> inner3 ! 0 = ASN1_OCTET_STR then Inr (fst (asn1decode (drop 1 inner3)))
          else Inr inner3)"

section \<open>Messages\<close>

record TSRequest =
  NegoData :: "bytes option"
  authInfo :: "bytes option"
  pubKeyAuth :: "bytes option"

definition no_fields :: TSRequest where
  "no_fields = \<lparr>NegoData = None, authInfo = None, pubKeyAuth = None\<rparr>"

definition ts_field :: "byte \<Rightarrow> bytes \<Rightarrow> TSRequest \<Rightarrow> TSRequest result" where
  "ts_field tag content f =
    (if tag = ASN1_CONTEXT_0 then Inr f
     else if tag = ASN1_CONTEXT_1
     then bind_result (extract_octet_from_nego_data content) (\<lambda>p. Inr (f\<lparr>NegoData := Some p\<rparr>))
     else if tag = ASN1_CONTEXT_2
     then bind_result (byte_at content 0) (\<lambda>b.
       if b = ASN1_OCTET_STR then Inr (f\<lparr>authInfo := Some (fst (asn1decode (drop 1 content)))\<rparr>) else Inr f)
     else if tag = ASN1_CONTEXT_3
     then bind_result (byte_at content 0) (\<lambda>b.
       if b = ASN1_OCTET_STR then Inr (f\<lparr>pubKeyAuth := Some (fst (asn1decode (drop 1 content)))\<rparr>) else Inr f)
     else Inr f)"

function ts_loop :: "bytes \<Rightarrow> TSRequest \<Rightarrow> TSRequest result" where
  "ts_loop data f =
    (case data of [] \<Rightarrow> Inr f
     | tag # data' \<Rightarrow> (case asn1decode data' of (content, consumed) \<Rightarrow>
         bind_result (ts_field tag content f) (\<lambda>f'. ts_loop (drop consumed data') f')))"
  by pat_completeness auto
termination by (relation "measure (length \<circ> fst)") auto

declare ts_loop.simps [simp del]

definition from_string :: "bytes \<Rightarrow> TSRequest \<Rightarrow> TSRequest result" where
  "from_string data f =
    bind_result (byte_at data 0) (\<lambda>b.
    if b \<noteq> ASN1_SEQUENCE then Inl ValueError
    else ts_loop (fst (asn1decode (drop 1 data))) f)"

definition TSRequest_init :: "bytes \<Rightarrow> TSRequest result" where
  "TSRequest_init data = (if data \<noteq> [] then from_string data no_fields else Inr no_fields)"

text \<open>A tag followed by the encoded content, and nested ones, the outermost tag first.\<close>

definition tlv :: "(bytes \<Rightarrow> bytes result) \<Rightarrow> byte \<Rightarrow> bytes \<Rightarrow> bytes result" where
  "tlv enc tag d = bind_result (enc d) (\<lambda>e. Inr (tag # e))"

fun tlvs :: "(bytes \<Rightarrow> bytes result) \<Rightarrow> byte list \<Rightarrow> bytes \<Rightarrow> bytes result" where
  "tlvs enc [] d = Inr d"
| "tlvs enc (tag # tags) d = bind_result (tlvs enc tags d) (tlv enc tag)"

fun opt_tlvs :: "(bytes \<Rightarrow> bytes result) \<Rightarrow> byte list \<Rightarrow> bytes option \<Rightarrow> bytes result" where
  "opt_tlvs enc tags None = Inr []"
| "opt_tlvs enc tags (Some d) = tlvs enc tags d"

definition ts_get_data :: "(bytes \<Rightarrow> bytes result) \<Rightarrow> TSRequest \<Rightarrow> bytes result" where
  "ts_get_data enc f =
    bind_result (tlvs enc [ASN1_CONTEXT_0, ASN1_INTEGER] [2]) (\<lambda>version_blob.
    bind_result (opt_tlvs enc [ASN1_CONTEXT_1, ASN1_SEQUENCE, ASN1_SEQUENCE, ASN1_CONTEXT_0, ASN1_OCTET_STR] (NegoData f)) (\<lambda>nego_blob.
    bind_result (opt_tlvs enc [ASN1_CONTEXT_2, ASN1_OCTET_STR] (authInfo f)) (\<lambda>auth_blob.
    bind_result (opt_tlvs enc [ASN1_CONTEXT_3, ASN1_OCTET_STR] (pubKeyAuth f)) (\<lambda>pubkey_blob.
    tlv enc ASN1_SEQUENCE (version_blob @ nego_blob @ auth_blob @ pubkey_blob)))))"

record TSPasswordCreds =
  domainName :: bytes
  userName :: bytes
  pc_password :: bytes

definition creds_field :: "(bytes \<Rightarrow> bytes result) \<Rightarrow> nat \<Rightarrow> bytes \<Rightarrow> bytes result" where
  "creds_field enc ctx_tag v = tlvs enc [word_of_nat (0xA0 + ctx_tag), ASN1_OCTET_STR] v"

definition pc_get_data :: "(bytes \<Rightarrow> bytes result) \<Rightarrow> TSPasswordCreds \<Rightarrow> bytes result" where
  "pc_get_data enc c =
    bind_result (creds_field enc 0 (domainName c)) (\<lambda>d.
    bind_result (creds_field enc 1 (userName c)) (\<lambda>u.
    bind_result (creds_field enc 2 (pc_password c)) (\<lambda>p.
    tlv enc ASN1_SEQUENCE (d @ u @ p))))"

definition tc_get_data :: "(bytes \<Rightarrow> bytes result) \<Rightarrow> byte \<Rightarrow> bytes \<Rightarrow> bytes result" where
  "tc_get_data enc credType credentials =
    bind_result (tlvs enc [0xA0, ASN1_INTEGER] [credType]) (\<lambda>cred_type_blob.
    bind_result (tlvs enc [0xA1, ASN1_OCTET_STR] credentials) (\<lambda>creds_blob.
    tlv enc ASN1_SEQUENCE (cred_type_blob @ creds_blob)))"

section \<open>Records\<close>

text \<open>\<^verbatim>\<open>struct.unpack(">H", b)\<close> needs exactly two bytes.\<close>

definition unpack_be16 :: "bytes \<Rightarrow> nat result" where
  "unpack_be16 b = (if length b = 2 then Inr (be_nat b) else Inl StructError)"

text \<open>The reader of records on top of a reader \<open>rx\<close> of exact lengths, which is \<^verbatim>\<open>readexactly\<close> or its
  form under a deadline.\<close>

definition read_credssp_record :: "(int \<Rightarrow> bytes rd) \<Rightarrow> bytes rd" where
  "read_credssp_record rx =
    rbind (rx 1) (\<lambda>first.
    if first ! 0 = TPKT_VERSION
    then rbind (rx 3) (\<lambda>rest.
         rbind (rlift (unpack_be16 (slice rest 2 4))) (\<lambda>total_len.
         rx (int total_len - 4)))
    else if first ! 0 \<noteq> 0x30 then rraise ValueError
    else rbind (rx 1) (\<lambda>len_b.
      rbind (if len_b ! 0 AND 0x80 \<noteq> 0
             then rbind (rx (int (unat (len_b ! 0 AND 0x7F)))) (\<lambda>len_ext.
               rreturn (first @ len_b @ len_ext, be_nat len_ext))
             else rreturn (first @ len_b, unat (len_b ! 0))) (\<lambda>(header, plen).
      if MAX_CREDSSP_RECORD_LEN < plen then rraise ValueError
      else rbind (rx (int plen)) (\<lambda>payload. rreturn (header @ payload)))))"

section \<open>Identities\<close>

definition split_domain_user :: "(ustr \<Rightarrow> ustr) \<Rightarrow> ustr \<Rightarrow> ustr \<Rightarrow> ustr \<times> ustr" where
  "split_domain_user upper username fallback_domain =
    (if 92 \<in> set username then split_once 92 username
     else if 64 \<in> set username then (case split_once 64 username of (user, domain) \<Rightarrow> (domain, user))
     else let domain = (if 46 \<in> set fallback_domain then fst (split_once 46 fallback_domain) else fallback_domain)
          in (upper domain, username))"

section \<open>Length headers\<close>

lemma odd_div: "n < 256 \<Longrightarrow> odd (n div 128) \<longleftrightarrow> 128 \<le> (n :: nat)"
proof (cases "n < 128")
  case False
  assume "n < 256"
  with False have "n div 128 = 1" by (intro div_nat_eqI) simp_all
  with False show ?thesis by simp
qed simp

lemma high_mod: "128 \<le> n \<Longrightarrow> n < 256 \<Longrightarrow> n mod 128 = n - (128 :: nat)"
  by (simp add: le_mod_geq)

lemma top_bit: "(b :: byte) AND 0x80 \<noteq> 0 \<longleftrightarrow> 128 \<le> unat b"
proof -
  have "b AND 0x80 \<noteq> 0 \<longleftrightarrow> bit b 7"
    using and_exp_eq_0_iff_not_bit [of b 7] by simp
  also have "\<dots> \<longleftrightarrow> bit (unat b) 7" by (simp add: bit_unsigned_iff)
  also have "\<dots> \<longleftrightarrow> 128 \<le> unat b"
    using odd_div [of "unat b"] unat_byte_less [of b] by (simp add: bit_iff_odd)
  finally show ?thesis .
qed

lemma low_bits: "unat ((b :: byte) AND 0x7F) = unat b mod 128"
proof -
  have "b AND 0x7F = take_bit 7 b" by (simp add: take_bit_eq_mask mask_numeral)
  then show ?thesis by (simp only: unsigned_take_bit_eq) (simp add: take_bit_eq_mod)
qed

lemma low7: "unat ((b :: byte) AND 0x7F) \<le> 127"
  using mod_less_divisor [of 128 "unat b"] by (simp add: low_bits)

text \<open>A header of a DER length: short form below 128, or the number of length bytes and the length.\<close>

fun der_header :: "bytes \<Rightarrow> nat \<Rightarrow> bool" where
  "der_header [] n \<longleftrightarrow> False"
| "der_header (b # bs) n \<longleftrightarrow>
    (if unat b < 128 then bs = [] \<and> n = unat b else length bs = unat b - 128 \<and> n = be_nat bs)"

lemma asn1decode_header:
  assumes "der_header h (length d)"
  shows "asn1decode (h @ d @ rest) = (d, length h + length d)"
proof (cases h)
  case (Cons b bs)
  show ?thesis
  proof (cases "unat b < 128")
    case True
    then show ?thesis using assms Cons by (simp add: asn1decode_def top_bit slice_def)
  next
    case False
    have "unat b mod 128 = unat b - 128"
      using False by (intro high_mod) simp_all
    with assms Cons False have num: "unat (b AND 0x7F) = length bs" by (simp add: low_bits)
    have len: "be_nat bs = length d" using assms Cons False by simp
    show ?thesis using False by (simp add: Cons asn1decode_def top_bit slice_def num len)
  qed
qed (use assms in simp)

lemma asn1decode_header_end:
  "der_header h (length d) \<Longrightarrow> asn1decode (h @ d) = (d, length h + length d)"
  using asn1decode_header [of h d "[]"] by simp

section \<open>Round trips\<close>

locale der_encoder =
  fixes enc :: "bytes \<Rightarrow> bytes result"
  assumes enc_der: "length d < 2 ^ 32 \<Longrightarrow> \<exists>h. enc d = Inr (h @ d) \<and> der_header h (length d) \<and> length h \<le> 5"
begin

lemma tlv_ok:
  assumes "length d < 2 ^ 32"
  shows "\<exists>h. tlv enc t d = Inr (t # h @ d) \<and> der_header h (length d) \<and> length h \<le> 5"
  using enc_der [OF assms] by (auto simp: tlv_def)

text \<open>An encoded structure of at most 64 KiB and its decoding, tag by tag.\<close>

lemma tlvs_Cons_ok:
  assumes "length d + 6 * length (t # ts) < 2 ^ 32" and "\<exists>c. tlvs enc ts d = Inr c \<and> length c \<le> length d + 6 * length ts"
  shows "\<exists>c h. tlvs enc ts d = Inr c \<and> tlvs enc (t # ts) d = Inr (t # h @ c) \<and> der_header h (length c)
    \<and> length (t # h @ c) \<le> length d + 6 * length (t # ts)"
proof -
  obtain c where c: "tlvs enc ts d = Inr c" "length c \<le> length d + 6 * length ts" using assms(2) by blast
  with assms(1) obtain h where "tlv enc t c = Inr (t # h @ c)" "der_header h (length c)" "length h \<le> 5"
    using tlv_ok [of c t] by auto
  with c show ?thesis by auto
qed

lemma tlvs_ok:
  "length d + 6 * length ts < 2 ^ 32 \<Longrightarrow> \<exists>c. tlvs enc ts d = Inr c \<and> length c \<le> length d + 6 * length ts"
proof (induction ts)
  case (Cons t ts)
  then show ?case using tlvs_Cons_ok [of d t ts] by fastforce
qed simp

lemmas tlvs_step = tlvs_Cons_ok [OF _ tlvs_ok]

lemma tlvs_decode:
  assumes "length d + 6 * length (t # ts) < 2 ^ 32" and "tlvs enc (t # ts) d = Inr e"
  shows "\<exists>c. tlvs enc ts d = Inr c \<and> e \<noteq> [] \<and> e ! 0 = t \<and> fst (asn1decode (drop 1 e)) = c"
proof -
  obtain c h where "tlvs enc ts d = Inr c" "tlvs enc (t # ts) d = Inr (t # h @ c)" "der_header h (length c)"
    using tlvs_step [of d t ts] assms(1) by auto
  with assms(2) show ?thesis by (auto simp: asn1decode_header_end)
qed

lemma octet_decode:
  assumes "length d + 6 < 2 ^ 32" and "tlvs enc [ASN1_OCTET_STR] d = Inr e"
  shows "e \<noteq> [] \<and> e ! 0 = ASN1_OCTET_STR \<and> fst (asn1decode (drop 1 e)) = d"
  using tlvs_decode [of d ASN1_OCTET_STR "[]" e] assms by auto

lemma nego_decode:
  assumes "length d + 24 < 2 ^ 32"
    and "tlvs enc [ASN1_SEQUENCE, ASN1_SEQUENCE, ASN1_CONTEXT_0, ASN1_OCTET_STR] d = Inr e"
  shows "extract_octet_from_nego_data e = Inr d"
proof -
  obtain e1 where 1: "tlvs enc [ASN1_SEQUENCE, ASN1_CONTEXT_0, ASN1_OCTET_STR] d = Inr e1"
    "e \<noteq> [] \<and> e ! 0 = ASN1_SEQUENCE \<and> fst (asn1decode (drop 1 e)) = e1"
    using tlvs_decode [OF _ assms(2)] assms(1) by auto
  obtain e2 where 2: "tlvs enc [ASN1_CONTEXT_0, ASN1_OCTET_STR] d = Inr e2"
    "e1 \<noteq> [] \<and> e1 ! 0 = ASN1_SEQUENCE \<and> fst (asn1decode (drop 1 e1)) = e2"
    using tlvs_decode [OF _ 1(1)] assms(1) by auto
  obtain e3 where 3: "tlvs enc [ASN1_OCTET_STR] d = Inr e3"
    "e2 \<noteq> [] \<and> e2 ! 0 = ASN1_CONTEXT_0 \<and> fst (asn1decode (drop 1 e2)) = e3"
    using tlvs_decode [OF _ 2(1)] assms(1) by auto
  show ?thesis
    using 1(2) 2(2) 3(2) octet_decode [OF _ 3(1)] assms(1)
    by (simp add: extract_octet_from_nego_data_def byte_at_def)
qed

end

lemma ts_loop_Nil: "ts_loop [] f = Inr f"
  by (simp add: ts_loop.simps)

lemma ts_loop_step:
  "der_header h (length c) \<Longrightarrow> ts_loop (t # h @ c @ rest) f = bind_result (ts_field t c f) (ts_loop rest)"
  by (subst ts_loop.simps) (simp add: asn1decode_header)

context der_encoder
begin

lemma ts_loop_blob:
  assumes "length d + 6 * length (t # ts) < 2 ^ 32" and "tlvs enc (t # ts) d = Inr e"
    and "\<And>c. tlvs enc ts d = Inr c \<Longrightarrow> ts_field t c f = Inr f'"
  shows "ts_loop (e @ rest) f = ts_loop rest f'"
proof -
  obtain c h where "tlvs enc ts d = Inr c" "tlvs enc (t # ts) d = Inr (t # h @ c)" "der_header h (length c)"
    using tlvs_step [of d t ts] assms(1) by auto
  with assms(2,3) show ?thesis by (auto simp: ts_loop_step)
qed

lemma opt_tlvs_ok:
  "(case o1 of None \<Rightarrow> 0 | Some d \<Rightarrow> length d) + 6 * length ts < 2 ^ 32 \<Longrightarrow>
    \<exists>c. opt_tlvs enc ts o1 = Inr c \<and> length c \<le> (case o1 of None \<Rightarrow> 0 | Some d \<Rightarrow> length d) + 6 * length ts"
  using tlvs_ok by (cases o1) auto

lemma loop_version:
  assumes "tlvs enc [ASN1_CONTEXT_0, ASN1_INTEGER] [2] = Inr e"
  shows "ts_loop (e @ rest) f = ts_loop rest f"
  by (rule ts_loop_blob [OF _ assms]) (simp_all add: ts_field_def)

lemma loop_nego:
  assumes "opt_tlvs enc [ASN1_CONTEXT_1, ASN1_SEQUENCE, ASN1_SEQUENCE, ASN1_CONTEXT_0, ASN1_OCTET_STR] n = Inr e"
    and "(case n of None \<Rightarrow> 0 | Some d \<Rightarrow> length d) + 30 < 2 ^ 32" and "NegoData f = None"
  shows "ts_loop (e @ rest) f = ts_loop rest (f\<lparr>NegoData := n\<rparr>)"
proof (cases n)
  case (Some d)
  with assms(1) have "tlvs enc [ASN1_CONTEXT_1, ASN1_SEQUENCE, ASN1_SEQUENCE, ASN1_CONTEXT_0, ASN1_OCTET_STR] d = Inr e" by simp
  then show ?thesis
    by (rule ts_loop_blob [rotated]) (use assms(2) Some nego_decode [of d] in \<open>auto simp: ts_field_def asn1_tags\<close>)
qed (use assms in \<open>cases f; simp\<close>)

lemma loop_auth:
  assumes "opt_tlvs enc [ASN1_CONTEXT_2, ASN1_OCTET_STR] n = Inr e"
    and "(case n of None \<Rightarrow> 0 | Some d \<Rightarrow> length d) + 30 < 2 ^ 32" and "authInfo f = None"
  shows "ts_loop (e @ rest) f = ts_loop rest (f\<lparr>authInfo := n\<rparr>)"
proof (cases n)
  case (Some d)
  with assms(1) have "tlvs enc [ASN1_CONTEXT_2, ASN1_OCTET_STR] d = Inr e" by simp
  then show ?thesis
    by (rule ts_loop_blob [rotated])
      (use assms(2) Some octet_decode [of d] in \<open>auto simp: ts_field_def byte_at_def asn1_tags\<close>)
qed (use assms in \<open>cases f; simp\<close>)

lemma loop_pubkey:
  assumes "opt_tlvs enc [ASN1_CONTEXT_3, ASN1_OCTET_STR] n = Inr e"
    and "(case n of None \<Rightarrow> 0 | Some d \<Rightarrow> length d) + 30 < 2 ^ 32" and "pubKeyAuth f = None"
  shows "ts_loop (e @ rest) f = ts_loop rest (f\<lparr>pubKeyAuth := n\<rparr>)"
proof (cases n)
  case (Some d)
  with assms(1) have "tlvs enc [ASN1_CONTEXT_3, ASN1_OCTET_STR] d = Inr e" by simp
  then show ?thesis
    by (rule ts_loop_blob [rotated])
      (use assms(2) Some octet_decode [of d] in \<open>auto simp: ts_field_def byte_at_def asn1_tags\<close>)
qed (use assms in \<open>cases f; simp\<close>)

end

text \<open>The octets a message carries; 67 octets of tags and lengths come on top at most.\<close>

definition ts_size :: "TSRequest \<Rightarrow> nat" where
  "ts_size f = (case NegoData f of None \<Rightarrow> 0 | Some d \<Rightarrow> length d)
    + (case authInfo f of None \<Rightarrow> 0 | Some d \<Rightarrow> length d) + (case pubKeyAuth f of None \<Rightarrow> 0 | Some d \<Rightarrow> length d)"

context der_encoder
begin

lemma ts_encoded:
  assumes "ts_size f + 67 \<le> MAX_CREDSSP_RECORD_LEN"
  shows "\<exists>h c. ts_get_data enc f = Inr (ASN1_SEQUENCE # h @ c) \<and> der_header h (length c)
    \<and> length c \<le> MAX_CREDSSP_RECORD_LEN \<and> ts_loop c no_fields = Inr f"
proof -
  let ?n = "case NegoData f of None \<Rightarrow> 0 | Some d \<Rightarrow> length d" and ?a = "case authInfo f of None \<Rightarrow> 0 | Some d \<Rightarrow> length d"
    and ?p = "case pubKeyAuth f of None \<Rightarrow> 0 | Some d \<Rightarrow> length d"
  have len: "?n + ?a + ?p + 67 \<le> 65536" using assms by (simp add: ts_size_def MAX_CREDSSP_RECORD_LEN_def)
  obtain v where v: "tlvs enc [ASN1_CONTEXT_0, ASN1_INTEGER] [2] = Inr v" "length v \<le> 13"
    using tlvs_ok [of "[2]" "[ASN1_CONTEXT_0, ASN1_INTEGER]"] by auto
  obtain n where n: "opt_tlvs enc [ASN1_CONTEXT_1, ASN1_SEQUENCE, ASN1_SEQUENCE, ASN1_CONTEXT_0, ASN1_OCTET_STR] (NegoData f) = Inr n"
    "length n \<le> ?n + 30"
    using opt_tlvs_ok [of "NegoData f" "[ASN1_CONTEXT_1, ASN1_SEQUENCE, ASN1_SEQUENCE, ASN1_CONTEXT_0, ASN1_OCTET_STR]"] len by auto
  obtain a where a: "opt_tlvs enc [ASN1_CONTEXT_2, ASN1_OCTET_STR] (authInfo f) = Inr a" "length a \<le> ?a + 12"
    using opt_tlvs_ok [of "authInfo f" "[ASN1_CONTEXT_2, ASN1_OCTET_STR]"] len by auto
  obtain p where p: "opt_tlvs enc [ASN1_CONTEXT_3, ASN1_OCTET_STR] (pubKeyAuth f) = Inr p" "length p \<le> ?p + 12"
    using opt_tlvs_ok [of "pubKeyAuth f" "[ASN1_CONTEXT_3, ASN1_OCTET_STR]"] len by auto
  let ?c = "v @ n @ a @ p"
  have c: "length ?c \<le> 65536" using v n a p len by simp
  obtain h where "tlv enc ASN1_SEQUENCE ?c = Inr (ASN1_SEQUENCE # h @ ?c)" "der_header h (length ?c)"
    using tlv_ok [of ?c ASN1_SEQUENCE] c by auto
  moreover have "ts_loop ?c no_fields = Inr f"
    using loop_version [OF v(1), of "n @ a @ p" no_fields] loop_nego [OF n(1), of no_fields "a @ p"]
      loop_auth [OF a(1), of "no_fields\<lparr>NegoData := NegoData f\<rparr>" p]
      loop_pubkey [OF p(1), of "no_fields\<lparr>NegoData := NegoData f, authInfo := authInfo f\<rparr>" "[]"] len
    by (simp add: no_fields_def ts_loop_Nil)
  moreover have "ts_get_data enc f = tlv enc ASN1_SEQUENCE ?c" unfolding ts_get_data_def v(1) n(1) a(1) p(1) bind_result_simps ..
  ultimately show ?thesis using c unfolding MAX_CREDSSP_RECORD_LEN_def by (intro exI [of _ h] exI [of _ ?c]) simp
qed

lemma ts_roundtrip:
  assumes "ts_size f + 67 \<le> MAX_CREDSSP_RECORD_LEN"
  shows "\<exists>d. ts_get_data enc f = Inr d \<and> TSRequest_init d = Inr f"
proof -
  obtain h c where e: "ts_get_data enc f = Inr (ASN1_SEQUENCE # h @ c)" and "der_header h (length c)"
    and "ts_loop c no_fields = Inr f" using ts_encoded [OF assms] by blast
  then have "TSRequest_init (ASN1_SEQUENCE # h @ c) = Inr f"
    by (simp add: TSRequest_init_def from_string_def byte_at_def asn1decode_header_end)
  with e show ?thesis by blast
qed

end

text \<open>A record is read exactly: the reader stops behind the length that its header announces.\<close>

lemma readexactly_Cons: "readexactly 1 (b # s) = (Inr [b], s)"
  by (simp add: readexactly_def)

lemma read_record_exact:
  assumes "der_header h (length c)" and "length c \<le> MAX_CREDSSP_RECORD_LEN"
  shows "read_credssp_record readexactly (ASN1_SEQUENCE # h @ c @ rest) = (Inr (ASN1_SEQUENCE # h @ c), rest)"
proof (cases h)
  case (Cons b bs)
  note r = read_credssp_record_def rd_simps readexactly_Cons TPKT_VERSION_def ASN1_SEQUENCE_def top_bit
  show ?thesis
  proof (cases "unat b < 128")
    case True
    then have "bs = []" "unat b = length c" using assms Cons by simp_all
    then show ?thesis using assms(2) True by (simp add: Cons r)
  next
    case False
    have "unat b mod 128 = unat b - 128" using False by (intro high_mod) simp_all
    with assms(1) Cons False have n: "unat (b AND 0x7F) = length bs" by (simp add: low_bits)
    then have num: "uint (b AND 0x7F) = int (length bs)" by (metis uint_nat)
    have len: "be_nat bs = length c" using assms(1) Cons False by simp
    show ?thesis using assms(2) False by (simp add: Cons r num len)
  qed
qed (use assms in simp)

definition read_ts :: "TSRequest rd" where
  "read_ts = rbind (read_credssp_record readexactly) (\<lambda>d. rlift (TSRequest_init d))"

definition frame_ts :: "(bytes \<Rightarrow> bytes result) \<Rightarrow> TSRequest \<Rightarrow> bytes" where
  "frame_ts enc f = (case ts_get_data enc f of Inr d \<Rightarrow> d | Inl e \<Rightarrow> [])"

context der_encoder
begin

lemma read_ts_frame:
  assumes "ts_size f + 67 \<le> MAX_CREDSSP_RECORD_LEN"
  shows "read_ts (frame_ts enc f @ rest) = (Inr f, rest)"
proof -
  obtain h c where e: "ts_get_data enc f = Inr (ASN1_SEQUENCE # h @ c)" "der_header h (length c)"
    "length c \<le> MAX_CREDSSP_RECORD_LEN" using ts_encoded [OF assms] by blast
  moreover have "TSRequest_init (ASN1_SEQUENCE # h @ c) = Inr f" using ts_roundtrip [OF assms] e(1) by auto
  ultimately show ?thesis by (simp add: read_ts_def frame_ts_def rd_simps read_record_exact)
qed

end

sublocale der_encoder \<subseteq> ts: framing "frame_ts enc" read_ts "\<lambda>f. ts_size f + 67 \<le> MAX_CREDSSP_RECORD_LEN"
  by unfold_locales (rule read_ts_frame)

text \<open>The encoder as impacket documents it: the shortest of the DER length forms up to four bytes.\<close>

definition der_encode :: "bytes \<Rightarrow> bytes result" where
  "der_encode d = (let n = length d in
     if n < 0x80 then Inr (word_of_nat n # d)
     else if n < 0x100 then Inr (0x81 # be_bytes 1 n @ d)
     else if n < 0x10000 then Inr (0x82 # be_bytes 2 n @ d)
     else if n < 0x1000000 then Inr (0x83 # be_bytes 3 n @ d)
     else if n < 0x100000000 then Inr (0x84 # be_bytes 4 n @ d)
     else Inl OtherException)"

interpretation der: der_encoder der_encode
proof
  fix d :: bytes
  assume "length d < 2 ^ 32"
  then consider "length d < 0x80" | "0x80 \<le> length d" "length d < 0x100" | "0x100 \<le> length d" "length d < 0x10000"
    | "0x10000 \<le> length d" "length d < 0x1000000" | "0x1000000 \<le> length d" "length d < 0x100000000" by fastforce
  then show "\<exists>h. der_encode d = Inr (h @ d) \<and> der_header h (length d) \<and> length h \<le> 5"
  proof cases
    case 1
    then show ?thesis by (intro exI [of _ "[word_of_nat (length d)]"]) (simp add: der_encode_def unat_of_nat)
  next
    case 2
    then show ?thesis by (intro exI [of _ "0x81 # be_bytes 1 (length d)"]) (simp add: der_encode_def be_nat_be_bytes)
  next
    case 3
    then show ?thesis by (intro exI [of _ "0x82 # be_bytes 2 (length d)"]) (simp add: der_encode_def be_nat_be_bytes)
  next
    case 4
    then show ?thesis by (intro exI [of _ "0x83 # be_bytes 3 (length d)"]) (simp add: der_encode_def be_nat_be_bytes)
  next
    case 5
    then show ?thesis by (intro exI [of _ "0x84 # be_bytes 4 (length d)"]) (simp add: der_encode_def be_nat_be_bytes)
  qed
qed

section \<open>Properties\<close>

text \<open>
  With an encoder that writes DER lengths, any sequence of \<^verbatim>\<open>TSRequest\<close> messages of at most
  64 KiB (67 octets of it are tags and lengths) that is written with \<^verbatim>\<open>get_data\<close> and sent over one
  stream is read back with \<^verbatim>\<open>_read_credssp_record\<close> and \<^verbatim>\<open>TSRequest(data)\<close> message by message, each
  with exactly the fields it was built with, and the bytes after the last one stay unread.
\<close>

lemma ts_stream_roundtrip:
  assumes "der_encoder enc" and "list_all (\<lambda>f. ts_size f + 67 \<le> MAX_CREDSSP_RECORD_LEN) fs"
  shows "read_many read_ts (length fs) (concat (map (frame_ts enc) fs) @ rest) = (Inr fs, rest)"
  using framing.read_many_frames [OF der_encoder.read_ts_frame [OF assms(1), THEN framing.intro] assms(2)] .

lemma ts_stream_roundtrip_witness:
  "read_many read_ts 2 (concat (map (frame_ts der_encode)
      [\<lparr>NegoData = Some [1, 2], authInfo = None, pubKeyAuth = Some []\<rparr>,
       \<lparr>NegoData = None, authInfo = Some [7], pubKeyAuth = None\<rparr>]) @ [9])
    = (Inr [\<lparr>NegoData = Some [1, 2], authInfo = None, pubKeyAuth = Some []\<rparr>,
       \<lparr>NegoData = None, authInfo = Some [7], pubKeyAuth = None\<rparr>], [9])"
  using ts_stream_roundtrip [OF der.der_encoder_axioms, of "[\<lparr>NegoData = Some [1, 2], authInfo = None, pubKeyAuth = Some []\<rparr>,
       \<lparr>NegoData = None, authInfo = Some [7], pubKeyAuth = None\<rparr>]" "[9]"]
  by (simp add: ts_size_def MAX_CREDSSP_RECORD_LEN_def numeral_2_eq_2)

lemma byte_at_mid: "i = length p \<Longrightarrow> byte_at (p @ b # q) i = Inr b"
  by (simp add: byte_at_def)

lemma drop_mid: "i = length p \<Longrightarrow> drop i (p @ q) = q"
  by simp

lemma header_cases:
  assumes "der_header h n"
  obtains b bs where "h = b # bs"
    and "(if b AND 0x80 \<noteq> 0 then unat (b AND 0x7F) else 0) = length bs"
    and "b AND 0x80 \<noteq> 0 \<longrightarrow> unat (b AND 0x7F) = length bs \<and> be_nat bs = n"
    and "b AND 0x80 = 0 \<longrightarrow> bs = [] \<and> unat b = n"
proof (cases h)
  case (Cons b bs)
  have "b AND 0x80 = 0 \<longleftrightarrow> unat b < 128" using top_bit [of b] by auto
  moreover have "unat b mod 128 = unat b - 128" if "\<not> unat b < 128" using that by (intro high_mod) simp_all
  ultimately show ?thesis using assms Cons that by (auto simp: low_bits split: if_splits)
qed (use assms in simp)

text \<open>
  \<^verbatim>\<open>_extract_raw_pubkey\<close> returns exactly the key bits of a SubjectPublicKeyInfo, whatever forms
  the lengths of its three headers have.
\<close>

lemma raw_pubkey_extracted:
  assumes "der_header h1 n" and "der_header h2 (length algo)" and "der_header h3 k"
  shows "extract_raw_pubkey (0x30 # h1 @ 0x30 # h2 @ algo @ 0x03 # h3 @ 0 # key) = Inr key"
proof -
  obtain b1 bs1 where 1: "h1 = b1 # bs1" "(if b1 AND 0x80 \<noteq> 0 then unat (b1 AND 0x7F) else 0) = length bs1"
    using assms(1) by (elim header_cases)
  obtain b2 bs2 where 2: "h2 = b2 # bs2" "b2 AND 0x80 \<noteq> 0 \<longrightarrow> unat (b2 AND 0x7F) = length bs2 \<and> be_nat bs2 = length algo"
    "b2 AND 0x80 = 0 \<longrightarrow> bs2 = [] \<and> unat b2 = length algo"
    using assms(2) by (elim header_cases)
  obtain b3 bs3 where 3: "h3 = b3 # bs3" "(if b3 AND 0x80 \<noteq> 0 then unat (b3 AND 0x7F) else 0) = length bs3"
    using assms(3) by (elim header_cases)
  let ?D = "0x30 # h1 @ 0x30 # h2 @ algo @ 0x03 # h3 @ 0 # key"
  let ?o1 = "2 + length bs1" and ?o2 = "4 + length bs1 + length bs2 + length algo"
  have at1: "byte_at ?D 1 = Inr b1" using byte_at_mid [of 1 "[0x30]"] by (simp add: 1(1))
  have at2: "byte_at ?D ?o1 = Inr 0x30" using byte_at_mid [of ?o1 "0x30 # h1"] by (simp add: 1(1))
  have at3: "byte_at ?D (?o1 + 1) = Inr b2" using byte_at_mid [of "?o1 + 1" "0x30 # h1 @ [0x30]"] by (simp add: 1(1) 2(1))
  have at4: "byte_at ?D ?o2 = Inr 0x03" using byte_at_mid [of ?o2 "0x30 # h1 @ 0x30 # h2 @ algo"] by (simp add: 1(1) 2(1))
  have at5: "byte_at ?D (?o2 + 1) = Inr b3"
    using byte_at_mid [of "?o2 + 1" "0x30 # h1 @ 0x30 # h2 @ algo @ [0x03]"] by (simp add: 1(1) 2(1) 3(1))
  have sl: "slice ?D (?o1 + 2) (?o1 + 2 + length bs2) = bs2" by (simp add: 1(1) 2(1) slice_def)
  have off: "(if b2 AND 0x80 \<noteq> 0 then (let m = unat (b2 AND 0x7F); l = be_nat (slice ?D (?o1 + 2) (?o1 + 2 + m)) in ?o1 + (2 + m + l))
      else ?o1 + (2 + unat b2)) = ?o2"
    using 2(2,3) sl by (simp add: Let_def)
  have last: "drop (?o2 + 1 + 1 + length bs3 + 1) ?D = key"
    using drop_mid [of "?o2 + 1 + 1 + length bs3 + 1" "0x30 # h1 @ 0x30 # h2 @ algo @ 0x03 # h3 @ [0]" key]
    by (simp add: 1(1) 2(1) 3(1))
  show ?thesis
    unfolding extract_raw_pubkey_def at1 bind_result_simps Let_def 1(2) at2 at3 off [unfolded Let_def] at4 at5 3(2) last by simp
qed

lemma raw_pubkey_extracted_witness:
  "extract_raw_pubkey (0x30 # [0x81, 9] @ 0x30 # [2] @ [5, 0] @ 0x03 # [3] @ 0 # [1, 2]) = Inr [1, 2]"
  using raw_pubkey_extracted [of "[0x81, 9]" 9 "[2]" "[5, 0]" "[3]" 3 "[1, 2]"] by (simp add: be_nat_def)

text \<open>
  The record reader never takes more than 65665 bytes from the stream and returns at most 64 KiB
  of payload; a record framed by TPKT, for which it has a branch, is refused with
  \<^verbatim>\<open>struct.error\<close> in every case: of the three bytes read after the first one the length is taken
  from \<^verbatim>\<open>rest[2:4]\<close>, which is one byte.
\<close>

lemma read_credssp_record_limits:
  "rd_bounded 65665 (read_credssp_record readexactly)
   \<and> fst (read_credssp_record readexactly (TPKT_VERSION # a # b # c # s)) = Inl StructError"
proof
  have length_part: "rd_bounded 127 (if lb ! 0 AND 0x80 \<noteq> 0
      then rbind (readexactly (int (unat (lb ! 0 AND 0x7F)))) (\<lambda>len_ext. rreturn (first @ lb @ len_ext, be_nat len_ext))
      else rreturn (first @ lb, unat (lb ! 0)))" for first lb :: bytes
    using rd_bounded_rbind [OF rd_bounded_readexactly [of "int (unat (lb ! 0 AND 0x7F))" 127] rd_bounded_pure(1) [of 0]] low7 [of "lb ! 0"]
    by auto
  have payload_part: "rd_bounded 65536 (case x of (header, plen) \<Rightarrow> if MAX_CREDSSP_RECORD_LEN < plen then rraise ValueError
      else rbind (readexactly (int plen)) (\<lambda>payload. rreturn (header @ payload)))" for x
    using rd_bounded_rbind [OF rd_bounded_readexactly [of "int (snd x)" 65536] rd_bounded_pure(1) [of 0]]
    by (cases x) (auto simp: MAX_CREDSSP_RECORD_LEN_def)
  have tpkt_part: "rd_bounded (3 + 65531) (rbind (readexactly 3) (\<lambda>rest.
      rbind (rlift (unpack_be16 (slice rest 2 4))) (\<lambda>total_len. readexactly (int total_len - 4))))"
  proof (rule rd_bounded_rbind)
    show "rd_bounded 65531 (rbind (rlift (unpack_be16 (slice rest 2 4))) (\<lambda>total_len. readexactly (int total_len - 4)))" for rest
    proof (cases "unpack_be16 (slice rest 2 4)")
      case (Inr n)
      then have "n < 65536" using be_nat_less [of "slice rest 2 4"] by (auto simp: unpack_be16_def split: if_splits)
      then have "nat (int n - 4) \<le> 65531" by linarith
      with Inr show ?thesis by (simp add: rd_bounded_readexactly)
    next
      case (Inl e)
      then have "rbind (rlift (unpack_be16 (slice rest 2 4))) (\<lambda>total_len. readexactly (int total_len - 4)) = rraise e"
        by (simp add: fun_eq_iff rd_simps)
      then show ?thesis by (simp add: rd_bounded_pure)
    qed
  qed (rule rd_bounded_readexactly, simp)
  have der_part: "rd_bounded (1 + (127 + 65536)) (rbind (readexactly 1) (\<lambda>lb. rbind (if lb ! 0 AND 0x80 \<noteq> 0
      then rbind (readexactly (int (unat (lb ! 0 AND 0x7F)))) (\<lambda>len_ext. rreturn (first @ lb @ len_ext, be_nat len_ext))
      else rreturn (first @ lb, unat (lb ! 0))) (\<lambda>(header, plen).
      if MAX_CREDSSP_RECORD_LEN < plen then rraise ValueError
      else rbind (readexactly (int plen)) (\<lambda>payload. rreturn (header @ payload)))))" for first
    by (intro rd_bounded_rbind length_part payload_part rd_bounded_readexactly) simp
  have "rd_bounded (1 + 65664) (read_credssp_record readexactly)"
    unfolding read_credssp_record_def
    by (intro rd_bounded_rbind rd_bounded_readexactly)
      (auto intro: rd_bounded_mono [OF tpkt_part] rd_bounded_mono [OF der_part])
  then show "rd_bounded 65665 (read_credssp_record readexactly)" by simp
  show "fst (read_credssp_record readexactly (TPKT_VERSION # a # b # c # s)) = Inl StructError"
    by (simp add: read_credssp_record_def rd_simps readexactly_def unpack_be16_def slice_def)
qed

end
