(* ===== verification/Credssp_Client.thy ===== *)
theory Credssp_Client
  imports Credssp
begin

text \<open>
  The CredSSP client of the proxy towards a backend (\<^verbatim>\<open>connect_and_authenticate\<close> in
  \<^verbatim>\<open>src/libs/rdp/credssp.py\<close>): X.224 negotiation, TLS, the three NTLM messages in TSRequest frames
  and the credentials. NTLM, SPNEGO and the cipher of impacket, and the certificate of the peer are
  the parameter \<open>cred_lib\<close>; TCP, TLS and time-outs are the environment \<open>cenv\<close>. A time-out of
  \<^verbatim>\<open>wait_for\<close> is the number of bytes that had not arrived when it fired. The state is what the
  backend has still to send and what was written to it. The selected protocol is read from the
  confirm for a log line only, with a guarded access, and is left out.
\<close>

section \<open>The connection\<close>

record 'c cred_lib =
  asn1encode :: "bytes \<Rightarrow> bytes result"
  ntlm_type1 :: bytes
  ntlm_type3 :: "bytes \<Rightarrow> ustr \<Rightarrow> ustr \<Rightarrow> ustr \<Rightarrow> (bytes \<times> 'c) result"
  spnego_init :: "bytes \<Rightarrow> bytes"
  spnego_resp :: "bytes \<Rightarrow> bytes"
  spnego_parse :: "bytes \<Rightarrow> bytes result"
  cipher_encrypt :: "'c \<Rightarrow> bytes \<Rightarrow> (bytes \<times> bytes) \<times> 'c"
  peer_spki :: "bytes result"
  str_upper :: "ustr \<Rightarrow> ustr"

record cenv =
  tcp_open :: "unit result"
  tls_start :: "unit result"
  drained :: "nat \<Rightarrow> unit result"
  echo_timeout :: "nat option"
  post_timeout :: "nat option"

record bconn =
  b_in :: bytes
  b_out :: "bytes list"

definition recv :: "'a rd \<Rightarrow> (bconn, 'a) eff" where
  "recv m s = (case m (b_in s) of (r, b) \<Rightarrow> (r, s\<lparr>b_in := b\<rparr>))"

definition send :: "cenv \<Rightarrow> nat \<Rightarrow> bytes \<Rightarrow> (bconn, unit) eff" where
  "send E i b s = (drained E i, s\<lparr>b_out := b_out s @ [b]\<rparr>)"

text \<open>\<^verbatim>\<open>readexactly\<close> cancelled when \<open>d\<close> bytes of the stream had not arrived: what is there is read, and
  a read that has to wait leaves the buffer as it is.\<close>

definition readexactly_until :: "nat \<Rightarrow> int \<Rightarrow> bytes rd" where
  "readexactly_until d n s =
    (if n < 0 then (Inl ValueError, s)
     else if nat n + d \<le> length s then (Inr (take (nat n) s), drop (nat n) s)
     else (Inl TimeoutError, s))"

definition wait_record :: "nat option \<Rightarrow> bytes rd" where
  "wait_record timeout = read_credssp_record (case timeout of None \<Rightarrow> readexactly | Some d \<Rightarrow> readexactly_until d)"

section \<open>Helpers of the module\<close>

definition backend_build_tpkt :: "bytes \<Rightarrow> bytes result" where
  "backend_build_tpkt payload =
    bind_result (pack_be16 (length payload + 4)) (\<lambda>len. Inr ([TPKT_VERSION, 0] @ len @ payload))"

definition backend_build_x224_cr :: "nat \<Rightarrow> bytes result" where
  "backend_build_x224_cr requested_protocols =
    (let x224 = [0x0e, 0xe0, 0, 0, 0, 0, 0] in
     bind_result (pack_le32 requested_protocols) (\<lambda>v.
     let rdp_neg_req = [0x01, 0x00, 0x08, 0x00] @ v in backend_build_tpkt (x224 @ rdp_neg_req)))"

definition backend_read_tpkt :: "bytes rd" where
  "backend_read_tpkt =
    rbind (readexactly 4) (\<lambda>header.
    if header ! 0 \<noteq> TPKT_VERSION then rraise ValueError
    else (let total_len = be_nat (slice header 2 4) in readexactly (int total_len - 4)))"

definition extract_ntlm_from_resp :: "'c cred_lib \<Rightarrow> bytes \<Rightarrow> bytes" where
  "extract_ntlm_from_resp L nego_data =
    (if starts_with (blit ''NTLMSSP'' @ [0]) nego_data then nego_data
     else (case spnego_parse L nego_data of Inr token \<Rightarrow> token | Inl _ \<Rightarrow> nego_data))"

definition field_of :: "'a option \<Rightarrow> 'a result" where
  "field_of f = (case f of Some x \<Rightarrow> Inr x | None \<Rightarrow> Inl KeyError)"

section \<open>The handshake\<close>

text \<open>Up to the third NTLM message with the encrypted public key: the cipher and the identity.\<close>

definition negotiate :: "'c cred_lib \<Rightarrow> cenv \<Rightarrow> ustr \<Rightarrow> ustr \<Rightarrow> ustr \<Rightarrow> (bconn, 'c \<times> ustr \<times> ustr) eff" where
  "negotiate L E username password fallback_domain =
    rbind (rlift (tcp_open E)) (\<lambda>_.
    rbind (rlift (backend_build_x224_cr REQUESTED_PROTOCOLS_HYBRID)) (\<lambda>cr.
    rbind (send E 0 cr) (\<lambda>_.
    rbind (recv backend_read_tpkt) (\<lambda>x224_cc.
    rbind (rlift (tls_start E)) (\<lambda>_.
    case split_domain_user (str_upper L) username fallback_domain of (domain, user) \<Rightarrow>
    rbind (rlift (ts_get_data (asn1encode L) (no_fields\<lparr>NegoData := Some (spnego_init L (ntlm_type1 L))\<rparr>))) (\<lambda>ts1.
    rbind (send E 1 ts1) (\<lambda>_.
    rbind (recv (read_credssp_record readexactly)) (\<lambda>buff.
    rbind (rlift (TSRequest_init buff)) (\<lambda>ts_resp.
    rbind (rlift (field_of (NegoData ts_resp))) (\<lambda>nego.
    let challenge_raw = extract_ntlm_from_resp L nego in
    rbind (rlift (ntlm_type3 L challenge_raw user password domain)) (\<lambda>(type3, cipher).
    rbind (rlift (peer_spki L)) (\<lambda>spki_der.
    rbind (rlift (extract_raw_pubkey spki_der)) (\<lambda>server_pub_key.
    case cipher_encrypt L cipher server_pub_key of ((signature, encrypted_key), cipher') \<Rightarrow>
    rbind (rlift (ts_get_data (asn1encode L) (no_fields\<lparr>NegoData := Some (spnego_resp L type3),
      pubKeyAuth := Some (signature @ encrypted_key)\<rparr>))) (\<lambda>ts3.
    rbind (send E 2 ts3) (\<lambda>_.
    rreturn (cipher', domain, user))))))))))))))))"

text \<open>Waiting for the echo of the public key and for a last answer: no outcome stops the client.\<close>

definition await_echo :: "cenv \<Rightarrow> (bconn, unit) eff" where
  "await_echo E s = (Inr (), snd (rbind (recv (wait_record (echo_timeout E))) (\<lambda>buff. rlift (TSRequest_init buff)) s))"

definition await_post :: "cenv \<Rightarrow> (bconn, unit) eff" where
  "await_post E s = (Inr (), snd (recv (wait_record (post_timeout E)) s))"

definition credentials :: "'c cred_lib \<Rightarrow> ustr \<Rightarrow> ustr \<Rightarrow> ustr \<Rightarrow> bytes result" where
  "credentials L domain user password =
    bind_result (utf16le_encode domain) (\<lambda>d.
    bind_result (utf16le_encode user) (\<lambda>u.
    bind_result (utf16le_encode password) (\<lambda>p.
    bind_result (pc_get_data (asn1encode L) \<lparr>domainName = d, userName = u, pc_password = p\<rparr>) (\<lambda>tsp.
    tc_get_data (asn1encode L) 1 tsp))))"

definition delegate :: "'c cred_lib \<Rightarrow> cenv \<Rightarrow> 'c \<Rightarrow> ustr \<Rightarrow> ustr \<Rightarrow> ustr \<Rightarrow> (bconn, unit) eff" where
  "delegate L E cipher domain user password =
    rbind (await_echo E) (\<lambda>_.
    rbind (rlift (credentials L domain user password)) (\<lambda>tsc.
    case cipher_encrypt L cipher tsc of ((sig2, encrypted_creds), cipher') \<Rightarrow>
    rbind (rlift (ts_get_data (asn1encode L) (no_fields\<lparr>authInfo := Some (sig2 @ encrypted_creds)\<rparr>))) (\<lambda>ts5.
    rbind (send E 3 ts5) (\<lambda>_.
    await_post E))))"

definition connect_and_authenticate :: "'c cred_lib \<Rightarrow> cenv \<Rightarrow> ustr \<Rightarrow> ustr \<Rightarrow> ustr \<Rightarrow> (bconn, unit) eff" where
  "connect_and_authenticate L E username password fallback_domain =
    rbind (negotiate L E username password fallback_domain) (\<lambda>(cipher, domain, user).
    delegate L E cipher domain user password)"

section \<open>The module's copies of the framing functions\<close>

text \<open>
  The three framing functions that \<^verbatim>\<open>credssp.py\<close> defines again for the backend side behave as
  those of \<^verbatim>\<open>tpkt.py\<close> and \<^verbatim>\<open>x224.py\<close> for the client side: the same frames and requests are built, and
  the same frames are read, with the same bytes left and the same exceptions.
\<close>

lemma backend_framing_equivalent:
  "backend_build_tpkt = build_tpkt \<and> backend_build_x224_cr = build_x224_cr \<and> backend_read_tpkt = read_tpkt []"
  by (simp_all add: fun_eq_iff backend_build_tpkt_def build_tpkt_def backend_build_x224_cr_def build_x224_cr_def
      backend_read_tpkt_def read_tpkt_def rbind_assoc Let_def)

section \<open>The credentials\<close>

lemma await_simps: "await_echo E s = (Inr (), snd (await_echo E s))" "await_post E s = (Inr (), snd (await_post E s))"
  by (simp_all add: await_echo_def await_post_def)

lemma recv_out: "recv m s = (r, s') \<Longrightarrow> b_out s' = b_out s"
  by (auto simp: recv_def split: prod.splits)

lemma await_out: "b_out (snd (await_echo E s)) = b_out s" "b_out (snd (await_post E s)) = b_out s"
  by (auto simp: await_echo_def await_post_def rbind_def rlift_def split: prod.split sum.split dest: recv_out)
    (metis prod.collapse recv_out)

text \<open>What the library computes for a challenge, in the order of the handshake.\<close>

definition lib_run :: "'c cred_lib \<Rightarrow> bytes \<Rightarrow> ustr \<Rightarrow> ustr \<Rightarrow> ustr \<Rightarrow> TSRequest \<Rightarrow> TSRequest \<Rightarrow> bool" where
  "lib_run L challenge domain user password m2 m3 \<longleftrightarrow>
    (\<exists>type3 c1 spki key sg ek c2 tsc sg2 ec c3.
      ntlm_type3 L challenge user password domain = Inr (type3, c1)
      \<and> peer_spki L = Inr spki \<and> extract_raw_pubkey spki = Inr key \<and> cipher_encrypt L c1 key = ((sg, ek), c2)
      \<and> credentials L domain user password = Inr tsc \<and> cipher_encrypt L c2 tsc = ((sg2, ec), c3)
      \<and> m2 = no_fields\<lparr>NegoData := Some (spnego_resp L type3), pubKeyAuth := Some (sg @ ek)\<rparr>
      \<and> m3 = no_fields\<lparr>authInfo := Some (sg2 @ ec)\<rparr>)"

definition up :: "cenv \<Rightarrow> bool" where
  "up E \<longleftrightarrow> tcp_open E = Inr () \<and> tls_start E = Inr () \<and> (\<forall>i. drained E i = Inr ())"

definition fits :: "TSRequest \<Rightarrow> bool" where
  "fits f \<longleftrightarrow> ts_size f + 67 \<le> MAX_CREDSSP_RECORD_LEN"

lemma send_up: "up E \<Longrightarrow> rbind (send E i b) f s = f () (s\<lparr>b_out := b_out s @ [b]\<rparr>)"
  by (simp add: rbind_def send_def up_def)

lemma recv_rbind: "m b0 = (Inr a, b) \<Longrightarrow> b_in s = b0 \<Longrightarrow> rbind (recv m) f s = f a (s\<lparr>b_in := b\<rparr>)"
  by (simp add: rbind_def recv_def)

lemma delegate_sends:
  assumes "up E" and "credentials L domain user password = Inr tsc" and "cipher_encrypt L cipher tsc = ((sg, e), c)"
    and "ts_get_data (asn1encode L) (no_fields\<lparr>authInfo := Some (sg @ e)\<rparr>) = Inr msg"
  shows "\<exists>s'. delegate L E cipher domain user password s = (Inr (), s') \<and> b_out s' = b_out s @ [msg]"
proof -
  obtain s2 where a: "await_echo E s = (Inr (), s2)" "b_out s2 = b_out s"
    using await_simps(1) [of E s] await_out(1) [of E s] by (metis snd_conv)
  let ?s3 = "s2\<lparr>b_out := b_out s2 @ [msg]\<rparr>"
  have "delegate L E cipher domain user password s = await_post E ?s3"
    by (simp add: delegate_def rbind_Inr [where m = "await_echo E", OF a(1)] assms(2,3,4) send_up [OF assms(1)])
  then show ?thesis using await_simps(2) [of E ?s3] await_out(2) [of E ?s3] a(2)
    by (intro exI [of _ "snd (await_post E ?s3)"]) simp
qed

text \<open>
  C29: against a backend that confirms with any TPKT frame and sends an NTLM challenge in a
  \<^verbatim>\<open>TSRequest\<close>, the client sends exactly four messages, the connection request for
  hybrid security, the NTLM negotiation, the answer to that challenge with the encrypted public key
  of the TLS peer, and the encrypted credentials, and counts as authenticated. This holds whatever
  \<open>answer\<close> the backend sends after the challenge and whenever it comes: nothing, garbage, or a
  record whose \<^verbatim>\<open>pubKeyAuth\<close> is not the echo of the key do not keep the credentials from being sent.
\<close>

theorem credentials_sent_whatever_the_echo:
  assumes "der_encoder (asn1encode L)" and "up E" and "build_tpkt cc = Inr confirm"
    and "split_domain_user (str_upper L) username fallback = (domain, user)"
    and "lib_run L (extract_ntlm_from_resp L nego) domain user password m2 m3"
    and "fits (no_fields\<lparr>NegoData := Some (spnego_init L (ntlm_type1 L))\<rparr>)" and "fits (no_fields\<lparr>NegoData := Some nego\<rparr>)"
    and "fits m2" and "fits m3"
    and "b_in s = confirm @ frame_ts (asn1encode L) (no_fields\<lparr>NegoData := Some nego\<rparr>) @ answer"
  shows "\<exists>s' cr b1 b2 b3. connect_and_authenticate L E username password fallback s = (Inr (), s')
    \<and> b_out s' = b_out s @ [cr, b1, b2, b3]
    \<and> backend_build_x224_cr REQUESTED_PROTOCOLS_HYBRID = Inr cr
    \<and> TSRequest_init b1 = Inr (no_fields\<lparr>NegoData := Some (spnego_init L (ntlm_type1 L))\<rparr>)
    \<and> TSRequest_init b2 = Inr m2 \<and> TSRequest_init b3 = Inr m3"
proof -
  note enc = der_encoder.ts_roundtrip [OF assms(1)]
  let ?m1 = "no_fields\<lparr>NegoData := Some (spnego_init L (ntlm_type1 L))\<rparr>" and ?mc = "no_fields\<lparr>NegoData := Some nego\<rparr>"
  obtain b1 where b1: "ts_get_data (asn1encode L) ?m1 = Inr b1" "TSRequest_init b1 = Inr ?m1"
    using enc assms(6) unfolding fits_def by blast
  obtain b2 where b2: "ts_get_data (asn1encode L) m2 = Inr b2" "TSRequest_init b2 = Inr m2"
    using enc assms(8) unfolding fits_def by blast
  obtain b3 where b3: "ts_get_data (asn1encode L) m3 = Inr b3" "TSRequest_init b3 = Inr m3"
    using enc assms(9) unfolding fits_def by blast
  obtain cr where cr: "backend_build_x224_cr REQUESTED_PROTOCOLS_HYBRID = Inr cr"
    by (simp add: backend_build_x224_cr_def pack_le32_def REQUESTED_PROTOCOLS_HYBRID_def backend_build_tpkt_def
        pack_be16_def Let_def)
  have up: "tcp_open E = Inr ()" "tls_start E = Inr ()" using assms(2) by (simp_all add: up_def)
  obtain type3 c1 spki key sg ek c2 tsc sg2 ec c3 where
    lib: "ntlm_type3 L (extract_ntlm_from_resp L nego) user password domain = Inr (type3, c1)"
      "peer_spki L = Inr spki" "extract_raw_pubkey spki = Inr key" "cipher_encrypt L c1 key = ((sg, ek), c2)"
      "credentials L domain user password = Inr tsc" "cipher_encrypt L c2 tsc = ((sg2, ec), c3)"
    and m: "m2 = no_fields\<lparr>NegoData := Some (spnego_resp L type3), pubKeyAuth := Some (sg @ ek)\<rparr>"
      "m3 = no_fields\<lparr>authInfo := Some (sg2 @ ec)\<rparr>"
    using assms(5) unfolding lib_run_def by blast
  have cc: "backend_read_tpkt (confirm @ r) = (Inr cc, r)" for r
    using read_tpkt_build [OF assms(3), of r] by (simp add: backend_read_tpkt_def read_tpkt_def rbind_assoc Let_def)
  obtain h c where rec: "ts_get_data (asn1encode L) ?mc = Inr (ASN1_SEQUENCE # h @ c)" "der_header h (length c)"
    "length c \<le> MAX_CREDSSP_RECORD_LEN" using der_encoder.ts_encoded [OF assms(1)] assms(7) unfolding fits_def by blast
  then obtain rd where rd: "ts_get_data (asn1encode L) ?mc = Inr rd" "TSRequest_init rd = Inr ?mc"
    "read_credssp_record readexactly (rd @ answer) = (Inr rd, answer)"
    using enc [of ?mc] assms(7) read_record_exact [OF rec(2,3), of answer] unfolding fits_def by auto
  have in1: "b_in s = confirm @ rd @ answer" using assms(10) rd(1) by (simp add: frame_ts_def)
  let ?s2 = "\<lparr>b_in = answer, b_out = b_out s @ [cr, b1, b2]\<rparr>"
  have "negotiate L E username password fallback s = (Inr (c2, domain, user), ?s2)"
    using in1
    by (simp add: negotiate_def up assms(4) cr send_up [OF assms(2)] recv_rbind [where m = backend_read_tpkt, OF cc [of "rd @ answer"]] b1(1)
        recv_rbind [where m = "read_credssp_record readexactly", OF rd(3)] rd(2) lib field_of_def)
      (simp add: m(1) [symmetric] b2(1) send_up [OF assms(2)] rreturn_def)
  moreover obtain s' where "delegate L E c2 domain user password ?s2 = (Inr (), s')" "b_out s' = b_out ?s2 @ [b3]"
    using delegate_sends [OF assms(2) lib(5,6) b3(1) [unfolded m(2)]] by blast
  ultimately show ?thesis using cr b1(2) b2(2) b3(2)
    by (intro exI [of _ s'] exI [of _ cr] exI [of _ b1] exI [of _ b2] exI [of _ b3])
      (simp add: connect_and_authenticate_def rbind_def)
qed

definition ref_lib :: "unit cred_lib" where
  "ref_lib = \<lparr>asn1encode = der_encode, ntlm_type1 = [1], ntlm_type3 = (\<lambda>_ _ _ _. Inr ([3], ())),
     spnego_init = (\<lambda>b. b), spnego_resp = (\<lambda>b. b), spnego_parse = Inr, cipher_encrypt = (\<lambda>c b. (([7], [8]), c)),
     peer_spki = Inr [0x30, 6, 0x30, 0, 0x03, 2, 0, 8], str_upper = (\<lambda>s. s)\<rparr>"

definition ref_cenv :: cenv where
  "ref_cenv = \<lparr>tcp_open = Inr (), tls_start = Inr (), drained = (\<lambda>_. Inr ()), echo_timeout = Some 0, post_timeout = None\<rparr>"

definition ref_bconn :: "bytes \<Rightarrow> bconn" where
  "ref_bconn answer = \<lparr>b_in = [3, 0, 0, 5, 0] @ frame_ts der_encode (no_fields\<lparr>NegoData := Some [9]\<rparr>) @ answer, b_out = []\<rparr>"

lemma ref_credentials: "\<exists>tsc. credentials ref_lib (lit ''b'') (lit ''a'') (lit ''p'') = Inr tsc"
  by (simp add: credentials_def ref_lib_def utf16le_encode_def utf16le_char_def scalar_def lit_eval pc_get_data_def
      tc_get_data_def creds_field_def tlv_def der_encode_def)

lemma le_bytes_numeral: "le_bytes (numeral k) v = word_of_nat v # le_bytes (pred_numeral k) (v div 256)"
  unfolding numeral_eq_Suc [of k] by (rule le_bytes.simps)

theorem credentials_sent_whatever_the_echo_witness:
  "\<exists>s' b1 b2 b3. connect_and_authenticate ref_lib ref_cenv (lit ''a@b'') (lit ''p'') [] (ref_bconn [1, 2, 3]) = (Inr (), s')
    \<and> b_out s' = [[3, 0, 0, 19, 14, 224, 0, 0, 0, 0, 0, 1, 0, 8, 0, 3, 0, 0, 0], b1, b2, b3]
    \<and> TSRequest_init b3 = Inr (no_fields\<lparr>authInfo := Some [7, 8]\<rparr>)"
proof -
  obtain tsc where tsc: "credentials ref_lib (lit ''b'') (lit ''a'') (lit ''p'') = Inr tsc" using ref_credentials by blast
  have key: "extract_raw_pubkey [0x30, 6, 0x30, 0, 0x03, 2, 0, 8] = Inr [8]"
    by (simp add: extract_raw_pubkey_def byte_at_def Let_def)
  have run: "lib_run ref_lib (extract_ntlm_from_resp ref_lib [9]) (lit ''b'') (lit ''a'') (lit ''p'')
      (no_fields\<lparr>NegoData := Some [3], pubKeyAuth := Some [7, 8]\<rparr>) (no_fields\<lparr>authInfo := Some [7, 8]\<rparr>)"
    using tsc key by (simp add: lib_run_def) (simp add: ref_lib_def)
  have cr: "backend_build_x224_cr REQUESTED_PROTOCOLS_HYBRID
      = Inr [3, 0, 0, 19, 14, 224, 0, 0, 0, 0, 0, 1, 0, 8, 0, 3, 0, 0, 0]"
    by (simp add: backend_build_x224_cr_def pack_le32_def REQUESTED_PROTOCOLS_HYBRID_def backend_build_tpkt_def
        pack_be16_def Let_def be_bytes_2 TPKT_VERSION_def le_bytes_numeral)
  have "der_encoder (asn1encode ref_lib)" using der.der_encoder_axioms by (simp add: ref_lib_def)
  moreover have "up ref_cenv" by (simp add: up_def ref_cenv_def)
  moreover have "build_tpkt [0] = Inr [3, 0, 0, 5, 0]"
    by (simp add: build_tpkt_def pack_be16_def be_bytes_2 TPKT_VERSION_def)
  moreover have "split_domain_user (str_upper ref_lib) (lit ''a@b'') [] = (lit ''b'', lit ''a'')"
    by (simp add: split_domain_user_def lit_eval split_once_def)
  ultimately show ?thesis
    using credentials_sent_whatever_the_echo [OF _ _ _ _ run, of ref_cenv "[0]" "[3, 0, 0, 5, 0]" "lit ''a@b''" "[]" "ref_bconn [1, 2, 3]" "[1, 2, 3]"]
    by (simp add: fits_def ts_size_def no_fields_def MAX_CREDSSP_RECORD_LEN_def cr) (auto simp: ref_lib_def ref_bconn_def no_fields_def)
qed

end
