(* ===== verification/Web_Access.thy ===== *)
theory Web_Access
  imports Config Session_Store Ip_Networks Uuid
begin

text \<open>
  Access to the two web services: the dependencies of the administration
  (\<^verbatim>\<open>src/services/admin/dependencies.py\<close>) and of the portal (\<^verbatim>\<open>src/services/portal/dependencies.py\<close>),
  the address middleware of the portal (\<^verbatim>\<open>middleware/real_ip.py\<close>), and the CSRF and audit middleware of
  the administration (\<^verbatim>\<open>src/services/admin/middleware\<close>). A request is its method, path, headers and
  cookies with the peer's address; the application state is what start-up has put there. The clock
  and the commands of other connections during a session lookup are arguments, as in the store.
\<close>

section \<open>Requests and the application state\<close>

record request =
  rq_method :: ustr
  rq_path :: ustr
  rq_header :: "ustr \<Rightarrow> ustr option"
  rq_cookie :: "ustr \<Rightarrow> ustr option"
  rq_state_ip :: "ustr option"
  rq_peer :: "ustr option"

record app_state =
  app_config :: "AppConfig option"
  app_store :: "SessionStore option"
  app_db :: bool

definition header_text :: "request \<Rightarrow> string \<Rightarrow> ustr" where
  "header_text rq name = (case rq_header rq (lit name) of Some v \<Rightarrow> v | None \<Rightarrow> [])"

definition ADMIN_COOKIE_NAME :: ustr where
  "ADMIN_COOKIE_NAME = lit ''rdp_admin_session''"

definition ADMIN_CSRF_COOKIE_NAME :: ustr where
  "ADMIN_CSRF_COOKIE_NAME = lit ''rdp_admin_csrf''"

definition COOKIE_NAME :: ustr where
  "COOKIE_NAME = lit ''rdp_web_session''"

definition CSRF_COOKIE_NAME :: ustr where
  "CSRF_COOKIE_NAME = lit ''rdp_csrf''"

definition get_config :: "app_state \<Rightarrow> AppConfig result" where
  "get_config A = (case app_config A of None \<Rightarrow> Inl (HTTPException 500) | Some c \<Rightarrow> Inr c)"

definition get_session_store :: "app_state \<Rightarrow> SessionStore result" where
  "get_session_store A = (case app_store A of None \<Rightarrow> Inl (HTTPException 500) | Some s \<Rightarrow> Inr s)"

definition get_db_sessionmaker :: "app_state \<Rightarrow> unit result" where
  "get_db_sessionmaker A = (if app_db A then Inr () else Inl (HTTPException 500))"

section \<open>Addresses and fingerprints\<close>

definition peer_or_unknown :: "request \<Rightarrow> ustr" where
  "peer_or_unknown rq = (case rq_peer rq of
      Some h \<Rightarrow> if h \<noteq> [] then h else lit ''unknown'' | None \<Rightarrow> lit ''unknown'')"

definition first_forwarded :: "ustr \<Rightarrow> ustr" where
  "first_forwarded xff = strip (hd (split_on 44 xff))"

definition admin_client_ip :: "request \<Rightarrow> ustr" where
  "admin_client_ip rq = (case rq_state_ip rq of
      Some ip \<Rightarrow> if ip \<noteq> [] then ip
        else if header_text rq ''x-forwarded-for'' \<noteq> [] then first_forwarded (header_text rq ''x-forwarded-for'')
        else peer_or_unknown rq
    | None \<Rightarrow> if header_text rq ''x-forwarded-for'' \<noteq> [] then first_forwarded (header_text rq ''x-forwarded-for'')
        else peer_or_unknown rq)"

definition portal_client_ip :: "request \<Rightarrow> ustr" where
  "portal_client_ip rq = (case rq_state_ip rq of
      Some ip \<Rightarrow> if ip \<noteq> [] then ip else peer_or_unknown rq
    | None \<Rightarrow> peer_or_unknown rq)"

text \<open>The middleware of the portal leaves the address in the state of the request.\<close>

definition real_ip_dispatch :: "request \<Rightarrow> request" where
  "real_ip_dispatch rq = rq\<lparr>rq_state_ip := Some (
    if header_text rq ''x-real-ip'' \<noteq> [] then strip (header_text rq ''x-real-ip'')
    else if header_text rq ''x-forwarded-for'' \<noteq> [] then first_forwarded (header_text rq ''x-forwarded-for'')
    else peer_or_unknown rq)\<rparr>"

definition browser_fingerprint :: "request \<Rightarrow> ustr" where
  "browser_fingerprint rq = join (lit ''||'') [header_text rq ''user-agent'', header_text rq ''sec-ch-ua'',
     header_text rq ''sec-ch-ua-platform'', header_text rq ''accept-language'']"

section \<open>Sessions\<close>

definition restricted :: "ip_lib \<Rightarrow> ustr \<Rightarrow> ustr list \<Rightarrow> ('db, unit) eff" where
  "restricted I client_ip nets =
    (if nets = [] then rreturn ()
     else rbind (rlift (ip_in_networks I client_ip nets)) (\<lambda>ok.
       if \<not> ok then rraise (HTTPException 403) else rreturn ()))"

definition require_admin :: "'db redis \<Rightarrow> ip_lib \<Rightarrow> app_state \<Rightarrow> int \<Rightarrow> round \<Rightarrow> request \<Rightarrow> ('db, AdminWebSessionData) eff" where
  "require_admin R I A now r rq =
    rbind (rlift (get_session_store A)) (\<lambda>store.
    case rq_cookie rq ADMIN_COOKIE_NAME of
      None \<Rightarrow> rraise (HTTPException 401)
    | Some sid \<Rightarrow>
        if sid = [] then rraise (HTTPException 401)
        else rbind (get_admin_web_session R store sid (browser_fingerprint rq) now r) (\<lambda>sess.
        case sess of
          None \<Rightarrow> rraise (HTTPException 401)
        | Some sess \<Rightarrow>
            rbind (rlift (get_config A)) (\<lambda>cfg.
            rbind (restricted I (admin_client_ip rq) (allowed_networks (admin_cfg cfg))) (\<lambda>_.
            rbind (restricted I (admin_client_ip rq) (as_allowed_ips sess)) (\<lambda>_.
            rreturn sess)))))"

definition get_admin_session_optional :: "'db redis \<Rightarrow> app_state \<Rightarrow> int \<Rightarrow> round \<Rightarrow> request \<Rightarrow> ('db, AdminWebSessionData option) eff" where
  "get_admin_session_optional R A now r rq = (case app_store A of
      None \<Rightarrow> rreturn None
    | Some store \<Rightarrow> (case rq_cookie rq ADMIN_COOKIE_NAME of
        None \<Rightarrow> rreturn None
      | Some sid \<Rightarrow> if sid = [] then rreturn None
          else get_admin_web_session R store sid (browser_fingerprint rq) now r))"

definition get_current_session :: "'db redis \<Rightarrow> app_state \<Rightarrow> int \<Rightarrow> round \<Rightarrow> request \<Rightarrow> ('db, WebSessionData option) eff" where
  "get_current_session R A now r rq = (case app_store A of
      None \<Rightarrow> rreturn None
    | Some store \<Rightarrow> (case rq_cookie rq COOKIE_NAME of
        None \<Rightarrow> rreturn None
      | Some sid \<Rightarrow> if sid = [] then rreturn None
          else get_web_session R store sid (browser_fingerprint rq) now r))"

definition require_session :: "'db redis \<Rightarrow> app_state \<Rightarrow> int \<Rightarrow> round \<Rightarrow> request \<Rightarrow> ('db, WebSessionData) eff" where
  "require_session R A now r rq =
    rbind (get_current_session R A now r rq) (\<lambda>session.
    case session of None \<Rightarrow> rraise (HTTPException 401) | Some s \<Rightarrow> rreturn s)"

section \<open>The CSRF middleware\<close>

text \<open>
  The network location of \<^verbatim>\<open>urlparse\<close>: leading control characters and spaces go, tabs and line ends
  go, a scheme is cut off, and what follows \<^verbatim>\<open>//\<close> up to a slash, question mark or hash is taken.
  \<open>netloc_ok\<close> is its check of brackets and of compatibility characters, which raises \<^verbatim>\<open>ValueError\<close>.
\<close>

definition scheme_char :: "nat \<Rightarrow> bool" where
  "scheme_char c \<longleftrightarrow> (97 \<le> c \<and> c \<le> 122) \<or> (65 \<le> c \<and> c \<le> 90) \<or> (48 \<le> c \<and> c \<le> 57) \<or> c \<in> {43, 45, 46}"

definition cut_scheme :: "ustr \<Rightarrow> ustr" where
  "cut_scheme url = (case split_once 58 url of (scheme, rest) \<Rightarrow>
     if 58 \<in> set url \<and> scheme \<noteq> [] \<and> ((97 \<le> hd url \<and> hd url \<le> 122) \<or> (65 \<le> hd url \<and> hd url \<le> 90)) \<and> list_all scheme_char scheme
     then rest else url)"

definition netloc :: "(ustr \<Rightarrow> bool) \<Rightarrow> ustr \<Rightarrow> ustr result" where
  "netloc netloc_ok url =
    (let u = cut_scheme (filter (\<lambda>c. c \<notin> {9, 10, 13}) (dropWhile (\<lambda>c. c \<le> 32) url)) in
     if starts_with (lit ''//'') u
     then (let n = takeWhile (\<lambda>c. c \<notin> {47, 63, 35}) (drop 2 u) in if netloc_ok n then Inr n else Inl ValueError)
     else Inr [])"

definition mutating :: "ustr \<Rightarrow> bool" where
  "mutating meth \<longleftrightarrow> meth \<in> {lit ''POST'', lit ''PUT'', lit ''DELETE'', lit ''PATCH''}"

text \<open>\<open>True\<close> passes the request on, \<open>False\<close> is the answer 403.\<close>

definition csrf_dispatch :: "(ustr \<Rightarrow> bool) \<Rightarrow> request \<Rightarrow> bool result" where
  "csrf_dispatch netloc_ok rq =
    (if \<not> mutating (rq_method rq) then Inr True
     else if \<not> starts_with (lit ''/api/'') (rq_path rq) then Inr True
     else let origin = header_text rq ''origin'' in
       if origin \<noteq> []
       then bind_result (netloc netloc_ok origin) (\<lambda>n.
         if n \<noteq> [] \<and> n \<noteq> header_text rq ''host'' then Inr False else Inr True)
       else if header_text rq ''x-requested-with'' \<noteq> [] then Inr True
       else if py_contains (lit ''application/json'') (header_text rq ''content-type'') then Inr True
       else Inr False)"

section \<open>The audit middleware\<close>

record AdminAuditLog =
  al_instance_id :: ustr
  al_admin_user :: ustr
  al_action :: ustr
  al_target_id :: ustr
  al_client_ip :: ustr
  al_status_code :: int

text \<open>The widths of the columns; the database refuses a longer text with an error.\<close>

definition audit_fits :: "AdminAuditLog \<Rightarrow> bool" where
  "audit_fits a \<longleftrightarrow> length (al_instance_id a) \<le> 64 \<and> length (al_admin_user a) \<le> 128 \<and> length (al_action a) \<le> 64
     \<and> length (al_target_id a) \<le> 128 \<and> length (al_client_ip a) \<le> 45"

record 'db audited =
  au_rdb :: 'db
  audit_log :: "AdminAuditLog list"

definition audit_row :: "app_state \<Rightarrow> AdminWebSessionData option \<Rightarrow> request \<Rightarrow> int \<Rightarrow> AdminAuditLog" where
  "audit_row A sess rq status_code = \<lparr>
     al_instance_id = (case app_config A of Some c \<Rightarrow> i_id (instance_cfg c) | None \<Rightarrow> lit ''node-1''),
     al_admin_user = (case sess of Some s \<Rightarrow> as_username s | None \<Rightarrow> lit ''unknown''),
     al_action = rq_method rq @ lit '' '' @ rq_path rq, al_target_id = rq_path rq,
     al_client_ip = admin_client_ip rq, al_status_code = status_code\<rparr>"

text \<open>What the middleware does after the response; an exception in it is logged and swallowed.\<close>

definition audit_dispatch :: "'db redis \<Rightarrow> app_state \<Rightarrow> int \<Rightarrow> round \<Rightarrow> exn option \<Rightarrow> request \<Rightarrow> int \<Rightarrow> 'db audited \<Rightarrow> 'db audited" where
  "audit_dispatch R A now r dbx rq status_code w =
    (if \<not> starts_with (lit ''/api/admin/'') (rq_path rq) \<or> \<not> mutating (rq_method rq) \<or> \<not> app_db A then w
     else (case get_admin_session_optional R A now r rq (au_rdb w) of
         (Inl e, db) \<Rightarrow> w\<lparr>au_rdb := db\<rparr>
       | (Inr sess, db) \<Rightarrow>
           (let a = audit_row A sess rq status_code in
            if dbx = None \<and> audit_fits a then w\<lparr>au_rdb := db, audit_log := audit_log w @ [a]\<rparr>
            else w\<lparr>au_rdb := db\<rparr>)))"

section \<open>Who is an administrator\<close>

text \<open>A list of networks admits an address if it is empty or one of its entries does.\<close>

definition admits :: "ip_lib \<Rightarrow> ustr list \<Rightarrow> ustr \<Rightarrow> bool" where
  "admits I nets ip \<longleftrightarrow> nets = [] \<or> (ip_address I ip = Inr () \<and> (\<exists>n \<in> set nets.
     ip_in_network I ip n = Inr True \<or> (ip_in_network I ip n = Inl ValueError \<and> ip = n)))"

lemma restricted_admits:
  "ip_lib_ok I \<Longrightarrow> restricted I ip nets = (if admits I nets ip then rreturn () else rraise (HTTPException 403))"
  using networks_loop_iff [of I ip nets]
  by (auto simp: restricted_def admits_def ip_in_networks_def ip_lib_ok_def fun_eq_iff rd_simps split: sum.splits)

text \<open>
  C6: with a library of addresses that raises nothing but \<^verbatim>\<open>ValueError\<close>, a request is let into the
  administration exactly when its cookie names a session that the store returns for the fingerprint
  of the browser, and both the configured networks and those of the user admit the address that
  \<^verbatim>\<open>get_client_ip\<close> derives. That address is the one a client claims: with any text in
  \<^verbatim>\<open>X-Forwarded-For\<close> that has no comma and no surrounding spaces it is that text, whatever the peer is.
  The session's must-change-password flag plays no part.
\<close>

theorem admin_access:
  assumes "ip_lib_ok I"
  shows "(fst (require_admin R I A now r rq db) = Inr sess \<longleftrightarrow>
      (\<exists>S sid c. app_store A = Some S \<and> app_config A = Some c \<and> rq_cookie rq ADMIN_COOKIE_NAME = Some sid \<and> sid \<noteq> []
        \<and> fst (get_admin_web_session R S sid (browser_fingerprint rq) now r db) = Inr (Some sess)
        \<and> admits I (allowed_networks (admin_cfg c)) (admin_client_ip rq) \<and> admits I (as_allowed_ips sess) (admin_client_ip rq)))
    \<and> (rq_state_ip rq = None \<and> ip \<noteq> [] \<and> strip ip = ip \<and> 44 \<notin> set ip \<longrightarrow>
        admin_client_ip (rq\<lparr>rq_header := (rq_header rq)(lit ''x-forwarded-for'' \<mapsto> ip)\<rparr>) = ip)"
proof (intro conjI impI)
  show "fst (require_admin R I A now r rq db) = Inr sess \<longleftrightarrow>
      (\<exists>S sid c. app_store A = Some S \<and> app_config A = Some c \<and> rq_cookie rq ADMIN_COOKIE_NAME = Some sid \<and> sid \<noteq> []
        \<and> fst (get_admin_web_session R S sid (browser_fingerprint rq) now r db) = Inr (Some sess)
        \<and> admits I (allowed_networks (admin_cfg c)) (admin_client_ip rq) \<and> admits I (as_allowed_ips sess) (admin_client_ip rq))"
    by (auto simp: require_admin_def restricted_admits [OF assms] get_session_store_def get_config_def rd_simps
        split: option.split prod.split sum.split)
  show "admin_client_ip (rq\<lparr>rq_header := (rq_header rq)(lit ''x-forwarded-for'' \<mapsto> ip)\<rparr>) = ip"
    if "rq_state_ip rq = None \<and> ip \<noteq> [] \<and> strip ip = ip \<and> 44 \<notin> set ip"
    using that by (simp add: admin_client_ip_def header_text_def first_forwarded_def split_on_no_sep)
qed

definition ref_request :: request where
  "ref_request = \<lparr>rq_method = lit ''GET'', rq_path = lit ''/admin'', rq_header = (\<lambda>_. None),
     rq_cookie = (\<lambda>_. None), rq_state_ip = None, rq_peer = Some (lit ''10.0.0.9'')\<rparr>"

definition ref_ip_lib :: ip_lib where
  "ref_ip_lib = \<lparr>ip_address = (\<lambda>_. Inr ()), ip_in_network = (\<lambda>a n. Inr (a = n)), ip_network = (\<lambda>_. Inr ())\<rparr>"

theorem admin_access_witness:
  "(\<forall>sess. fst (require_admin mem_redis ref_ip_lib \<lparr>app_config = None, app_store = Some ref_store, app_db = True\<rparr> 0 ([], [], [])
       ref_request empty_db) \<noteq> Inr sess)
   \<and> admin_client_ip (ref_request\<lparr>rq_header := (rq_header ref_request)(lit ''x-forwarded-for'' \<mapsto> lit ''10.1.1.1'')\<rparr>) = lit ''10.1.1.1''"
proof -
  have ok: "ip_lib_ok ref_ip_lib" by (simp add: ip_lib_ok_def ref_ip_lib_def)
  have "strip (lit ''10.1.1.1'') = lit ''10.1.1.1''"
    by (rule strip_no_space) (simp add: lit_eval py_isspace_def py_spaces_def)
  then have "fst (require_admin mem_redis ref_ip_lib \<lparr>app_config = None, app_store = Some ref_store, app_db = True\<rparr> 0 ([], [], [])
       ref_request empty_db) \<noteq> Inr a
   \<and> admin_client_ip (ref_request\<lparr>rq_header := (rq_header ref_request)(lit ''x-forwarded-for'' \<mapsto> lit ''10.1.1.1'')\<rparr>) = lit ''10.1.1.1''" for a
    using admin_access [OF ok, where rq = ref_request and ip = "lit ''10.1.1.1''" and sess = a]
    by (simp add: ref_request_def lit_eval)
  then show ?thesis by blast
qed

section \<open>Cross-site requests\<close>

lemma cut_scheme_url:
  assumes "list_all scheme_char s" and "s \<noteq> []" and "(97 \<le> hd s \<and> hd s \<le> 122) \<or> (65 \<le> hd s \<and> hd s \<le> 90)"
  shows "cut_scheme (s @ 58 # rest) = rest"
proof -
  have "58 \<notin> set s" using assms(1) by (auto simp: list_all_iff scheme_char_def)
  with assms show ?thesis by (auto simp: cut_scheme_def split_once_append hd_append)
qed

text \<open>
  A mutating request to the interface that carries an \<^verbatim>\<open>Origin\<close> of the form scheme, colon, two
  slashes and host is passed on exactly when the host is that of the \<^verbatim>\<open>Host\<close> header. An \<^verbatim>\<open>Origin\<close>
  without a network location, such as the \<^verbatim>\<open>null\<close> that browsers send from sandboxed frames and \<^verbatim>\<open>data:\<close>
  pages, is passed on always. Without an \<^verbatim>\<open>Origin\<close> one of the two other markers is needed.
\<close>

lemma csrf_check:
  assumes "mutating (rq_method rq)" and "starts_with (lit ''/api/'') (rq_path rq)"
  shows "(rq_header rq (lit ''origin'') = Some (lit ''null'') \<longrightarrow> csrf_dispatch nok rq = Inr True)
    \<and> (rq_header rq (lit ''origin'') = None \<longrightarrow> csrf_dispatch nok rq =
        Inr (header_text rq ''x-requested-with'' \<noteq> [] \<or> py_contains (lit ''application/json'') (header_text rq ''content-type'')))
    \<and> (\<forall>s h. rq_header rq (lit ''origin'') = Some (s @ lit ''://'' @ h) \<longrightarrow> list_all scheme_char s \<longrightarrow> s \<noteq> []
        \<longrightarrow> (97 \<le> hd s \<and> hd s \<le> 122) \<or> (65 \<le> hd s \<and> hd s \<le> 90) \<longrightarrow> h \<noteq> [] \<longrightarrow> list_all (\<lambda>c. c \<notin> {9, 10, 13, 47, 63, 35}) h
        \<longrightarrow> nok h \<longrightarrow> csrf_dispatch nok rq = Inr (h = header_text rq ''host''))"
proof (intro conjI allI impI)
  assume "rq_header rq (lit ''origin'') = Some (lit ''null'')"
  then show "csrf_dispatch nok rq = Inr True"
    using assms by (simp add: csrf_dispatch_def header_text_def netloc_def lit_eval cut_scheme_def split_once_def starts_with_def)
next
  assume "rq_header rq (lit ''origin'') = None"
  then show "csrf_dispatch nok rq =
      Inr (header_text rq ''x-requested-with'' \<noteq> [] \<or> py_contains (lit ''application/json'') (header_text rq ''content-type''))"
    using assms by (simp add: csrf_dispatch_def header_text_def)
next
  fix s h
  assume o: "rq_header rq (lit ''origin'') = Some (s @ lit ''://'' @ h)" and s: "list_all scheme_char s" "s \<noteq> []"
    "(97 \<le> hd s \<and> hd s \<le> 122) \<or> (65 \<le> hd s \<and> hd s \<le> 90)"
    and h: "h \<noteq> []" "list_all (\<lambda>c. c \<notin> {9, 10, 13, 47, 63, 35}) h" "nok h"
  let ?u = "s @ 58 # 47 # 47 # h"
  have "dropWhile (\<lambda>c. c \<le> 32) ?u = ?u" using s by (cases s) auto
  moreover have "filter (\<lambda>c. c \<notin> {9, 10, 13}) ?u = ?u"
  proof (rule filter_True)
    show "\<forall>c \<in> set ?u. c \<notin> {9, 10, 13}" using s(1) h(2) by (auto simp: list_all_iff scheme_char_def)
  qed
  moreover have tw: "takeWhile (\<lambda>c. c \<noteq> 47 \<and> c \<noteq> 63 \<and> c \<noteq> 35) h = h"
    using h(2) by (intro takeWhile_eq_all_conv [THEN iffD2]) (auto simp: list_all_iff)
  ultimately have "netloc nok ?u = Inr h"
    using h(3) cut_scheme_url [OF s, of "47 # 47 # h"] by (simp add: netloc_def starts_with_def lit_eval tw Let_def)
  moreover have "s @ lit ''://'' @ h = ?u" by (simp add: lit_eval)
  ultimately show "csrf_dispatch nok rq = Inr (h = header_text rq ''host'')"
    using assms o h(1) by (simp add: csrf_dispatch_def header_text_def)
qed

lemma csrf_check_witness:
  "csrf_dispatch (\<lambda>_. True) (ref_request\<lparr>rq_method := lit ''POST'', rq_path := lit ''/api/x'',
     rq_header := [lit ''origin'' \<mapsto> lit ''null'']\<rparr>) = Inr True"
proof -
  let ?rq = "ref_request\<lparr>rq_method := lit ''POST'', rq_path := lit ''/api/x'', rq_header := [lit ''origin'' \<mapsto> lit ''null'']\<rparr>"
  have "mutating (rq_method ?rq)" "starts_with (lit ''/api/'') (rq_path ?rq)"
    by (simp_all add: mutating_def starts_with_def lit_eval)
  from csrf_check [OF this, of "\<lambda>_. True"] show ?thesis by simp
qed

section \<open>The audit log\<close>

text \<open>
  A mutating request to the administration adds to the log exactly one entry, with the method and
  path, if the session lookup and the database work and the entry fits its columns, and nothing
  otherwise; in particular the entry of a killed session never fits: the action of
  \<^verbatim>\<open>POST /api/admin/sessions/<uuid>/kill\<close> has 66 characters where the column has 64.
\<close>

lemma audit_entries:
  assumes "starts_with (lit ''/api/admin/'') (rq_path rq)" and "mutating (rq_method rq)" and "app_db A"
    and "get_admin_session_optional R A now r rq (au_rdb w) = (Inr sess, db)"
  shows "audit_log (audit_dispatch R A now r None rq sc w) =
      (if audit_fits (audit_row A sess rq sc) then audit_log w @ [audit_row A sess rq sc] else audit_log w)
    \<and> (rq_method rq = lit ''POST'' \<and> u < 2 ^ 128 \<and> rq_path rq = lit ''/api/admin/sessions/'' @ uuid_str u @ lit ''/kill'' \<longrightarrow>
        audit_log (audit_dispatch R A now r dbx rq sc w) = audit_log w)"
proof (intro conjI impI)
  show "audit_log (audit_dispatch R A now r None rq sc w) =
      (if audit_fits (audit_row A sess rq sc) then audit_log w @ [audit_row A sess rq sc] else audit_log w)"
    using assms by (simp add: audit_dispatch_def Let_def)
  assume "rq_method rq = lit ''POST'' \<and> u < 2 ^ 128 \<and> rq_path rq = lit ''/api/admin/sessions/'' @ uuid_str u @ lit ''/kill''"
  then have "length (al_action (audit_row A sess rq sc)) = 66"
    by (simp add: audit_row_def length_uuid_str)
  then have "\<not> audit_fits (audit_row A sess rq sc)" by (simp add: audit_fits_def)
  then show "audit_log (audit_dispatch R A now r dbx rq sc w) = audit_log w"
    using assms by (simp add: audit_dispatch_def Let_def)
qed

lemma audit_entries_witness:
  "audit_log (audit_dispatch mem_redis \<lparr>app_config = None, app_store = None, app_db = True\<rparr> 0 ([], [], []) None
     (ref_request\<lparr>rq_method := lit ''POST'', rq_path := lit ''/api/admin/sessions/'' @ uuid_str 7 @ lit ''/kill''\<rparr>) 200
     \<lparr>au_rdb = empty_db, audit_log = []\<rparr>) = []"
proof -
  let ?rq = "ref_request\<lparr>rq_method := lit ''POST'', rq_path := lit ''/api/admin/sessions/'' @ uuid_str 7 @ lit ''/kill''\<rparr>"
  let ?A = "\<lparr>app_config = None, app_store = None, app_db = True\<rparr>" and ?w = "\<lparr>au_rdb = empty_db, audit_log = []\<rparr>"
  have 1: "starts_with (lit ''/api/admin/'') (rq_path ?rq)" by (simp add: starts_with_def lit_eval)
  have 2: "mutating (rq_method ?rq)" and 3: "app_db ?A" by (simp_all add: mutating_def)
  have 4: "get_admin_session_optional mem_redis ?A 0 ([], [], []) ?rq (au_rdb ?w) = (Inr None, empty_db)"
    by (simp add: get_admin_session_optional_def rreturn_def)
  have "audit_log (audit_dispatch mem_redis ?A 0 ([], [], []) None ?rq 200 ?w) = audit_log ?w"
    by (rule audit_entries [where u = 7 and dbx = None and sc = 200, OF 1 2 3 4, THEN conjunct2, rule_format]) simp
  then show ?thesis by simp
qed

end
