(* ===== verification/Admin_Users.thy ===== *)
theory Admin_Users
  imports Web_Access Login_Limiter
begin

text \<open>
  The administrators: the table (\<^verbatim>\<open>src/libs/db/models/admin_user.py\<close>), the routes that manage it
  (\<^verbatim>\<open>src/services/admin/routes/admin_users.py\<close>), logging in, logging out and changing the password
  (\<^verbatim>\<open>src/services/admin/routes/auth.py\<close>) and the default administrator that the portal creates
  (\<^verbatim>\<open>src/services/portal/app.py\<close>). A route runs behind \<^verbatim>\<open>require_admin\<close>, whose result it gets. Password
  hashing and the two lower-case functions are parameters; pages are reduced to their status.
\<close>

section \<open>The table\<close>

record AdminUser =
  u_id :: nat
  u_username :: ustr
  u_password_hash :: ustr
  u_is_active :: bool
  u_must_change :: bool
  u_allowed_ips :: "ustr list"
  u_last_login :: "int option"

record pw_lib =
  pw_hash :: "ustr \<Rightarrow> ustr"
  pw_verify :: "ustr \<Rightarrow> ustr \<Rightarrow> unit result"
  py_lower :: "ustr \<Rightarrow> ustr"
  sql_lower :: "ustr \<Rightarrow> ustr"

definition verify_password :: "pw_lib \<Rightarrow> ustr \<Rightarrow> ustr \<Rightarrow> bool result" where
  "verify_password L h plain = (case pw_verify L h plain of
      Inr _ \<Rightarrow> Inr True | Inl e \<Rightarrow> if e = VerifyMismatchError then Inr False else Inl e)"

definition find_user :: "nat \<Rightarrow> AdminUser list \<Rightarrow> AdminUser option" where
  "find_user uid us = find (\<lambda>u. u_id u = uid) us"

definition modify_user :: "nat \<Rightarrow> (AdminUser \<Rightarrow> AdminUser) \<Rightarrow> AdminUser list \<Rightarrow> AdminUser list" where
  "modify_user uid f us = map (\<lambda>u. if u_id u = uid then f u else u) us"

definition active_count :: "AdminUser list \<Rightarrow> nat" where
  "active_count us = length (filter u_is_active us)"

definition user_uuid :: "ustr \<Rightarrow> nat result" where
  "user_uuid user_id = (case uuid_of user_id of Inr u \<Rightarrow> Inr u | Inl e \<Rightarrow> Inl (HTTPException 400))"

section \<open>The routes\<close>

fun validate_ip_list :: "ip_lib \<Rightarrow> ustr list \<Rightarrow> unit result" where
  "validate_ip_list I [] = Inr ()"
| "validate_ip_list I (v # vs) = bind_result (ip_network I v) (\<lambda>_. validate_ip_list I vs)"

record AdminUserCreate =
  cr_username :: ustr
  cr_password :: ustr
  cr_is_active :: bool
  cr_allowed_ips :: "ustr list"

record AdminUserUpdate =
  up_is_active :: "bool option"
  up_allowed_ips :: "ustr list option"

text \<open>A body that the models refuse is answered with 422 before the handler runs.\<close>

definition create_valid :: "ip_lib \<Rightarrow> AdminUserCreate \<Rightarrow> bool" where
  "create_valid I b \<longleftrightarrow> 1 \<le> length (cr_username b) \<and> length (cr_username b) \<le> 128
     \<and> 8 \<le> length (cr_password b) \<and> length (cr_password b) \<le> 256 \<and> validate_ip_list I (cr_allowed_ips b) = Inr ()"

definition update_valid :: "ip_lib \<Rightarrow> AdminUserUpdate \<Rightarrow> bool" where
  "update_valid I b \<longleftrightarrow> (case up_allowed_ips b of None \<Rightarrow> True | Some v \<Rightarrow> validate_ip_list I v = Inr ())"

definition create_admin_user :: "pw_lib \<Rightarrow> ip_lib \<Rightarrow> nat \<Rightarrow> AdminUserCreate \<Rightarrow> (AdminUser list, AdminUser) eff" where
  "create_admin_user L I uid body us =
    (if \<not> create_valid I body then (Inl (HTTPException 422), us)
     else let name = strip (cr_username body) in
       if list_ex (\<lambda>u. sql_lower L (u_username u) = py_lower L name) us then (Inl (HTTPException 409), us)
       else if list_ex (\<lambda>u. u_username u = name \<or> u_id u = uid) us then (Inl IntegrityError, us)
       else let u = \<lparr>u_id = uid, u_username = name, u_password_hash = pw_hash L (cr_password body),
              u_is_active = cr_is_active body, u_must_change = False, u_allowed_ips = cr_allowed_ips body, u_last_login = None\<rparr>
         in (Inr u, us @ [u]))"

text \<open>The reads and guards of a route, and the write of its commit.\<close>

definition update_check :: "ip_lib \<Rightarrow> AdminWebSessionData \<Rightarrow> ustr \<Rightarrow> AdminUserUpdate \<Rightarrow> AdminUser list \<Rightarrow> nat result" where
  "update_check I admin user_id body us =
    (if \<not> update_valid I body then Inl (HTTPException 422)
     else bind_result (user_uuid user_id) (\<lambda>uid.
     case find_user uid us of
       None \<Rightarrow> Inl (HTTPException 404)
     | Some u \<Rightarrow>
         if up_is_active body = Some False \<and> u_is_active u
         then (if uuid_str uid = as_admin_user_id admin then Inl (HTTPException 400)
               else if active_count us \<le> 1 then Inl (HTTPException 400) else Inr uid)
         else Inr uid))"

definition update_write :: "nat \<Rightarrow> AdminUserUpdate \<Rightarrow> AdminUser list \<Rightarrow> AdminUser list" where
  "update_write uid body us = modify_user uid (\<lambda>u.
     let u = (case up_is_active body of None \<Rightarrow> u | Some b \<Rightarrow> u\<lparr>u_is_active := b\<rparr>) in
     case up_allowed_ips body of None \<Rightarrow> u | Some ips \<Rightarrow> u\<lparr>u_allowed_ips := ips\<rparr>) us"

definition update_admin_user :: "ip_lib \<Rightarrow> AdminWebSessionData \<Rightarrow> ustr \<Rightarrow> AdminUserUpdate \<Rightarrow> (AdminUser list, unit) eff" where
  "update_admin_user I admin user_id body us = (case update_check I admin user_id body us of
      Inl e \<Rightarrow> (Inl e, us) | Inr uid \<Rightarrow> (Inr (), update_write uid body us))"

definition reset_admin_password :: "pw_lib \<Rightarrow> ustr \<Rightarrow> ustr \<Rightarrow> (AdminUser list, unit) eff" where
  "reset_admin_password L user_id new_password us =
    (if length new_password < 8 \<or> 256 < length new_password then (Inl (HTTPException 422), us)
     else case user_uuid user_id of
       Inl e \<Rightarrow> (Inl e, us)
     | Inr uid \<Rightarrow> (case find_user uid us of
         None \<Rightarrow> (Inl (HTTPException 404), us)
       | Some _ \<Rightarrow> (Inr (), modify_user uid (\<lambda>u. u\<lparr>u_password_hash := pw_hash L new_password, u_must_change := True\<rparr>) us)))"

definition delete_check :: "AdminWebSessionData \<Rightarrow> ustr \<Rightarrow> AdminUser list \<Rightarrow> nat result" where
  "delete_check admin user_id us =
    bind_result (user_uuid user_id) (\<lambda>uid.
    if uuid_str uid = as_admin_user_id admin then Inl (HTTPException 400)
    else case find_user uid us of
      None \<Rightarrow> Inl (HTTPException 404)
    | Some u \<Rightarrow> if u_is_active u \<and> active_count us \<le> 1 then Inl (HTTPException 400) else Inr uid)"

definition delete_write :: "nat \<Rightarrow> AdminUser list \<Rightarrow> AdminUser list" where
  "delete_write uid us = filter (\<lambda>u. u_id u \<noteq> uid) us"

definition delete_admin_user :: "AdminWebSessionData \<Rightarrow> ustr \<Rightarrow> (AdminUser list, unit) eff" where
  "delete_admin_user admin user_id us = (case delete_check admin user_id us of
      Inl e \<Rightarrow> (Inl e, us) | Inr uid \<Rightarrow> (Inr (), delete_write uid us))"

definition bootstrap_default_admin :: "pw_lib \<Rightarrow> nat \<Rightarrow> AdminUser list \<Rightarrow> AdminUser list" where
  "bootstrap_default_admin L uid us =
    (if 0 < length us then us
     else us @ [\<lparr>u_id = uid, u_username = lit ''admin'', u_password_hash = pw_hash L (lit ''admin''),
       u_is_active = True, u_must_change = True, u_allowed_ips = [], u_last_login = None\<rparr>])"

section \<open>Logging in\<close>

record response =
  status :: int
  location :: "ustr option"
  set_cookies :: "(ustr \<times> ustr) list"

record 'db admin_world =
  aw_rdb :: 'db
  users :: "AdminUser list"

definition on_rd :: "('db, 'a) eff \<Rightarrow> ('db admin_world, 'a) eff" where
  "on_rd m w = (case m (aw_rdb w) of (r, db) \<Rightarrow> (r, w\<lparr>aw_rdb := db\<rparr>))"

definition cookie_text :: "request \<Rightarrow> ustr \<Rightarrow> ustr" where
  "cookie_text rq name = (case rq_cookie rq name of Some c \<Rightarrow> c | None \<Rightarrow> [])"

text \<open>The login page keeps the CSRF cookie or issues \<open>tok\<close>.\<close>

definition render_login_page :: "request \<Rightarrow> ustr \<Rightarrow> int \<Rightarrow> response" where
  "render_login_page rq tok code = \<lparr>status = code, location = None, set_cookies = [(ADMIN_CSRF_COOKIE_NAME,
     if cookie_text rq ADMIN_CSRF_COOKIE_NAME \<noteq> [] then cookie_text rq ADMIN_CSRF_COOKIE_NAME else tok)]\<rparr>"

text \<open>The pages: a browser that has a usable session is sent on.\<close>

definition redirect_to :: "string \<Rightarrow> response" where
  "redirect_to url = \<lparr>status = 303, location = Some (lit url), set_cookies = []\<rparr>"

definition login_page :: "'db redis \<Rightarrow> app_state \<Rightarrow> int \<Rightarrow> round \<Rightarrow> request \<Rightarrow> ustr \<Rightarrow> ('db, response) eff" where
  "login_page R A now r rq tok =
    rbind (rlift (get_session_store A)) (\<lambda>store.
    let sid = cookie_text rq ADMIN_COOKIE_NAME in
    rbind (if sid \<noteq> [] then get_admin_web_session R store sid (browser_fingerprint rq) now r else rreturn None) (\<lambda>sess.
    case sess of
      Some s \<Rightarrow> rreturn (if \<not> as_must_change_password s then redirect_to ''/admin/dashboard'' else render_login_page rq tok 200)
    | None \<Rightarrow> rreturn (render_login_page rq tok 200)))"

definition change_password_page :: "request \<Rightarrow> ustr \<Rightarrow> response" where
  "change_password_page rq tok = render_login_page rq tok 200"

definition login_user :: "pw_lib \<Rightarrow> ustr \<Rightarrow> AdminUser list \<Rightarrow> AdminUser option" where
  "login_user L username us = find (\<lambda>u. sql_lower L (u_username u) = py_lower L (strip username)) us"

definition credentials_ok :: "pw_lib \<Rightarrow> ustr \<Rightarrow> AdminUser option \<Rightarrow> bool result" where
  "credentials_ok L password user = (case user of
      None \<Rightarrow> Inr False
    | Some u \<Rightarrow> if \<not> u_is_active u then Inr False else verify_password L (u_password_hash u) password)"

definition start_session :: "'db redis \<Rightarrow> pw_lib \<Rightarrow> SessionStore \<Rightarrow> int \<Rightarrow> ustr \<Rightarrow> ustr \<Rightarrow> request \<Rightarrow> ustr \<Rightarrow> AdminUser
    \<Rightarrow> ('db admin_world, response) eff" where
  "start_session R L store now sid tok rq username u =
    rbind (on_rd (clear R (py_lower L) admin_limiter (admin_client_ip rq) username)) (\<lambda>_.
    rbind (on_rd (create_admin_web_session R store sid now (uuid_str (u_id u)) (u_username u) (u_must_change u)
      (browser_fingerprint rq) (Some (u_allowed_ips u)))) (\<lambda>web_session_id.
    rreturn \<lparr>status = 303,
      location = Some (if u_must_change u then lit ''/admin/change-password'' else lit ''/admin/dashboard''),
      set_cookies = [(ADMIN_COOKIE_NAME, web_session_id), (ADMIN_CSRF_COOKIE_NAME, tok)]\<rparr>))"

definition login_submit :: "'db redis \<Rightarrow> pw_lib \<Rightarrow> app_state \<Rightarrow> int \<Rightarrow> ustr \<Rightarrow> ustr \<Rightarrow> request \<Rightarrow> ustr \<Rightarrow> ustr \<Rightarrow> ustr
    \<Rightarrow> ('db admin_world, response) eff" where
  "login_submit R L A now sid tok rq username password csrf_token =
    (let csrf_cookie = cookie_text rq ADMIN_CSRF_COOKIE_NAME in
     if csrf_cookie = [] \<or> csrf_cookie \<noteq> csrf_token then rreturn (render_login_page rq tok 400)
     else
     rbind (rlift (get_session_store A)) (\<lambda>store.
     let ip = admin_client_ip rq in
     rbind (on_rd (is_locked R (py_lower L) admin_limiter ip username)) (\<lambda>locked.
     if locked then rreturn (render_login_page rq tok 429)
     else
     rbind (rlift (get_db_sessionmaker A)) (\<lambda>_.
     rbind (rlift (get_config A)) (\<lambda>cfg.
     rbind (\<lambda>w. (Inr (login_user L username (users w)), w)) (\<lambda>user.
     rbind (rlift (credentials_ok L password user)) (\<lambda>ok.
     if \<not> ok
     then rbind (on_rd (record_failure R (py_lower L) admin_limiter ip username
            (login_attempts_per_minute (security cfg)) (login_lock_seconds (security cfg)))) (\<lambda>_.
          rreturn (render_login_page rq tok 401))
     else rbind (\<lambda>w. (Inr (), w\<lparr>users := modify_user (u_id (the user)) (\<lambda>u. u\<lparr>u_last_login := Some now\<rparr>) (users w)\<rparr>)) (\<lambda>_.
          start_session R L store now sid tok rq username (the user)))))))))"

definition logout :: "'db redis \<Rightarrow> app_state \<Rightarrow> request \<Rightarrow> ('db admin_world, response) eff" where
  "logout R A rq =
    rbind (rlift (get_session_store A)) (\<lambda>_.
    rbind (if cookie_text rq ADMIN_COOKIE_NAME \<noteq> []
           then on_rd (delete_admin_web_session R (cookie_text rq ADMIN_COOKIE_NAME)) else rreturn ()) (\<lambda>_.
    rreturn \<lparr>status = 303, location = Some (lit ''/admin/login''),
      set_cookies = [(ADMIN_COOKIE_NAME, []), (ADMIN_CSRF_COOKIE_NAME, [])]\<rparr>))"

definition change_password_submit :: "'db redis \<Rightarrow> pw_lib \<Rightarrow> app_state \<Rightarrow> AdminWebSessionData \<Rightarrow> request \<Rightarrow> ustr \<Rightarrow> ustr \<Rightarrow> ustr
    \<Rightarrow> ustr \<Rightarrow> ('db admin_world, response) eff" where
  "change_password_submit R L A admin rq current_password new_password new_password2 csrf_token =
    (let csrf_cookie = cookie_text rq ADMIN_CSRF_COOKIE_NAME;
         page = (\<lambda>code. rreturn \<lparr>status = code, location = None, set_cookies = []\<rparr>) in
     if csrf_cookie = [] \<or> csrf_cookie \<noteq> csrf_token then page 400
     else if new_password \<noteq> new_password2 then page 400
     else if length new_password < 8 then page 400
     else
     rbind (rlift (get_db_sessionmaker A)) (\<lambda>_.
     rbind (rlift (get_session_store A)) (\<lambda>store.
     rbind (rlift (uuid_of (as_admin_user_id admin))) (\<lambda>uid.
     rbind (\<lambda>w. (Inr (find_user uid (users w)), w)) (\<lambda>user.
     case user of
       None \<Rightarrow> rraise (HTTPException 404)
     | Some u \<Rightarrow>
         rbind (rlift (verify_password L (u_password_hash u) current_password)) (\<lambda>ok.
         if \<not> ok then page 401
         else rbind (\<lambda>w. (Inr (), w\<lparr>users := modify_user uid
                (\<lambda>u. u\<lparr>u_password_hash := pw_hash L new_password, u_must_change := False\<rparr>) (users w)\<rparr>)) (\<lambda>_.
              rbind (on_rd (update_admin_must_change R (as_session_id admin) False)) (\<lambda>_.
              rreturn (redirect_to ''/admin/dashboard'')))))))))"

section \<open>The table stays in order\<close>

text \<open>Any route, login, password change or start-up, as a step on the table.\<close>

inductive users_step :: "pw_lib \<Rightarrow> ip_lib \<Rightarrow> AdminUser list \<Rightarrow> AdminUser list \<Rightarrow> bool" for L I where
  created: "users_step L I us (snd (create_admin_user L I uid body us))"
| updated: "users_step L I us (snd (update_admin_user I admin user_id body' us))"
| reset: "users_step L I us (snd (reset_admin_password L user_id pw us))"
| deleted: "users_step L I us (snd (delete_admin_user admin user_id us))"
| logged_in: "users_step L I us (modify_user uid (\<lambda>u. u\<lparr>u_last_login := Some now\<rparr>) us)"
| changed: "users_step L I us (modify_user uid (\<lambda>u. u\<lparr>u_password_hash := pw_hash L pw, u_must_change := False\<rparr>) us)"
| started: "users_step L I us (bootstrap_default_admin L uid us)"

definition users_ok :: "AdminUser list \<Rightarrow> bool" where
  "users_ok us \<longleftrightarrow> distinct (map u_id us) \<and> distinct (map u_username us) \<and> (\<exists>u \<in> set us. u_is_active u)"

lemma modify_user_ok:
  assumes "users_ok us" and "\<And>u. u_id (f u) = u_id u \<and> u_username (f u) = u_username u"
    and "\<exists>u \<in> set us. u_is_active u \<and> (u_id u \<noteq> uid \<or> u_is_active (f u))"
  shows "users_ok (modify_user uid f us)"
proof -
  have "map u_id (modify_user uid f us) = map u_id us" "map u_username (modify_user uid f us) = map u_username us"
    using assms(2) by (simp_all add: modify_user_def)
  moreover have "\<exists>u \<in> set (modify_user uid f us). u_is_active u"
    using assms(3) by (auto simp: modify_user_def)
  ultimately show ?thesis using assms(1) by (simp add: users_ok_def)
qed

lemma modify_user_same:
  assumes "users_ok us" and "\<And>u. u_id (f u) = u_id u \<and> u_username (f u) = u_username u \<and> u_is_active (f u) = u_is_active u"
  shows "users_ok (modify_user uid f us)"
proof (rule modify_user_ok [OF assms(1)])
  show "\<exists>u \<in> set us. u_is_active u \<and> (u_id u \<noteq> uid \<or> u_is_active (f u))" using assms by (auto simp: users_ok_def)
qed (use assms(2) in simp)

lemma other_active:
  assumes "distinct (map u_id us)" and "1 < active_count us"
  shows "\<exists>v \<in> set us. u_is_active v \<and> u_id v \<noteq> uid"
proof (rule ccontr)
  assume "\<not> ?thesis"
  then have "u_id ` set (filter u_is_active us) \<subseteq> {uid}" by auto
  then have "card (u_id ` set (filter u_is_active us)) \<le> 1" using card_mono [of "{uid}"] by auto
  moreover have "card (u_id ` set (filter u_is_active us)) = active_count us"
    using distinct_card [of "map u_id (filter u_is_active us)"] assms(1)
    by (simp add: active_count_def distinct_map_filter del: set_filter)
  ultimately show False using assms(2) by simp
qed

lemma update_ok:
  assumes "users_ok us" and "update_check I admin user_id body us = Inr uid"
  shows "users_ok (update_write uid body us)"
proof -
  obtain u where u: "find_user uid us = Some u"
    and g: "up_is_active body = Some False \<and> u_is_active u \<Longrightarrow> 1 < active_count us"
    using assms(2) by (auto simp: update_check_def bind_result_Inr split: if_splits option.splits)
  have "\<exists>v \<in> set us. u_is_active v \<and> (u_id v \<noteq> uid \<or> up_is_active body \<noteq> Some False)"
  proof (cases "up_is_active body = Some False \<and> u_is_active u")
    case True
    then show ?thesis using other_active [of us uid] assms(1) g by (auto simp: users_ok_def)
  next
    case False
    obtain v where v: "v \<in> set us" "u_is_active v" using assms(1) by (auto simp: users_ok_def)
    have "u \<in> set us" "u_id u = uid" using u by (auto simp: find_user_def find_Some_iff)
    then have "u_id v = uid \<Longrightarrow> v = u" using v(1) assms(1) by (auto simp: users_ok_def distinct_map inj_on_def)
    with v False show ?thesis by auto
  qed
  then show ?thesis unfolding update_write_def
    by (intro modify_user_ok assms(1)) (auto split: option.split)
qed

lemma delete_ok:
  assumes "users_ok us" and "delete_check admin user_id us = Inr uid"
  shows "users_ok (delete_write uid us)"
proof -
  obtain u where u: "find_user uid us = Some u" and g: "u_is_active u \<Longrightarrow> 1 < active_count us"
    using assms(2) by (auto simp: delete_check_def bind_result_Inr split: if_splits option.splits)
  have m: "u \<in> set us" "u_id u = uid" using u by (auto simp: find_user_def find_Some_iff)
  have "\<exists>v \<in> set us. u_is_active v \<and> u_id v \<noteq> uid"
  proof (cases "u_is_active u")
    case True
    then show ?thesis using other_active [of us uid] assms(1) g by (auto simp: users_ok_def)
  next
    case False
    obtain v where "v \<in> set us" "u_is_active v" using assms(1) by (auto simp: users_ok_def)
    moreover have "u_id v = uid \<Longrightarrow> v = u" using m calculation assms(1) by (auto simp: users_ok_def distinct_map inj_on_def)
    ultimately show ?thesis using False by auto
  qed
  then show ?thesis using assms(1) by (auto simp: users_ok_def delete_write_def distinct_map_filter)
qed

lemma users_step_ok: "users_step L I us us' \<Longrightarrow> users_ok us \<Longrightarrow> users_ok us'"
proof (induction rule: users_step.induct)
  case (created us uid body)
  then show ?case by (auto simp: create_admin_user_def Let_def users_ok_def list_ex_iff)
next
  case (updated us admin user_id body')
  then show ?case using update_ok by (auto simp: update_admin_user_def split: sum.split)
next
  case (reset us user_id pw)
  then show ?case by (auto simp: reset_admin_password_def split: sum.split option.split intro!: modify_user_same)
next
  case (deleted us admin user_id)
  then show ?case using delete_ok by (auto simp: delete_admin_user_def split: sum.split)
next
  case (logged_in us uid now)
  then show ?case by (intro modify_user_same) simp_all
next
  case (changed us uid pw)
  then show ?case by (intro modify_user_same) simp_all
next
  case (started us uid)
  then show ?case by (auto simp: bootstrap_default_admin_def users_ok_def)
qed

text \<open>
  C8: whatever sequence of routes, logins, password changes and start-ups runs one after the other,
  identifiers and user names stay unique and at least one administrator stays active. The guard is
  a check before the write: two administrators who disable each other at the same time both pass it
  when both count before either commits, and no active administrator is left.
\<close>

theorem last_admin_kept:
  assumes "users_ok us"
  shows "((users_step L I)\<^sup>*\<^sup>* us us' \<longrightarrow> users_ok us')
    \<and> (filter u_is_active us = [a, b] \<and> u_id a < 2 ^ 128 \<and> u_id b < 2 ^ 128
        \<and> as_admin_user_id sa = uuid_str (u_id a) \<and> as_admin_user_id sb = uuid_str (u_id b) \<longrightarrow>
       (let off = \<lparr>up_is_active = Some False, up_allowed_ips = None\<rparr> in
        update_check I sa (uuid_str (u_id b)) off us = Inr (u_id b)
        \<and> update_check I sb (uuid_str (u_id a)) off us = Inr (u_id a)
        \<and> active_count (update_write (u_id a) off (update_write (u_id b) off us)) = 0))"
proof (intro conjI impI)
  assume "(users_step L I)\<^sup>*\<^sup>* us us'"
  then show "users_ok us'" using assms by induction (auto intro: users_step_ok)
next
  let ?off = "\<lparr>up_is_active = Some False, up_allowed_ips = None\<rparr>"
  assume a: "filter u_is_active us = [a, b] \<and> u_id a < 2 ^ 128 \<and> u_id b < 2 ^ 128
        \<and> as_admin_user_id sa = uuid_str (u_id a) \<and> as_admin_user_id sb = uuid_str (u_id b)"
  have d: "distinct (map u_id us)" using assms by (simp add: users_ok_def)
  have "set (filter u_is_active us) = {a, b}" using a by simp
  then have ab: "a \<in> set us" "b \<in> set us" "u_is_active a" "u_is_active b" by auto
  have "distinct (map u_id (filter u_is_active us))" using d by (simp add: distinct_map_filter)
  then have ne: "u_id a \<noteq> u_id b" using a by simp
  have find: "find_user (u_id x) us = Some x" if "x \<in> set us" for x
    using that d by (induction us) (auto simp: find_user_def)
  have "uuid_str (u_id a) \<noteq> uuid_str (u_id b)" using ne a uuid_str_inject by blast
  then have c: "update_check I sa (uuid_str (u_id b)) ?off us = Inr (u_id b)"
    "update_check I sb (uuid_str (u_id a)) ?off us = Inr (u_id a)"
    using a ab by (simp_all add: update_check_def update_valid_def user_uuid_def uuid_of_uuid_str find active_count_def)
  have "\<not> u_is_active v" if v: "v \<in> set (update_write (u_id a) ?off (update_write (u_id b) ?off us))" for v
  proof
    assume act: "u_is_active v"
    obtain u where u: "u \<in> set us" and vu: "v = (let w = (if u_id u = u_id b then u\<lparr>u_is_active := False\<rparr> else u)
        in if u_id w = u_id a then w\<lparr>u_is_active := False\<rparr> else w)"
      using v by (auto simp: update_write_def modify_user_def Let_def)
    then have "u_is_active u" "u_id u \<noteq> u_id a" "u_id u \<noteq> u_id b" using act by (auto simp: Let_def split: if_splits)
    then have "u \<in> {a, b}" using u \<open>set (filter u_is_active us) = {a, b}\<close> by auto
    with \<open>u_id u \<noteq> u_id a\<close> \<open>u_id u \<noteq> u_id b\<close> show False by auto
  qed
  then have "active_count (update_write (u_id a) ?off (update_write (u_id b) ?off us)) = 0"
    by (simp add: active_count_def filter_empty_conv)
  with c show "let off = ?off in update_check I sa (uuid_str (u_id b)) off us = Inr (u_id b)
      \<and> update_check I sb (uuid_str (u_id a)) off us = Inr (u_id a)
      \<and> active_count (update_write (u_id a) off (update_write (u_id b) off us)) = 0" by simp
qed

definition ref_pw_lib :: pw_lib where
  "ref_pw_lib = \<lparr>pw_hash = (\<lambda>p. 36 # p), pw_verify = (\<lambda>h p. if h = 36 # p then Inr () else Inl VerifyMismatchError),
     py_lower = id, sql_lower = id\<rparr>"

definition ref_admin :: "nat \<Rightarrow> string \<Rightarrow> AdminUser" where
  "ref_admin uid name = \<lparr>u_id = uid, u_username = lit name, u_password_hash = [], u_is_active = True,
     u_must_change = False, u_allowed_ips = [], u_last_login = None\<rparr>"

definition ref_session_of :: "AdminUser \<Rightarrow> AdminWebSessionData" where
  "ref_session_of u = \<lparr>as_session_id = [], as_admin_user_id = uuid_str (u_id u), as_username = u_username u,
     as_must_change_password = False, as_allowed_ips = []\<rparr>"

theorem last_admin_kept_witness:
  "let a = ref_admin 1 ''a''; b = ref_admin 2 ''b''; sa = ref_session_of a; sb = ref_session_of b;
       off = \<lparr>up_is_active = Some False, up_allowed_ips = None\<rparr> in
     users_ok (snd (update_admin_user ref_ip_lib sa (uuid_str (u_id b)) off [a, b]))
     \<and> update_check ref_ip_lib sa (uuid_str (u_id b)) off [a, b] = Inr (u_id b)
     \<and> update_check ref_ip_lib sb (uuid_str (u_id a)) off [a, b] = Inr (u_id a)
     \<and> active_count (update_write (u_id a) off (update_write (u_id b) off [a, b])) = 0"
proof -
  let ?a = "ref_admin 1 ''a''" and ?b = "ref_admin 2 ''b''"
  let ?off = "\<lparr>up_is_active = Some False, up_allowed_ips = None\<rparr>"
  have ok: "users_ok [?a, ?b]" by (simp add: users_ok_def ref_admin_def lit_def)
  have f: "filter u_is_active [?a, ?b] = [?a, ?b] \<and> u_id ?a < 2 ^ 128 \<and> u_id ?b < 2 ^ 128
      \<and> as_admin_user_id (ref_session_of ?a) = uuid_str (u_id ?a) \<and> as_admin_user_id (ref_session_of ?b) = uuid_str (u_id ?b)"
    by (simp add: ref_admin_def ref_session_of_def)
  have s: "(users_step ref_pw_lib ref_ip_lib)\<^sup>*\<^sup>* [?a, ?b]
      (snd (update_admin_user ref_ip_lib (ref_session_of ?a) (uuid_str (u_id ?b)) ?off [?a, ?b]))"
    by (rule r_into_rtranclp) (rule users_step.updated)
  show ?thesis
    using last_admin_kept [where us = "[?a, ?b]" and us' = "snd (update_admin_user ref_ip_lib (ref_session_of ?a) (uuid_str (u_id ?b)) ?off [?a, ?b])"
        and L = ref_pw_lib and I = ref_ip_lib and a = ?a and b = ?b and sa = "ref_session_of ?a" and sb = "ref_session_of ?b", OF ok] s f
    by (simp only: Let_def simp_thms)
qed

section \<open>Who logs in\<close>

text \<open>The conditions under which the form is accepted.\<close>

definition login_guard :: "(('db \<Rightarrow> rlook)) \<Rightarrow> pw_lib \<Rightarrow> request \<Rightarrow> ustr \<Rightarrow> ustr \<Rightarrow> ustr \<Rightarrow> 'db admin_world \<Rightarrow> AdminUser \<Rightarrow> bool" where
  "login_guard look L rq username password csrf_token w u \<longleftrightarrow>
     csrf_token \<noteq> [] \<and> rq_cookie rq ADMIN_CSRF_COOKIE_NAME = Some csrf_token
     \<and> look (aw_rdb w) (lock_ip admin_limiter (admin_client_ip rq)) = None
     \<and> look (aw_rdb w) (lock_user admin_limiter (uname_of (py_lower L) username)) = None
     \<and> login_user L username (users w) = Some u \<and> u_is_active u
     \<and> verify_password L (u_password_hash u) password = Inr True"

lemma admin_session_key:
  "ADMIN_WEB_SESSION s \<noteq> fail_ip admin_limiter a" "ADMIN_WEB_SESSION s \<noteq> fail_user admin_limiter a"
  "ADMIN_WEB_SESSION s \<noteq> lock_ip admin_limiter a" "ADMIN_WEB_SESSION s \<noteq> lock_user admin_limiter a"
  by (simp_all add: admin_limiter_def key_defs lit_eval)

lemma credentials_ok_True: "credentials_ok L p user = Inr True \<longleftrightarrow>
    (\<exists>u. user = Some u \<and> u_is_active u \<and> verify_password L (u_password_hash u) p = Inr True)"
  by (auto simp: credentials_ok_def split: option.split)

lemma cookie_csrf: "cookie_text rq n = [] \<or> cookie_text rq n \<noteq> c \<longleftrightarrow> \<not> (c \<noteq> [] \<and> rq_cookie rq n = Some c)"
  by (auto simp: cookie_text_def split: option.splits)

lemma start_session_response:
  "start_session R L store now sid tok rq username u w = (Inr resp, w') \<Longrightarrow>
    status resp = 303 \<and> (ADMIN_COOKIE_NAME, sid) \<in> set (set_cookies resp) \<and> users w' = users w"
  by (auto simp: start_session_def on_rd_def create_admin_web_session_def rd_simps split: prod.splits sum.splits)

lemma admin_login_cases:
  assumes R: "redis_server R look watch_state"
    and run: "login_submit R L A now sid tok rq username password csrf_token w = (Inr resp, w')"
  shows "(\<exists>u store. login_guard look L rq username password csrf_token w u
        \<and> start_session R L store now sid tok rq username u
            (w\<lparr>users := modify_user (u_id u) (\<lambda>u. u\<lparr>u_last_login := Some now\<rparr>) (users w)\<rparr>) = (Inr resp, w'))
    \<or> ((\<forall>u. \<not> login_guard look L rq username password csrf_token w u)
        \<and> resp \<in> render_login_page rq tok ` {400, 429, 401} \<and> users w' = users w
        \<and> (\<forall>s. look (aw_rdb w') (ADMIN_WEB_SESSION s) = look (aw_rdb w) (ADMIN_WEB_SESSION s)))"
proof -
  have lim: "login_limiter R look watch_state admin_limiter" by (rule limiter_instances [OF R]) simp
  have locked: "is_locked R (py_lower L) admin_limiter (admin_client_ip rq) username db =
      (Inr (look db (lock_ip admin_limiter (admin_client_ip rq)) \<noteq> None
        \<or> look db (lock_user admin_limiter (uname_of (py_lower L) username)) \<noteq> None), db)" for db
    by (rule login_limiter.is_locked_look [OF lim])
  have frame: "look (snd (record_failure R (py_lower L) admin_limiter ip username mx ls db)) (ADMIN_WEB_SESSION s)
      = look db (ADMIN_WEB_SESSION s)" for ip mx ls db s
    by (rule login_limiter.record_failure_frame [OF lim]) (simp_all add: admin_session_key)
  let ?csrf = "csrf_token \<noteq> [] \<and> rq_cookie rq ADMIN_CSRF_COOKIE_NAME = Some csrf_token"
  let ?lock = "look (aw_rdb w) (lock_ip admin_limiter (admin_client_ip rq)) \<noteq> None
     \<or> look (aw_rdb w) (lock_user admin_limiter (uname_of (py_lower L) username)) \<noteq> None"
  consider (csrf) "\<not> ?csrf" | (lock) "?csrf" "?lock" | (go) "?csrf" "\<not> ?lock" by blast
  then show ?thesis
  proof cases
    case csrf
    then show ?thesis using run by (auto simp: login_submit_def cookie_csrf Let_def rd_simps login_guard_def)
  next
    case lock
    then have "resp = render_login_page rq tok 429 \<and> w' = w" using run
      by (auto simp: login_submit_def cookie_text_def on_rd_def locked rbind_def rlift_def rreturn_def Let_def split: sum.splits)
    with lock show ?thesis by (auto simp: login_guard_def)
  next
    case go
    obtain store c ok where *: "get_session_store A = Inr store" "get_config A = Inr c"
        "credentials_ok L password (login_user L username (users w)) = Inr ok"
      using run go by (auto simp: login_submit_def cookie_text_def on_rd_def locked rbind_def rlift_def rreturn_def Let_def split: sum.splits)
    show ?thesis
    proof (cases ok)
      case True
      with * obtain u where u: "login_user L username (users w) = Some u" "u_is_active u"
          "verify_password L (u_password_hash u) password = Inr True" by (auto simp: credentials_ok_True)
      then have "login_guard look L rq username password csrf_token w u" using go by (simp add: login_guard_def del: not_None_eq)
      moreover have "start_session R L store now sid tok rq username u
            (w\<lparr>users := modify_user (u_id u) (\<lambda>u. u\<lparr>u_last_login := Some now\<rparr>) (users w)\<rparr>) = (Inr resp, w')"
        using run go * u True
        by (auto simp: login_submit_def cookie_text_def on_rd_def locked rbind_def rlift_def rreturn_def Let_def split: sum.splits)
      ultimately show ?thesis by blast
    next
      case False
      then have no: "\<not> login_guard look L rq username password csrf_token w u" for u
        using * by (auto simp: login_guard_def credentials_ok_def)
      let ?f = "record_failure R (py_lower L) admin_limiter (admin_client_ip rq) username
            (login_attempts_per_minute (security c)) (login_lock_seconds (security c)) (aw_rdb w)"
      have "resp = render_login_page rq tok 401 \<and> w' = w\<lparr>aw_rdb := snd ?f\<rparr>"
        using run go * False
        by (auto simp: login_submit_def cookie_text_def on_rd_def locked rbind_def rlift_def rreturn_def Let_def
            split: sum.splits prod.splits)
      then show ?thesis using no frame by auto
    qed
  qed
qed

text \<open>
  C17: when the login form is answered with a redirection, the CSRF token of the form was the cookie,
  neither the address nor the user name was locked, and the account that the table finds first for
  the name is active and the password verifies against its hash; the cookie then holds the new
  session. Any other answer is a login page that sets no session cookie, and it changes neither the
  accounts nor any session of an administrator: it counts the failure when the password was
  looked at, and nothing otherwise.
\<close>

theorem admin_login_guarded:
  assumes "redis_server R look watch_state"
    and "login_submit R L A now sid tok rq username password csrf_token w = (Inr resp, w')"
  shows "(status resp = 303 \<longleftrightarrow> (\<exists>u. login_guard look L rq username password csrf_token w u))
    \<and> (if status resp = 303 then (ADMIN_COOKIE_NAME, sid) \<in> set (set_cookies resp)
       else status resp \<in> {400, 401, 429} \<and> ADMIN_COOKIE_NAME \<notin> fst ` set (set_cookies resp) \<and> users w' = users w
         \<and> (\<forall>s. look (aw_rdb w') (ADMIN_WEB_SESSION s) = look (aw_rdb w) (ADMIN_WEB_SESSION s)))"
  using admin_login_cases [OF assms]
proof (elim disjE exE conjE)
  fix u store
  assume g: "login_guard look L rq username password csrf_token w u"
    and st: "start_session R L store now sid tok rq username u
        (w\<lparr>users := modify_user (u_id u) (\<lambda>u. u\<lparr>u_last_login := Some now\<rparr>) (users w)\<rparr>) = (Inr resp, w')"
  from start_session_response [OF st] g show ?thesis by auto
next
  assume "\<forall>u. \<not> login_guard look L rq username password csrf_token w u"
    and "resp \<in> render_login_page rq tok ` {400, 429, 401}" and "users w' = users w"
    and "\<forall>s. look (aw_rdb w') (ADMIN_WEB_SESSION s) = look (aw_rdb w) (ADMIN_WEB_SESSION s)"
  moreover have "ADMIN_COOKIE_NAME \<noteq> ADMIN_CSRF_COOKIE_NAME"
    by (simp add: ADMIN_COOKIE_NAME_def ADMIN_CSRF_COOKIE_NAME_def lit_eval)
  ultimately show ?thesis by (auto simp: render_login_page_def)
qed

definition ref_login_request :: request where
  "ref_login_request = ref_request\<lparr>rq_cookie := [ADMIN_CSRF_COOKIE_NAME \<mapsto> lit ''t'']\<rparr>"

definition ref_app :: app_state where
  "ref_app = \<lparr>app_config = Some ref_app_config, app_store = Some ref_store, app_db = True\<rparr>"

theorem admin_login_guarded_witness:
  "(\<exists>u. login_guard mem_look ref_pw_lib ref_login_request (lit ''root'') (lit ''secret'') (lit ''t'')
      \<lparr>aw_rdb = empty_db, users = [(ref_admin 7 ''root'')\<lparr>u_password_hash := pw_hash ref_pw_lib (lit ''secret'')\<rparr>]\<rparr> u)"
proof -
  let ?u = "(ref_admin 7 ''root'')\<lparr>u_password_hash := pw_hash ref_pw_lib (lit ''secret'')\<rparr>"
  let ?w = "\<lparr>aw_rdb = empty_db, users = [?u]\<rparr>"
  let ?resp = "\<lparr>status = 303, location = Some (lit ''/admin/dashboard''),
      set_cookies = [(ADMIN_COOKIE_NAME, lit ''s''), (ADMIN_CSRF_COOKIE_NAME, lit ''n'')]\<rparr>"
  let ?run = "login_submit mem_redis ref_pw_lib ref_app 1000 (lit ''s'') (lit ''n'') ref_login_request (lit ''root'') (lit ''secret'') (lit ''t'') ?w"
  have strip: "strip (lit ''root'') = lit ''root''"
    by (rule strip_no_space) (simp add: lit_eval py_isspace_def py_spaces_def)
  have ne: "lit ''t'' \<noteq> []" by (simp add: lit_eval)
  have utf: "utf8_encode (browser_fingerprint ref_login_request) = Inr [124, 124, 124, 124, 124, 124]"
    by (simp add: browser_fingerprint_def header_text_def ref_login_request_def ref_request_def lit_eval utf8_encode_def utf8_char_def scalar_def)
  have c: "\<exists>db'. create_admin_web_session mem_redis ref_store (lit ''s'') 1000 uid n m (browser_fingerprint ref_login_request) ips db
      = (Inr (lit ''s''), db')" for uid n m ips db
    by (simp add: create_admin_web_session_def rd_simps utf fingerprint_digest_def x_setex_def mem_redis_def mem_setex_def ref_store_def split: prod.split)
  have cl: "\<exists>db'. clear mem_redis id admin_limiter ip v db = (Inr (), db')" for ip v db
    using login_limiter.clear_look [OF limiter_instances [OF mem.redis_server_axioms], of admin_limiter id ip v db] by auto
  have start: "\<exists>w'. start_session mem_redis ref_pw_lib ref_store 1000 (lit ''s'') (lit ''n'') ref_login_request v u w = (Inr ?resp, w')"
    if "\<not> u_must_change u" for v u w
  proof -
    obtain db1 where 1: "clear mem_redis id admin_limiter (admin_client_ip ref_login_request) v (aw_rdb w) = (Inr (), db1)" using cl by blast
    obtain db2 where 2: "create_admin_web_session mem_redis ref_store (lit ''s'') 1000 (uuid_str (u_id u)) (u_username u) (u_must_change u)
        (browser_fingerprint ref_login_request) (Some (u_allowed_ips u)) db1 = (Inr (lit ''s''), db2)" using c by blast
    show ?thesis using that 1 2 by (simp add: start_session_def on_rd_def ref_pw_lib_def rd_simps)
  qed
  have free: "is_locked mem_redis (py_lower ref_pw_lib) admin_limiter ip v empty_db = (Inr False, empty_db)" for ip v
    using login_limiter.is_locked_look [OF limiter_instances [OF mem.redis_server_axioms], of admin_limiter "py_lower ref_pw_lib" ip v empty_db]
    by (simp add: mem_look_def empty_db_def)
  have user: "login_user ref_pw_lib (lit ''root'') [?u] = Some ?u"
    by (simp add: login_user_def ref_pw_lib_def ref_admin_def strip)
  have ok: "credentials_ok ref_pw_lib (lit ''secret'') (Some ?u) = Inr True"
    by (simp add: credentials_ok_def verify_password_def ref_pw_lib_def ref_admin_def)
  have cookie: "rq_cookie ref_login_request ADMIN_CSRF_COOKIE_NAME = Some (lit ''t'')"
    by (simp add: ref_login_request_def)
  have "\<not> u_must_change ?u" by (simp add: ref_admin_def)
  from start [OF this] ne have "\<exists>w'. ?run = (Inr ?resp, w')"
    by (simp add: login_submit_def cookie_text_def cookie rbind_def rlift_def rreturn_def on_rd_def free user ok Let_def
        ref_app_def get_session_store_def get_db_sessionmaker_def get_config_def) 
  then obtain w' where "?run = (Inr ?resp, w')" by blast
  from admin_login_guarded [OF mem.redis_server_axioms this] show ?thesis by simp
qed

end
