(* ===== verification/Ldap_Auth.thy ===== *)
theory Ldap_Auth
  imports Config Uuid Utf_Codec
begin

text \<open>
  Authentication against a directory (\<^verbatim>\<open>src/libs/identity/ldap_auth.py\<close>). The package \<^verbatim>\<open>ldap3\<close> is a
  parameter: what opening, upgrading, binding, searching and modifying answer, as functions of the
  server and of the identity the connection is bound with, and the escaping of filter texts. Every
  call that goes to the directory is an event of the state, in order. The entries of a search have
  the attributes that the code asks for; a search that the directory refuses raises.
\<close>

section \<open>The library\<close>

datatype ldap_raw = NoGuid | RawBytes bytes | RawText ustr | RawOther

record ldap_entry =
  e_dn :: ustr
  e_distinguished :: "ustr option"
  e_guid :: ldap_raw
  e_member_of :: "ustr list"
  e_sam :: "ustr option"
  e_cn :: "ustr option"
  e_description :: "ustr option"

record ldap_server =
  srv_host :: ustr
  srv_port :: int
  srv_ssl :: bool
  srv_verify :: bool

datatype ldap_event =
    EOpen ldap_server
  | ETls
  | EBind ustr ustr
  | ESearch ustr ustr int
  | EModify ustr bytes bytes
  | EUnbind

record ldap3 =
  l3_open :: "ldap_server \<Rightarrow> bool result"
  l3_start_tls :: "ldap_server \<Rightarrow> bool result"
  l3_bind :: "ldap_server \<Rightarrow> ustr \<Rightarrow> ustr \<Rightarrow> bool result"
  l3_search :: "ustr \<Rightarrow> ustr \<Rightarrow> ustr \<Rightarrow> int \<Rightarrow> ldap_entry list result"
  l3_modify :: "ustr \<Rightarrow> ustr \<Rightarrow> bytes \<Rightarrow> bytes \<Rightarrow> bool result"
  l3_escape :: "ustr \<Rightarrow> ustr"
  l3_lower :: "ustr \<Rightarrow> ustr"

type_synonym 'a ldap_op = "(ldap_event list, 'a) eff"

definition call :: "ldap_event \<Rightarrow> 'a result \<Rightarrow> 'a ldap_op" where
  "call e r t = (r, t @ [e])"

text \<open>\<^verbatim>\<open>try: m finally: conn.unbind()\<close>\<close>

definition and_unbind :: "'a ldap_op \<Rightarrow> 'a ldap_op" where
  "and_unbind m t = (case m t of (r, t') \<Rightarrow> (r, t' @ [EUnbind]))"

section \<open>The authenticator\<close>

record LDAPAuthenticator =
  server_host :: ustr
  l_mode_of :: ustr
  server_port :: int
  bind_dn :: ustr
  bind_secret :: ustr
  users_dn :: ustr
  domain :: ustr
  user_filter :: ustr
  tls_verify :: bool
  base_dn :: ustr

record LDAPUserInfo =
  li_username :: ustr
  li_user_dn :: ustr
  li_groups :: "ustr list"
  li_group_guids :: "ustr list"

definition derive_base_dn :: "ldap3 \<Rightarrow> ustr \<Rightarrow> ustr" where
  "derive_base_dn X dn = (case py_find (lit ''dc='') (l3_lower X dn) of
      None \<Rightarrow> dn | Some idx \<Rightarrow> drop idx dn)"

definition LDAPAuthenticator_of :: "ldap3 \<Rightarrow> LdapConfig \<Rightarrow> LDAPAuthenticator" where
  "LDAPAuthenticator_of X cfg =
    (let default_port = (if l_mode cfg = lit ''ldaps'' then 636 else 389) in
     \<lparr>server_host = l_server cfg, l_mode_of = l_mode cfg,
      server_port = (if l_port cfg \<noteq> 0 then l_port cfg else default_port),
      bind_dn = l_bind_dn cfg, bind_secret = l_bind_password cfg, users_dn = l_users_dn cfg, domain = l_domain cfg,
      user_filter = strip (l_user_filter cfg), tls_verify = l_tls_verify cfg, base_dn = derive_base_dn X (l_users_dn cfg)\<rparr>)"

text \<open>\<^verbatim>\<open>uuid.UUID(bytes_le=b)\<close>: the first three fields are little-endian.\<close>

definition uuid_of_bytes_le :: "bytes \<Rightarrow> nat result" where
  "uuid_of_bytes_le b = (if length b \<noteq> 16 then Inl ValueError
     else Inr (be_nat (rev (take 4 b) @ rev (take 2 (drop 4 b)) @ rev (take 2 (drop 6 b)) @ drop 8 b)))"

definition guid_from_ldap_raw :: "ldap_raw \<Rightarrow> ustr option result" where
  "guid_from_ldap_raw raw = (case raw of
      NoGuid \<Rightarrow> Inr None
    | RawBytes b \<Rightarrow> bind_result (uuid_of_bytes_le b) (\<lambda>u. Inr (Some (uuid_str u)))
    | RawText s \<Rightarrow> (let s = strip s in if s = [] then Inr None
        else (case uuid_of s of Inr u \<Rightarrow> Inr (Some (uuid_str u)) | Inl _ \<Rightarrow> Inr None))
    | RawOther \<Rightarrow> Inr None)"

definition build_server :: "LDAPAuthenticator \<Rightarrow> ldap_server" where
  "build_server A = \<lparr>srv_host = server_host A, srv_port = server_port A,
     srv_ssl = (l_mode_of A = lit ''ldaps''), srv_verify = tls_verify A\<rparr>"

text \<open>A bind that raises leaves the connection open, as do \<^verbatim>\<open>open\<close> and \<^verbatim>\<open>start_tls\<close> when they raise.\<close>

definition bind :: "ldap3 \<Rightarrow> LDAPAuthenticator \<Rightarrow> ldap_server \<Rightarrow> ustr \<Rightarrow> ustr \<Rightarrow> unit ldap_op" where
  "bind X A server user password =
    rbind (call (EOpen server) (case l3_open X server of Inl _ \<Rightarrow> Inl ValueError | Inr ok \<Rightarrow> Inr ok)) (\<lambda>opened.
    if \<not> opened then rraise ValueError
    else rbind (if l_mode_of A = lit ''starttls''
                then rbind (call ETls (l3_start_tls X server)) (\<lambda>ok.
                  if \<not> ok then rbind (call EUnbind (Inr ())) (\<lambda>_. rraise ValueError) else rreturn ())
                else rreturn ()) (\<lambda>_.
         rbind (call (EBind user password) (l3_bind X server user password)) (\<lambda>ok.
         if \<not> ok then rbind (call EUnbind (Inr ())) (\<lambda>_. rraise ValueError) else rreturn ())))"

definition search :: "ldap3 \<Rightarrow> LDAPAuthenticator \<Rightarrow> ustr \<Rightarrow> ustr \<Rightarrow> int \<Rightarrow> ldap_entry list ldap_op" where
  "search X A base flt limit = call (ESearch base flt limit) (l3_search X (bind_dn A) base flt limit)"

definition build_user_search_filter :: "ldap3 \<Rightarrow> LDAPAuthenticator \<Rightarrow> ustr \<Rightarrow> ustr" where
  "build_user_search_filter X A upn =
    (let base = lit ''(userPrincipalName='' @ l3_escape X upn @ lit '')'';
         extra = (if starts_with (lit ''('') (user_filter A) then user_filter A
                  else lit ''('' @ user_filter A @ lit '')'') in
     if user_filter A = [] then base else lit ''(&'' @ base @ extra @ lit '')'')"

section \<open>Groups\<close>

definition chunk_filter :: "ldap3 \<Rightarrow> ustr list \<Rightarrow> ustr" where
  "chunk_filter X dns = lit ''(&(objectClass=group)'' @ lit ''(|''
     @ concat (map (\<lambda>dn. lit ''(distinguishedName='' @ l3_escape X dn @ lit '')'') dns) @ lit '')'' @ lit '')''"

fun add_guids :: "ldap_entry list \<Rightarrow> (ustr \<rightharpoonup> ustr) \<Rightarrow> (ustr \<rightharpoonup> ustr) result" where
  "add_guids [] m = Inr m"
| "add_guids (e # es) m =
    (let dn_val = (case e_distinguished e of Some d \<Rightarrow> d | None \<Rightarrow> e_dn e) in
     bind_result (guid_from_ldap_raw (e_guid e)) (\<lambda>guid.
     add_guids es (case guid of Some g \<Rightarrow> if dn_val \<noteq> [] \<and> g \<noteq> [] then m(dn_val \<mapsto> g) else m | None \<Rightarrow> m)))"

function resolve_chunks :: "ldap3 \<Rightarrow> LDAPAuthenticator \<Rightarrow> ustr list \<Rightarrow> (ustr \<rightharpoonup> ustr) \<Rightarrow> (ustr \<rightharpoonup> ustr) ldap_op" where
  "resolve_chunks X A dns m =
    (if dns = [] then rreturn m
     else let chunk = take 30 dns in
       rbind (search X A (base_dn A) (chunk_filter X chunk) (int (length chunk))) (\<lambda>es.
       rbind (rlift (add_guids es m)) (\<lambda>m'.
       resolve_chunks X A (drop 30 dns) m')))"
  by pat_completeness auto
termination
  by (relation "measure (\<lambda>(X, A, dns, m). length dns)") auto

declare resolve_chunks.simps [simp del]

definition resolve_group_guids' :: "ldap3 \<Rightarrow> LDAPAuthenticator \<Rightarrow> ustr list \<Rightarrow> ustr list ldap_op" where
  "resolve_group_guids' X A dns =
    (if dns = [] then rreturn []
     else rbind (resolve_chunks X A dns Map.empty) (\<lambda>m. rreturn (List.map_filter m dns)))"

section \<open>Operations\<close>

definition upn_of :: "LDAPAuthenticator \<Rightarrow> ustr \<Rightarrow> ustr" where
  "upn_of A username = (if 64 \<in> set username then username else username @ [64] @ domain A)"

definition authenticate :: "ldap3 \<Rightarrow> LDAPAuthenticator \<Rightarrow> ustr \<Rightarrow> ustr \<Rightarrow> LDAPUserInfo ldap_op" where
  "authenticate X A username password =
    (if username = [] \<or> password = [] then rraise ValueError
     else let server = build_server A; flt = build_user_search_filter X A (upn_of A username) in
       rbind (bind X A server (bind_dn A) (bind_secret A)) (\<lambda>_.
       and_unbind (
         rbind (search X A (users_dn A) flt 1) (\<lambda>entries.
         case entries of
           [] \<Rightarrow> rraise ValueError
         | entry # _ \<Rightarrow>
             rbind (bind X A server (e_dn entry) password) (\<lambda>_.
             rbind (call EUnbind (Inr ())) (\<lambda>_.
             rbind (resolve_group_guids' X A (e_member_of entry)) (\<lambda>guids.
             rreturn \<lparr>li_username = (case e_sam entry of Some s \<Rightarrow> if s \<noteq> [] then s else username | None \<Rightarrow> username),
               li_user_dn = e_dn entry, li_groups = e_member_of entry, li_group_guids = guids\<rparr>)))))))"

definition resolve_group_guids :: "ldap3 \<Rightarrow> LDAPAuthenticator \<Rightarrow> ustr list \<Rightarrow> ustr list ldap_op" where
  "resolve_group_guids X A dns =
    (if dns = [] then rreturn []
     else rbind (bind X A (build_server A) (bind_dn A) (bind_secret A)) (\<lambda>_. and_unbind (resolve_group_guids' X A dns)))"

record group_row =
  g_guid :: ustr
  g_dn :: ustr
  g_cn :: ustr
  g_description :: "ustr option"

definition some_text :: "ustr option \<Rightarrow> ustr option" where
  "some_text t = (case t of Some s \<Rightarrow> if s \<noteq> [] then Some s else None | None \<Rightarrow> None)"

fun group_rows :: "ldap_entry list \<Rightarrow> group_row list result" where
  "group_rows [] = Inr []"
| "group_rows (e # es) =
    bind_result (guid_from_ldap_raw (e_guid e)) (\<lambda>guid.
    bind_result (group_rows es) (\<lambda>rows.
    case guid of
      Some g \<Rightarrow> if g = [] then Inr rows
        else let dn = (case some_text (e_distinguished e) of Some d \<Rightarrow> d | None \<Rightarrow> e_dn e) in
          Inr (\<lparr>g_guid = g, g_dn = dn, g_cn = (case some_text (e_cn e) of Some c \<Rightarrow> c | None \<Rightarrow> dn),
             g_description = some_text (e_description e)\<rparr> # rows)
    | None \<Rightarrow> Inr rows))"

definition search_groups :: "ldap3 \<Rightarrow> LDAPAuthenticator \<Rightarrow> ustr \<Rightarrow> int \<Rightarrow> group_row list ldap_op" where
  "search_groups X A term' limit =
    (let q = strip term' in
     if length q < 2 then rreturn []
     else rbind (bind X A (build_server A) (bind_dn A) (bind_secret A)) (\<lambda>_.
       and_unbind (
         let safe = l3_escape X q;
             flt = lit ''(&(objectClass=group)(|(cn=*'' @ safe @ lit ''*)(description=*'' @ safe @ lit ''*)))'' in
         rbind (search X A (base_dn A) flt (max 1 (min limit 200))) (\<lambda>es. rlift (group_rows es)))))"

definition list_groups :: "ldap3 \<Rightarrow> LDAPAuthenticator \<Rightarrow> int \<Rightarrow> group_row list ldap_op" where
  "list_groups X A limit =
    rbind (bind X A (build_server A) (bind_dn A) (bind_secret A)) (\<lambda>_.
    and_unbind (rbind (search X A (base_dn A) (lit ''(objectClass=group)'') (max 1 (min limit 50000))) (\<lambda>es. rlift (group_rows es))))"

definition is_password_change_supported :: "LDAPAuthenticator \<Rightarrow> bool" where
  "is_password_change_supported A \<longleftrightarrow> l_mode_of A \<in> {lit ''starttls'', lit ''ldaps''}"

definition find_user_dn :: "ldap3 \<Rightarrow> LDAPAuthenticator \<Rightarrow> ustr \<Rightarrow> ustr option ldap_op" where
  "find_user_dn X A username =
    rbind (bind X A (build_server A) (bind_dn A) (bind_secret A)) (\<lambda>_.
    and_unbind (rbind (search X A (users_dn A) (build_user_search_filter X A (upn_of A username)) 1) (\<lambda>es.
      rreturn (case es of [] \<Rightarrow> None | e # _ \<Rightarrow> Some (e_dn e)))))"

definition change_password :: "ldap3 \<Rightarrow> LDAPAuthenticator \<Rightarrow> ustr \<Rightarrow> ustr \<Rightarrow> ustr \<Rightarrow> unit ldap_op" where
  "change_password X A username current_password new_password =
    (if \<not> is_password_change_supported A then rraise ValueError
     else rbind (find_user_dn X A username) (\<lambda>user_dn.
       case user_dn of
         None \<Rightarrow> rraise ValueError
       | Some dn \<Rightarrow>
           if dn = [] then rraise ValueError
           else rbind (bind X A (build_server A) dn current_password) (\<lambda>_.
           and_unbind (
             rbind (rlift (utf16le_encode (lit [CHR 0x22] @ current_password @ lit [CHR 0x22]))) (\<lambda>old.
             rbind (rlift (utf16le_encode (lit [CHR 0x22] @ new_password @ lit [CHR 0x22]))) (\<lambda>new.
             rbind (call (EModify dn old new) (l3_modify X dn dn old new)) (\<lambda>ok.
             if \<not> ok then rraise ValueError else rreturn ())))))))"

section \<open>Passwords travel after the upgrade\<close>

text \<open>
  What an operation adds to the trace, with every bind directly after a successful upgrade. The
  condition composes, so that it holds for an operation when it holds for its parts.
\<close>

definition binds_upgraded :: "ldap_event list \<Rightarrow> bool" where
  "binds_upgraded n \<longleftrightarrow> (\<forall>x u p y. n = x @ EBind u p # y \<longrightarrow> x \<noteq> [] \<and> last x = ETls)"

definition adds_upgraded :: "'a ldap_op \<Rightarrow> bool" where
  "adds_upgraded m \<longleftrightarrow> (\<forall>t r t'. m t = (r, t') \<longrightarrow> (\<exists>n. t' = t @ n \<and> binds_upgraded n))"

lemma binds_upgraded_append: "binds_upgraded a \<Longrightarrow> binds_upgraded b \<Longrightarrow> binds_upgraded (a @ b)"
  unfolding binds_upgraded_def append_eq_append_conv2
  by (fastforce simp: append_eq_Cons_conv)

lemma binds_upgraded_other: "(\<And>u p. e \<noteq> EBind u p) \<Longrightarrow> binds_upgraded [e]"
  by (auto simp: binds_upgraded_def Cons_eq_append_conv)

lemma upgraded_pure [intro]:
  "adds_upgraded (rreturn a)" "adds_upgraded (rraise e)" "adds_upgraded (rlift r)"
  by (auto simp: adds_upgraded_def binds_upgraded_def rreturn_def rraise_def rlift_def split: sum.splits)

lemma upgraded_call [intro]: "(\<And>u p. e \<noteq> EBind u p) \<Longrightarrow> adds_upgraded (call e r)"
  by (auto simp: adds_upgraded_def call_def binds_upgraded_other)

lemma upgraded_rbind [intro]:
  assumes "adds_upgraded m" and "\<And>a. adds_upgraded (f a)"
  shows "adds_upgraded (rbind m f)"
  unfolding adds_upgraded_def
proof (intro allI impI)
  fix t r t'
  assume run: "rbind m f t = (r, t')"
  obtain q t1 where m: "m t = (q, t1)" by force
  then obtain n where n: "t1 = t @ n" "binds_upgraded n" using assms(1) unfolding adds_upgraded_def by blast
  show "\<exists>n. t' = t @ n \<and> binds_upgraded n"
  proof (cases q)
    case (Inl e)
    then show ?thesis using run m n by (auto simp: rbind_def)
  next
    case (Inr a)
    then have "f a t1 = (r, t')" using run m by (simp add: rbind_def)
    then obtain n2 where "t' = t1 @ n2" "binds_upgraded n2" using assms(2) [of a] unfolding adds_upgraded_def by blast
    then show ?thesis using n binds_upgraded_append by auto
  qed
qed

lemma upgraded_unbind [intro]: "adds_upgraded m \<Longrightarrow> adds_upgraded (and_unbind m)"
  unfolding adds_upgraded_def and_unbind_def
  by (fastforce intro: binds_upgraded_append binds_upgraded_other split: prod.splits)

text \<open>\<open>bind\<close> itself: the event of the bind follows the one of the upgrade.\<close>

lemma upgraded_bind [intro]:
  assumes "l_mode_of A = lit ''starttls''"
  shows "adds_upgraded (bind X A server user password)"
proof -
  have step: "binds_upgraded [ETls, EBind user password]"
    by (auto simp: binds_upgraded_def Cons_eq_append_conv)
  have "adds_upgraded (rbind (rbind (call ETls (l3_start_tls X server)) (\<lambda>ok.
        if \<not> ok then rbind (call EUnbind (Inr ())) (\<lambda>_. rraise ValueError) else rreturn ())) (\<lambda>_.
      rbind (call (EBind user password) (l3_bind X server user password)) (\<lambda>ok.
      if \<not> ok then rbind (call EUnbind (Inr ())) (\<lambda>_. rraise ValueError) else rreturn ())))"
    unfolding adds_upgraded_def
    by (auto simp: rbind_def call_def rraise_def rreturn_def step binds_upgraded_other
        binds_upgraded_append [of "[ETls]" "[EUnbind]", simplified]
        binds_upgraded_append [OF step, of "[EUnbind]", simplified] split: sum.split)
  then show ?thesis using assms unfolding bind_def by (auto intro!: upgraded_rbind upgraded_call upgraded_pure)
qed

lemma upgraded_resolve: "adds_upgraded (resolve_chunks X A dns m)"
proof (induction X A dns m rule: resolve_chunks.induct)
  case (1 X A dns m)
  then show ?case
    by (subst resolve_chunks.simps) (auto simp: Let_def search_def intro!: upgraded_rbind upgraded_call upgraded_pure)
qed

lemma upgraded_groups [intro]: "adds_upgraded (resolve_group_guids' X A dns)"
  by (auto simp: resolve_group_guids'_def intro!: upgraded_resolve upgraded_rbind)

lemma upgraded_operations:
  assumes "l_mode_of A = lit ''starttls''"
  shows "adds_upgraded (authenticate X A username password)"
    and "adds_upgraded (change_password X A username old new)"
proof -
  note b = upgraded_bind [OF assms]
  show "adds_upgraded (authenticate X A username password)"
    unfolding authenticate_def Let_def search_def
    by (auto intro!: upgraded_rbind upgraded_call upgraded_pure upgraded_unbind upgraded_groups b split: list.split)
  show "adds_upgraded (change_password X A username old new)"
    unfolding change_password_def find_user_dn_def search_def
    by (auto intro!: upgraded_rbind upgraded_call upgraded_pure upgraded_unbind b split: list.split option.split)
qed

section \<open>Who is authenticated\<close>

lemma bind_okD: "bind X A server user password t = (Inr u, t') \<Longrightarrow>
    l3_open X server = Inr True \<and> l3_bind X server user password = Inr True
    \<and> (l_mode_of A = lit ''starttls'' \<longrightarrow> l3_start_tls X server = Inr True)"
  by (auto simp: bind_def rbind_def call_def rraise_def rreturn_def split: sum.splits if_splits)

lemma bind_no_Inl: "\<exists>r t'. bind X A server user password t = (r, t')"
  by force

lemma authenticate_okD:
  assumes "authenticate X A username password t = (Inr info, t')"
  shows "\<exists>e es. username \<noteq> [] \<and> password \<noteq> []
    \<and> l3_bind X (build_server A) (bind_dn A) (bind_secret A) = Inr True
    \<and> l3_search X (bind_dn A) (users_dn A) (build_user_search_filter X A (upn_of A username)) 1 = Inr (e # es)
    \<and> l3_bind X (build_server A) (e_dn e) password = Inr True
    \<and> (l_mode_of A = lit ''starttls'' \<longrightarrow> l3_start_tls X (build_server A) = Inr True)
    \<and> li_user_dn info = e_dn e \<and> li_groups info = e_member_of e
    \<and> li_username info \<in> insert username (set_option (e_sam e)) \<and> li_username info \<noteq> [] \<and> last t' = EUnbind"
proof -
  have ne: "username \<noteq> []" "password \<noteq> []" using assms by (auto simp: authenticate_def rraise_def split: if_splits)
  obtain u t1 where b: "bind X A (build_server A) (bind_dn A) (bind_secret A) t = (Inr u, t1)"
    using assms ne by (cases "bind X A (build_server A) (bind_dn A) (bind_secret A) t"; cases "fst (bind X A (build_server A) (bind_dn A) (bind_secret A) t)")
      (auto simp: authenticate_def Let_def rbind_def)
  let ?s = "l3_search X (bind_dn A) (users_dn A) (build_user_search_filter X A (upn_of A username)) 1"
  obtain e es where s: "?s = Inr (e # es)"
    using assms ne b by (auto simp: authenticate_def Let_def rbind_def and_unbind_def search_def call_def rraise_def split: sum.splits list.splits)
  let ?t2 = "t1 @ [ESearch (users_dn A) (build_user_search_filter X A (upn_of A username)) 1]"
  obtain v t3 where b2: "bind X A (build_server A) (e_dn e) password ?t2 = (Inr v, t3)"
    using assms ne b s by (cases "bind X A (build_server A) (e_dn e) password ?t2"; cases "fst (bind X A (build_server A) (e_dn e) password ?t2)")
      (auto simp: authenticate_def Let_def rbind_def and_unbind_def search_def call_def)
  obtain g t4 where g: "resolve_group_guids' X A (e_member_of e) (t3 @ [EUnbind]) = (Inr g, t4)"
    using assms ne b s b2
    by (cases "resolve_group_guids' X A (e_member_of e) (t3 @ [EUnbind])"; cases "fst (resolve_group_guids' X A (e_member_of e) (t3 @ [EUnbind]))")
      (auto simp: authenticate_def Let_def rbind_def and_unbind_def search_def call_def)
  have "info = \<lparr>li_username = (case e_sam e of Some s \<Rightarrow> if s \<noteq> [] then s else username | None \<Rightarrow> username),
      li_user_dn = e_dn e, li_groups = e_member_of e, li_group_guids = g\<rparr>" "t' = t4 @ [EUnbind]"
    using assms ne b s b2 g by (auto simp: authenticate_def Let_def rbind_def and_unbind_def search_def call_def rreturn_def)
  then show ?thesis using ne s bind_okD [OF b] bind_okD [OF b2] by (auto split: option.splits)
qed


definition ref_ldap3 :: ldap3 where
  "ref_ldap3 = \<lparr>l3_open = (\<lambda>_. Inr True), l3_start_tls = (\<lambda>_. Inr True), l3_bind = (\<lambda>_ u p. Inr (p = u)),
     l3_search = (\<lambda>_ base flt n. Inr [\<lparr>e_dn = lit ''cn=u'', e_distinguished = Some (lit ''cn=u''), e_guid = NoGuid, e_member_of = [],
       e_sam = Some (lit ''u''), e_cn = None, e_description = None\<rparr>]),
     l3_modify = (\<lambda>_ _ _ _. Inr True), l3_escape = id, l3_lower = id\<rparr>"

definition ref_authenticator :: LDAPAuthenticator where
  "ref_authenticator = \<lparr>server_host = lit ''dc'', l_mode_of = lit ''starttls'', server_port = 389, bind_dn = lit ''svc'',
     bind_secret = lit ''svc'', users_dn = lit ''dc=x'', domain = lit ''x'', user_filter = [], tls_verify = True, base_dn = lit ''dc=x''\<rparr>"


section \<open>Groups of a user\<close>

text \<open>What one search is documented to answer: the entries with the names of the chunk that exist.\<close>

definition answers_chunk :: "ldap3 \<Rightarrow> LDAPAuthenticator \<Rightarrow> (ustr \<rightharpoonup> nat) \<Rightarrow> ustr list \<Rightarrow> bool" where
  "answers_chunk X A dir c \<longleftrightarrow> (\<exists>es. l3_search X (bind_dn A) (base_dn A) (chunk_filter X c) (int (length c)) = Inr es
     \<and> (\<forall>e \<in> set es. \<exists>d g. e_distinguished e = Some d \<and> d \<in> set c \<and> dir d = Some g \<and> guid_from_ldap_raw (e_guid e) = Inr (Some (uuid_str g)))
     \<and> (\<forall>d \<in> set c. dir d \<noteq> None \<longrightarrow> (\<exists>e \<in> set es. e_distinguished e = Some d)))"

lemma uuid_str_not_Nil [simp]: "uuid_str n \<noteq> []"
  using length_uuid_str [of n] by auto

lemma add_guids_entries:
  assumes "\<forall>e \<in> set es. \<exists>d g. e_distinguished e = Some d \<and> d \<noteq> [] \<and> dir d = Some g \<and> guid_from_ldap_raw (e_guid e) = Inr (Some (uuid_str g))"
  shows "\<exists>m'. add_guids es m = Inr m'
    \<and> (\<forall>d. m' d = (if \<exists>e \<in> set es. e_distinguished e = Some d then map_option uuid_str (dir d) else m d))"
  using assms
proof (induction es arbitrary: m)
  case (Cons e es)
  then obtain d g where e: "e_distinguished e = Some d" "d \<noteq> []" "dir d = Some g" "guid_from_ldap_raw (e_guid e) = Inr (Some (uuid_str g))"
    by auto
  from Cons obtain m' where "add_guids es (m(d \<mapsto> uuid_str g)) = Inr m'"
    "\<forall>d'. m' d' = (if \<exists>e \<in> set es. e_distinguished e = Some d' then map_option uuid_str (dir d') else (m(d \<mapsto> uuid_str g)) d')" by fastforce
  with e show ?case by auto
qed auto

lemma resolve_chunks_exact:
  assumes "[] \<notin> set dns" and "\<forall>c. c \<noteq> [] \<and> length c \<le> 30 \<and> set c \<subseteq> set dns \<longrightarrow> answers_chunk X A dir c"
  shows "\<exists>m' n. resolve_chunks X A dns m t = (Inr m', t @ n) \<and> length n = (length dns + 29) div 30
    \<and> (\<forall>d. m' d = (if d \<in> set dns \<and> dir d \<noteq> None then map_option uuid_str (dir d) else m d))"
  using assms
proof (induction X A dns m arbitrary: t rule: resolve_chunks.induct)
  case (1 X A dns m)
  show ?case
  proof (cases "dns = []")
    case True
    then show ?thesis by (subst resolve_chunks.simps) (auto simp: rreturn_def)
  next
    case False
    let ?c = "take 30 dns"
    have "answers_chunk X A dir ?c" using False by (intro 1(3) [rule_format]) (auto dest: in_set_takeD)
    then obtain es where s: "l3_search X (bind_dn A) (base_dn A) (chunk_filter X ?c) (int (length ?c)) = Inr es"
      and es: "\<forall>e \<in> set es. \<exists>d g. e_distinguished e = Some d \<and> d \<in> set ?c \<and> dir d = Some g \<and> guid_from_ldap_raw (e_guid e) = Inr (Some (uuid_str g))"
      and all: "\<forall>d \<in> set ?c. dir d \<noteq> None \<longrightarrow> (\<exists>e \<in> set es. e_distinguished e = Some d)"
      unfolding answers_chunk_def by blast
    have "\<forall>e \<in> set es. \<exists>d g. e_distinguished e = Some d \<and> d \<noteq> [] \<and> dir d = Some g \<and> guid_from_ldap_raw (e_guid e) = Inr (Some (uuid_str g))"
      using es 1(2) by (metis in_set_takeD)
    from add_guids_entries [OF this, of m] obtain m1 where m1: "add_guids es m = Inr m1"
      "\<forall>d. m1 d = (if \<exists>e \<in> set es. e_distinguished e = Some d then map_option uuid_str (dir d) else m d)" by blast
    let ?t = "t @ [ESearch (base_dn A) (chunk_filter X ?c) (int (length ?c))]"
    have "[] \<notin> set (drop 30 dns)" "\<forall>c. c \<noteq> [] \<and> length c \<le> 30 \<and> set c \<subseteq> set (drop 30 dns) \<longrightarrow> answers_chunk X A dir c"
      using 1(2,3) by (auto dest: in_set_dropD)
    from 1(1) [OF False refl this, of m1 ?t] obtain m' n where r: "resolve_chunks X A (drop 30 dns) m1 ?t = (Inr m', ?t @ n)"
      "length n = (length (drop 30 dns) + 29) div 30"
      "\<forall>d. m' d = (if d \<in> set (drop 30 dns) \<and> dir d \<noteq> None then map_option uuid_str (dir d) else m1 d)" by blast
    have "resolve_chunks X A dns m t = (Inr m', ?t @ n)"
      using False s m1(1) r(1) by (subst resolve_chunks.simps) (simp add: Let_def search_def call_def rbind_def rlift_def)
    moreover have "Suc (length n) = (length dns + 29) div 30" using r(2) False by (cases dns) (auto simp: div_if)
    moreover have "m' d = (if d \<in> set dns \<and> dir d \<noteq> None then map_option uuid_str (dir d) else m d)" for d
    proof -
      have "d \<in> set dns \<longleftrightarrow> d \<in> set ?c \<or> d \<in> set (drop 30 dns)" by (metis Un_iff append_take_drop_id set_append)
      moreover have "(\<exists>e \<in> set es. e_distinguished e = Some d) \<longleftrightarrow> d \<in> set ?c \<and> dir d \<noteq> None" using es all by force
      ultimately show ?thesis using r(3) m1(2) by auto
    qed
    ultimately show ?thesis by (intro exI [of _ m'] exI [of _ "[ESearch (base_dn A) (chunk_filter X ?c) (int (length ?c))] @ n"])
        (simp add: fun_eq_iff)
  qed
qed

text \<open>
  C32: looking up group names in portions of 30 always ends after one search for each portion, and with
  a directory that answers each of the searches correctly it is the look-up name by name: the identifiers of
  the names that exist, in the order of the names and as often as they stand there.
\<close>

theorem group_lookup_complete:
  assumes "dns \<noteq> []" and "[] \<notin> set dns"
    and "\<forall>c. c \<noteq> [] \<and> length c \<le> 30 \<and> set c \<subseteq> set dns \<longrightarrow> answers_chunk X A dir c"
  shows "\<exists>n. resolve_group_guids' X A dns t = (Inr (List.map_filter (\<lambda>d. map_option uuid_str (dir d)) dns), t @ n)
    \<and> length n = (length dns + 29) div 30"
proof -
  from resolve_chunks_exact [OF assms(2,3), of Map.empty t] obtain m' n where
    "resolve_chunks X A dns Map.empty t = (Inr m', t @ n)" "length n = (length dns + 29) div 30"
    "\<forall>d. m' d = (if d \<in> set dns \<and> dir d \<noteq> None then map_option uuid_str (dir d) else None)" by blast
  moreover from this(3) have "List.map_filter m' dns = List.map_filter (\<lambda>d. map_option uuid_str (dir d)) dns"
    by (auto simp: List.map_filter_def intro!: map_cong filter_cong)
  ultimately show ?thesis using assms(1) by (simp add: resolve_group_guids'_def rbind_def rreturn_def)
qed

theorem group_lookup_complete_witness:
  "let e = \<lparr>e_dn = [], e_distinguished = Some (lit ''cn=g''), e_guid = RawBytes (replicate 16 0), e_member_of = [],
         e_sam = None, e_cn = None, e_description = None\<rparr>;
       X = ref_ldap3\<lparr>l3_search := (\<lambda>_ _ _ _. Inr [e])\<rparr> in
    fst (resolve_group_guids' X ref_authenticator [lit ''cn=g''] []) = Inr [uuid_str 0]"
proof -
  let ?e = "\<lparr>e_dn = [], e_distinguished = Some (lit ''cn=g''), e_guid = RawBytes (replicate 16 0), e_member_of = [],
         e_sam = None, e_cn = None, e_description = None\<rparr>"
  let ?X = "ref_ldap3\<lparr>l3_search := (\<lambda>_ _ _ _. Inr [?e])\<rparr>" and ?dir = "[lit ''cn=g'' \<mapsto> 0 :: nat]"
  have g: "guid_from_ldap_raw (e_guid ?e) = Inr (Some (uuid_str 0))"
    by (simp add: guid_from_ldap_raw_def uuid_of_bytes_le_def be_nat_def numeral_eq_Suc)
  have "answers_chunk ?X ref_authenticator ?dir c" if "c \<noteq> []" "set c \<subseteq> {lit ''cn=g''}" for c
    using that g by (cases c) (auto simp: answers_chunk_def)
  then have "\<forall>c. c \<noteq> [] \<and> length c \<le> 30 \<and> set c \<subseteq> set [lit ''cn=g''] \<longrightarrow> answers_chunk ?X ref_authenticator ?dir c"
    by simp
  from group_lookup_complete [OF _ _ this, of "[]"] show ?thesis by (auto simp: Let_def List.map_filter_def lit_eval)
qed

end
