(* ===== verification/Settings_Manager.thy ===== *)
theory Settings_Manager
  imports Config Encryption
begin

text \<open>
  The settings manager (\<^verbatim>\<open>src/libs/config/settings_manager.py\<close>): the table \<^verbatim>\<open>portal_settings\<close>, the
  cache over it, the fallback to the configuration, seeding, saving, the typed accessors and the
  notification of hooks. The state holds the rows, the cache, the time it was loaded, and what was
  sent to hooks and to Redis; a callback of a hook and its exception are the hook's own. The clock,
  the nonces, the cipher, the failures of single database transactions and the conversions of the
  configuration classes are the environment.
\<close>

section \<open>Dictionaries\<close>

text \<open>\<^verbatim>\<open>{**a, **b}\<close> and \<^verbatim>\<open>d.pop(k, None)\<close>.\<close>

definition merge :: "jobj \<Rightarrow> jobj \<Rightarrow> jobj" where
  "merge a b = foldl (\<lambda>m (k, v). set_field k v m) a b"

definition pop_field :: "ustr \<Rightarrow> jobj \<Rightarrow> jobj" where
  "pop_field k d = filter (\<lambda>(f, _). f \<noteq> k) d"

definition has_field :: "ustr \<Rightarrow> jobj \<Rightarrow> bool" where
  "has_field k d \<longleftrightarrow> map_of d k \<noteq> None"

lemma map_of_merge: "distinct (map fst b) \<Longrightarrow> map_of (merge a b) = map_of a ++ map_of b"
proof (induction b arbitrary: a)
  case (Cons x b)
  obtain k v where x: "x = (k, v)" by force
  have "k \<notin> dom (map_of b)" using Cons.prems x by (simp add: dom_map_of_conv_image_fst)
  then show ?case using Cons x
    by (auto simp: merge_def fun_eq_iff map_add_def split: option.split)
qed (simp add: merge_def)

lemma map_of_pop [simp]: "map_of (pop_field k d) = (map_of d)(k := None)"
  by (induction d) (auto simp: pop_field_def fun_eq_iff)

section \<open>State\<close>

record settings =
  s_rows :: jobj
  s_cache :: "ustr \<Rightarrow> jobj option"
  s_loaded_at :: rat
  s_seeded :: bool
  hook_calls :: "(ustr \<times> jobj) list"
  published :: "ustr list"

record senv =
  base :: AppConfig
  s_aead :: aead
  s_key :: bytes
  s_nonce :: "ustr \<Rightarrow> bytes"
  s_now :: rat
  s_scalars :: scalars
  load_fails :: "exn option"
  tx_fails :: "ustr \<Rightarrow> exn option"
  publish_fails :: bool

definition k_ldap :: ustr where "k_ldap = lit ''ldap''"
definition k_dns :: ustr where "k_dns = lit ''dns''"
definition k_proxy :: ustr where "k_proxy = lit ''proxy''"
definition k_security :: ustr where "k_security = lit ''security''"
definition k_redis_ttl :: ustr where "k_redis_ttl = lit ''redis_ttl''"
definition k_portal :: ustr where "k_portal = lit ''portal''"
definition k_relay :: ustr where "k_relay = lit ''relay''"

lemmas key_names = k_ldap_def k_dns_def k_proxy_def k_security_def k_redis_ttl_def k_portal_def k_relay_def

definition MANAGED_KEYS :: "ustr list" where
  "MANAGED_KEYS = [k_ldap, k_dns, k_proxy, k_security, k_redis_ttl, k_portal, k_relay]"

definition SECRET_AAD :: bytes where
  "SECRET_AAD = blit ''portal_settings:ldap:bind_password''"

definition bind_password :: ustr where "bind_password = lit ''bind_password''"
definition bind_password_enc :: ustr where "bind_password_enc = lit ''bind_password_enc''"
definition f_public_port :: ustr where "f_public_port = lit ''public_port''"
definition f_listen_port :: ustr where "f_listen_port = lit ''listen_port''"

lemmas field_names = bind_password_def bind_password_enc_def f_public_port_def f_listen_port_def

section \<open>The secret\<close>

text \<open>A password that is not a text has no \<^verbatim>\<open>encode\<close>.\<close>

definition encrypt_password :: "senv \<Rightarrow> json \<Rightarrow> ustr result" where
  "encrypt_password E plaintext = (case plaintext of
     JStr p \<Rightarrow> encrypt (s_aead E) (s_key E) (s_nonce E p) p SECRET_AAD | _ \<Rightarrow> Inl OtherException)"

definition decrypt_password :: "senv \<Rightarrow> json \<Rightarrow> ustr result" where
  "decrypt_password E blob = (case blob of
     JStr b \<Rightarrow> decrypt (s_aead E) (s_key E) b SECRET_AAD | _ \<Rightarrow> Inl OtherException)"

definition hide_secret :: "senv \<Rightarrow> ustr \<Rightarrow> jobj \<Rightarrow> jobj result" where
  "hide_secret E key v =
    (if key = k_ldap then (case map_of v bind_password of
        None \<Rightarrow> Inr v
      | Some pwd \<Rightarrow>
          (let v' = pop_field bind_password v in
           if json_truthy pwd
           then bind_result (encrypt_password E pwd) (\<lambda>e. Inr (set_field bind_password_enc (JStr e) v'))
           else Inr v'))
     else Inr v)"

definition show_secret :: "senv \<Rightarrow> jobj \<Rightarrow> jobj result" where
  "show_secret E raw = (case map_of raw bind_password_enc of
      None \<Rightarrow> Inr raw
    | Some blob \<Rightarrow> bind_result (decrypt_password E blob) (\<lambda>p.
        Inr (set_field bind_password (JStr p) (pop_field bind_password_enc raw))))"

section \<open>The fallback\<close>

definition dump_ldap :: "LdapConfig \<Rightarrow> jobj" where
  "dump_ldap l = [(lit ''server'', JStr (l_server l)), (lit ''mode'', JStr (l_mode l)), (lit ''port'', JInt (l_port l)),
     (lit ''tls_verify'', JBool (l_tls_verify l)), (lit ''bind_dn'', JStr (l_bind_dn l)),
     (bind_password, JStr (l_bind_password l)), (lit ''users_dn'', JStr (l_users_dn l)),
     (lit ''domain'', JStr (l_domain l)), (lit ''user_filter'', JStr (l_user_filter l))]"

definition dump_dns :: "DnsConfig \<Rightarrow> jobj" where
  "dump_dns d = [(lit ''servers'', JArr (map JStr (d_servers d))), (lit ''timeout'', JFloat (d_timeout d)),
     (lit ''cache_ttl'', JInt (d_cache_ttl d))]"

definition dump_security :: "SecurityConfig \<Rightarrow> jobj" where
  "dump_security s = [(lit ''token_fingerprint_enforce'', JBool (token_fingerprint_enforce s)),
     (lit ''login_attempts_per_minute'', JInt (login_attempts_per_minute s)),
     (lit ''login_lock_seconds'', JInt (login_lock_seconds s)),
     (lit ''admin_groups'', JArr (map JStr (admin_groups s))),
     (lit ''delete_token_on_disconnect'', JBool (delete_token_on_disconnect s))]"

definition dump_proxy :: "ProxyConfig \<Rightarrow> jobj" where
  "dump_proxy p = [(lit ''public_host'', JStr (public_host p)), (f_public_port, JInt (public_port p))]"

definition dump_ttl :: "RedisConfig \<Rightarrow> jobj" where
  "dump_ttl r = [(lit ''web_session_ttl'', JInt (web_session_ttl r)), (lit ''web_idle_ttl'', JInt (cfg_web_idle_ttl r)),
     (lit ''rdp_token_ttl'', JInt (cfg_token_ttl r))]"

definition dump_relay :: "RdpRelayConfig \<Rightarrow> jobj" where
  "dump_relay r = [(lit ''max_connections'', JInt (max_connections r)), (lit ''idle_timeout'', JInt (idle_timeout r)),
     (lit ''max_session_duration'', JInt (max_session_duration r))]"

definition get_fallback :: "senv \<Rightarrow> ustr \<Rightarrow> jobj option" where
  "get_fallback E key =
    (if key = k_ldap \<and> ldap_cfg (base E) \<noteq> None then Some (dump_ldap (the (ldap_cfg (base E))))
     else if key = k_dns then Some (dump_dns (dns_cfg (base E)))
     else if key = k_proxy then Some (dump_proxy (proxy_cfg (base E)))
     else if key = k_security then Some (dump_security (security (base E)))
     else if key = k_redis_ttl then Some (dump_ttl (redis_cfg (base E)))
     else if key = k_relay then Some (dump_relay (relay_cfg (base E)))
     else if key = k_portal then Some [(lit ''name'', JStr (lit ''RDP-Proxy''))]
     else None)"

section \<open>Loading and seeding\<close>

text \<open>The cache that the rows stand for: the rows that are mappings, the proxy row without a legacy
  \<^verbatim>\<open>listen_port\<close> beside a \<^verbatim>\<open>public_port\<close>.\<close>

definition fresh_cache :: "jobj \<Rightarrow> ustr \<Rightarrow> jobj option" where
  "fresh_cache rows key = (case map_of rows key of
      Some (JObj d) \<Rightarrow> Some (if key = k_proxy \<and> has_field f_public_port d \<and> has_field f_listen_port d
                              then pop_field f_listen_port d else d)
    | _ \<Rightarrow> None)"

definition put_row :: "ustr \<Rightarrow> jobj \<Rightarrow> settings \<Rightarrow> settings" where
  "put_row key d s = s\<lparr>s_rows := set_field key (JObj d) (s_rows s)\<rparr>"

definition put_cache :: "ustr \<Rightarrow> jobj \<Rightarrow> settings \<Rightarrow> settings" where
  "put_cache key d s = s\<lparr>s_cache := (s_cache s)(key \<mapsto> d)\<rparr>"

definition missing_fields :: "ustr \<Rightarrow> jobj \<Rightarrow> jobj \<Rightarrow> jobj" where
  "missing_fields key fallback cached =
    (let patch_source = (if key = k_ldap then pop_field bind_password fallback else fallback) in
     filter (\<lambda>(k, _). \<not> has_field k cached) patch_source)"

definition seed_key :: "senv \<Rightarrow> ustr \<Rightarrow> (settings, unit) eff" where
  "seed_key E key s = (case get_fallback E key of
      None \<Rightarrow> (Inr (), s)
    | Some fallback \<Rightarrow>
      if fallback = [] then (Inr (), s)
      else (case s_cache s key of
        None \<Rightarrow> (case hide_secret E key fallback of
            Inl e \<Rightarrow> (Inl e, s)
          | Inr store_value \<Rightarrow>
              if tx_fails E key \<noteq> None then (Inr (), s)
              else if map_of (s_rows s) key = None
              then (Inr (), put_cache key store_value (put_row key store_value s))
              else (Inr (), s))
      | Some cached \<Rightarrow>
          (let missing = missing_fields key fallback cached in
           if missing = [] \<or> tx_fails E key \<noteq> None then (Inr (), s)
           else (case map_of (s_rows s) key of
               Some (JObj d) \<Rightarrow> (let patched = merge d missing in (Inr (), put_cache key patched (put_row key patched s)))
             | _ \<Rightarrow> (Inr (), s)))))"

fun seed_keys :: "senv \<Rightarrow> ustr list \<Rightarrow> (settings, unit) eff" where
  "seed_keys E [] = rreturn ()"
| "seed_keys E (key # ks) = rbind (seed_key E key) (\<lambda>_. seed_keys E ks)"

definition seed_from_yaml :: "senv \<Rightarrow> (settings, unit) eff" where
  "seed_from_yaml E = seed_keys E MANAGED_KEYS"

definition load :: "senv \<Rightarrow> (settings, unit) eff" where
  "load E s = (case load_fails E of
      Some e \<Rightarrow> (Inl e, s)
    | None \<Rightarrow> (let s1 = s\<lparr>s_cache := fresh_cache (s_rows s), s_loaded_at := s_now E\<rparr> in
        if s_seeded s1 then (Inr (), s1)
        else rbind (seed_from_yaml E) (\<lambda>_ s. (Inr (), s\<lparr>s_seeded := True\<rparr>)) s1))"

section \<open>Reading and saving\<close>

definition get :: "senv \<Rightarrow> ustr \<Rightarrow> (settings, jobj) eff" where
  "get E key s =
    rbind (if 30 < s_now E - s_loaded_at s then load E else rreturn ()) (\<lambda>_ s.
    case s_cache s key of
      Some raw \<Rightarrow> (if key = k_ldap then show_secret E raw else Inr raw, s)
    | None \<Rightarrow> (Inr (case get_fallback E key of Some d \<Rightarrow> d | None \<Rightarrow> []), s)) s"

definition drop_legacy_port :: "ustr \<Rightarrow> jobj \<Rightarrow> jobj \<Rightarrow> jobj" where
  "drop_legacy_port key saved d =
    (if key = k_proxy \<and> has_field f_public_port saved then pop_field f_listen_port d else d)"

definition save_row :: "ustr \<Rightarrow> jobj \<Rightarrow> settings \<Rightarrow> settings" where
  "save_row key v s = (case map_of (s_rows s) key of
      None \<Rightarrow> put_row key (drop_legacy_port key v v) s
    | Some (JObj d) \<Rightarrow> put_row key (drop_legacy_port key v (merge d v)) s
    | Some _ \<Rightarrow> put_row key v s)"

definition save_cache :: "ustr \<Rightarrow> jobj \<Rightarrow> settings \<Rightarrow> settings" where
  "save_cache key v s = put_cache key (case s_cache s key of
      Some c \<Rightarrow> drop_legacy_port key v (merge c v)
    | None \<Rightarrow> drop_legacy_port key v v) s"

text \<open>The hooks of a key get what \<^verbatim>\<open>get\<close> returns; \<open>hooked\<close> is the number of callbacks registered.\<close>

definition run_hooks :: "senv \<Rightarrow> (ustr \<Rightarrow> nat) \<Rightarrow> ustr \<Rightarrow> (settings, unit) eff" where
  "run_hooks E hooked key =
    rbind (get E key) (\<lambda>data s. (Inr (), s\<lparr>hook_calls := hook_calls s @ replicate (hooked key) (key, data)\<rparr>))"

definition save :: "senv \<Rightarrow> (ustr \<Rightarrow> nat) \<Rightarrow> ustr \<Rightarrow> jobj \<Rightarrow> bool \<Rightarrow> (settings, unit) eff" where
  "save E hooked key v publish_redis s = (case hide_secret E key v of
      Inl e \<Rightarrow> (Inl e, s)
    | Inr store_value \<Rightarrow> (case tx_fails E key of
        Some e \<Rightarrow> (Inl e, s)
      | None \<Rightarrow>
          rbind (run_hooks E hooked key) (\<lambda>_ s.
            (Inr (), if publish_redis \<and> \<not> publish_fails E then s\<lparr>published := published s @ [key]\<rparr> else s))
          ((save_cache key store_value (save_row key store_value s))\<lparr>s_loaded_at := s_now E\<rparr>)))"

section \<open>Typed accessors\<close>

text \<open>\<^verbatim>\<open>resolved.setdefault\<close> on an existing empty password changes nothing.\<close>

definition ldap :: "senv \<Rightarrow> settings \<Rightarrow> LdapConfig option" where
  "ldap E s = (case s_cache s k_ldap of
      None \<Rightarrow> ldap_cfg (base E)
    | Some raw \<Rightarrow>
        (case bind_result (show_secret E raw) (\<lambda>r.
           LdapConfig_of (s_scalars E) (if has_field bind_password r then r
             else (case ldap_cfg (base E) of None \<Rightarrow> r | Some b \<Rightarrow> r @ [(bind_password, JStr (l_bind_password b))]))) of
           Inr l \<Rightarrow> Some l
         | Inl e \<Rightarrow> ldap_cfg (base E)))"

definition dns :: "senv \<Rightarrow> settings \<Rightarrow> DnsConfig" where
  "dns E s = (case s_cache s k_dns of
      None \<Rightarrow> dns_cfg (base E)
    | Some raw \<Rightarrow> (case DnsConfig_of (s_scalars E) raw of Inr d \<Rightarrow> d | Inl e \<Rightarrow> dns_cfg (base E)))"

definition field_or :: "jobj \<Rightarrow> ustr \<Rightarrow> json \<Rightarrow> json" where
  "field_or d k v = (case map_of d k of Some x \<Rightarrow> x | None \<Rightarrow> v)"

definition proxy_params :: "senv \<Rightarrow> settings \<Rightarrow> jobj" where
  "proxy_params E s = (case s_cache s k_proxy of
      None \<Rightarrow> dump_proxy (proxy_cfg (base E))
    | Some raw \<Rightarrow> [(lit ''public_host'', field_or raw (lit ''public_host'') (JStr (public_host (proxy_cfg (base E))))),
        (f_public_port, field_or raw f_public_port (field_or raw f_listen_port (JInt (public_port (proxy_cfg (base E))))))])"

definition security_params :: "senv \<Rightarrow> settings \<Rightarrow> jobj" where
  "security_params E s = (let defaults = dump_security (security (base E)) in
    case s_cache s k_security of
      None \<Rightarrow> defaults
    | Some raw \<Rightarrow> merge defaults (pop_field (lit ''encryption_key'') raw))"

text \<open>\<^verbatim>\<open>isinstance(v, (int, float))\<close> holds for booleans too; \<^verbatim>\<open>int\<close> truncates.\<close>

fun numeric :: "json \<Rightarrow> int option" where
  "numeric (JInt i) = Some i"
| "numeric (JBool b) = Some (if b then 1 else 0)"
| "numeric (JFloat r) = Some (if 0 \<le> r then floor r else ceiling r)"
| "numeric _ = None"

definition numbers :: "jobj \<Rightarrow> jobj option \<Rightarrow> jobj" where
  "numbers defaults raw = (case raw of
      None \<Rightarrow> defaults
    | Some r \<Rightarrow> map (\<lambda>(k, d). (k, case map_of r k of
        None \<Rightarrow> d | Some v \<Rightarrow> (case numeric v of Some i \<Rightarrow> JInt i | None \<Rightarrow> d))) defaults)"

definition redis_ttl :: "senv \<Rightarrow> settings \<Rightarrow> jobj" where
  "redis_ttl E s = numbers (dump_ttl (redis_cfg (base E))) (s_cache s k_redis_ttl)"

definition relay_params :: "senv \<Rightarrow> settings \<Rightarrow> jobj" where
  "relay_params E s = numbers (dump_relay (relay_cfg (base E))) (s_cache s k_relay)"

definition get_all_for_ui :: "senv \<Rightarrow> settings \<Rightarrow> jobj" where
  "get_all_for_ui E s =
    (case ldap E s of None \<Rightarrow> [] | Some l \<Rightarrow> [(k_ldap, JObj (pop_field bind_password (dump_ldap l)))])
    @ [(k_dns, JObj (dump_dns (dns E s))), (k_proxy, JObj (proxy_params E s)), (k_security, JObj (security_params E s)),
       (k_redis_ttl, JObj (redis_ttl E s)), (k_relay, JObj (relay_params E s)),
       (k_portal, JObj (case s_cache s k_portal of
          Some (x # xs) \<Rightarrow> x # xs | _ \<Rightarrow> [(lit ''name'', JStr (lit ''RDP-Proxy''))]))]"

section \<open>Dictionaries once more\<close>

lemma pop_field_absent: "\<not> has_field k d \<Longrightarrow> pop_field k d = d"
  by (induction d) (auto simp: pop_field_def has_field_def split: if_splits)

lemma pop_field_idem [simp]: "pop_field k (pop_field k d) = pop_field k d"
  by (simp add: pop_field_def)

lemma pop_set_field: "f \<noteq> k \<Longrightarrow> pop_field k (set_field f v d) = set_field f v (pop_field k d)"
  by (induction f v d rule: set_field.induct) (auto simp: pop_field_def)

lemma pop_merge: "\<not> has_field k b \<Longrightarrow> pop_field k (merge a b) = merge (pop_field k a) b"
proof (induction b arbitrary: a)
  case (Cons x b)
  then show ?case by (cases x) (auto simp: merge_def has_field_def pop_set_field split: if_splits)
qed (simp add: merge_def)

lemma has_set_field [simp]: "has_field k (set_field f v d) \<longleftrightarrow> k = f \<or> has_field k d"
  by (auto simp: has_field_def)

lemma has_pop_field [simp]: "has_field k (pop_field f d) \<longleftrightarrow> k \<noteq> f \<and> has_field k d"
  by (auto simp: has_field_def)

lemma has_merge [simp]: "has_field k (merge a b) \<longleftrightarrow> has_field k a \<or> has_field k b"
proof (induction b arbitrary: a)
  case (Cons x b)
  then show ?case by (cases x) (auto simp: merge_def has_field_def split: if_splits)
qed (simp add: merge_def has_field_def)

lemma distinct_pop: "distinct (map fst d) \<Longrightarrow> distinct (map fst (pop_field k d))"
  by (induction d) (auto simp: pop_field_def)

lemma distinct_set_field: "distinct (map fst d) \<Longrightarrow> distinct (map fst (set_field f v d))"
proof (induction f v d rule: set_field.induct)
  case (2 f v g w r)
  have "fst ` set (set_field f v r) = insert f (fst ` set r)" by (induction f v r rule: set_field.induct) auto
  with 2 show ?case by auto
qed simp

section \<open>Saving\<close>

definition coherent :: "settings \<Rightarrow> bool" where
  "coherent s \<longleftrightarrow> s_cache s = fresh_cache (s_rows s)"

text \<open>The abstract settings: a map of fields for each key.\<close>

definition view :: "settings \<Rightarrow> ustr \<Rightarrow> ustr \<Rightarrow> json option" where
  "view s key = (case s_cache s key of None \<Rightarrow> Map.empty | Some d \<Rightarrow> map_of d)"

definition saved_view :: "ustr \<Rightarrow> jobj \<Rightarrow> (ustr \<Rightarrow> json option) \<Rightarrow> ustr \<Rightarrow> json option" where
  "saved_view key v m = (if key = k_proxy \<and> has_field f_public_port v then (m ++ map_of v)(f_listen_port := None) else m ++ map_of v)"

lemma hide_secret_shape:
  assumes "hide_secret E key v = Inr sv" and "distinct (map fst v)"
  shows "distinct (map fst sv) \<and> (key = k_ldap \<longrightarrow> \<not> has_field bind_password sv) \<and> (key \<noteq> k_ldap \<longrightarrow> sv = v)"
  using assms
  by (auto simp: hide_secret_def Let_def bind_result_Inr has_field_def field_names lit_eval
      distinct_pop distinct_set_field split: option.splits if_splits)

lemma run_hooks_state:
  assumes "run_hooks E hooked key s = (r, s')" and "s_loaded_at s = s_now E"
  shows "s_rows s' = s_rows s \<and> s_cache s' = s_cache s \<and> s_seeded s' = s_seeded s \<and> published s' = published s"
  using assms by (auto simp: run_hooks_def get_def rd_simps split: prod.splits sum.splits option.splits)

lemma save_state:
  assumes "save E hooked key v p s = (r, s')" and "hide_secret E key v = Inr sv" and "tx_fails E key = None"
  shows "s_rows s' = s_rows (save_row key sv s) \<and> s_cache s' = s_cache (save_cache key sv s)"
proof -
  let ?s1 = "(save_cache key sv (save_row key sv s))\<lparr>s_loaded_at := s_now E\<rparr>"
  obtain r1 s2 where h: "run_hooks E hooked key ?s1 = (r1, s2)" by force
  have "s_rows ?s1 = s_rows (save_row key sv s)" "s_cache ?s1 = s_cache (save_cache key sv s)"
    by (auto simp: save_cache_def put_cache_def save_row_def put_row_def split: option.split json.split)
  moreover have "s_rows s' = s_rows s2 \<and> s_cache s' = s_cache s2"
    using assms h by (auto simp: save_def rbind_def split: sum.splits prod.splits if_splits)
  ultimately show ?thesis using run_hooks_state [OF h] by simp
qed

lemma save_cache_fresh:
  assumes "coherent s" and "key = k_proxy \<longrightarrow> \<not> has_field f_listen_port v"
  shows "s_cache (save_cache key v s) = fresh_cache (s_rows (save_row key v s))"
proof
  fix k
  show "s_cache (save_cache key v s) k = fresh_cache (s_rows (save_row key v s)) k"
  proof (cases "k = key")
    case False
    then show ?thesis using assms(1)
      by (auto simp: coherent_def save_cache_def put_cache_def save_row_def put_row_def fresh_cache_def split: option.split json.split)
  next
    case True
    show ?thesis
    proof (cases "map_of (s_rows s) key")
      case None
      then show ?thesis using assms True
        by (auto simp: coherent_def save_cache_def put_cache_def save_row_def put_row_def fresh_cache_def drop_legacy_port_def)
    next
      case (Some j)
      show ?thesis
      proof (cases "\<exists>d. j = JObj d")
        case False
        then show ?thesis using assms True Some
          by (cases j) (auto simp: coherent_def save_cache_def put_cache_def save_row_def put_row_def fresh_cache_def
              drop_legacy_port_def pop_field_absent)
      next
        case d: True
        then obtain d where "j = JObj d" by blast
        then show ?thesis using assms True Some
          by (auto simp: coherent_def save_cache_def put_cache_def save_row_def put_row_def fresh_cache_def
              drop_legacy_port_def pop_merge)
      qed
    qed
  qed
qed


definition ref_senv :: senv where
  "ref_senv = \<lparr>base = ref_app_config, s_aead = ref_aead,
     s_key = replicate 32 0, s_nonce = (\<lambda>_. replicate 12 0), s_now = 0, s_scalars = ref_scalars,
     load_fails = None, tx_fails = (\<lambda>_. None), publish_fails = False\<rparr>"

definition ref_settings :: "jobj \<Rightarrow> settings" where
  "ref_settings rows = \<lparr>s_rows = rows, s_cache = fresh_cache rows, s_loaded_at = 0, s_seeded = False, hook_calls = [], published = []\<rparr>"


section \<open>The secret stays secret\<close>

text \<open>No clear password in the table or the cache.\<close>

definition no_clear :: "settings \<Rightarrow> bool" where
  "no_clear s \<longleftrightarrow> (\<forall>d. map_of (s_rows s) k_ldap = Some (JObj d) \<longrightarrow> \<not> has_field bind_password d)
     \<and> (\<forall>d. s_cache s k_ldap = Some d \<longrightarrow> \<not> has_field bind_password d)"

lemma ldap_proxy: "k_ldap \<noteq> k_proxy"
  by (simp add: key_names lit_eval)

lemma no_clear_put: "no_clear s \<Longrightarrow> (key = k_ldap \<longrightarrow> \<not> has_field bind_password d) \<Longrightarrow> no_clear (put_row key d s)"
  "no_clear s \<Longrightarrow> (key = k_ldap \<longrightarrow> \<not> has_field bind_password d) \<Longrightarrow> no_clear (put_cache key d s)"
  by (auto simp: no_clear_def put_row_def put_cache_def)

lemma hide_secret_hides: "hide_secret E k_ldap v = Inr sv \<Longrightarrow> \<not> has_field bind_password sv"
  by (auto simp: hide_secret_def Let_def bind_result_Inr has_field_def field_names lit_eval split: option.splits if_splits)

lemma hide_no_clear: "hide_secret E key v = Inr sv \<Longrightarrow> key = k_ldap \<longrightarrow> \<not> has_field bind_password sv"
  using hide_secret_hides by blast

lemma no_clear_seed_key: "no_clear s \<Longrightarrow> no_clear (snd (seed_key E key s))"
proof -
  assume s: "no_clear s"
  have m: "key = k_ldap \<longrightarrow> \<not> has_field bind_password (merge d (missing_fields key f c))"
    if "map_of (s_rows s) key = Some (JObj d)" for d c f
  proof
    assume k: "key = k_ldap"
    have "map_of (missing_fields k_ldap f c) bind_password = None"
      by (auto simp: map_of_eq_None_iff pop_field_def missing_fields_def)
    with s k that show "\<not> has_field bind_password (merge d (missing_fields key f c))"
      by (simp add: no_clear_def) (simp add: has_field_def)
  qed
  show ?thesis
  proof (cases "get_fallback E key")
    case (Some f)
    show ?thesis
    proof (cases "s_cache s key")
      case None
      show ?thesis
      proof (cases "hide_secret E key f")
        case (Inr sv)
        have "no_clear (put_cache key sv (put_row key sv s))"
          using hide_no_clear [OF Inr] by (intro no_clear_put s)
        with s Some None Inr show ?thesis by (simp add: seed_key_def)
      qed (use s Some None in \<open>simp add: seed_key_def\<close>)
    next
      case c: (Some c)
      let ?m = "missing_fields key f c"
      have p: "no_clear (put_cache key (merge d ?m) (put_row key (merge d ?m) s))" if "map_of (s_rows s) key = Some (JObj d)" for d
        using m [OF that, of f c] by (intro no_clear_put s)
      show ?thesis
      proof (cases "\<exists>d. map_of (s_rows s) key = Some (JObj d)")
        case True
        then show ?thesis using s Some c p by (auto simp: seed_key_def Let_def)
      next
        case False
        then show ?thesis using s Some c by (auto simp: seed_key_def Let_def split: option.split json.split)
      qed
    qed
  qed (use s in \<open>simp add: seed_key_def\<close>)
qed

lemma no_clear_seed_keys: "no_clear s \<Longrightarrow> no_clear (snd (seed_keys E ks s))"
proof (induction ks arbitrary: s)
  case (Cons k ks)
  then show ?case using no_clear_seed_key [of s E k]
    by (auto simp: rbind_def split: prod.split sum.split)
qed (simp add: rreturn_def)

lemma no_clear_load: "no_clear s \<Longrightarrow> no_clear (snd (load E s))"
proof -
  assume s: "no_clear s"
  then have 1: "no_clear (s\<lparr>s_cache := fresh_cache (s_rows s), s_loaded_at := s_now E\<rparr>)"
    by (auto simp: no_clear_def fresh_cache_def key_names lit_eval split: option.splits json.splits if_splits)
  then show ?thesis
    using s no_clear_seed_keys [OF 1, of E MANAGED_KEYS]
    by (auto simp: load_def Let_def rbind_def seed_from_yaml_def no_clear_def split: option.split prod.split sum.split)
qed

lemma no_clear_save:
  assumes "no_clear s"
  shows "no_clear (snd (save E hooked key v p s))"
proof (cases "hide_secret E key v")
  case (Inl e)
  then show ?thesis using assms by (simp add: save_def)
next
  case (Inr sv)
  show ?thesis
  proof (cases "tx_fails E key")
    case None
    have h: "key = k_ldap \<longrightarrow> \<not> has_field bind_password sv" using hide_no_clear [OF Inr] .
    then have "no_clear (save_row key sv s)" "no_clear (save_cache key sv s)"
      using assms by (auto simp: save_row_def save_cache_def no_clear_def put_row_def put_cache_def drop_legacy_port_def
          split: option.split json.split if_splits)
    moreover obtain r s' where s': "save E hooked key v p s = (r, s')" by force
    ultimately show ?thesis using save_state [OF s' Inr None] by (auto simp: no_clear_def)
  qed (use assms Inr in \<open>simp add: save_def\<close>)
qed

lemma show_saved:
  assumes "aead_ok (s_aead E)" and "length (s_key E) = 32" and "length (s_nonce E pw) = 12" and "pw \<noteq> []"
    and "map_of v bind_password = Some (JStr pw)" and "hide_secret E k_ldap v = Inr sv"
    and "distinct (map fst v)" and "c = merge d sv \<or> c = sv"
  shows "\<exists>r. show_secret E c = Inr r \<and> map_of r bind_password = Some (JStr pw) \<and> \<not> has_field bind_password_enc r"
proof -
  obtain e where e: "encrypt (s_aead E) (s_key E) (s_nonce E pw) pw SECRET_AAD = Inr e"
    and sv: "sv = set_field bind_password_enc (JStr e) (pop_field bind_password v)"
    using assms(4,5,6) by (auto simp: hide_secret_def Let_def bind_result_Inr encrypt_password_def)
  have dec: "decrypt (s_aead E) (s_key E) e SECRET_AAD = Inr pw"
    using decrypt_encrypt [OF assms(1,2,3) e, of SECRET_AAD] by simp
  have "distinct (map fst sv)" using sv assms(7) by (simp add: distinct_set_field distinct_pop)
  then have "map_of c bind_password_enc = Some (JStr e)" using assms(8) sv by (auto simp: map_of_merge)
  then show ?thesis using dec by (simp add: show_secret_def decrypt_password_def has_field_def field_names lit_eval)
qed

text \<open>
  C10: the password of the directory service is never in clear in the table or in the cache, where
  the overview for the administration reads: loading, seeding from a configuration that holds it and
  saving any key keep it out, and the overview has no such field. Saving it and reading the setting
  back returns it.
\<close>

theorem ldap_password_hidden:
  assumes "no_clear s"
  shows "no_clear (snd (load E s)) \<and> no_clear (snd (save E hooked key v p s))
    \<and> (\<forall>l. map_of (get_all_for_ui E s) k_ldap = Some (JObj l) \<longrightarrow> \<not> has_field bind_password l)
    \<and> (aead_ok (s_aead E) \<and> length (s_key E) = 32 \<and> length (s_nonce E pw) = 12 \<and> pw \<noteq> [] \<and> distinct (map fst v)
       \<and> tx_fails E k_ldap = None \<and> map_of v bind_password = Some (JStr pw) \<and> list_all scalar pw \<longrightarrow>
       (\<exists>r. fst (get E k_ldap (snd (save E hooked k_ldap v p s))) = Inr r \<and> map_of r bind_password = Some (JStr pw)))"
proof (intro conjI impI allI)
  show "no_clear (snd (load E s))" "no_clear (snd (save E hooked key v p s))"
    using assms by (rule no_clear_load, rule no_clear_save)
  fix l
  assume "map_of (get_all_for_ui E s) k_ldap = Some (JObj l)"
  then show "\<not> has_field bind_password l"
    by (auto simp: get_all_for_ui_def key_names lit_eval split: option.splits)
next
  assume a: "aead_ok (s_aead E) \<and> length (s_key E) = 32 \<and> length (s_nonce E pw) = 12 \<and> pw \<noteq> [] \<and> distinct (map fst v)
       \<and> tx_fails E k_ldap = None \<and> map_of v bind_password = Some (JStr pw) \<and> list_all scalar pw"
  then obtain sv where sv: "hide_secret E k_ldap v = Inr sv"
    by (auto simp: hide_secret_def Let_def encrypt_password_def encrypt_def utf8_encode_def)
  let ?s1 = "(save_cache k_ldap sv (save_row k_ldap sv s))\<lparr>s_loaded_at := s_now E\<rparr>"
  obtain c where c: "s_cache ?s1 k_ldap = Some c" "\<exists>d. c = merge d sv \<or> c = sv"
    by (cases "s_cache (save_row k_ldap sv s) k_ldap"; cases "s_cache s k_ldap") (auto simp: save_cache_def put_cache_def drop_legacy_port_def ldap_proxy)
  obtain r where r: "show_secret E c = Inr r" "map_of r bind_password = Some (JStr pw)"
    using show_saved [where c = c, OF _ _ _ _ _ sv] a c(2) by metis
  obtain r1 s2 where h: "run_hooks E hooked k_ldap ?s1 = (r1, s2)" by force
  have s2: "s_cache s2 k_ldap = Some c" "s_loaded_at s2 = s_now E"
    using run_hooks_state [OF h] c(1) h by (auto simp: run_hooks_def get_def rd_simps split: prod.splits sum.splits option.splits)
  have "s_cache (snd (save E hooked k_ldap v p s)) k_ldap = Some c \<and> s_loaded_at (snd (save E hooked k_ldap v p s)) = s_now E"
    using a s2 sv h by (auto simp: save_def rbind_def split: sum.split prod.split)
  then show "\<exists>r. fst (get E k_ldap (snd (save E hooked k_ldap v p s))) = Inr r \<and> map_of r bind_password = Some (JStr pw)"
    using r by (auto simp: get_def rd_simps)
qed

theorem ldap_password_hidden_witness:
  "\<exists>r. fst (get ref_senv k_ldap (snd (save ref_senv (\<lambda>_. 0) k_ldap [(bind_password, JStr [65])] False (ref_settings [])))) = Inr r
     \<and> map_of r bind_password = Some (JStr [65])"
proof -
  have "no_clear (ref_settings [])" by (simp add: no_clear_def ref_settings_def fresh_cache_def)
  from ldap_password_hidden [OF this, of ref_senv "\<lambda>_. 0" k_ldap "[(bind_password, JStr [65])]" False "[65]"]
  show ?thesis by (simp add: ref_senv_def aead_ok_ref scalar_def)
qed

section \<open>The legacy port\<close>

lemma seed_key_frame:
  assumes "k \<noteq> key" and "seed_key E k s = (r, s')"
  shows "map_of (s_rows s') key = map_of (s_rows s) key \<and> s_cache s' key = s_cache s key"
  using assms
  by (auto simp: seed_key_def put_row_def put_cache_def Let_def split: option.splits sum.splits if_splits json.splits)

lemma seed_keys_frame:
  "key \<notin> set ks \<Longrightarrow> seed_keys E ks s = (r, s') \<Longrightarrow> map_of (s_rows s') key = map_of (s_rows s) key \<and> s_cache s' key = s_cache s key"
proof (induction ks arbitrary: s)
  case (Cons k ks)
  obtain r1 s1 where 1: "seed_key E k s = (r1, s1)" by force
  have f: "map_of (s_rows s1) key = map_of (s_rows s) key \<and> s_cache s1 key = s_cache s key"
    using seed_key_frame [OF _ 1] Cons.prems(1) by auto
  show ?case
  proof (cases r1)
    case (Inr u)
    then have "seed_keys E ks s1 = (r, s')" using Cons.prems(2) 1 by (simp add: rbind_def)
    with Cons.IH Cons.prems(1) f show ?thesis by simp
  qed (use Cons.prems(2) 1 f in \<open>simp add: rbind_def\<close>)
qed (simp add: rreturn_def)

lemma seed_keys_append: "seed_keys E (as @ bs) = rbind (seed_keys E as) (\<lambda>_. seed_keys E bs)"
  by (induction as) (simp_all add: rbind_assoc)

lemma seed_key_ok: "ldap_cfg (base E) = None \<Longrightarrow> \<exists>s'. seed_key E k s = (Inr (), s')"
proof (cases "k = k_ldap")
  case True
  assume "ldap_cfg (base E) = None"
  with True have "get_fallback E k = None" by (simp add: get_fallback_def key_names lit_eval)
  then show ?thesis by (simp add: seed_key_def)
next
  case False
  then have "hide_secret E k f = Inr f" for f by (simp add: hide_secret_def)
  then show ?thesis
    by (cases "get_fallback E k"; cases "s_cache s k") (auto simp: seed_key_def Let_def split: option.split json.split)
qed

lemma seed_keys_ok: "ldap_cfg (base E) = None \<Longrightarrow> \<exists>s'. seed_keys E ks s = (Inr (), s')"
proof (induction ks arbitrary: s)
  case (Cons k ks)
  obtain s1 where "seed_key E k s = (Inr (), s1)" using seed_key_ok [OF Cons.prems] by blast
  moreover obtain s2 where "seed_keys E ks s1 = (Inr (), s2)" using Cons by blast
  ultimately show ?case by (simp add: rbind_def)
qed (simp add: rreturn_def)

text \<open>
  \<^verbatim>\<open>proxy_params\<close> honours a stored \<^verbatim>\<open>listen_port\<close> of an older version where there is no
  \<^verbatim>\<open>public_port\<close>, but the first \<^verbatim>\<open>load\<close> of a process takes \<^verbatim>\<open>public_port\<close> for a missing sub-key and
  writes the port of the configuration file into the table: from then on the stored port is ignored.
\<close>

lemma legacy_port_lost:
  assumes "map_of (s_rows s) k_proxy = Some (JObj d)" and "map_of d f_listen_port = Some port"
    and "\<not> has_field f_public_port d" and "\<not> s_seeded s" and "load_fails E = None" and "tx_fails E k_proxy = None"
    and "ldap_cfg (base E) = None"
  shows "map_of (proxy_params E (s\<lparr>s_cache := fresh_cache (s_rows s)\<rparr>)) f_public_port = Some port
    \<and> (\<exists>s'. load E s = (Inr (), s')
        \<and> map_of (proxy_params E s') f_public_port = Some (JInt (public_port (proxy_cfg (base E)))))"
proof
  have f: "f_public_port \<noteq> lit ''public_host''" "f_listen_port \<noteq> f_public_port" by (simp_all add: field_names lit_eval)
  show "map_of (proxy_params E (s\<lparr>s_cache := fresh_cache (s_rows s)\<rparr>)) f_public_port = Some port"
    using assms(1,2,3) f by (auto simp: proxy_params_def fresh_cache_def field_or_def has_field_def)
  let ?s0 = "s\<lparr>s_cache := fresh_cache (s_rows s), s_loaded_at := s_now E\<rparr>"
  obtain s1 where 1: "seed_keys E [k_ldap, k_dns] ?s0 = (Inr (), s1)" using seed_keys_ok [OF assms(7)] by blast
  have n: "k_proxy \<notin> set [k_ldap, k_dns]" "k_proxy \<notin> set [k_security, k_redis_ttl, k_portal, k_relay]"
    by (simp_all add: key_names lit_eval)
  have c1: "map_of (s_rows s1) k_proxy = Some (JObj d)" "s_cache s1 k_proxy = Some d"
    using seed_keys_frame [OF n(1) 1] assms(1,3) by (simp_all add: fresh_cache_def)
  let ?m = "missing_fields k_proxy (dump_proxy (proxy_cfg (base E))) d"
  have pm: "(f_public_port, JInt (public_port (proxy_cfg (base E)))) \<in> set ?m"
    using assms(3) by (simp add: missing_fields_def dump_proxy_def ldap_proxy [symmetric])
  have "distinct (map fst ?m)" using f by (auto simp: missing_fields_def dump_proxy_def ldap_proxy [symmetric])
  then have pv: "map_of (merge d ?m) f_public_port = Some (JInt (public_port (proxy_cfg (base E))))"
    using pm by (simp add: map_of_merge map_add_def)
  have fb: "get_fallback E k_proxy = Some (dump_proxy (proxy_cfg (base E)))" "dump_proxy (proxy_cfg (base E)) \<noteq> []"
    by (simp_all add: get_fallback_def dump_proxy_def key_names lit_eval)
  let ?s2 = "put_cache k_proxy (merge d ?m) (put_row k_proxy (merge d ?m) s1)"
  have 2: "seed_key E k_proxy s1 = (Inr (), ?s2)"
    using c1 fb pm assms(6) by (auto simp: seed_key_def Let_def)
  obtain s3 where 3: "seed_keys E [k_security, k_redis_ttl, k_portal, k_relay] ?s2 = (Inr (), s3)"
    using seed_keys_ok [OF assms(7)] by blast
  have c3: "s_cache s3 k_proxy = Some (merge d ?m)" using seed_keys_frame [OF n(2) 3] by (simp add: put_cache_def)
  have "seed_keys E MANAGED_KEYS = rbind (seed_keys E [k_ldap, k_dns]) (\<lambda>_. rbind (seed_key E k_proxy)
      (\<lambda>_. seed_keys E [k_security, k_redis_ttl, k_portal, k_relay]))"
    unfolding MANAGED_KEYS_def by (simp add: rbind_assoc)
  then have "seed_keys E MANAGED_KEYS ?s0 = (Inr (), s3)"
    by (simp add: rbind_Inr [where m = "seed_keys E [k_ldap, k_dns]", OF 1] rbind_Inr [where m = "seed_key E k_proxy", OF 2] 3 del: seed_keys.simps)
  then have "load E s = (Inr (), s3\<lparr>s_seeded := True\<rparr>)"
    using assms(4,5) by (simp add: load_def seed_from_yaml_def rbind_def)
  moreover have "map_of (proxy_params E (s3\<lparr>s_seeded := True\<rparr>)) f_public_port = Some (JInt (public_port (proxy_cfg (base E))))"
    using c3 pv f by (auto simp: proxy_params_def field_or_def)
  ultimately show "\<exists>s'. load E s = (Inr (), s')
        \<and> map_of (proxy_params E s') f_public_port = Some (JInt (public_port (proxy_cfg (base E))))" by blast
qed

lemma legacy_port_lost_witness:
  "\<exists>s'. load ref_senv (ref_settings [(k_proxy, JObj [(f_listen_port, JInt 5000)])]) = (Inr (), s')
     \<and> map_of (proxy_params ref_senv s') f_public_port = Some (JInt 443)"
proof -
  have "f_listen_port \<noteq> f_public_port" by (simp add: field_names lit_eval)
  then show ?thesis
    using legacy_port_lost [of "ref_settings [(k_proxy, JObj [(f_listen_port, JInt 5000)])]" "[(f_listen_port, JInt 5000)]" "JInt 5000" ref_senv]
    by (simp add: ref_settings_def has_field_def ref_senv_def ref_app_config_def)
qed

end
