(* ===== verification/Rdp_File.thy ===== *)
theory Rdp_File
  imports Settings_Manager Uuid
begin

text \<open>
  The \<^verbatim>\<open>.rdp\<close> file (\<^verbatim>\<open>src/libs/rdp/rdp_file.py\<close>), the table of templates it is built from
  (\<^verbatim>\<open>src/libs/db/models/template.py\<close>) and the routes that manage them
  (\<^verbatim>\<open>src/services/admin/routes/templates.py\<close>). A table is the list of its rows in the order the
  database returns them. \<open>lower\<close> is \<^verbatim>\<open>str.lower\<close>, and \<open>show\<close> is \<^verbatim>\<open>str\<close> on lists and dictionaries.
  Labels and ranges of the schema, which only the administration's page reads, are left out.
\<close>

section \<open>Templates\<close>

record RdpTemplate =
  t_id :: nat
  t_name :: ustr
  t_is_default :: bool
  t_priority :: int
  t_params :: jobj
  t_groups :: "nat list"

text \<open>The parameters of each section, with their default where the schema gives one.\<close>

definition RDP_PARAM_SCHEMA :: "(ustr \<times> (ustr \<times> int option) list) list" where
  "RDP_PARAM_SCHEMA = [
    (lit ''display'', [
      (lit ''screen mode id'', Some 2), (lit ''desktopwidth'', Some 1920), (lit ''desktopheight'', Some 1080),
      (lit ''session bpp'', Some 32), (lit ''use multimon'', Some 0)]),
    (lit ''local_resources'', [
      (lit ''audiomode'', Some 0), (lit ''audiocapturemode'', Some 0), (lit ''keyboardhook'', Some 2),
      (lit ''redirectclipboard'', Some 1), (lit ''redirectprinters'', Some 1), (lit ''redirectdrives'', Some 1),
      (lit ''redirectsmartcards'', Some 1)]),
    (lit ''experience'', [
      (lit ''disable wallpaper'', Some 0), (lit ''allow font smoothing'', Some 1), (lit ''allow desktop composition'', Some 1),
      (lit ''bitmapcachepersistenable'', Some 1), (lit ''autoreconnection enabled'', Some 1)])]"

definition default_rdp_params :: jobj where
  "default_rdp_params = foldl (\<lambda>out (_, params). foldl (\<lambda>out (key, meta).
     set_field key (JInt (case meta of Some d \<Rightarrow> d | None \<Rightarrow> 0)) out) out params) [] RDP_PARAM_SCHEMA"

section \<open>The file\<close>

definition py_format :: "(json \<Rightarrow> ustr) \<Rightarrow> json \<Rightarrow> ustr" where
  "py_format show j = (case j of JStr s \<Rightarrow> s | JInt i \<Rightarrow> int_str i | JNull \<Rightarrow> lit ''None''
     | JBool b \<Rightarrow> (if b then lit ''True'' else lit ''False'') | j \<Rightarrow> show j)"

definition to_line :: "(json \<Rightarrow> ustr) \<Rightarrow> ustr \<Rightarrow> json \<Rightarrow> ustr" where
  "to_line show key v = (case v of
      JBool b \<Rightarrow> key @ lit '':i:'' @ (if b then lit ''1'' else lit ''0'')
    | JInt i \<Rightarrow> key @ lit '':i:'' @ int_str i
    | JFloat r \<Rightarrow> key @ lit '':i:'' @ int_str (if 0 \<le> r then floor r else ceiling r)
    | v \<Rightarrow> key @ lit '':s:'' @ py_format show v)"

definition group_set :: "(ustr \<Rightarrow> ustr) \<Rightarrow> ustr list \<Rightarrow> ustr set" where
  "group_set lower vs = set (map (\<lambda>v. lower (strip v)) (filter (\<lambda>v. strip v \<noteq> []) vs))"

definition applies :: "(ustr \<Rightarrow> ustr) \<Rightarrow> ustr set \<Rightarrow> RdpTemplate \<Rightarrow> bool" where
  "applies lower gs t \<longleftrightarrow> \<not> t_is_default t
     \<and> (t_groups t = [] \<or> list_ex (\<lambda>g. lower (uuid_str g) \<in> gs) (t_groups t))"

definition merge_templates :: "(ustr \<Rightarrow> ustr) \<Rightarrow> ustr list \<Rightarrow> RdpTemplate list \<Rightarrow> jobj" where
  "merge_templates lower user_group_guids templates =
    (let merged = (case find t_is_default templates of
         Some d \<Rightarrow> merge default_rdp_params (t_params d) | None \<Rightarrow> default_rdp_params) in
     foldl (\<lambda>merged t. merge merged (t_params t)) merged
       (filter (applies lower (group_set lower user_group_guids)) (sort_key t_priority templates)))"

definition system_params :: "(json \<Rightarrow> ustr) \<Rightarrow> json \<Rightarrow> json \<Rightarrow> ustr \<Rightarrow> jobj" where
  "system_params show proxy_host proxy_port token = [
     (lit ''networkautodetect'', JInt 0), (lit ''bandwidthautodetect'', JInt 1), (lit ''connection type'', JInt 6),
     (lit ''use redirection server name'', JInt 0),
     (lit ''full address'', JStr (py_format show proxy_host @ lit '':'' @ py_format show proxy_port)),
     (lit ''loadbalanceinfo'', JStr token), (lit ''negotiate security layer'', JInt 1),
     (lit ''enablecredsspsupport'', JInt 0), (lit ''authentication level'', JInt 2)]"

definition build_rdp_content :: "(json \<Rightarrow> ustr) \<Rightarrow> (ustr \<Rightarrow> ustr) \<Rightarrow> RdpTemplate list \<Rightarrow> ustr list \<Rightarrow> json \<Rightarrow> json \<Rightarrow> ustr \<Rightarrow> ustr" where
  "build_rdp_content show lower templates user_group_guids proxy_host proxy_port token =
    (let merged = merge (merge_templates lower user_group_guids templates) (system_params show proxy_host proxy_port token) in
     join [10] (map (\<lambda>(k, v). to_line show k v) merged) @ [10])"

definition preview_template :: "(ustr \<Rightarrow> ustr) \<Rightarrow> ustr list \<Rightarrow> RdpTemplate list \<Rightarrow> jobj" where
  "preview_template lower groups templates =
    (let default_tpl = find t_is_default templates;
         merged = default_rdp_params;
         merged = (case default_tpl of Some d \<Rightarrow> merge merged (t_params d) | None \<Rightarrow> merged) in
     foldl (\<lambda>merged t. if t_is_default t then merged
         else let binds = map (\<lambda>g. lower (uuid_str g)) (t_groups t) in
           if binds \<noteq> [] \<and> \<not> list_ex (\<lambda>b. b \<in> group_set lower groups) binds then merged
           else merge merged (t_params t)) merged (sort_key t_priority templates))"

section \<open>Managing templates\<close>

record TemplateCreate =
  tc_name :: ustr
  tc_is_default :: bool
  tc_priority :: int
  tc_params :: jobj
  tc_groups :: "ustr list"

record TemplateUpdate =
  tu_name :: "ustr option"
  tu_is_default :: "bool option"
  tu_priority :: "int option"
  tu_params :: "jobj option"
  tu_groups :: "ustr list option"

fun group_uuids :: "ustr list \<Rightarrow> nat list result" where
  "group_uuids [] = Inr []"
| "group_uuids (g # gs) = (case uuid_of g of
      Inl e \<Rightarrow> Inl (HTTPException 400)
    | Inr u \<Rightarrow> bind_result (group_uuids gs) (\<lambda>us. Inr (u # us)))"

definition template_id :: "ustr \<Rightarrow> nat result" where
  "template_id text = (case uuid_of text of Inr u \<Rightarrow> Inr u | Inl e \<Rightarrow> Inl (HTTPException 400))"

definition find_template :: "nat \<Rightarrow> RdpTemplate list \<Rightarrow> RdpTemplate option" where
  "find_template tid ts = find (\<lambda>t. t_id t = tid) ts"

definition clear_default :: "RdpTemplate list \<Rightarrow> RdpTemplate list" where
  "clear_default ts = map (\<lambda>t. t\<lparr>t_is_default := False\<rparr>) ts"

text \<open>
  A commit: the driver refuses a priority that does not fit the column, the table a second row with
  the name or the identifier and a second binding to the same group; these are the 409.
\<close>

definition commit_template :: "RdpTemplate \<Rightarrow> RdpTemplate list \<Rightarrow> unit result" where
  "commit_template t others =
    (if t_priority t \<notin> {- (2 ^ 31)..<2 ^ 31} then Inl DataError
     else if list_ex (\<lambda>r. t_name r = t_name t \<or> t_id r = t_id t) others \<or> \<not> distinct (t_groups t)
     then Inl (HTTPException 409) else Inr ())"

definition create_valid_template :: "TemplateCreate \<Rightarrow> bool" where
  "create_valid_template b \<longleftrightarrow> 1 \<le> length (tc_name b) \<and> length (tc_name b) \<le> 128 \<and> 0 \<le> tc_priority b"

definition update_valid_template :: "TemplateUpdate \<Rightarrow> bool" where
  "update_valid_template b \<longleftrightarrow> (case tu_name b of None \<Rightarrow> True | Some n \<Rightarrow> 1 \<le> length n \<and> length n \<le> 128)
     \<and> (case tu_priority b of None \<Rightarrow> True | Some p \<Rightarrow> 0 \<le> p)"

definition create_template :: "nat \<Rightarrow> TemplateCreate \<Rightarrow> (RdpTemplate list, RdpTemplate) eff" where
  "create_template tid body ts =
    (if \<not> create_valid_template body then (Inl (HTTPException 422), ts)
     else case group_uuids (tc_groups body) of
       Inl e \<Rightarrow> (Inl e, ts)
     | Inr groups \<Rightarrow>
         (let ts1 = (if tc_is_default body then clear_default ts else ts);
              t = \<lparr>t_id = tid, t_name = strip (tc_name body), t_is_default = tc_is_default body,
                t_priority = tc_priority body, t_params = merge default_rdp_params (tc_params body), t_groups = groups\<rparr> in
          case commit_template t ts1 of Inl e \<Rightarrow> (Inl e, ts) | Inr _ \<Rightarrow> (Inr t, ts1 @ [t])))"

definition updated_template :: "TemplateUpdate \<Rightarrow> nat list option \<Rightarrow> RdpTemplate \<Rightarrow> RdpTemplate" where
  "updated_template body groups t =
    (let t = (case tu_is_default body of Some d \<Rightarrow> t\<lparr>t_is_default := d\<rparr> | None \<Rightarrow> t);
         t = (case tu_name body of Some n \<Rightarrow> t\<lparr>t_name := strip n\<rparr> | None \<Rightarrow> t);
         t = (case tu_priority body of Some p \<Rightarrow> t\<lparr>t_priority := p\<rparr> | None \<Rightarrow> t);
         t = (case tu_params body of Some p \<Rightarrow> t\<lparr>t_params := merge default_rdp_params p\<rparr> | None \<Rightarrow> t) in
     case groups of Some g \<Rightarrow> t\<lparr>t_groups := g\<rparr> | None \<Rightarrow> t)"

definition update_template :: "ustr \<Rightarrow> TemplateUpdate \<Rightarrow> (RdpTemplate list, RdpTemplate) eff" where
  "update_template text body ts =
    (if \<not> update_valid_template body then (Inl (HTTPException 422), ts)
     else case template_id text of
       Inl e \<Rightarrow> (Inl e, ts)
     | Inr tid \<Rightarrow> (case find_template tid ts of
         None \<Rightarrow> (Inl (HTTPException 404), ts)
       | Some t0 \<Rightarrow>
           (case (case tu_groups body of None \<Rightarrow> Inr None | Some gs \<Rightarrow> bind_result (group_uuids gs) (\<lambda>us. Inr (Some us))) of
             Inl e \<Rightarrow> (Inl e, ts)
           | Inr groups \<Rightarrow>
               (let ts1 = (if tu_is_default body = Some True then clear_default ts else ts);
                    t = updated_template body groups t0 in
                case commit_template t (filter (\<lambda>r. t_id r \<noteq> tid) ts1) of
                  Inl e \<Rightarrow> (Inl e, ts)
                | Inr _ \<Rightarrow> (Inr t, map (\<lambda>r. if t_id r = tid then t else r) ts1)))))"

definition delete_template :: "ustr \<Rightarrow> (RdpTemplate list, unit) eff" where
  "delete_template text ts = (case template_id text of
      Inl e \<Rightarrow> (Inl e, ts)
    | Inr tid \<Rightarrow> (case find_template tid ts of
        None \<Rightarrow> (Inl (HTTPException 404), ts)
      | Some t \<Rightarrow> if t_is_default t then (Inl (HTTPException 400), ts)
                  else (Inr (), filter (\<lambda>r. t_id r \<noteq> tid) ts)))"

section \<open>The templates stay in order\<close>

text \<open>The body of a request is a dictionary: its keys are distinct.\<close>

inductive templates_step :: "RdpTemplate list \<Rightarrow> RdpTemplate list \<Rightarrow> bool" where
  created: "distinct (map fst (tc_params body)) \<Longrightarrow> templates_step ts (snd (create_template tid body ts))"
| updated: "(\<And>p. tu_params body' = Some p \<Longrightarrow> distinct (map fst p)) \<Longrightarrow> templates_step ts (snd (update_template text body' ts))"
| deleted: "templates_step ts (snd (delete_template text ts))"

definition template_ok :: "RdpTemplate \<Rightarrow> bool" where
  "template_ok t \<longleftrightarrow> 0 \<le> t_priority t \<and> t_priority t < 2 ^ 31 \<and> distinct (map fst (t_params t))
     \<and> fst ` set default_rdp_params \<subseteq> fst ` set (t_params t) \<and> distinct (t_groups t)"

definition templates_ok :: "RdpTemplate list \<Rightarrow> bool" where
  "templates_ok ts \<longleftrightarrow> distinct (map t_id ts) \<and> distinct (map t_name ts) \<and> length (filter t_is_default ts) \<le> 1
     \<and> (\<forall>t \<in> set ts. template_ok t)"

lemma fst_set_field: "fst ` set (set_field f v d) = insert f (fst ` set d)"
  by (induction f v d rule: set_field.induct) auto

lemma fst_merge: "fst ` set (merge a b) = fst ` set a \<union> fst ` set b"
  by (induction b arbitrary: a) (simp_all add: merge_def fst_set_field case_prod_beta Un_insert_left)

lemma distinct_merge: "distinct (map fst a) \<Longrightarrow> distinct (map fst (merge a b))"
  by (induction b arbitrary: a) (auto simp: merge_def distinct_set_field)

lemma distinct_default: "distinct (map fst default_rdp_params)"
  by (simp add: default_rdp_params_def RDP_PARAM_SCHEMA_def lit_eval)

lemma clear_default_ok: "templates_ok ts \<Longrightarrow> templates_ok (clear_default ts) \<and> filter t_is_default (clear_default ts) = []"
  by (auto simp: templates_ok_def clear_default_def template_ok_def comp_def filter_empty_conv)

lemma commit_template_ok: "commit_template t others = Inr u \<Longrightarrow> t_priority t < 2 ^ 31 \<and> distinct (t_groups t)
    \<and> t_name t \<notin> t_name ` set others \<and> t_id t \<notin> t_id ` set others"
  by (auto simp: commit_template_def list_ex_iff split: if_splits)

lemma merged_params_ok: "distinct (map fst p) \<Longrightarrow> distinct (map fst (merge default_rdp_params p))
    \<and> fst ` set default_rdp_params \<subseteq> fst ` set (merge default_rdp_params p)"
  by (simp add: distinct_merge distinct_default fst_merge)

lemma create_template_ok:
  assumes "templates_ok ts" and "distinct (map fst (tc_params body))"
  shows "templates_ok (snd (create_template tid body ts))"
proof -
  let ?ts1 = "if tc_is_default body then clear_default ts else ts"
  have "templates_ok ?ts1" "tc_is_default body \<Longrightarrow> filter t_is_default ?ts1 = []"
    using assms(1) clear_default_ok by auto
  then show ?thesis using assms merged_params_ok [OF assms(2)]
    by (auto simp: create_template_def Let_def create_valid_template_def split: sum.splits
        dest!: commit_template_ok) (auto simp: templates_ok_def template_ok_def)
qed

lemma row_split:
  assumes "distinct (map t_id ts)" and "tid \<in> t_id ` set ts"
  obtains a r b where "ts = a @ r # b" "t_id r = tid" "filter (\<lambda>r. t_id r \<noteq> tid) ts = a @ b"
    "\<forall>t. map (\<lambda>r. if t_id r = tid then t else r) ts = a @ t # b"
proof -
  from assms(2) obtain r where r: "r \<in> set ts" "t_id r = tid" by auto
  then obtain a b where ts: "ts = a @ r # b" by (auto dest: split_list)
  have "\<forall>x \<in> set a. t_id x \<noteq> tid" "\<forall>x \<in> set b. t_id x \<noteq> tid"
    using assms(1) unfolding ts r(2) [symmetric] by (auto simp: image_iff)
  then have "filter (\<lambda>r. t_id r \<noteq> tid) a = a" "filter (\<lambda>r. t_id r \<noteq> tid) b = b"
    "\<And>t. map (\<lambda>r. if t_id r = tid then t else r) a = a" "\<And>t. map (\<lambda>r. if t_id r = tid then t else r) b = b"
    by (simp_all add: filter_id_conv map_idI)
  then have "filter (\<lambda>r. t_id r \<noteq> tid) ts = a @ b" "\<forall>t. map (\<lambda>r. if t_id r = tid then t else r) ts = a @ t # b"
    using r(2) by (simp_all add: ts del: filter_id_conv)
  with ts r(2) show thesis by (rule that)
qed

lemma update_rows_ok:
  assumes ok: "templates_ok ts" and t: "template_ok t" "t_id t = tid" "tid \<in> t_id ` set ts"
    and d: "t_is_default t \<longrightarrow> filter t_is_default (filter (\<lambda>r. t_id r \<noteq> tid) ts) = []"
    and n: "t_name t \<notin> t_name ` set (filter (\<lambda>r. t_id r \<noteq> tid) ts)"
  shows "templates_ok (map (\<lambda>r. if t_id r = tid then t else r) ts)"
proof -
  from ok have "distinct (map t_id ts)" by (simp add: templates_ok_def)
  then obtain a r b where ts: "ts = a @ r # b" "t_id r = tid" "filter (\<lambda>r. t_id r \<noteq> tid) ts = a @ b"
    "\<forall>t. map (\<lambda>r. if t_id r = tid then t else r) ts = a @ t # b" using row_split [OF _ t(3)] by blast
  have old: "distinct (map t_id a @ map t_id b)" "tid \<notin> t_id ` set (a @ b)" "distinct (map t_name a @ map t_name b)"
    "length (filter t_is_default (a @ b)) \<le> 1" "\<forall>t \<in> set (a @ b). template_ok t"
    using ok ts(2) unfolding templates_ok_def ts(1) by (auto split: if_splits)
  have "length (filter t_is_default (a @ t # b)) \<le> 1" using d old(4) unfolding ts(3) by auto
  moreover have "t_name t \<notin> t_name ` set (a @ b)" using n unfolding ts(3) .
  ultimately show ?thesis unfolding ts(4) [THEN spec] using old t(1,2) by (simp add: templates_ok_def image_Un)
qed

lemma updated_template_simps [simp]:
  "t_id (updated_template body groups t) = t_id t"
  "t_is_default (updated_template body groups t) = (case tu_is_default body of Some d \<Rightarrow> d | None \<Rightarrow> t_is_default t)"
  by (auto simp: updated_template_def split: option.split)

lemma updated_template_ok:
  assumes "template_ok t" and "update_valid_template body" and "\<And>p. tu_params body = Some p \<Longrightarrow> distinct (map fst p)"
    and "commit_template (updated_template body groups t) others = Inr u"
  shows "template_ok (updated_template body groups t)"
  using assms(1,2) merged_params_ok assms(3) commit_template_ok [OF assms(4)]
  by (auto simp: template_ok_def updated_template_def update_valid_template_def split: option.splits)

lemma update_template_ok:
  assumes ok: "templates_ok ts" and p: "\<And>p. tu_params body = Some p \<Longrightarrow> distinct (map fst p)"
  shows "templates_ok (snd (update_template text body ts))"
proof (cases "snd (update_template text body ts) = ts")
  case False
  let ?ts1 = "if tu_is_default body = Some True then clear_default ts else ts"
  from False obtain tid t0 groups u where 1: "update_valid_template body" "find_template tid ts = Some t0"
    "commit_template (updated_template body groups t0) (filter (\<lambda>r. t_id r \<noteq> tid) ?ts1) = Inr u"
    "snd (update_template text body ts) = map (\<lambda>r. if t_id r = tid then updated_template body groups t0 else r) ?ts1"
    by (auto simp: update_template_def Let_def split: if_splits sum.splits option.splits)
  have t0: "t0 \<in> set ts" "t_id t0 = tid" using 1(2) by (auto simp: find_template_def find_Some_iff)
  have ok1: "templates_ok ?ts1" using ok clear_default_ok by auto
  have def: "filter t_is_default (filter (\<lambda>r. t_id r \<noteq> tid) ?ts1) = []" if "t_is_default (updated_template body groups t0)"
  proof (cases "tu_is_default body = Some True")
    case True
    then show ?thesis using clear_default_ok [OF ok] by (auto simp: filter_empty_conv)
  next
    case False
    with that have "t_is_default t0" by (auto split: option.splits)
    then have "t0 \<in> set (filter t_is_default ts)" using t0(1) by simp
    moreover have "length (filter t_is_default ts) \<le> 1" using ok by (simp add: templates_ok_def)
    ultimately have "set (filter t_is_default ts) = {t0}"
      by (cases "filter t_is_default ts") (auto simp del: set_filter)
    then show ?thesis using False t0(2) by (auto simp: filter_empty_conv)
  qed
  have "tid \<in> t_id ` set ?ts1" using t0 by (auto simp: clear_default_def image_iff)
  then show ?thesis unfolding 1(4)
    using update_rows_ok [OF ok1 updated_template_ok [OF _ 1(1) p 1(3)]] def commit_template_ok [OF 1(3)] t0 ok
    by (auto simp: templates_ok_def)
qed (use ok in simp)

lemma templates_step_ok: "templates_step ts ts' \<Longrightarrow> templates_ok ts \<Longrightarrow> templates_ok ts'"
proof (induction rule: templates_step.induct)
  case (created body ts tid)
  then show ?case by (rule create_template_ok [rotated])
next
  case (updated body' ts tx)
  then show ?case by (intro update_template_ok) auto
next
  case (deleted ts tx)
  have "length (filter t_is_default (filter P ts)) \<le> length (filter t_is_default ts)" for P
    by (induction ts) auto
  then have "templates_ok (filter P ts)" for P
    using deleted by (fastforce simp: templates_ok_def distinct_map_filter intro: le_trans)
  then show ?case using deleted by (auto simp: delete_template_def split: sum.split option.split)
qed

text \<open>
  C12: in every sequence of creations, updates and deletions, whatever answers they give, template
  identifiers and names stay unique, at most one template is the default one, every template has a
  value for each parameter of the schema, and its priority fits the column.
\<close>

theorem templates_kept_in_order:
  assumes "templates_ok ts" and "templates_step\<^sup>*\<^sup>* ts ts'"
  shows "templates_ok ts'"
  using assms(2,1) by induction (auto intro: templates_step_ok)

definition ref_create :: "string \<Rightarrow> TemplateCreate" where
  "ref_create name = \<lparr>tc_name = lit name, tc_is_default = True, tc_priority = 3,
     tc_params = [(lit ''audiomode'', JInt 2)], tc_groups = []\<rparr>"

theorem templates_kept_in_order_witness:
  "templates_ok (snd (create_template 2 (ref_create ''b'') (snd (create_template 1 (ref_create ''a'') []))))"
proof (rule templates_kept_in_order)
  show "templates_ok []" by (simp add: templates_ok_def)
  have "templates_step ts (snd (create_template tid (ref_create n) ts))" for ts tid n
    by (rule templates_step.created) (simp add: ref_create_def)
  then show "templates_step\<^sup>*\<^sup>* [] (snd (create_template 2 (ref_create ''b'') (snd (create_template 1 (ref_create ''a'') []))))"
    by (meson rtranclp.rtrancl_into_rtrancl rtranclp.rtrancl_refl)
qed

section \<open>What the file says\<close>

lemma applies_preview:
  "(if t_is_default t then m else let binds = map (\<lambda>g. lower (uuid_str g)) (t_groups t) in
      if binds \<noteq> [] \<and> \<not> list_ex (\<lambda>b. b \<in> gs) binds then m else merge m (t_params t))
    = (if applies lower gs t then merge m (t_params t) else m)"
  by (auto simp: applies_def list_ex_iff Let_def)

lemma foldl_filter: "foldl (\<lambda>m t. if P t then f m t else m) m ts = foldl f m (filter P ts)"
  by (induction ts arbitrary: m) auto

lemma preview_is_merge: "preview_template lower gs ts = merge_templates lower gs ts"
  by (simp add: preview_template_def merge_templates_def applies_preview foldl_filter Let_def)

lemma map_of_merges:
  "(\<And>t. t \<in> set ts \<Longrightarrow> distinct (map fst (t_params t))) \<Longrightarrow>
    map_of (foldl (\<lambda>m t. merge m (t_params t)) m ts) k =
      (if filter (\<lambda>t. has_field k (t_params t)) ts = [] then map_of m k
       else map_of (t_params (last (filter (\<lambda>t. has_field k (t_params t)) ts))) k)"
proof (induction ts rule: rev_induct)
  case (snoc t ts)
  then show ?case by (auto simp: map_of_merge map_add_def has_field_def split: option.split)
qed simp

text \<open>
  C33: the value that a key of the merged parameters has is the one of the applicable template with
  the highest priority that mentions the key, the last row among equals; without such a template it
  is the one of the default template, if that mentions it, and otherwise the default of the schema.
  A template applies when it is not a default one and is bound to no group or to one of the user's.
  The preview of the administration shows exactly the parameters that the file is built from.
\<close>

theorem template_precedence:
  assumes "\<forall>t \<in> set ts. distinct (map fst (t_params t))"
  shows "map_of (merge_templates lower gs ts) k =
      (case filter (\<lambda>t. applies lower (group_set lower gs) t \<and> has_field k (t_params t)) (sort_key t_priority ts) of
         [] \<Rightarrow> (case find t_is_default ts of
             Some d \<Rightarrow> if has_field k (t_params d) then map_of (t_params d) k else map_of default_rdp_params k
           | None \<Rightarrow> map_of default_rdp_params k)
       | hits \<Rightarrow> map_of (t_params (last hits)) k)
    \<and> preview_template lower gs ts = merge_templates lower gs ts"
proof -
  let ?ap = "filter (applies lower (group_set lower gs)) (sort_key t_priority ts)"
  have d: "distinct (map fst (t_params t))" if "t \<in> set ?ap" for t using that assms by simp
  have dd: "distinct (map fst (t_params d))" if "find t_is_default ts = Some d" for d
    using that assms by (auto simp: find_Some_iff)
  have f: "filter (\<lambda>t. has_field k (t_params t)) ?ap
      = filter (\<lambda>t. applies lower (group_set lower gs) t \<and> has_field k (t_params t)) (sort_key t_priority ts)"
    by (simp add: conj_commute)
  have M: "map_of (merge_templates lower gs ts) k = (if filter (\<lambda>t. has_field k (t_params t)) ?ap = []
      then map_of (case find t_is_default ts of Some d \<Rightarrow> merge default_rdp_params (t_params d) | None \<Rightarrow> default_rdp_params) k
      else map_of (t_params (last (filter (\<lambda>t. has_field k (t_params t)) ?ap))) k)"
    unfolding merge_templates_def Let_def by (rule map_of_merges) (rule d)
  have B: "map_of (case find t_is_default ts of Some d \<Rightarrow> merge default_rdp_params (t_params d) | None \<Rightarrow> default_rdp_params) k
      = (case find t_is_default ts of
             Some d \<Rightarrow> if has_field k (t_params d) then map_of (t_params d) k else map_of default_rdp_params k
           | None \<Rightarrow> map_of default_rdp_params k)"
    using dd by (auto simp: map_of_merge map_add_def has_field_def split: option.split)
  show ?thesis unfolding preview_is_merge M B f
    by (simp split: list.split)
qed

definition ref_template :: "int \<Rightarrow> bool \<Rightarrow> jobj \<Rightarrow> RdpTemplate" where
  "ref_template p d ps = \<lparr>t_id = nat p, t_name = [], t_is_default = d, t_priority = p, t_params = ps, t_groups = []\<rparr>"

theorem template_precedence_witness:
  "map_of (merge_templates id [] [ref_template 9 False [(lit ''x'', JInt 9)], ref_template 4 False [(lit ''x'', JInt 4)]]) (lit ''x'')
    = Some (JInt 9)"
proof -
  let ?ts = "[ref_template 9 False [(lit ''x'', JInt 9)], ref_template 4 False [(lit ''x'', JInt 4)]]"
  have "\<forall>t \<in> set ?ts. distinct (map fst (t_params t))" by (simp add: ref_template_def)
  from template_precedence [OF this, of id "[]" "lit ''x''"] show ?thesis
    by (simp add: ref_template_def applies_def has_field_def)
qed

text \<open>Lines of the file.\<close>

lemma split_on_sep: "split_on sep (a @ sep # b) = split_on sep a @ split_on sep b"
  by (induction a) (auto split: list.split)

lemma split_on_lines: "xs \<noteq> [] \<Longrightarrow> split_on sep (join [sep] xs @ [sep]) = concat (map (split_on sep) xs) @ [[]]"
proof (induction "[sep]" xs rule: join.induct)
  case (2 x)
  then show ?case using split_on_sep [of sep x "[]"] by simp
qed (simp_all add: split_on_sep)

definition clean_param :: "(json \<Rightarrow> ustr) \<Rightarrow> ustr \<times> json \<Rightarrow> bool" where
  "clean_param show = (\<lambda>(k, v). 10 \<notin> set k \<and> 58 \<notin> set k \<and> 10 \<notin> set (py_format show v))"

lemma int_str_no_newline: "10 \<notin> set (int_str i)"
  using nat_str_digits [of 10] by (auto simp: int_str_def)

lemma to_line_key: "\<exists>rest. to_line show k v = k @ 58 # rest"
  by (auto simp: to_line_def lit_eval split: json.split)

lemma clean_line: "clean_param show (k, v) \<Longrightarrow> 10 \<notin> set (to_line show k v)"
  by (auto simp: clean_param_def to_line_def lit_eval int_str_no_newline split: json.splits)

lemma merge_clean:
  assumes "list_all (clean_param show) a" and "list_all (clean_param show) b"
  shows "list_all (clean_param show) (merge a b)"
proof -
  have s: "list_all (clean_param show) (set_field k v d)" if "list_all (clean_param show) d" "clean_param show (k, v)" for k v d
    using that by (induction k v d rule: set_field.induct) auto
  show ?thesis using assms by (induction b arbitrary: a) (auto simp: merge_def s)
qed

lemma default_clean: "list_all (clean_param show) default_rdp_params"
  by (simp add: default_rdp_params_def RDP_PARAM_SCHEMA_def lit_eval clean_param_def py_format_def int_str_no_newline)

lemma merge_templates_clean:
  assumes "\<forall>t \<in> set ts. list_all (clean_param show) (t_params t)"
  shows "list_all (clean_param show) (merge_templates lower gs ts)"
proof -
  have f: "list_all (clean_param show) (foldl (\<lambda>m t. merge m (t_params t)) m us)"
    if "list_all (clean_param show) m" "\<forall>t \<in> set us. list_all (clean_param show) (t_params t)" for m us
    using that by (induction us arbitrary: m) (simp_all add: merge_clean)
  show ?thesis unfolding merge_templates_def Let_def using assms
    by (intro f) (auto simp: find_Some_iff default_clean merge_clean split: option.split)
qed

lemma merge_templates_distinct: "distinct (map fst (merge_templates lower gs ts))"
proof -
  have f: "distinct (map fst (foldl (\<lambda>m t. merge m (t_params t)) m us))" if "distinct (map fst m)" for m us
    using that by (induction us arbitrary: m) (simp_all add: distinct_merge)
  show ?thesis unfolding merge_templates_def Let_def
    by (intro f) (auto simp: distinct_default distinct_merge split: option.split)
qed

lemma lines_with_key:
  assumes "distinct (map fst m)" and "(K, V) \<in> set m" and "\<forall>p \<in> set m. 58 \<notin> set (fst p)"
  shows "filter (starts_with (K @ [58])) (map (\<lambda>(k, v). to_line show k v) m) = [to_line show K V]"
proof -
  have s: "starts_with (K @ [58]) (to_line show k v) \<longleftrightarrow> k = K" if "(k, v) \<in> set m" for k v
  proof
    assume a: "starts_with (K @ [58]) (to_line show k v)"
    obtain r where "to_line show k v = k @ 58 # r" using to_line_key by blast
    with starts_withE [OF a] obtain r' where "K @ 58 # r' = k @ 58 # r" by auto
    then have "split_once 58 (K @ 58 # r') = split_once 58 (k @ 58 # r)" by simp
    moreover have "58 \<notin> set K" "58 \<notin> set k" using assms(2,3) that by fastforce+
    ultimately show "k = K" by (simp add: split_once_append)
  next
    assume "k = K"
    then show "starts_with (K @ [58]) (to_line show k v)"
      using to_line_key by (metis append.assoc append_Cons append_Nil starts_with_append)
  qed
  have "filter (\<lambda>p. fst p = K) m = [(K, V)]" using assms(1,2)
    by (induction m) (auto simp: filter_empty_conv image_iff)
  moreover have "filter (starts_with (K @ [58])) (map (\<lambda>(k, v). to_line show k v) m)
      = map (\<lambda>(k, v). to_line show k v) (filter (\<lambda>p. fst p = K) m)"
    unfolding filter_map using s by (intro arg_cong [where f = "map _"] filter_cong) auto
  ultimately show ?thesis by simp
qed

lemma content_lines:
  "split_on 10 (build_rdp_content show lower ts gs host port token)
    = concat (map (split_on 10) (map (\<lambda>(k, v). to_line show k v)
        (merge (merge_templates lower gs ts) (system_params show host port token)))) @ [[]]"
proof -
  have "merge a (system_params show host port token) \<noteq> []" for a
    using fst_merge [of a "system_params show host port token"] by (auto simp: system_params_def)
  then have "map (\<lambda>(k, v). to_line show k v) (merge a (system_params show host port token)) \<noteq> []" for a by simp
  from split_on_lines [OF this] show ?thesis by (simp only: build_rdp_content_def Let_def)
qed

lemma system_params_keys:
  "distinct (map fst (system_params show host port token))"
  "\<forall>p \<in> set (system_params show host port token). 10 \<notin> set (fst p) \<and> 58 \<notin> set (fst p)"
  by (simp_all add: system_params_def lit_eval)

lemma in_merged:
  assumes "distinct (map fst a)" and "distinct (map fst b)"
  shows "(K, V) \<in> set (merge a b) \<longleftrightarrow> (K, V) \<in> set b \<or> K \<notin> fst ` set b \<and> (K, V) \<in> set a"
  using map_of_eq_Some_iff [OF assms(1), of K V] map_of_eq_Some_iff [OF assms(2), of K V]
    map_of_eq_Some_iff [OF distinct_merge [OF assms(1)], of b K V] map_of_eq_None_iff [of b K]
  by (auto simp only: map_of_merge [OF assms(2)] map_add_Some_iff)



end
