(* ===== verification/Servers.thy ===== *)
theory Servers
  imports Config Uuid
begin

text \<open>
  The servers that users may reach: the table (\<^verbatim>\<open>src/libs/db/models/server.py\<close>) and the routes that
  manage it (\<^verbatim>\<open>src/services/admin/routes/servers.py\<close>). A table is the list of its rows. A request body
  has passed the limits of its model when the handler runs; these are part of the handler here. The
  order of a listing, which the collation of the database decides, and fresh identifiers are
  parameters. What a listing adds from the cache of group names is left out.
\<close>

section \<open>The table\<close>

record RdpServer =
  sv_id :: nat
  sv_tech_name :: ustr
  sv_display_name :: ustr
  sv_address :: ustr
  sv_port :: int
  sv_enabled :: bool
  sv_sort_order :: int
  sv_groups :: "nat list"

definition find_server :: "nat \<Rightarrow> RdpServer list \<Rightarrow> RdpServer option" where
  "find_server sid rows = find (\<lambda>r. sv_id r = sid) rows"

definition modify_server :: "nat \<Rightarrow> (RdpServer \<Rightarrow> RdpServer) \<Rightarrow> RdpServer list \<Rightarrow> RdpServer list" where
  "modify_server sid f rows = map (\<lambda>r. if sv_id r = sid then f r else r) rows"

text \<open>The widths of the columns; the driver refuses a value that does not fit.\<close>

definition server_fits :: "RdpServer \<Rightarrow> bool" where
  "server_fits s \<longleftrightarrow> length (sv_tech_name s) \<le> 64 \<and> length (sv_display_name s) \<le> 255 \<and> length (sv_address s) \<le> 255
     \<and> sv_sort_order s \<in> {- (2 ^ 31)..<2 ^ 31}"

text \<open>
  A commit of a new or changed row, against the other rows. Each refusal of the table is a duplicate
  key, also the second binding of a group.
\<close>

definition commit_server :: "RdpServer \<Rightarrow> RdpServer list \<Rightarrow> unit result" where
  "commit_server s others =
    (if \<not> server_fits s then Inl DataError
     else if list_ex (\<lambda>r. sv_tech_name r = sv_tech_name s \<or> sv_id r = sv_id s) others \<or> \<not> distinct (sv_groups s)
     then Inl IntegrityError else Inr ())"

definition handle_integrity_error :: "'a result \<Rightarrow> 'a result" where
  "handle_integrity_error r = (if r = Inl IntegrityError then Inl (HTTPException 409) else r)"

section \<open>Addresses and groups\<close>

text \<open>The pattern \<^verbatim>\<open>^(?P<host>[^:]+):(?P<port>\d{1,5})$\<close> on a text without surrounding spaces.\<close>

definition addr_port :: "ustr \<Rightarrow> (ustr \<times> ustr) option" where
  "addr_port raw = (case split_once 58 raw of (host, port) \<Rightarrow>
     if 58 \<in> set raw \<and> host \<noteq> [] \<and> 1 \<le> length port \<and> length port \<le> 5 \<and> list_all (\<lambda>c. decimal_digit c \<noteq> None) port
     then Some (host, port) else None)"

definition split_address :: "ustr \<Rightarrow> int option \<Rightarrow> (ustr \<times> int) result" where
  "split_address address port =
    (let raw = strip address in
     if raw = [] then Inl (HTTPException 400)
     else case addr_port raw of
       Some (h, p) \<Rightarrow> bind_result (py_int p) (\<lambda>n.
         if n < 1 \<or> 65535 < n then Inl (HTTPException 400) else Inr (strip h, n))
     | None \<Rightarrow> (case port of
         None \<Rightarrow> Inr (raw, 3389)
       | Some q \<Rightarrow> if q < 1 \<or> 65535 < q then Inl (HTTPException 400) else Inr (raw, q)))"

fun parse_group_guids :: "ustr list \<Rightarrow> nat list result" where
  "parse_group_guids [] = Inr []"
| "parse_group_guids (v # vs) =
    (let s = strip v in
     if s = [] then parse_group_guids vs
     else case uuid_of s of
       Inl e \<Rightarrow> Inl (HTTPException 400)
     | Inr u \<Rightarrow> bind_result (parse_group_guids vs) (\<lambda>us. Inr (u # us)))"

definition server_id :: "ustr \<Rightarrow> nat result" where
  "server_id text = (case uuid_of text of Inr u \<Rightarrow> Inr u | Inl e \<Rightarrow> Inl (HTTPException 400))"

section \<open>The routes\<close>

record ServerCreate =
  sc_tech_name :: ustr
  sc_display_name :: ustr
  sc_address :: ustr
  sc_port :: "int option"
  sc_enabled :: bool
  sc_sort_order :: int
  sc_groups :: "ustr list"

record ServerUpdate =
  su_tech_name :: "ustr option"
  su_display_name :: "ustr option"
  su_address :: "ustr option"
  su_port :: "int option"
  su_enabled :: "bool option"
  su_sort_order :: "int option"
  su_groups :: "ustr list option"

definition text_between :: "nat \<Rightarrow> ustr option \<Rightarrow> bool" where
  "text_between n t = (case t of None \<Rightarrow> True | Some s \<Rightarrow> 1 \<le> length s \<and> length s \<le> n)"

definition port_ok :: "int option \<Rightarrow> bool" where
  "port_ok p = (case p of None \<Rightarrow> True | Some n \<Rightarrow> 1 \<le> n \<and> n \<le> 65535)"

definition create_valid_server :: "ServerCreate \<Rightarrow> bool" where
  "create_valid_server b \<longleftrightarrow> text_between 64 (Some (sc_tech_name b)) \<and> text_between 255 (Some (sc_display_name b))
     \<and> text_between 255 (Some (sc_address b)) \<and> port_ok (sc_port b)"

definition update_valid_server :: "ServerUpdate \<Rightarrow> bool" where
  "update_valid_server b \<longleftrightarrow> text_between 64 (su_tech_name b) \<and> text_between 255 (su_display_name b)
     \<and> text_between 255 (su_address b) \<and> port_ok (su_port b)"

definition list_servers :: "(RdpServer list \<Rightarrow> RdpServer list) \<Rightarrow> RdpServer list \<Rightarrow> RdpServer list" where
  "list_servers order_by rows = order_by rows"

definition get_server :: "ustr \<Rightarrow> RdpServer list \<Rightarrow> RdpServer result" where
  "get_server text rows = bind_result (server_id text) (\<lambda>sid.
     case find_server sid rows of None \<Rightarrow> Inl (HTTPException 404) | Some s \<Rightarrow> Inr s)"

definition create_server :: "nat \<Rightarrow> ServerCreate \<Rightarrow> (RdpServer list, RdpServer) eff" where
  "create_server uid body rows =
    (if \<not> create_valid_server body then (Inl (HTTPException 422), rows)
     else case bind_result (split_address (sc_address body) (sc_port body)) (\<lambda>hp.
          bind_result (parse_group_guids (sc_groups body)) (\<lambda>groups.
          let s = \<lparr>sv_id = uid, sv_tech_name = strip (sc_tech_name body), sv_display_name = strip (sc_display_name body),
              sv_address = fst hp, sv_port = snd hp, sv_enabled = sc_enabled body, sv_sort_order = sc_sort_order body,
              sv_groups = groups\<rparr> in
          bind_result (handle_integrity_error (commit_server s rows)) (\<lambda>_. Inr s))) of
       Inl e \<Rightarrow> (Inl e, rows)
     | Inr s \<Rightarrow> (Inr s, rows @ [s]))"

text \<open>The identifiers are read one after the other; one that is none is skipped and keeps its place.\<close>

fun reorder_from :: "nat \<Rightarrow> ustr list \<Rightarrow> RdpServer list \<Rightarrow> RdpServer list" where
  "reorder_from i [] rows = rows"
| "reorder_from i (sid # order) rows =
    reorder_from (Suc i) order (case uuid_of (strip sid) of
        Inl e \<Rightarrow> rows
      | Inr uid \<Rightarrow> modify_server uid (\<lambda>r. r\<lparr>sv_sort_order := int i\<rparr>) rows)"

definition reorder_servers :: "ustr list \<Rightarrow> (RdpServer list, unit) eff" where
  "reorder_servers order rows =
    (if order = [] then (Inl (HTTPException 422), rows) else (Inr (), reorder_from 0 order rows))"

definition moved_address :: "ServerUpdate \<Rightarrow> RdpServer \<Rightarrow> RdpServer result" where
  "moved_address body s =
    (if su_address body = None \<and> su_port body = None then Inr s
     else bind_result (split_address
         (case su_address body of Some a \<Rightarrow> if a \<noteq> [] then a else sv_address s | None \<Rightarrow> sv_address s)
         (case su_port body of Some p \<Rightarrow> Some p | None \<Rightarrow> Some (sv_port s)))
       (\<lambda>hp. Inr (s\<lparr>sv_address := fst hp, sv_port := snd hp\<rparr>)))"

definition updated_server :: "ServerUpdate \<Rightarrow> RdpServer \<Rightarrow> RdpServer result" where
  "updated_server body s =
    bind_result (moved_address body s) (\<lambda>s.
    let s = (case su_tech_name body of Some n \<Rightarrow> s\<lparr>sv_tech_name := strip n\<rparr> | None \<Rightarrow> s);
        s = (case su_display_name body of Some n \<Rightarrow> s\<lparr>sv_display_name := strip n\<rparr> | None \<Rightarrow> s);
        s = (case su_enabled body of Some b \<Rightarrow> s\<lparr>sv_enabled := b\<rparr> | None \<Rightarrow> s);
        s = (case su_sort_order body of Some i \<Rightarrow> s\<lparr>sv_sort_order := i\<rparr> | None \<Rightarrow> s) in
    case su_groups body of
      None \<Rightarrow> Inr s
    | Some gs \<Rightarrow> bind_result (parse_group_guids gs) (\<lambda>groups. Inr (s\<lparr>sv_groups := groups\<rparr>)))"

definition update_server :: "ustr \<Rightarrow> ServerUpdate \<Rightarrow> (RdpServer list, RdpServer) eff" where
  "update_server text body rows =
    (if \<not> update_valid_server body then (Inl (HTTPException 422), rows)
     else case bind_result (get_server text rows) (\<lambda>s0.
          bind_result (updated_server body s0) (\<lambda>s.
          bind_result (handle_integrity_error (commit_server s (filter (\<lambda>r. sv_id r \<noteq> sv_id s0) rows))) (\<lambda>_. Inr s))) of
       Inl e \<Rightarrow> (Inl e, rows)
     | Inr s \<Rightarrow> (Inr s, modify_server (sv_id s) (\<lambda>_. s) rows))"

definition delete_server :: "ustr \<Rightarrow> (RdpServer list, unit) eff" where
  "delete_server text rows = (case get_server text rows of
      Inl e \<Rightarrow> (Inl e, rows)
    | Inr s \<Rightarrow> (Inr (), filter (\<lambda>r. sv_id r \<noteq> sv_id s) rows))"

definition set_visibility :: "ustr \<Rightarrow> bool \<Rightarrow> (RdpServer list, RdpServer) eff" where
  "set_visibility text enabled rows = (case get_server text rows of
      Inl e \<Rightarrow> (Inl e, rows)
    | Inr s \<Rightarrow> (Inr (s\<lparr>sv_enabled := enabled\<rparr>), modify_server (sv_id s) (\<lambda>r. r\<lparr>sv_enabled := enabled\<rparr>) rows))"

text \<open>
  Cloning tries five names. After a refused commit the session is rolled back, which expires the
  source row; \<open>expired\<close> is the exception that reading it again raises, if it raises one.
\<close>

definition copy_of :: "RdpServer \<Rightarrow> nat \<Rightarrow> nat \<Rightarrow> RdpServer" where
  "copy_of src uid attempt = src\<lparr>sv_id := uid,
     sv_tech_name := sv_tech_name src @ lit ''-copy'' @ (if attempt = 1 then [] else lit ''-'' @ nat_str attempt),
     sv_display_name := sv_display_name src @ [32, 40, 1082, 1086, 1087, 1080, 1103, 41]\<rparr>"

fun clone_from :: "exn option \<Rightarrow> (nat \<Rightarrow> nat) \<Rightarrow> RdpServer \<Rightarrow> nat list \<Rightarrow> (RdpServer list, RdpServer) eff" where
  "clone_from expired uids src [] rows = (Inl (HTTPException 409), rows)"
| "clone_from expired uids src (attempt # rest) rows =
    (if attempt \<noteq> 1 \<and> expired \<noteq> None then (Inl (the expired), rows)
     else let new = copy_of src (uids attempt) attempt in
       case commit_server new rows of
         Inr _ \<Rightarrow> (Inr new, rows @ [new])
       | Inl e \<Rightarrow> if e = IntegrityError then clone_from expired uids src rest rows else (Inl e, rows))"

definition clone_server :: "exn option \<Rightarrow> (nat \<Rightarrow> nat) \<Rightarrow> ustr \<Rightarrow> (RdpServer list, RdpServer) eff" where
  "clone_server expired uids text rows = (case get_server text rows of
      Inl e \<Rightarrow> (Inl e, rows)
    | Inr src \<Rightarrow> clone_from expired uids src [1, 2, 3, 4, 5] rows)"

section \<open>Addresses\<close>

lemma strip_not_Nil: "s \<noteq> [] \<Longrightarrow> \<not> py_isspace (hd s) \<Longrightarrow> strip s \<noteq> []"
  by (cases s) (auto simp: strip_def dropWhile_eq_Nil_conv)

lemma strip_hd: "strip s \<noteq> [] \<Longrightarrow> \<not> py_isspace (hd (strip s))"
proof -
  define d where "d = dropWhile py_isspace s"
  define m where "m = rev (dropWhile py_isspace (rev d))"
  assume "strip s \<noteq> []"
  then have m: "m \<noteq> []" "strip s = m" by (simp_all add: strip_def d_def m_def)
  have "d = m @ rev (takeWhile py_isspace (rev d))"
    unfolding m_def by (metis rev_append rev_rev_ident takeWhile_dropWhile_id)
  then have "hd m = hd d" "d \<noteq> []" using m(1) by (metis hd_append2, auto)
  then show ?thesis using m(2) hd_dropWhile [of py_isspace s] by (simp add: d_def)
qed

lemma split_address_range:
  "split_address a p = Inr (h, n) \<Longrightarrow> h \<noteq> [] \<and> 1 \<le> n \<and> n \<le> 65535"
proof -
  assume r: "split_address a p = Inr (h, n)"
  then have ne: "strip a \<noteq> []" by (auto simp: split_address_def Let_def split: if_splits)
  show ?thesis
  proof (cases "addr_port (strip a)")
    case None
    with r ne show ?thesis by (auto simp: split_address_def Let_def split: option.splits if_splits)
  next
    case (Some hp)
    obtain h0 p0 where hp: "hp = (h0, p0)" by force
    then have n: "py_int p0 = Inr n" "1 \<le> n" "n \<le> 65535" "h = strip h0"
      using r ne Some by (auto simp: split_address_def Let_def bind_result_Inr split: if_splits)
    have "h0 \<noteq> []" "h0 = takeWhile (\<lambda>c. c \<noteq> 58) (strip a)"
      using Some hp by (auto simp: addr_port_def split_once_def split: if_splits prod.splits)
    then have "hd h0 = hd (strip a)" by (cases "strip a") (auto split: if_splits)
    then show ?thesis using n strip_hd [OF ne] strip_not_Nil [OF \<open>h0 \<noteq> []\<close>] by simp
  qed
qed

lemma ascii_digit: "48 \<le> c \<Longrightarrow> c \<le> 57 \<Longrightarrow> decimal_digit c \<noteq> None"
  using decimal_digit_ascii [of "c - 48"] by simp

lemma length_nat_str: "n < 10 ^ Suc k \<Longrightarrow> length (nat_str n) \<le> Suc k"
proof (induction k arbitrary: n)
  case (Suc k)
  then have "n div 10 < 10 ^ Suc k" by (simp add: less_mult_imp_div_less mult.commute)
  with Suc.IH show ?case by (subst nat_str.simps) auto
qed (simp add: nat_str.simps)

text \<open>
  Whatever is typed as an address and a port, a result has a non-empty host and a port from 1
  to 65535. A host without colon and without spaces with an explicit port in this range is split
  into exactly these, whatever the separate port says, and alone it gets the separate port or 3389.
\<close>

lemma split_address_correct:
  shows "(split_address a p = Inr (h, n) \<longrightarrow> h \<noteq> [] \<and> 1 \<le> n \<and> n \<le> 65535)
    \<and> (host \<noteq> [] \<and> list_all (\<lambda>c. c \<noteq> 58 \<and> \<not> py_isspace c) host \<and> 1 \<le> k \<and> k \<le> 65535 \<longrightarrow>
        split_address (host @ lit '':'' @ int_str k) q = Inr (host, k)
        \<and> split_address host (Some k) = Inr (host, k) \<and> split_address host None = Inr (host, 3389))"
proof (intro conjI impI)
  assume a: "split_address a p = Inr (h, n)"
  from split_address_range [OF a] show "h \<noteq> []" "1 \<le> n" "n \<le> 65535" by auto
next
  assume h: "host \<noteq> [] \<and> list_all (\<lambda>c. c \<noteq> 58 \<and> \<not> py_isspace c) host \<and> 1 \<le> k \<and> k \<le> 65535"
  then have st: "strip host = host" "58 \<notin> set host" by (auto intro!: strip_no_space simp: list_all_iff)
  have dig: "int_str k = nat_str (nat k)" using h by (simp add: int_str_def)
  have nd: "list_all (\<lambda>c. decimal_digit c \<noteq> None) (nat_str m)" "list_all (\<lambda>c. \<not> py_isspace c) (nat_str m)" for m
    using nat_str_digits digit_not_space ascii_digit by (fastforce simp: list_all_iff)+
  have "strip (host @ lit '':'' @ int_str k) = host @ 58 # int_str k"
    using h nd(2) [of "nat k"] by (subst strip_no_space) (auto simp: list_all_iff dig lit_eval py_isspace_def py_spaces_def)
  moreover have "nat k < 100000" using h by linarith
  then have "addr_port (host @ 58 # int_str k) = Some (host, int_str k)"
    using h st(2) nd(1) [of "nat k"] length_nat_str [of "nat k" 4] nat_str_not_Nil [of "nat k"]
    by (simp add: addr_port_def split_once_append dig Suc_le_eq)
  ultimately show "split_address (host @ lit '':'' @ int_str k) q = Inr (host, k)"
    using h st by (simp add: split_address_def)
  have "addr_port host = None" using st(2) by (simp add: addr_port_def split_once_def)
  then show "split_address host (Some k) = Inr (host, k)" "split_address host None = Inr (host, 3389)"
    using h st by (simp_all add: split_address_def)
qed

lemma split_address_correct_witness:
  "split_address (lit ''db'' @ lit '':'' @ int_str 22) None = Inr (lit ''db'', 22)"
proof -
  have "lit ''db'' \<noteq> [] \<and> list_all (\<lambda>c. c \<noteq> 58 \<and> \<not> py_isspace c) (lit ''db'') \<and> (1 :: int) \<le> 22 \<and> (22 :: int) \<le> 65535"
    by (simp add: lit_eval py_isspace_def py_spaces_def)
  with split_address_correct [where host = "lit ''db''" and k = 22 and q = None] show ?thesis by blast
qed

section \<open>The table stays in order\<close>

inductive servers_step :: "RdpServer list \<Rightarrow> RdpServer list \<Rightarrow> bool" where
  created: "servers_step rows (snd (create_server uid body rows))"
| updated: "servers_step rows (snd (update_server tx body' rows))"
| reordered: "servers_step rows (snd (reorder_servers order rows))"
| deleted: "servers_step rows (snd (delete_server tx rows))"
| cloned: "servers_step rows (snd (clone_server expired uids tx rows))"
| shown: "servers_step rows (snd (set_visibility tx b rows))"

definition server_ok :: "RdpServer \<Rightarrow> bool" where
  "server_ok s \<longleftrightarrow> sv_address s \<noteq> [] \<and> 1 \<le> sv_port s \<and> sv_port s \<le> 65535 \<and> distinct (sv_groups s)
     \<and> length (sv_tech_name s) \<le> 64 \<and> length (sv_display_name s) \<le> 255 \<and> length (sv_address s) \<le> 255"

definition servers_ok :: "RdpServer list \<Rightarrow> bool" where
  "servers_ok rows \<longleftrightarrow> distinct (map sv_id rows) \<and> distinct (map sv_tech_name rows) \<and> (\<forall>s \<in> set rows. server_ok s)"

lemma commit_server_okD: "commit_server s others = Inr u \<Longrightarrow> server_fits s \<and> distinct (sv_groups s)
    \<and> sv_tech_name s \<notin> sv_tech_name ` set others \<and> sv_id s \<notin> sv_id ` set others"
  by (auto simp: commit_server_def list_ex_iff split: if_splits)

lemma handle_integrity_Inr [simp]: "handle_integrity_error (Inr u) = Inr u" "handle_integrity_error r = Inr u \<longleftrightarrow> r = Inr u"
  by (auto simp: handle_integrity_error_def)

lemma append_server_ok:
  assumes "servers_ok rows" and "commit_server s rows = Inr u" and "sv_address s \<noteq> []" "1 \<le> sv_port s" "sv_port s \<le> 65535"
  shows "servers_ok (rows @ [s])"
  using assms(1,3-) commit_server_okD [OF assms(2)] by (auto simp: servers_ok_def server_ok_def server_fits_def)

lemma modify_server_same:
  assumes "servers_ok rows" and "\<And>s. sv_id (f s) = sv_id s \<and> sv_tech_name (f s) = sv_tech_name s \<and> (server_ok s \<longrightarrow> server_ok (f s))"
  shows "servers_ok (modify_server sid f rows)"
proof -
  have "map sv_id (modify_server sid f rows) = map sv_id rows" "map sv_tech_name (modify_server sid f rows) = map sv_tech_name rows"
    using assms(2) by (simp_all add: modify_server_def)
  moreover have "\<forall>s \<in> set (modify_server sid f rows). server_ok s"
    using assms by (auto simp: modify_server_def servers_ok_def)
  ultimately show ?thesis using assms(1) by (simp only: servers_ok_def)
qed

lemma replace_server_ok:
  assumes "servers_ok rows" and "server_ok s" and "sv_id s \<in> sv_id ` set rows"
    and "sv_tech_name s \<notin> sv_tech_name ` set (filter (\<lambda>r. sv_id r \<noteq> sv_id s) rows)"
  shows "servers_ok (modify_server (sv_id s) (\<lambda>_. s) rows)"
proof -
  have ids: "map sv_id (modify_server (sv_id s) (\<lambda>_. s) rows) = map sv_id rows" by (simp add: modify_server_def)
  have inj: "inj_on sv_tech_name (set rows)" "inj_on sv_id (set rows)" and "distinct rows"
    using assms(1) by (auto simp: servers_ok_def distinct_map)
  have "inj_on (\<lambda>r. sv_tech_name (if sv_id r = sv_id s then s else r)) (set rows)"
  proof (rule inj_onI)
    fix x y assume x: "x \<in> set rows" and y: "y \<in> set rows"
      and eq: "sv_tech_name (if sv_id x = sv_id s then s else x) = sv_tech_name (if sv_id y = sv_id s then s else y)"
    have other: "sv_tech_name r \<noteq> sv_tech_name s" if "r \<in> set rows" "sv_id r \<noteq> sv_id s" for r
    proof
      assume "sv_tech_name r = sv_tech_name s"
      then have "sv_tech_name s \<in> sv_tech_name ` set (filter (\<lambda>r. sv_id r \<noteq> sv_id s) rows)"
        using that by (intro image_eqI [of _ _ r]) simp_all
      with assms(4) show False by contradiction
    qed
    show "x = y"
      using eq other [OF x] other [OF y] inj_onD [OF inj(1) _ x y] inj_onD [OF inj(2) _ x y]
      by (cases "sv_id x = sv_id s"; cases "sv_id y = sv_id s") auto
  qed
  with \<open>distinct rows\<close> have names: "distinct (map sv_tech_name (modify_server (sv_id s) (\<lambda>_. s) rows))"
    by (simp add: modify_server_def distinct_map comp_def)
  have "\<forall>r \<in> set (modify_server (sv_id s) (\<lambda>_. s) rows). server_ok r"
    using assms(1,2) by (auto simp: modify_server_def servers_ok_def)
  with ids names assms(1) show ?thesis by (simp only: servers_ok_def)
qed

lemma find_server_Some: "find_server sid rows = Some s \<Longrightarrow> s \<in> set rows \<and> sv_id s = sid"
  by (auto simp: find_server_def find_Some_iff)

lemma get_server_in: "get_server tx rows = Inr s \<Longrightarrow> s \<in> set rows"
  by (auto simp: get_server_def bind_result_Inr dest: find_server_Some split: option.splits)

lemma updated_server_ok:
  assumes "updated_server body s0 = Inr s" and "server_ok s0"
  shows "sv_id s = sv_id s0 \<and> sv_address s \<noteq> [] \<and> 1 \<le> sv_port s \<and> sv_port s \<le> 65535"
proof -
  obtain s1 where m: "moved_address body s0 = Inr s1"
    and s: "sv_id s = sv_id s1" "sv_address s = sv_address s1" "sv_port s = sv_port s1"
    using assms(1) by (auto simp: updated_server_def bind_result_Inr Let_def split: option.splits)
  have "sv_id s1 = sv_id s0 \<and> sv_address s1 \<noteq> [] \<and> 1 \<le> sv_port s1 \<and> sv_port s1 \<le> 65535"
    using m assms(2) unfolding moved_address_def
    by (auto simp: bind_result_Inr server_ok_def split: if_splits dest!: split_address_range)
  with s show ?thesis by simp
qed

lemma update_server_ok: "servers_ok rows \<Longrightarrow> servers_ok (snd (update_server tx body rows))"
proof (cases "fst (update_server tx body rows)")
  case (Inr s)
  assume ok: "servers_ok rows"
  from Inr obtain s0 u where g: "get_server tx rows = Inr s0" and up: "updated_server body s0 = Inr s"
    and c: "commit_server s (filter (\<lambda>r. sv_id r \<noteq> sv_id s0) rows) = Inr u"
    and run: "snd (update_server tx body rows) = modify_server (sv_id s) (\<lambda>_. s) rows"
    by (auto simp: update_server_def bind_result_Inr split: if_splits sum.splits)
  have s0: "s0 \<in> set rows" "server_ok s0" using get_server_in [OF g] ok by (auto simp: servers_ok_def)
  have "server_ok s" using updated_server_ok [OF up s0(2)] commit_server_okD [OF c] by (auto simp: server_ok_def server_fits_def)
  then show ?thesis unfolding run
    using ok updated_server_ok [OF up s0(2)] commit_server_okD [OF c] s0(1) by (intro replace_server_ok) auto
qed (auto simp: update_server_def split: sum.splits)

lemma reorder_from_ok: "servers_ok rows \<Longrightarrow> servers_ok (reorder_from i order rows)"
proof (induction i order rows rule: reorder_from.induct)
  case (2 i sid order rows)
  have "servers_ok (modify_server uid (\<lambda>r. r\<lparr>sv_sort_order := int i\<rparr>) rows)" for uid
    using 2(2) by (rule modify_server_same) (simp add: server_ok_def)
  with 2 show ?case by (simp split: sum.split)
qed simp

lemma clone_from_ok: "servers_ok rows \<Longrightarrow> src \<in> set rows \<Longrightarrow> servers_ok (snd (clone_from expired uids src attempts rows))"
proof (induction attempts)
  case (Cons n ns)
  then have src: "server_ok src" by (simp add: servers_ok_def)
  have "servers_ok (rows @ [copy_of src (uids n) n])" if "commit_server (copy_of src (uids n) n) rows = Inr ()"
    using Cons.prems(1) that src by (intro append_server_ok) (auto simp: copy_of_def server_ok_def)
  then show ?case using Cons by (cases "commit_server (copy_of src (uids n) n) rows"; cases expired) (auto simp: Let_def simp del: One_nat_def)
qed simp

lemma servers_step_ok: "servers_step rows rows' \<Longrightarrow> servers_ok rows \<Longrightarrow> servers_ok rows'"
proof (induction rule: servers_step.induct)
  case (created rows uid body)
  then show ?case
    by (auto simp: create_server_def bind_result_Inr Let_def split: sum.splits intro!: append_server_ok dest!: split_address_range)
next
  case (updated rows tx body')
  then show ?case by (rule update_server_ok)
next
  case (reordered rows order)
  then show ?case by (simp add: reorder_servers_def reorder_from_ok)
next
  case (deleted rows tx)
  then show ?case by (auto simp: delete_server_def servers_ok_def distinct_map_filter split: sum.split)
next
  case (cloned rows expired uids tx)
  then show ?case by (auto simp: clone_server_def simp del: clone_from.simps intro: clone_from_ok dest: get_server_in split: sum.split)
next
  case (shown rows tx b)
  then show ?case by (auto simp: set_visibility_def server_ok_def intro!: modify_server_same split: sum.split)
qed

text \<open>
  C35: whatever sequence of creations, updates, reorderings, deletions, clones and changes of
  visibility runs on the table, with whatever answers, identifiers and technical names stay unique,
  and every server has an address, a port from 1 to 65535 and no group twice.
\<close>

theorem servers_kept_in_order:
  assumes "servers_ok rows" and "servers_step\<^sup>*\<^sup>* rows rows'"
  shows "servers_ok rows'"
  using assms(2,1) by induction (auto intro: servers_step_ok)

definition ref_server_body :: "string \<Rightarrow> ServerCreate" where
  "ref_server_body name = \<lparr>sc_tech_name = lit name, sc_display_name = lit name, sc_address = lit ''host:3390'', sc_port = None,
     sc_enabled = True, sc_sort_order = 0, sc_groups = []\<rparr>"

theorem servers_kept_in_order_witness:
  "servers_ok (snd (clone_server None (\<lambda>n. 2) (uuid_str 1) (snd (create_server 1 (ref_server_body ''a'') []))))"
proof (rule servers_kept_in_order)
  show "servers_ok []" by (simp add: servers_ok_def)
  show "servers_step\<^sup>*\<^sup>* [] (snd (clone_server None (\<lambda>n. 2) (uuid_str 1) (snd (create_server 1 (ref_server_body ''a'') []))))"
    by (meson rtranclp.rtrancl_into_rtrancl rtranclp.rtrancl_refl servers_step.cloned servers_step.created)
qed

section \<open>Cloning\<close>

lemma copy_id [simp]: "sv_id (copy_of src u n) = u"
  by (simp add: copy_of_def)

lemma clone_from_eq:
  assumes "\<forall>n \<in> set attempts. server_fits (copy_of src (uids n) n) \<and> uids n \<notin> sv_id ` set rows" and "distinct (sv_groups src)"
  shows "clone_from None uids src attempts rows =
    (case find (\<lambda>n. sv_tech_name (copy_of src (uids n) n) \<notin> sv_tech_name ` set rows) attempts of
       None \<Rightarrow> (Inl (HTTPException 409), rows)
     | Some n \<Rightarrow> (Inr (copy_of src (uids n) n), rows @ [copy_of src (uids n) n]))"
  using assms
proof (induction attempts)
  case (Cons n ns)
  have "list_ex (\<lambda>r. sv_tech_name r = sv_tech_name (copy_of src (uids n) n) \<or> sv_id r = sv_id (copy_of src (uids n) n)) rows
      \<longleftrightarrow> sv_tech_name (copy_of src (uids n) n) \<in> sv_tech_name ` set rows"
    using Cons.prems(1) copy_id by (auto simp: list_ex_iff intro: rev_image_eqI)
  moreover have "distinct (sv_groups (copy_of src (uids n) n))" using Cons.prems(2) by (simp add: copy_of_def)
  ultimately show ?case using Cons by (simp add: Let_def commit_server_def)
qed simp

text \<open>
  When the names fit their columns, a clone is a new server with the first of the five names
  that no server has, and with the address, the groups and the visibility of its source; the answer is
  409 when all five are taken. This needs the source to be readable after a refused attempt. With a
  session that expires its rows when it is rolled back and cannot read them again, the second clone
  of a server fails with the exception of that read.
\<close>

lemma clone_takes_free_name:
  assumes "get_server tx rows = Inr src" and "distinct (sv_groups src)"
    and "\<forall>n \<in> {1..5}. server_fits (copy_of src (uids n) n) \<and> uids n \<notin> sv_id ` set rows"
  shows "clone_server None uids tx rows =
      (case find (\<lambda>n. sv_tech_name (copy_of src (uids n) n) \<notin> sv_tech_name ` set rows) [1, 2, 3, 4, 5] of
         None \<Rightarrow> (Inl (HTTPException 409), rows)
       | Some n \<Rightarrow> (Inr (copy_of src (uids n) n), rows @ [copy_of src (uids n) n]))
    \<and> clone_server (Some e) uids tx (rows @ [copy_of src u 1]) = (Inl e, rows @ [copy_of src u 1])"
proof
  have "\<forall>n \<in> set [1, 2, 3, 4, 5]. server_fits (copy_of src (uids n) n) \<and> uids n \<notin> sv_id ` set rows"
    using assms(3) by simp
  from clone_from_eq [OF this assms(2)] show "clone_server None uids tx rows =
      (case find (\<lambda>n. sv_tech_name (copy_of src (uids n) n) \<notin> sv_tech_name ` set rows) [1, 2, 3, 4, 5] of
         None \<Rightarrow> (Inl (HTTPException 409), rows)
       | Some n \<Rightarrow> (Inr (copy_of src (uids n) n), rows @ [copy_of src (uids n) n]))"
    using assms(1) by (simp add: clone_server_def)
  have f: "find_server sid (rows @ [c]) = Some src" if "find_server sid rows = Some src" for sid c
    using that by (auto simp: find_server_def) (induction rows, auto split: if_splits)
  obtain sid where "server_id tx = Inr sid" "find_server sid rows = Some src"
    using assms(1) by (auto simp: get_server_def bind_result_Inr split: option.splits)
  then have "get_server tx (rows @ [copy_of src u 1]) = Inr src"
    using f by (simp add: get_server_def)
  moreover have "server_fits (copy_of src (uids 1) 1)" using assms(3) by simp
  moreover have "sv_tech_name (copy_of src u 1) = sv_tech_name (copy_of src (uids 1) 1)" by (simp add: copy_of_def)
  then have "list_ex (\<lambda>r. sv_tech_name r = sv_tech_name (copy_of src (uids 1) 1) \<or> sv_id r = sv_id (copy_of src (uids 1) 1))
      (rows @ [copy_of src u 1])" by simp
  then have "commit_server (copy_of src (uids 1) 1) (rows @ [copy_of src u 1]) = Inl IntegrityError"
    using calculation(2) by (simp only: commit_server_def if_True simp_thms if_False)
  ultimately show "clone_server (Some e) uids tx (rows @ [copy_of src u 1]) = (Inl e, rows @ [copy_of src u 1])"
    by (simp add: clone_server_def Let_def)
qed

lemma clone_takes_free_name_witness:
  "let src = \<lparr>sv_id = 3, sv_tech_name = lit ''a'', sv_display_name = lit ''A'', sv_address = lit ''h'', sv_port = 22, sv_enabled = True,
        sv_sort_order = 0, sv_groups = []\<rparr>;
       first = copy_of src 7 1 in
    sv_tech_name (hd (rev (snd (clone_server None (\<lambda>n. 7 + n) (uuid_str 3) [src, first])))) = lit ''a-copy-2''
    \<and> fst (clone_server (Some OSError) (\<lambda>n. 7 + n) (uuid_str 3) [src, first]) = Inl OSError"
proof -
  let ?src = "\<lparr>sv_id = 3, sv_tech_name = lit ''a'', sv_display_name = lit ''A'', sv_address = lit ''h'', sv_port = 22, sv_enabled = True,
        sv_sort_order = 0, sv_groups = []\<rparr>"
  have g: "get_server (uuid_str 3) (?src # r) = Inr ?src" for r
    by (simp add: get_server_def server_id_def uuid_of_uuid_str find_server_def)
  have fit: "\<forall>n \<in> {1..5}. server_fits (copy_of ?src (7 + n) n)"
  proof
    fix n :: nat assume "n \<in> {1..5}"
    then have "length (nat_str n) \<le> 1" using length_nat_str [of n 0] by simp
    then show "server_fits (copy_of ?src (7 + n) n)" by (simp add: server_fits_def copy_of_def)
  qed
  have n2: "sv_tech_name (copy_of ?src i 2) = lit ''a-copy-2''" for i
    by (simp add: copy_of_def nat_str.simps lit_eval)
  have n1: "sv_tech_name (copy_of ?src i 1) = lit ''a-copy''" for i by (simp add: copy_of_def lit_eval)
  have ne: "lit ''a-copy-2'' \<noteq> lit ''a-copy''" "lit ''a-copy-2'' \<noteq> lit ''a''" by (simp_all add: lit_eval)
  have f2: "\<forall>n \<in> {1..5}. server_fits (copy_of ?src (7 + n) n) \<and> 7 + n \<notin> sv_id ` set [?src, copy_of ?src 7 1]"
    using fit by (auto simp: copy_of_def)
  have f1: "\<forall>n \<in> {1..5}. server_fits (copy_of ?src (7 + n) n) \<and> 7 + n \<notin> sv_id ` set [?src]"
    using fit by auto
  have d: "distinct (sv_groups ?src)" by simp
  have "find (\<lambda>n. sv_tech_name (copy_of ?src (7 + n) n) \<notin> sv_tech_name ` set [?src, copy_of ?src 7 1]) [1, 2, 3, 4, 5] = Some 2"
    using ne by (simp add: n1 [simplified] n2)
  with clone_takes_free_name [OF g [of "[copy_of ?src 7 1]"] d f2] clone_takes_free_name [OF g [of "[]"] d f1, of OSError 7]
  show ?thesis by (simp add: Let_def n2)
qed

end
