(* ===== verification/Portal.thy ===== *)
theory Portal
  imports Admin_Users Ldap_Auth Rdp_File Servers
begin

text \<open>
  The portal (\<^verbatim>\<open>src/services/portal\<close>): logging in against the directory and logging out
  (\<^verbatim>\<open>routes/auth.py\<close>), the servers a user sees and the download of a connection file
  (\<^verbatim>\<open>routes/servers.py\<close>), and taking over changed settings (\<^verbatim>\<open>app.py\<close>). The state is the Redis
  database, the settings of the process, the calls to the directory, and the authenticator and the
  session store that a reload changes. Tokens, nonces and the clock are arguments, and so are the tables
  that a request reads. The two limits of the login are integers, as the settings page stores them.
\<close>

section \<open>State\<close>

record 'db portal =
  p_rdb :: 'db
  p_settings :: settings
  p_calls :: "ldap_event list"
  p_ldap_auth :: "LDAPAuthenticator option"
  p_store :: "SessionStore option"

definition on_redis :: "('db, 'a) eff \<Rightarrow> ('db portal, 'a) eff" where
  "on_redis m w = (case m (p_rdb w) of (r, db) \<Rightarrow> (r, w\<lparr>p_rdb := db\<rparr>))"

definition on_settings :: "(settings, 'a) eff \<Rightarrow> ('db portal, 'a) eff" where
  "on_settings m w = (case m (p_settings w) of (r, s) \<Rightarrow> (r, w\<lparr>p_settings := s\<rparr>))"

definition on_directory :: "'a ldap_op \<Rightarrow> ('db portal, 'a) eff" where
  "on_directory m w = (case m (p_calls w) of (r, t) \<Rightarrow> (r, w\<lparr>p_calls := t\<rparr>))"

text \<open>What start-up has put into the application, with the session store of the moment.\<close>

definition portal_app :: "AppConfig option \<Rightarrow> 'db portal \<Rightarrow> app_state" where
  "portal_app cfg w = \<lparr>app_config = cfg, app_store = p_store w, app_db = True\<rparr>"

section \<open>Settings\<close>

definition get_portal_name :: "senv \<Rightarrow> (settings, json) eff" where
  "get_portal_name E =
    rbind (get E k_portal) (\<lambda>portal.
    rreturn (case (if portal = [] then JStr (lit ''RDP-Proxy'') else field_or portal (lit ''name'') (JStr (lit ''RDP-Proxy''))) of
        JStr [] \<Rightarrow> JStr (lit ''RDP-Proxy'') | JNull \<Rightarrow> JStr (lit ''RDP-Proxy'')
      | name \<Rightarrow> name))"

definition ttl_field :: "string \<Rightarrow> jobj \<Rightarrow> int \<Rightarrow> int" where
  "ttl_field name ttl old = (case map_of ttl (lit name) of Some (JInt i) \<Rightarrow> i | _ \<Rightarrow> old)"

definition apply_ttl :: "jobj \<Rightarrow> SessionStore \<Rightarrow> SessionStore" where
  "apply_ttl ttl S = S\<lparr>web_ttl := ttl_field ''web_session_ttl'' ttl (web_ttl S),
     rdp_token_ttl := ttl_field ''rdp_token_ttl'' ttl (rdp_token_ttl S),
     web_idle_ttl := ttl_field ''web_idle_ttl'' ttl (web_idle_ttl S)\<rparr>"

definition portal_reload :: "ldap3 \<Rightarrow> senv \<Rightarrow> ('db portal, unit) eff" where
  "portal_reload X E =
    rbind (on_settings (load E)) (\<lambda>_ w.
    (Inr (), w\<lparr>p_ldap_auth := map_option (LDAPAuthenticator_of X) (ldap E (p_settings w)),
       p_store := map_option (apply_ttl (redis_ttl E (p_settings w))) (p_store w)\<rparr>))"

section \<open>Logging in and out\<close>

definition portal_login_page :: "senv \<Rightarrow> AppConfig option \<Rightarrow> request \<Rightarrow> ustr \<Rightarrow> int \<Rightarrow> ('db portal, response) eff" where
  "portal_login_page E cfg rq tok code =
    rbind (on_settings (get_portal_name E)) (\<lambda>name.
    rbind (\<lambda>w. (get_config (portal_app cfg w), w)) (\<lambda>c.
    rreturn \<lparr>status = code, location = None, set_cookies = [(CSRF_COOKIE_NAME,
      if cookie_text rq CSRF_COOKIE_NAME \<noteq> [] then cookie_text rq CSRF_COOKIE_NAME else tok)]\<rparr>))"

text \<open>What a raising \<^verbatim>\<open>authenticate\<close> leads to, whatever the exception is.\<close>

definition login_failed :: "'db redis \<Rightarrow> (ustr \<Rightarrow> ustr) \<Rightarrow> senv \<Rightarrow> AppConfig option \<Rightarrow> request \<Rightarrow> ustr \<Rightarrow> ustr \<Rightarrow> ('db portal, response) eff" where
  "login_failed R lower E cfg rq tok username =
    rbind (\<lambda>w. (Inr (security_params E (p_settings w)), w)) (\<lambda>sec.
    rbind (rlift (bind_result (jitem (JObj sec) (lit ''login_attempts_per_minute'')) jint)) (\<lambda>mx.
    rbind (rlift (bind_result (jitem (JObj sec) (lit ''login_lock_seconds'')) jint)) (\<lambda>ls.
    rbind (on_redis (record_failure R lower portal_limiter (portal_client_ip rq) username mx ls)) (\<lambda>_.
    portal_login_page E cfg rq tok 401))))"

definition login_succeeded :: "'db redis \<Rightarrow> (ustr \<Rightarrow> ustr) \<Rightarrow> AppConfig option \<Rightarrow> SessionStore \<Rightarrow> int \<Rightarrow> ustr \<Rightarrow> bytes \<Rightarrow> ustr \<Rightarrow> request \<Rightarrow> ustr \<Rightarrow> ustr
    \<Rightarrow> LDAPUserInfo \<Rightarrow> ('db portal, response) eff" where
  "login_succeeded R lower cfg store now sid nonce tok rq username password info =
    rbind (on_redis (clear R lower portal_limiter (portal_client_ip rq) username)) (\<lambda>_.
    rbind (on_redis (create_web_session R store sid nonce now (li_username info) password (li_groups info) (li_group_guids info)
      (browser_fingerprint rq))) (\<lambda>web_session_id.
    rbind (\<lambda>w. (get_config (portal_app cfg w), w)) (\<lambda>c.
    rreturn \<lparr>status = 303, location = Some (lit ''/''),
      set_cookies = [(COOKIE_NAME, web_session_id), (CSRF_COOKIE_NAME, tok)]\<rparr>)))"

definition portal_login :: "'db redis \<Rightarrow> ldap3 \<Rightarrow> senv \<Rightarrow> AppConfig option \<Rightarrow> int \<Rightarrow> ustr \<Rightarrow> bytes \<Rightarrow> ustr \<Rightarrow> request \<Rightarrow> ustr \<Rightarrow> ustr \<Rightarrow> ustr
    \<Rightarrow> ('db portal, response) eff" where
  "portal_login R X E cfg now sid nonce tok rq username password csrf_token =
    (let csrf_cookie = cookie_text rq CSRF_COOKIE_NAME; lower = l3_lower X in
     if csrf_cookie = [] \<or> csrf_cookie \<noteq> csrf_token then portal_login_page E cfg rq tok 400
     else
     rbind (\<lambda>w. (get_session_store (portal_app cfg w), w)) (\<lambda>store.
     rbind (on_redis (is_locked R lower portal_limiter (portal_client_ip rq) username)) (\<lambda>locked.
     if locked then portal_login_page E cfg rq tok 429
     else
     rbind (\<lambda>w. (Inr (p_ldap_auth w), w)) (\<lambda>auth.
     case auth of
       None \<Rightarrow> portal_login_page E cfg rq tok 503
     | Some ldap_auth \<Rightarrow>
         rbind (\<lambda>w. case on_directory (authenticate X ldap_auth (strip username) password) w of
             (Inl e, w') \<Rightarrow> (Inr None, w') | (Inr info, w') \<Rightarrow> (Inr (Some info), w')) (\<lambda>user_info.
         case user_info of
           None \<Rightarrow> login_failed R lower E cfg rq tok username
         | Some info \<Rightarrow> login_succeeded R lower cfg store now sid nonce tok rq username password info)))))"

definition portal_logout :: "'db redis \<Rightarrow> AppConfig option \<Rightarrow> request \<Rightarrow> ('db portal, response) eff" where
  "portal_logout R cfg rq =
    rbind (\<lambda>w. (get_session_store (portal_app cfg w), w)) (\<lambda>_.
    rbind (if cookie_text rq COOKIE_NAME \<noteq> [] then on_redis (delete_web_session R (cookie_text rq COOKIE_NAME)) else rreturn ()) (\<lambda>_.
    rreturn \<lparr>status = 303, location = Some (lit ''/''), set_cookies = [(COOKIE_NAME, []), (CSRF_COOKIE_NAME, [])]\<rparr>))"

section \<open>Servers\<close>

definition server_visible :: "(ustr \<Rightarrow> ustr) \<Rightarrow> ustr list \<Rightarrow> ustr list \<Rightarrow> bool" where
  "server_visible lower server_group_guids user_group_guids =
    (if server_group_guids = [] then True
     else group_set lower user_group_guids \<inter> group_set lower server_group_guids \<noteq> {})"

definition server_guids :: "RdpServer \<Rightarrow> ustr list" where
  "server_guids s = map uuid_str (sv_groups s)"

definition list_visible_servers :: "(ustr \<Rightarrow> ustr) \<Rightarrow> (RdpServer list \<Rightarrow> RdpServer list) \<Rightarrow> RdpServer list \<Rightarrow> ustr list \<Rightarrow> RdpServer list" where
  "list_visible_servers lower order_by rows user_group_guids =
    filter (\<lambda>s. server_visible lower (server_guids s) user_group_guids) (order_by (filter sv_enabled rows))"

text \<open>The start page: the servers of the session, or the login page.\<close>

definition index :: "'db redis \<Rightarrow> (ustr \<Rightarrow> ustr) \<Rightarrow> (RdpServer list \<Rightarrow> RdpServer list) \<Rightarrow> senv \<Rightarrow> AppConfig option \<Rightarrow> int \<Rightarrow> round
    \<Rightarrow> RdpServer list \<Rightarrow> request \<Rightarrow> ('db portal, RdpServer list option) eff" where
  "index R lower order_by E cfg now r rows rq =
    rbind (\<lambda>w. on_redis (get_current_session R (portal_app cfg w) now r rq) w) (\<lambda>session.
    rbind (on_settings (get_portal_name E)) (\<lambda>name.
    rreturn (case session of None \<Rightarrow> None
      | Some s \<Rightarrow> Some (list_visible_servers lower order_by rows (ws_group_guids s)))))"

definition rdp_download :: "'db redis \<Rightarrow> (json \<Rightarrow> ustr) \<Rightarrow> (ustr \<Rightarrow> ustr) \<Rightarrow> senv \<Rightarrow> AppConfig option \<Rightarrow> int \<Rightarrow> round \<Rightarrow> ustr \<Rightarrow> bytes
    \<Rightarrow> RdpServer list \<Rightarrow> RdpTemplate list \<Rightarrow> request \<Rightarrow> ustr \<Rightarrow> ('db portal, ustr) eff" where
  "rdp_download R show lower E cfg now r token nonce rows templates rq tech_name =
    rbind (\<lambda>w. on_redis (require_session R (portal_app cfg w) now r rq) w) (\<lambda>session.
    rbind (\<lambda>w. (get_session_store (portal_app cfg w), w)) (\<lambda>store.
    rbind (on_settings (load E)) (\<lambda>_.
    rbind (\<lambda>w. (Inr (proxy_params E (p_settings w)), w)) (\<lambda>proxy.
    case find (\<lambda>s. sv_tech_name s = tech_name) rows of
      None \<Rightarrow> rraise (HTTPException 404)
    | Some s \<Rightarrow>
        if \<not> sv_enabled s then rraise (HTTPException 404)
        else if \<not> server_visible lower (server_guids s) (ws_group_guids session) then rraise (HTTPException 403)
        else
        rbind (on_redis (create_session R store token nonce (ws_username session) (ws_password session)
          (sv_address s) (sv_port s) (Some (uuid_str (sv_id s))) (Some (sv_display_name s)))) (\<lambda>token.
        rbind (rlift (jitem (JObj proxy) (lit ''public_host''))) (\<lambda>host.
        rbind (rlift (jitem (JObj proxy) (lit ''public_port''))) (\<lambda>port.
        rreturn (build_rdp_content show lower templates (ws_group_guids session) host port token))))))))"

section \<open>What a download hands out\<close>

lemma portal_run_simps:
  "rbind m f w = (case m w of (Inl e, w') \<Rightarrow> (Inl e, w') | (Inr a, w') \<Rightarrow> f a w')"
  "rreturn a w = (Inr a, w)" "rraise e w = (Inl e, w)" "rlift q w = (q, w)"
  by (simp_all add: rbind_def rreturn_def rraise_def rlift_def split: sum.split)

text \<open>The session, the row and the settings that an answered download went through.\<close>

lemma rdp_download_okD:
  assumes "rdp_download R show lower E cfg now r token nonce rows templates rq name w = (Inr content, w')"
  shows "\<exists>sess db1 store s settings1 db2 host port.
      require_session R (portal_app cfg w) now r rq (p_rdb w) = (Inr sess, db1) \<and> p_store w = Some store
    \<and> load E (p_settings w) = (Inr (), settings1)
    \<and> find (\<lambda>s. sv_tech_name s = name) rows = Some s \<and> sv_enabled s
    \<and> server_visible lower (server_guids s) (ws_group_guids sess)
    \<and> create_session R store token nonce (ws_username sess) (ws_password sess) (sv_address s) (sv_port s)
        (Some (uuid_str (sv_id s))) (Some (sv_display_name s)) db1 = (Inr token, db2) \<and> p_rdb w' = db2
    \<and> map_of (proxy_params E settings1) (lit ''public_host'') = Some host
    \<and> map_of (proxy_params E settings1) (lit ''public_port'') = Some port
    \<and> content = build_rdp_content show lower templates (ws_group_guids sess) host port token"
proof -
  obtain q1 db1 where 1: "require_session R (portal_app cfg w) now r rq (p_rdb w) = (q1, db1)" by force
  then obtain sess where q1: "q1 = Inr sess" using assms
    by (cases q1) (auto simp: rdp_download_def portal_run_simps on_redis_def)
  let ?w1 = "w\<lparr>p_rdb := db1\<rparr>"
  obtain store where 2: "p_store w = Some store" using assms 1 q1
    by (cases "p_store w") (auto simp: rdp_download_def portal_run_simps on_redis_def get_session_store_def portal_app_def)
  obtain q3 s1 where 3: "load E (p_settings w) = (q3, s1)" by force
  then have q3: "q3 = Inr ()" using assms 1 q1 2
    by (cases q3) (auto simp: rdp_download_def portal_run_simps on_redis_def on_settings_def get_session_store_def portal_app_def)
  obtain s where 4: "find (\<lambda>s. sv_tech_name s = name) rows = Some s" "sv_enabled s"
    "server_visible lower (server_guids s) (ws_group_guids sess)"
    using assms 1 q1 2 3 q3
    by (auto simp: rdp_download_def portal_run_simps on_redis_def on_settings_def get_session_store_def portal_app_def
        split: option.splits if_splits)
  let ?c = "create_session R store token nonce (ws_username sess) (ws_password sess) (sv_address s) (sv_port s)
        (Some (uuid_str (sv_id s))) (Some (sv_display_name s)) db1"
  obtain q5 db2 where 5: "?c = (q5, db2)" by force
  then obtain t where q5: "q5 = Inr t" using assms 1 q1 2 3 q3 4
    by (cases q5) (auto simp: rdp_download_def portal_run_simps on_redis_def on_settings_def get_session_store_def portal_app_def)
  have t: "t = token" using 5 q5 by (auto simp: create_session_def rd_simps Let_def split: prod.splits sum.splits)
  from assms 1 q1 2 3 q3 4 5 q5 t show ?thesis
    by (auto simp: rdp_download_def portal_run_simps on_redis_def on_settings_def get_session_store_def portal_app_def
        split: option.splits sum.splits)
qed

text \<open>
  C4: a connection file is handed out only to a session of the portal, for an enabled server that the
  page lists for the groups of this session; it carries a token under which Redis then holds
  exactly the user, the password, the address and the port of that session and server. When the name
  is no such server's, the request fails and nothing is written beyond what checking the session wrote, no
  token in particular.
\<close>

theorem download_only_visible:
  assumes "redis_server R look watch_state" and "p_store w = Some store" and "store_ok store" and "length nonce = 12"
    and "rdp_download R show lower E cfg now r token nonce rows templates rq name w = (res, w')"
  shows "(\<forall>content. res = Inr content \<longrightarrow> (\<exists>sess s p t host port.
      fst (require_session R (portal_app cfg w) now r rq (p_rdb w)) = Inr sess
    \<and> s \<in> set (list_visible_servers lower id rows (ws_group_guids sess)) \<and> sv_tech_name s = name
    \<and> look (p_rdb w') (TOKEN token) = Some (RJson (JObj p), t)
    \<and> session_of store token (JObj p) = Inr \<lparr>sd_token = token, sd_username = ws_username sess, sd_target_host = sv_address s,
        sd_target_port = sv_port s, sd_password = ws_password sess, sd_fingerprint = JNull,
        sd_server_id = JStr (uuid_str (sv_id s)), sd_server_display = JStr (sv_display_name s)\<rparr>
    \<and> content = build_rdp_content show lower templates (ws_group_guids sess) host port token))
    \<and> (\<forall>sess. fst (require_session R (portal_app cfg w) now r rq (p_rdb w)) = Inr sess
        \<and> (\<forall>s. find (\<lambda>s. sv_tech_name s = name) rows = Some s \<longrightarrow>
            \<not> sv_enabled s \<or> \<not> server_visible lower (server_guids s) (ws_group_guids sess)) \<longrightarrow>
        \<not> is_ok res \<and> p_rdb w' = snd (require_session R (portal_app cfg w) now r rq (p_rdb w)))"
proof (intro conjI allI impI)
  fix content assume "res = Inr content"
  with assms(5) have run: "rdp_download R show lower E cfg now r token nonce rows templates rq name w = (Inr content, w')" by simp
  from rdp_download_okD [OF run] assms(2) obtain sess db1 s settings1 db2 host port where
    1: "require_session R (portal_app cfg w) now r rq (p_rdb w) = (Inr sess, db1)"
    and 2: "find (\<lambda>s. sv_tech_name s = name) rows = Some s" "sv_enabled s" "server_visible lower (server_guids s) (ws_group_guids sess)"
    and 3: "create_session R store token nonce (ws_username sess) (ws_password sess) (sv_address s) (sv_port s)
        (Some (uuid_str (sv_id s))) (Some (sv_display_name s)) db1 = (Inr token, db2)" "p_rdb w' = db2"
    and 4: "content = build_rdp_content show lower templates (ws_group_guids sess) host port token" by auto
  from redis_server.create_session_stored [OF assms(1,3,4) 3(1)] 3(2) obtain p where
    5: "look (p_rdb w') (TOKEN token) = Some (RJson (JObj p), Some (1000 * nat (rdp_token_ttl store)))"
    "session_of store token (JObj p) = Inr \<lparr>sd_token = token, sd_username = ws_username sess, sd_target_host = sv_address s,
        sd_target_port = sv_port s, sd_password = ws_password sess, sd_fingerprint = JNull,
        sd_server_id = JStr (uuid_str (sv_id s)), sd_server_display = JStr (sv_display_name s)\<rparr>" by auto
  have 6: "s \<in> set (list_visible_servers lower id rows (ws_group_guids sess))" "sv_tech_name s = name"
    using 2 by (auto simp: list_visible_servers_def find_Some_iff)
  show "\<exists>sess s p t host port.
      fst (require_session R (portal_app cfg w) now r rq (p_rdb w)) = Inr sess
    \<and> s \<in> set (list_visible_servers lower id rows (ws_group_guids sess)) \<and> sv_tech_name s = name
    \<and> look (p_rdb w') (TOKEN token) = Some (RJson (JObj p), t)
    \<and> session_of store token (JObj p) = Inr \<lparr>sd_token = token, sd_username = ws_username sess, sd_target_host = sv_address s,
        sd_target_port = sv_port s, sd_password = ws_password sess, sd_fingerprint = JNull,
        sd_server_id = JStr (uuid_str (sv_id s)), sd_server_display = JStr (sv_display_name s)\<rparr>
    \<and> content = build_rdp_content show lower templates (ws_group_guids sess) host port token"
    using 1 4 5 6 by (metis fst_conv)
next
  fix sess
  assume a: "fst (require_session R (portal_app cfg w) now r rq (p_rdb w)) = Inr sess
        \<and> (\<forall>s. find (\<lambda>s. sv_tech_name s = name) rows = Some s \<longrightarrow>
            \<not> sv_enabled s \<or> \<not> server_visible lower (server_guids s) (ws_group_guids sess))"
  obtain db1 where 1: "require_session R (portal_app cfg w) now r rq (p_rdb w) = (Inr sess, db1)"
    using a by (cases "require_session R (portal_app cfg w) now r rq (p_rdb w)") auto
  have "\<not> is_ok res \<and> p_rdb w' = db1"
    using assms(2,5) a 1
    by (auto simp: rdp_download_def portal_run_simps on_redis_def on_settings_def get_session_store_def portal_app_def
        split: prod.splits sum.splits option.splits if_splits)
  with 1 show "\<not> is_ok res" "p_rdb w' = snd (require_session R (portal_app cfg w) now r rq (p_rdb w))" by auto
qed

definition ref_portal :: "mem_db \<Rightarrow> mem_db portal" where
  "ref_portal db = \<lparr>p_rdb = db, p_settings = (ref_settings [])\<lparr>s_seeded := True\<rparr>, p_calls = [], p_ldap_auth = None, p_store = Some ref_store\<rparr>"

definition ref_portal_request :: request where
  "ref_portal_request = ref_request\<lparr>rq_cookie := [COOKIE_NAME \<mapsto> lit ''s'', CSRF_COOKIE_NAME \<mapsto> lit ''t'']\<rparr>"

definition ref_rdp_server :: RdpServer where
  "ref_rdp_server = \<lparr>sv_id = 3, sv_tech_name = lit ''a'', sv_display_name = lit ''A'', sv_address = lit ''h'', sv_port = 22, sv_enabled = True,
     sv_sort_order = 0, sv_groups = []\<rparr>"

lemma ref_fingerprint: "utf8_encode (browser_fingerprint ref_portal_request) = Inr [124, 124, 124, 124, 124, 124]"
  by (simp add: browser_fingerprint_def header_text_def ref_portal_request_def ref_request_def lit_eval utf8_encode_def
      utf8_char_def scalar_def)

lemma ref_fingerprint_ok: "list_all scalar (browser_fingerprint ref_portal_request)"
  using ref_fingerprint by (simp add: utf8_encode_def split: if_splits)

text \<open>The reference portal hands out a file for any token that is text.\<close>

lemma ref_download_runs:
  assumes "list_all scalar tok"
  shows "\<exists>db (sess :: WebSessionData) w'.
      rdp_download mem_redis (\<lambda>_. []) id ref_senv (Some ref_app_config) 1060 ([], [], []) tok (replicate 12 0)
        [ref_rdp_server] [] ref_portal_request (lit ''a'') (ref_portal db)
      = (Inr (build_rdp_content (\<lambda>_. []) id [] (ws_group_guids sess) (JStr (lit ''h'')) (JInt 443) tok), w')
    \<and> fst (require_session mem_redis (portal_app (Some ref_app_config) (ref_portal db)) 1060 ([], [], []) ref_portal_request
        (p_rdb (ref_portal db))) = Inr sess"
proof -
  let ?c = "create_web_session mem_redis ref_store (lit ''s'') (replicate 12 0) 1000 (lit ''u'') (lit ''p'')
     [lit ''g''] [] (browser_fingerprint ref_portal_request) empty_db"
  have c: "\<exists>db1. ?c = (Inr (lit ''s''), db1)"
    by (simp add: create_web_session_def rd_simps password_aad_def encrypt_def ref_fingerprint_ok utf8_encode_def scalar_def lit_eval
        fingerprint_digest_def x_setex_def mem_redis_def mem_setex_def ref_store_def)
  then obtain db1 where db1: "?c = (Inr (lit ''s''), db1)" by blast
  obtain d where d: "fingerprint_digest ref_store (browser_fingerprint ref_portal_request) = Inr d"
    by (simp add: fingerprint_digest_def ref_fingerprint)
  have q: "quiet k ([], [], [])" for k by (simp add: quiet_def)
  let ?db = "mem_step db1 (IWait 60000)"
  from stored_web_session [OF mem.redis_server_axioms store_ok_ref _ _ db1 d d q, of 60000 1060]
  obtain sess db2 where g: "get_web_session mem_redis ref_store (lit ''s'') (browser_fingerprint ref_portal_request) 1060 ([], [], [])
      ?db = (Inr (Some sess), db2)" "ws_group_guids sess = []" "ws_username sess = lit ''u''" "ws_password sess = lit ''p''"
    by (auto simp: empty_db_def ref_store_def mem_redis_def round_ms_def)
  have req: "require_session mem_redis (portal_app (Some ref_app_config) (ref_portal ?db)) 1060 ([], [], []) ref_portal_request ?db = (Inr sess, db2)"
    using g(1) by (simp add: require_session_def get_current_session_def portal_app_def ref_portal_def ref_portal_request_def
        COOKIE_NAME_def CSRF_COOKIE_NAME_def lit_eval rd_simps)
  let ?run = "rdp_download mem_redis (\<lambda>_. []) id ref_senv (Some ref_app_config) 1060 ([], [], []) tok (replicate 12 0)
        [ref_rdp_server] [] ref_portal_request (lit ''a'') (ref_portal ?db)"
  have tok: "\<exists>db3. create_session mem_redis ref_store tok (replicate 12 0) (lit ''u'') (lit ''p'') (lit ''h'') 22
      (Some x) (Some (lit ''A'')) db2 = (Inr tok, db3)" for x
    using assms by (simp add: create_session_def rd_simps password_aad_def encrypt_def utf8_encode_def scalar_def lit_eval
        x_setex_def mem_redis_def mem_setex_def ref_store_def split: prod.split)
  have "\<exists>w'. ?run = (Inr (build_rdp_content (\<lambda>_. []) id [] (ws_group_guids sess) (JStr (lit ''h'')) (JInt 443) tok), w')"
  proof -
    obtain db3 where t: "create_session mem_redis ref_store tok (replicate 12 0) (lit ''u'') (lit ''p'') (lit ''h'') 22
      (Some (uuid_str 3)) (Some (lit ''A'')) db2 = (Inr tok, db3)" using tok by blast
    have s: "\<exists>s1. load ref_senv ((ref_settings [])\<lparr>s_seeded := True\<rparr>) = (Inr (), s1)
        \<and> proxy_params ref_senv s1 = dump_proxy (proxy_cfg ref_app_config)"
      by (simp add: load_def ref_senv_def ref_settings_def fresh_cache_def proxy_params_def Let_def)
    then obtain s1 where s1: "load ref_senv ((ref_settings [])\<lparr>s_seeded := True\<rparr>) = (Inr (), s1)"
      "proxy_params ref_senv s1 = dump_proxy (proxy_cfg ref_app_config)" by blast
    have vis: "server_visible id (server_guids ref_rdp_server) gs" for gs
      by (simp add: server_visible_def server_guids_def ref_rdp_server_def)
    have proxy: "map_of (dump_proxy (proxy_cfg ref_app_config)) (lit ''public_host'') = Some (JStr (lit ''h''))"
      "map_of (dump_proxy (proxy_cfg ref_app_config)) (lit ''public_port'') = Some (JInt 443)"
      by (simp_all add: dump_proxy_def ref_app_config_def f_public_port_def lit_eval)
    have fields: "sv_tech_name ref_rdp_server = lit ''a''" "sv_enabled ref_rdp_server" "sv_address ref_rdp_server = lit ''h''"
      "sv_port ref_rdp_server = 22" "sv_id ref_rdp_server = 3" "sv_display_name ref_rdp_server = lit ''A''"
      by (simp_all add: ref_rdp_server_def)
    show ?thesis using req g t s1 vis proxy fields
      by (simp add: rdp_download_def portal_run_simps on_redis_def on_settings_def ref_portal_def portal_app_def get_session_store_def)
  qed
  with req show ?thesis by (intro exI [of _ ?db] exI [of _ sess]) (simp add: ref_portal_def)
qed

theorem download_only_visible_witness:
  "\<exists>db (sess :: WebSessionData) w' p t.
      rdp_download mem_redis (\<lambda>_. []) id ref_senv (Some ref_app_config) 1060 ([], [], []) (lit ''k'') (replicate 12 0)
        [ref_rdp_server] [] ref_portal_request (lit ''a'') (ref_portal db)
      = (Inr (build_rdp_content (\<lambda>_. []) id [] (ws_group_guids sess) (JStr (lit ''h'')) (JInt 443) (lit ''k'')), w')
    \<and> mem_look (p_rdb w') (TOKEN (lit ''k'')) = Some (RJson (JObj p), t)
    \<and> session_of ref_store (lit ''k'') (JObj p) = Inr \<lparr>sd_token = lit ''k'', sd_username = ws_username sess, sd_target_host = lit ''h'',
        sd_target_port = 22, sd_password = ws_password sess, sd_fingerprint = JNull,
        sd_server_id = JStr (uuid_str 3), sd_server_display = JStr (lit ''A'')\<rparr>"
proof -
  have "list_all scalar (lit ''k'')" by (simp add: lit_eval scalar_def)
  from ref_download_runs [OF this] obtain db w' and sess :: WebSessionData where run:
    "rdp_download mem_redis (\<lambda>_. []) id ref_senv (Some ref_app_config) 1060 ([], [], []) (lit ''k'') (replicate 12 0)
        [ref_rdp_server] [] ref_portal_request (lit ''a'') (ref_portal db)
      = (Inr (build_rdp_content (\<lambda>_. []) id [] (ws_group_guids sess) (JStr (lit ''h'')) (JInt 443) (lit ''k'')), w')"
    and fst_req: "fst (require_session mem_redis (portal_app (Some ref_app_config) (ref_portal db)) 1060 ([], [], []) ref_portal_request
      (p_rdb (ref_portal db))) = Inr sess" by blast
  have ps: "p_store (ref_portal db) = Some ref_store" "length (replicate 12 (0 :: byte)) = 12"
    by (simp_all add: ref_portal_def)
  have only: "s = ref_rdp_server" if "s \<in> set (list_visible_servers id id [ref_rdp_server] gs)" for s gs
    using that by (auto simp: list_visible_servers_def split: if_splits)
  from download_only_visible [OF mem.redis_server_axioms ps(1) store_ok_ref ps(2) run, THEN conjunct1, rule_format, OF refl]
  obtain sess' s p t host port where s: "Inr sess = (Inr sess' :: WebSessionData result)"
    "s \<in> set (list_visible_servers id id [ref_rdp_server] (ws_group_guids sess'))"
    "mem_look (p_rdb w') (TOKEN (lit ''k'')) = Some (RJson (JObj p), t)"
    "session_of ref_store (lit ''k'') (JObj p) = Inr \<lparr>sd_token = lit ''k'', sd_username = ws_username sess', sd_target_host = sv_address s,
        sd_target_port = sv_port s, sd_password = ws_password sess', sd_fingerprint = JNull,
        sd_server_id = JStr (uuid_str (sv_id s)), sd_server_display = JStr (sv_display_name s)\<rparr>"
    unfolding fst_req by (elim exE conjE) (rule that)
  have "s = ref_rdp_server" using only [OF s(2)] .
  then have "session_of ref_store (lit ''k'') (JObj p) = Inr \<lparr>sd_token = lit ''k'', sd_username = ws_username sess, sd_target_host = lit ''h'',
        sd_target_port = 22, sd_password = ws_password sess, sd_fingerprint = JNull,
        sd_server_id = JStr (uuid_str 3), sd_server_display = JStr (lit ''A'')\<rparr>"
    using s(1,4) by (simp add: ref_rdp_server_def)
  with s(3) run show ?thesis
    by (intro exI [of _ db] exI [of _ sess] exI [of _ w'] exI [of _ p] exI [of _ t]) (intro conjI)
qed

section \<open>Who logs in at the portal\<close>

lemma portal_login_page_run:
  "portal_login_page E cfg rq tok code w = (Inr resp, w') \<Longrightarrow>
    p_rdb w' = p_rdb w \<and> p_calls w' = p_calls w \<and> status resp = code \<and> COOKIE_NAME \<notin> fst ` set (set_cookies resp)"
  by (auto simp: portal_login_page_def portal_run_simps on_settings_def COOKIE_NAME_def CSRF_COOKIE_NAME_def lit_eval
      split: prod.splits sum.splits)

lemma web_session_key:
  "WEB_SESSION s \<noteq> fail_ip portal_limiter a" "WEB_SESSION s \<noteq> fail_user portal_limiter a"
  "WEB_SESSION s \<noteq> lock_ip portal_limiter a" "WEB_SESSION s \<noteq> lock_user portal_limiter a"
  by (simp_all add: portal_limiter_def key_defs lit_eval)

lemma login_succeeded_run:
  "login_succeeded R lower cfg store now sid nonce tok rq username password info w = (Inr resp, w') \<Longrightarrow>
    status resp = 303 \<and> (COOKIE_NAME, sid) \<in> set (set_cookies resp) \<and> p_calls w' = p_calls w"
  by (auto simp: login_succeeded_def portal_run_simps on_redis_def create_web_session_def rd_simps split: prod.splits sum.splits)

text \<open>The way an accepted form went.\<close>

lemma portal_login_cases:
  assumes R: "redis_server R look watch_state"
    and run: "portal_login R X E cfg now sid nonce tok rq username password csrf_token w = (Inr resp, w')"
  shows "(\<exists>store auth info t. csrf_token \<noteq> [] \<and> rq_cookie rq CSRF_COOKIE_NAME = Some csrf_token
        \<and> look (p_rdb w) (lock_ip portal_limiter (portal_client_ip rq)) = None
        \<and> look (p_rdb w) (lock_user portal_limiter (uname_of (l3_lower X) username)) = None
        \<and> p_ldap_auth w = Some auth \<and> authenticate X auth (strip username) password (p_calls w) = (Inr info, t)
        \<and> login_succeeded R (l3_lower X) cfg store now sid nonce tok rq username password info (w\<lparr>p_calls := t\<rparr>) = (Inr resp, w'))
    \<or> (\<exists>auth e t. p_ldap_auth w = Some auth \<and> authenticate X auth (strip username) password (p_calls w) = (Inl e, t)
        \<and> login_failed R (l3_lower X) E cfg rq tok username (w\<lparr>p_calls := t\<rparr>) = (Inr resp, w'))
    \<or> (\<exists>code \<in> {400, 429, 503}. portal_login_page E cfg rq tok code w = (Inr resp, w'))"
proof -
  have lim: "login_limiter R look watch_state portal_limiter" by (rule limiter_instances [OF R]) simp
  have locked: "is_locked R (l3_lower X) portal_limiter (portal_client_ip rq) username db =
      (Inr (look db (lock_ip portal_limiter (portal_client_ip rq)) \<noteq> None
        \<or> look db (lock_user portal_limiter (uname_of (l3_lower X) username)) \<noteq> None), db)" for db
    by (rule login_limiter.is_locked_look [OF lim])
  let ?csrf = "csrf_token \<noteq> [] \<and> rq_cookie rq CSRF_COOKIE_NAME = Some csrf_token"
  let ?lock = "look (p_rdb w) (lock_ip portal_limiter (portal_client_ip rq)) \<noteq> None
     \<or> look (p_rdb w) (lock_user portal_limiter (uname_of (l3_lower X) username)) \<noteq> None"
  consider (csrf) "\<not> ?csrf" | (lock) "?csrf" "?lock" | (go) "?csrf" "\<not> ?lock" by blast
  then show ?thesis
  proof cases
    case csrf
    then show ?thesis using run by (auto simp: portal_login_def cookie_csrf Let_def)
  next
    case lock
    then obtain S where "get_session_store (portal_app cfg w) = Inr S"
      using run by (cases "get_session_store (portal_app cfg w)") (auto simp: portal_login_def cookie_text_def Let_def portal_run_simps)
    with lock have "portal_login_page E cfg rq tok 429 w = (Inr resp, w')" using run
      by (simp add: portal_login_def cookie_text_def Let_def portal_run_simps on_redis_def locked)
    then show ?thesis by blast
  next
    case go
    then obtain S where S: "get_session_store (portal_app cfg w) = Inr S"
      using run by (cases "get_session_store (portal_app cfg w)") (auto simp: portal_login_def cookie_text_def Let_def portal_run_simps)
    note free = go S
    show ?thesis
    proof (cases "p_ldap_auth w")
      case None
      then have "portal_login_page E cfg rq tok 503 w = (Inr resp, w')" using run go S
        by (simp add: portal_login_def cookie_text_def Let_def portal_run_simps on_redis_def locked)
      then show ?thesis by blast
    next
      case (Some auth)
      obtain q t where a: "authenticate X auth (strip username) password (p_calls w) = (q, t)" by force
      show ?thesis
      proof (cases q)
        case (Inl e)
        then have "login_failed R (l3_lower X) E cfg rq tok username (w\<lparr>p_calls := t\<rparr>) = (Inr resp, w')" using run go S Some a
          by (simp add: portal_login_def cookie_text_def Let_def portal_run_simps on_redis_def on_directory_def locked)
        with Some a Inl show ?thesis by blast
      next
        case (Inr info)
        then have "login_succeeded R (l3_lower X) cfg S now sid nonce tok rq username password info (w\<lparr>p_calls := t\<rparr>) = (Inr resp, w')"
          using run go S Some a
          by (simp add: portal_login_def cookie_text_def Let_def portal_run_simps on_redis_def on_directory_def locked)
        moreover have "look (p_rdb w) (lock_ip portal_limiter (portal_client_ip rq)) = None"
          "look (p_rdb w) (lock_user portal_limiter (uname_of (l3_lower X) username)) = None" using go by blast+
        ultimately show ?thesis using Some a Inr go(1) by blast
      qed
    qed
  qed
qed

lemma login_failed_run:
  assumes R: "redis_server R look watch_state" and run: "login_failed R lower E cfg rq tok username w = (Inr resp, w')"
  shows "status resp = 401 \<and> COOKIE_NAME \<notin> fst ` set (set_cookies resp)
    \<and> (\<exists>mx ls. p_rdb w' = snd (record_failure R lower portal_limiter (portal_client_ip rq) username mx ls (p_rdb w)))
    \<and> (\<forall>s. look (p_rdb w') (WEB_SESSION s) = look (p_rdb w) (WEB_SESSION s))"
proof -
  have lim: "login_limiter R look watch_state portal_limiter" by (rule limiter_instances [OF R]) simp
  obtain mx ls where l: "bind_result (jitem (JObj (security_params E (p_settings w))) (lit ''login_attempts_per_minute'')) jint = Inr mx"
    "bind_result (jitem (JObj (security_params E (p_settings w))) (lit ''login_lock_seconds'')) jint = Inr ls"
    using run by (auto simp: login_failed_def portal_run_simps simp del: jitem.simps split: sum.splits)
  define f where "f = record_failure R lower portal_limiter (portal_client_ip rq) username mx ls (p_rdb w)"
  obtain q db where f: "f = (q, db)" by force
  have w1: "portal_login_page E cfg rq tok 401 (w\<lparr>p_rdb := snd f\<rparr>) = (Inr resp, w')"
    using run l f by (cases q) (auto simp: login_failed_def portal_run_simps on_redis_def f_def simp del: jitem.simps)
  have "look (snd (record_failure R lower portal_limiter (portal_client_ip rq) username mx ls (p_rdb w))) (WEB_SESSION s)
      = look (p_rdb w) (WEB_SESSION s)" for s
    by (rule login_limiter.record_failure_frame [OF lim]) (simp_all add: web_session_key)
  then show ?thesis using portal_login_page_run [OF w1] by (auto simp: f_def)
qed



end
