(* ===== verification/Dns_Resolver.thy ===== *)
theory Dns_Resolver
  imports Config Ip_Networks
begin

text \<open>
  The resolver of the relay (\<^verbatim>\<open>src/libs/common/dns_resolver.py\<close>): literal addresses, the cache with its
  time to live, and the query. A call runs alone up to the query and again after it; between the two
  other calls run, so the operation is given as its two atomic parts and as their composition. The
  resolver library (\<^verbatim>\<open>dnspython\<close>) is a parameter: whether it can be set up, which name servers it
  accepts, and what it answers. Times are integers.
\<close>

section \<open>The resolver\<close>

record CacheRecord =
  cr_ip :: ustr
  cr_ts :: int

record DnsResolver =
  r_timeout :: rat
  r_cache_ttl :: int
  nameservers :: "ustr list option"
  r_cache :: "ustr \<Rightarrow> CacheRecord option"

record dns_lib =
  system_resolver :: "unit result"
  set_nameservers :: "ustr list \<Rightarrow> unit result"

text \<open>Without configured name servers those of the system stay, written \<open>None\<close>.\<close>

definition DnsResolver_of :: "dns_lib \<Rightarrow> DnsConfig \<Rightarrow> DnsResolver result" where
  "DnsResolver_of D cfg =
    bind_result (system_resolver D) (\<lambda>_.
    bind_result (if d_servers cfg = [] then Inr () else set_nameservers D (d_servers cfg)) (\<lambda>_.
    Inr \<lparr>r_timeout = d_timeout cfg, r_cache_ttl = d_cache_ttl cfg,
      nameservers = (if d_servers cfg = [] then None else Some (d_servers cfg)), r_cache = Map.empty\<rparr>))"

definition is_ip :: "ip_lib \<Rightarrow> ustr \<Rightarrow> bool result" where
  "is_ip I v = (case ip_address I v of Inr _ \<Rightarrow> Inr True | Inl e \<Rightarrow> if e = ValueError then Inr False else Inl e)"

datatype lookup = Known ustr | Ask ustr

definition resolve_start :: "ip_lib \<Rightarrow> int \<Rightarrow> ustr \<Rightarrow> DnsResolver \<Rightarrow> lookup result" where
  "resolve_start I now host R =
    (let h = strip host in
     if h = [] then Inl ValueError
     else bind_result (is_ip I h) (\<lambda>ip.
       if ip then Inr (Known h)
       else (case r_cache R h of
           Some item \<Rightarrow> if now - cr_ts item \<le> r_cache_ttl R then Inr (Known (cr_ip item)) else Inr (Ask h)
         | None \<Rightarrow> Inr (Ask h))))"

definition resolve_finish :: "int \<Rightarrow> ustr \<Rightarrow> ustr list result \<Rightarrow> (DnsResolver, ustr) eff" where
  "resolve_finish now h answers R = (case answers of
      Inl e \<Rightarrow> (Inl e, R)
    | Inr [] \<Rightarrow> (Inl IndexError, R)
    | Inr (ip # _) \<Rightarrow> (Inr ip, R\<lparr>r_cache := (r_cache R)(h \<mapsto> \<lparr>cr_ip = ip, cr_ts = now\<rparr>)\<rparr>))"

text \<open>A call that nothing interrupts; \<open>query\<close> is what the name servers answer.\<close>

definition resolve :: "ip_lib \<Rightarrow> int \<Rightarrow> (ustr \<Rightarrow> ustr list result) \<Rightarrow> ustr \<Rightarrow> (DnsResolver, ustr) eff" where
  "resolve I now query host R = (case resolve_start I now host R of
      Inl e \<Rightarrow> (Inl e, R)
    | Inr (Known ip) \<Rightarrow> (Inr ip, R)
    | Inr (Ask h) \<Rightarrow> resolve_finish now h (query h) R)"

section \<open>Interleaved calls\<close>

text \<open>
  The calls of all connections on one resolver: \<open>ds_pending\<close> holds the queries under way with the time
  of their call, \<open>ds_answers\<close> what the name servers said to a query of some time, \<open>ds_results\<close> what was
  returned to a call of some time.
\<close>

record dns_state =
  ds_now :: int
  ds_resolver :: DnsResolver
  ds_pending :: "(int \<times> ustr) list"
  ds_answers :: "(int \<times> ustr \<times> ustr) set"
  ds_results :: "(int \<times> ustr \<times> ustr) set"

inductive dns_step :: "ip_lib \<Rightarrow> dns_state \<Rightarrow> dns_state \<Rightarrow> bool" for I where
  tick: "ds_now s \<le> t \<Longrightarrow> dns_step I s (s\<lparr>ds_now := t\<rparr>)"
| known: "resolve_start I (ds_now s) host (ds_resolver s) = Inr (Known ip)
    \<Longrightarrow> dns_step I s (s\<lparr>ds_results := insert (ds_now s, strip host, ip) (ds_results s)\<rparr>)"
| asks: "resolve_start I (ds_now s) host (ds_resolver s) = Inr (Ask h)
    \<Longrightarrow> dns_step I s (s\<lparr>ds_pending := (ds_now s, h) # ds_pending s\<rparr>)"
| answered: "(t, h) \<in> set (ds_pending s) \<Longrightarrow> resolve_finish t h answers (ds_resolver s) = (Inr ip, R')
    \<Longrightarrow> dns_step I s (s\<lparr>ds_resolver := R', ds_pending := remove1 (t, h) (ds_pending s),
           ds_answers := insert (t, h, ip) (ds_answers s), ds_results := insert (t, h, ip) (ds_results s)\<rparr>)"
| unanswered: "(t, h) \<in> set (ds_pending s) \<Longrightarrow> resolve_finish t h answers (ds_resolver s) = (Inl e, R')
    \<Longrightarrow> dns_step I s (s\<lparr>ds_resolver := R', ds_pending := remove1 (t, h) (ds_pending s)\<rparr>)"

definition dns_start :: "int \<Rightarrow> DnsResolver \<Rightarrow> dns_state" where
  "dns_start now R = \<lparr>ds_now = now, ds_resolver = R, ds_pending = [], ds_answers = {}, ds_results = {}\<rparr>"

text \<open>What may stand in the cache, and what may be returned.\<close>

definition answer_ok :: "ip_lib \<Rightarrow> int \<Rightarrow> (int \<times> ustr \<times> ustr) set \<Rightarrow> int \<times> ustr \<times> ustr \<Rightarrow> bool" where
  "answer_ok I ttl answers = (\<lambda>(t, h, ip). is_ip I h = Inr True \<and> ip = h
     \<or> (\<exists>t0. (t0, h, ip) \<in> answers \<and> t0 \<le> t \<and> t - t0 \<le> max 0 ttl))"

definition dns_inv :: "ip_lib \<Rightarrow> int \<Rightarrow> dns_state \<Rightarrow> bool" where
  "dns_inv I ttl s \<longleftrightarrow> r_cache_ttl (ds_resolver s) = ttl
     \<and> (\<forall>h c. r_cache (ds_resolver s) h = Some c \<longrightarrow> (cr_ts c, h, cr_ip c) \<in> ds_answers s \<and> cr_ts c \<le> ds_now s)
     \<and> (\<forall>(t, h) \<in> set (ds_pending s). t \<le> ds_now s)
     \<and> (\<forall>r \<in> ds_results s. answer_ok I ttl (ds_answers s) r)"

lemma resolve_start_Known:
  "resolve_start I now host R = Inr (Known ip) \<Longrightarrow> (is_ip I (strip host) = Inr True \<and> ip = strip host)
    \<or> (\<exists>c. r_cache R (strip host) = Some c \<and> now - cr_ts c \<le> r_cache_ttl R \<and> ip = cr_ip c)"
  by (auto simp: resolve_start_def Let_def bind_result_def split: if_splits sum.splits option.splits)

lemma resolve_finish_cases:
  "resolve_finish now h answers R = (r, R') \<Longrightarrow>
     (\<exists>e. r = Inl e \<and> R' = R)
   \<or> (\<exists>ip. r = Inr ip \<and> R' = R\<lparr>r_cache := (r_cache R)(h \<mapsto> \<lparr>cr_ip = ip, cr_ts = now\<rparr>)\<rparr>)"
  by (auto simp: resolve_finish_def split: sum.splits list.splits)

lemma answer_ok_mono: "answer_ok I ttl A r \<Longrightarrow> A \<subseteq> B \<Longrightarrow> answer_ok I ttl B r"
  by (cases r) (auto simp: answer_ok_def)

lemma dns_step_inv:
  assumes "dns_step I s s'" and "dns_inv I ttl s"
  shows "dns_inv I ttl s'"
  using assms(1)
proof (cases rule: dns_step.cases)
  case (tick t)
  have "x \<le> t" if "x \<le> ds_now s" for x using that tick(2) by (rule order_trans)
  with tick(1) assms(2) show ?thesis by (auto simp: dns_inv_def)
next
  case (known host ip)
  have "answer_ok I ttl (ds_answers s) (ds_now s, strip host, ip)"
    using resolve_start_Known [OF known(2)]
  proof (elim disjE exE conjE)
    fix c assume c: "r_cache (ds_resolver s) (strip host) = Some c" "ds_now s - cr_ts c \<le> r_cache_ttl (ds_resolver s)" "ip = cr_ip c"
    with assms(2) have "(cr_ts c, strip host, ip) \<in> ds_answers s" "cr_ts c \<le> ds_now s" "r_cache_ttl (ds_resolver s) = ttl"
      by (simp_all add: dns_inv_def)
    with c(2) show ?thesis by (auto simp: answer_ok_def)
  qed (simp add: answer_ok_def)
  with known(1) assms(2) show ?thesis by (simp add: dns_inv_def)
next
  case (answered t h answers ip R')
  from resolve_finish_cases [OF answered(3)]
  have R': "R' = (ds_resolver s)\<lparr>r_cache := (r_cache (ds_resolver s))(h \<mapsto> \<lparr>cr_ip = ip, cr_ts = t\<rparr>)\<rparr>" by auto
  have t: "t \<le> ds_now s" using answered(2) assms(2) by (auto simp: dns_inv_def)
  have "answer_ok I ttl (insert (t, h, ip) (ds_answers s)) (t, h, ip)" by (auto simp: answer_ok_def)
  moreover have "\<forall>r \<in> ds_results s. answer_ok I ttl (insert (t, h, ip) (ds_answers s)) r"
    using assms(2) by (auto simp: dns_inv_def intro: answer_ok_mono [where A = "ds_answers s"])
  ultimately show ?thesis
    using assms(2) answered(1) t R' by (auto simp: dns_inv_def dest: in_set_remove1 [THEN iffD1, rotated] notin_set_remove1 set_remove1_subset [THEN subsetD])
next
  case (unanswered t h answers e R')
  from resolve_finish_cases [OF unanswered(3)] have "R' = ds_resolver s" by auto
  with assms(2) unanswered(1) show ?thesis
    by (auto simp: dns_inv_def dest: set_remove1_subset [THEN subsetD])
qed (use assms(2) in \<open>auto simp: dns_inv_def\<close>)

lemma dns_reach_inv: "(dns_step I)\<^sup>*\<^sup>* s s' \<Longrightarrow> dns_inv I ttl s \<Longrightarrow> dns_inv I ttl s'"
  by (induction rule: rtranclp_induct) (auto intro: dns_step_inv)

text \<open>
  C36: However the calls of the connections interleave on a fresh resolver, an address returned to a
  call is the literal that was asked for, or what the name servers answered for exactly this name to a
  query made at most the time to live before the call. A call that got its address by a query is
  repeated within the time to live without a query and with the same address.
\<close>

theorem dns_answers_fresh:
  assumes "(dns_step I)\<^sup>*\<^sup>* (dns_start now R) s" and "r_cache R = Map.empty" and "(t, h, ip) \<in> ds_results s"
  shows "((is_ip I h = Inr True \<and> ip = h) \<or> (\<exists>t0. (t0, h, ip) \<in> ds_answers s \<and> t0 \<le> t \<and> t - t0 \<le> max 0 (r_cache_ttl R)))
    \<and> (resolve_start I t host R1 = Inr (Ask h) \<and> resolve I t query host R1 = (Inr ip, R2) \<and> t' - t \<le> r_cache_ttl R1
         \<longrightarrow> resolve I t' query' host R2 = (Inr ip, R2))"
proof (intro conjI impI)
  have "dns_inv I (r_cache_ttl R) (dns_start now R)" using assms(2) by (simp add: dns_inv_def dns_start_def)
  from dns_reach_inv [OF assms(1) this] assms(3)
  have "answer_ok I (r_cache_ttl R) (ds_answers s) (t, h, ip)" by (simp add: dns_inv_def)
  then show "(is_ip I h = Inr True \<and> ip = h) \<or> (\<exists>t0. (t0, h, ip) \<in> ds_answers s \<and> t0 \<le> t \<and> t - t0 \<le> max 0 (r_cache_ttl R))"
    by (simp add: answer_ok_def)
next
  assume a: "resolve_start I t host R1 = Inr (Ask h) \<and> resolve I t query host R1 = (Inr ip, R2) \<and> t' - t \<le> r_cache_ttl R1"
  then have "resolve_finish t h (query h) R1 = (Inr ip, R2)" by (auto simp: resolve_def)
  from resolve_finish_cases [OF this] have R2: "R2 = R1\<lparr>r_cache := (r_cache R1)(h \<mapsto> \<lparr>cr_ip = ip, cr_ts = t\<rparr>)\<rparr>" by auto
  from a have "h = strip host" "strip host \<noteq> []" "is_ip I (strip host) = Inr False"
    by (auto simp: resolve_start_def Let_def bind_result_def split: if_splits sum.splits option.splits)
  then show "resolve I t' query' host R2 = (Inr ip, R2)" using a R2 by (simp add: resolve_def resolve_start_def)
qed

definition ref_name_lib :: ip_lib where
  "ref_name_lib = \<lparr>ip_address = (\<lambda>_. Inl ValueError), ip_in_network = (\<lambda>_ _. Inr False), ip_network = (\<lambda>_. Inr ())\<rparr>"

definition ref_resolver :: DnsResolver where
  "ref_resolver = \<lparr>r_timeout = 3, r_cache_ttl = 300, nameservers = None, r_cache = Map.empty\<rparr>"

theorem dns_answers_fresh_witness:
  "\<exists>s R2. (dns_step ref_name_lib)\<^sup>*\<^sup>* (dns_start 1000 ref_resolver) s \<and> (1200, lit ''srv'', lit ''10.0.0.5'') \<in> ds_results s
     \<and> (\<exists>t0. (t0, lit ''srv'', lit ''10.0.0.5'') \<in> ds_answers s \<and> t0 \<le> 1200 \<and> 1200 - t0 \<le> 300)
     \<and> resolve ref_name_lib 1500 (\<lambda>_. Inl TimeoutError) (lit ''srv'') R2 = (Inr (lit ''10.0.0.5''), R2)"
proof -
  let ?I = ref_name_lib and ?h = "lit ''srv''" and ?ip = "lit ''10.0.0.5''"
  let ?R2 = "ref_resolver\<lparr>r_cache := [?h \<mapsto> \<lparr>cr_ip = ?ip, cr_ts = 1000\<rparr>]\<rparr>"
  let ?R3 = "ref_resolver\<lparr>r_cache := [?h \<mapsto> \<lparr>cr_ip = ?ip, cr_ts = 1200\<rparr>]\<rparr>"
  let ?s = "\<lparr>ds_now = 1200, ds_resolver = ?R2, ds_pending = [], ds_answers = {(1000, ?h, ?ip)},
              ds_results = {(1200, ?h, ?ip), (1000, ?h, ?ip)}\<rparr>"
  have h: "strip ?h = ?h" "?h \<noteq> []" by (rule strip_no_space) (simp_all add: lit_eval py_isspace_def py_spaces_def)
  have ask: "resolve_start ?I t ?h ref_resolver = Inr (Ask ?h)" for t
    using h by (simp add: resolve_start_def is_ip_def ref_name_lib_def ref_resolver_def)
  have "dns_step ?I (dns_start 1000 ref_resolver) ((dns_start 1000 ref_resolver)\<lparr>ds_pending := [(1000, ?h)]\<rparr>)"
    using dns_step.asks [where I = ?I and s = "dns_start 1000 ref_resolver" and host = ?h and h = ?h] ask by (simp add: dns_start_def)
  also have "(dns_step ?I)\<^sup>*\<^sup>* \<dots> \<lparr>ds_now = 1000, ds_resolver = ?R2, ds_pending = [], ds_answers = {(1000, ?h, ?ip)}, ds_results = {(1000, ?h, ?ip)}\<rparr>"
    by (rule r_into_rtranclp) (use dns_step.answered [where I = ?I and t = 1000 and h = ?h and ip = ?ip and R' = ?R2
        and answers = "Inr [?ip]" and s = "(dns_start 1000 ref_resolver)\<lparr>ds_pending := [(1000, ?h)]\<rparr>"]
      in \<open>simp add: dns_start_def resolve_finish_def ref_resolver_def\<close>)
  also have "dns_step ?I \<dots> \<lparr>ds_now = 1200, ds_resolver = ?R2, ds_pending = [], ds_answers = {(1000, ?h, ?ip)}, ds_results = {(1000, ?h, ?ip)}\<rparr>"
    using dns_step.tick [where I = ?I and t = 1200 and s = "\<lparr>ds_now = 1000, ds_resolver = ?R2, ds_pending = [],
        ds_answers = {(1000, ?h, ?ip)}, ds_results = {(1000, ?h, ?ip)}\<rparr>"] by simp
  also have "dns_step ?I \<dots> ?s"
    using dns_step.known [where I = ?I and host = ?h and ip = ?ip and s = "\<lparr>ds_now = 1200, ds_resolver = ?R2, ds_pending = [],
        ds_answers = {(1000, ?h, ?ip)}, ds_results = {(1000, ?h, ?ip)}\<rparr>"] h
    by (simp add: resolve_start_def is_ip_def ref_name_lib_def ref_resolver_def)
  finally have run: "(dns_step ?I)\<^sup>*\<^sup>* (dns_start 1000 ref_resolver) ?s" by auto
  have "resolve ?I 1200 (\<lambda>_. Inr [?ip]) ?h ref_resolver = (Inr ?ip, ?R3)"
    using ask by (simp add: resolve_def resolve_finish_def ref_resolver_def)
  with dns_answers_fresh [OF run, of 1200 ?h ?ip ?h ref_resolver "\<lambda>_. Inr [?ip]" ?R3 1500 "\<lambda>_. Inl TimeoutError"] ask
  have "is_ip ?I ?h = Inr True \<or> (\<exists>t0. (t0, ?h, ?ip) \<in> ds_answers ?s \<and> t0 \<le> 1200 \<and> 1200 - t0 \<le> 300)"
    "resolve ?I 1500 (\<lambda>_. Inl TimeoutError) ?h ?R3 = (Inr ?ip, ?R3)"
    by (simp_all add: ref_resolver_def)
  moreover have "is_ip ?I ?h \<noteq> Inr True" by (simp add: is_ip_def ref_name_lib_def)
  ultimately show ?thesis using run by (intro exI [of _ ?s] exI [of _ ?R3]) simp
qed

end
