(* ===== verification/Relay_Main.thy ===== *)
theory Relay_Main
  imports Portal Rdp_Handler Dns_Resolver
begin

text \<open>
  The relay service (\<^verbatim>\<open>src/services/rdp_relay/main.py\<close>): start-up, the limit on concurrent connections,
  the task that takes over changed settings, and stopping. The state is what these share: the settings of the
  process, the resolver, the session store and the plugins that the handlers use, the value of the
  semaphore and the limit. Handlers run between their entry and their exit (\<open>Rdp_Handler\<close>); here they
  are counted. The event loop runs one step at a time, and a reload waits only inside \<^verbatim>\<open>load\<close>, so a step
  is an atomic piece between two awaits.
\<close>

section \<open>State and start-up\<close>

record relay_service =
  rm_settings :: settings
  rm_dns :: DnsResolver
  rm_store :: SessionStore
  rm_plugins :: "plugin list"
  conn_semaphore :: nat
  conn_limit :: int
  running :: nat
  listening :: bool

text \<open>\<^verbatim>\<open>asyncio.Semaphore\<close> refuses a negative initial value.\<close>

definition semaphore :: "int \<Rightarrow> nat result" where
  "semaphore n = (if n < 0 then Inl ValueError else Inr (nat n))"

definition on_settings_world :: "(settings, 'a) eff \<Rightarrow> (settings \<times> 'db world, 'a) eff" where
  "on_settings_world m s = (case m (fst s) of (r, st) \<Rightarrow> (r, (st, snd s)))"

definition on_world_of :: "('db world, 'a) eff \<Rightarrow> (settings \<times> 'db world, 'a) eff" where
  "on_world_of m s = (case m (snd s) of (r, w) \<Rightarrow> (r, (fst s, w)))"

text \<open>
  From loading the settings to listening, with an opened listening socket: the settings, the resolver,
  the clean-up of what a previous run left, the times to live, the plugins and the semaphore.
\<close>

definition run_server :: "'db redis \<Rightarrow> dns_lib \<Rightarrow> senv \<Rightarrow> ConnectionTracker \<Rightarrow> exn option \<Rightarrow> int \<Rightarrow> SessionStore
    \<Rightarrow> (settings \<times> 'db world, relay_service) eff" where
  "run_server R D E T dbx now store =
    rbind (on_settings_world (load E)) (\<lambda>_.
    rbind (\<lambda>s. (DnsResolver_of D (Settings_Manager.dns E (fst s)), s)) (\<lambda>resolver.
    rbind (on_world_of (reconcile_stale_active_on_startup R T dbx now)) (\<lambda>_ s.
      (let relay = relay_params E (fst s);
           max_conn = ttl_field ''max_connections'' relay (max_connections (relay_cfg (base E))) in
       (bind_result (semaphore max_conn) (\<lambda>v.
          Inr \<lparr>rm_settings = fst s, rm_dns = resolver, rm_store = apply_ttl (redis_ttl E (fst s)) store,
            rm_plugins = relay_plugins (ttl_field ''idle_timeout'' relay (Config.idle_timeout (relay_cfg (base E))))
              (ttl_field ''max_session_duration'' relay (Config.max_session_duration (relay_cfg (base E)))),
            conn_semaphore = v, conn_limit = max_conn, running = 0, listening = True\<rparr>), s)))))"

section \<open>The limit on connections\<close>

text \<open>
  A new connection takes a permit unless the semaphore is locked; then it is aborted. As a handler never
  waits for a permit, \<^verbatim>\<open>locked()\<close> is that the value is zero.
\<close>

definition limited_handler :: "relay_service \<Rightarrow> bool \<times> relay_service" where
  "limited_handler w = (if conn_semaphore w = 0 then (False, w)
     else (True, w\<lparr>conn_semaphore := conn_semaphore w - 1, running := running w + 1\<rparr>))"

definition handler_done :: "relay_service \<Rightarrow> relay_service" where
  "handler_done w = (if running w = 0 then w else w\<lparr>conn_semaphore := conn_semaphore w + 1, running := running w - 1\<rparr>)"

section \<open>Changed settings\<close>

fun set_timeouts :: "jobj \<Rightarrow> plugin \<Rightarrow> plugin" where
  "set_timeouts rp (SessionMonitor p) = SessionMonitor (update_timeouts
     (ttl_field ''idle_timeout'' rp (Relay_Plugins.idle_timeout p))
     (ttl_field ''max_session_duration'' rp (Relay_Plugins.max_session_duration p)) p)"
| "set_timeouts rp p = p"

text \<open>Only a raised limit changes the semaphore.\<close>

definition set_limit :: "int \<Rightarrow> relay_service \<Rightarrow> relay_service" where
  "set_limit new_max w = (if new_max = conn_limit w then w
     else let diff = new_max - conn_limit w in
       w\<lparr>conn_limit := new_max, conn_semaphore := conn_semaphore w + (if 0 < diff then nat diff else 0)\<rparr>)"

definition reload_settings :: "dns_lib \<Rightarrow> senv \<Rightarrow> (relay_service, unit) eff" where
  "reload_settings D E =
    rbind (\<lambda>w. case load E (rm_settings w) of (r, s) \<Rightarrow> (r, w\<lparr>rm_settings := s\<rparr>)) (\<lambda>_.
    rbind (\<lambda>w. (DnsResolver_of D (Settings_Manager.dns E (rm_settings w)), w)) (\<lambda>resolver w.
      (let rp = relay_params E (rm_settings w) in
       (Inr (), set_limit (ttl_field ''max_connections'' rp (conn_limit w))
          (w\<lparr>rm_dns := resolver, rm_store := apply_ttl (redis_ttl E (rm_settings w)) (rm_store w),
             rm_plugins := map (set_timeouts rp) (rm_plugins w)\<rparr>)))))"

text \<open>
  One round of the loop, with what \<^verbatim>\<open>get_message\<close> brings: nothing or a subscription (\<open>Inr False\<close>), a
  message, or an exception. Every exception ends the task, which nothing starts again.
\<close>

definition settings_listener :: "dns_lib \<Rightarrow> senv \<Rightarrow> bool result \<Rightarrow> relay_service \<Rightarrow> relay_service" where
  "settings_listener D E msg w = (if \<not> listening w then w
    else (case msg of
        Inl _ \<Rightarrow> w\<lparr>listening := False\<rparr>
      | Inr False \<Rightarrow> w
      | Inr True \<Rightarrow> (case reload_settings D E w of (Inr _, w') \<Rightarrow> w' | (Inl _, w') \<Rightarrow> w'\<lparr>listening := False\<rparr>)))"

section \<open>Runs of the service\<close>

text \<open>The connections, the rounds of the task, and changes of the settings table by other processes.\<close>

datatype relay_step = Connect | Leave | Round senv "bool result" | TableChanged jobj

fun relay_exec1 :: "dns_lib \<Rightarrow> relay_step \<Rightarrow> relay_service \<Rightarrow> relay_service" where
  "relay_exec1 D Connect w = snd (limited_handler w)"
| "relay_exec1 D Leave w = handler_done w"
| "relay_exec1 D (Round E msg) w = settings_listener D E msg w"
| "relay_exec1 D (TableChanged rows) w = w\<lparr>rm_settings := (rm_settings w)\<lparr>s_rows := rows\<rparr>\<rparr>"

fun relay_exec :: "dns_lib \<Rightarrow> relay_step list \<Rightarrow> relay_service \<Rightarrow> relay_service" where
  "relay_exec D [] w = w"
| "relay_exec D (e # es) w = relay_exec D es (relay_exec1 D e w)"

text \<open>The limits that were in force, and by how much they were raised in all.\<close>

fun limits :: "dns_lib \<Rightarrow> relay_step list \<Rightarrow> relay_service \<Rightarrow> int list" where
  "limits D [] w = [conn_limit w]"
| "limits D (e # es) w = conn_limit w # limits D es (relay_exec1 D e w)"

fun climbs :: "int list \<Rightarrow> nat" where
  "climbs (a # b # r) = (if a < b then nat (b - a) else 0) + climbs (b # r)"
| "climbs _ = 0"

definition capacity :: "relay_service \<Rightarrow> nat" where
  "capacity w = running w + conn_semaphore w"

lemma limits_Cons: "limits D es w = conn_limit w # tl (limits D es w)"
  by (cases es) simp_all

lemma limits_nonempty [simp]: "limits D es w \<noteq> []"
  by (cases es) simp_all

lemma last_limits: "last (limits D es w) = conn_limit (relay_exec D es w)"
  by (induction es arbitrary: w) simp_all

lemma climbs_limits: "climbs (limits D (e # es) w)
    = (if conn_limit w < conn_limit (relay_exec1 D e w) then nat (conn_limit (relay_exec1 D e w) - conn_limit w) else 0)
      + climbs (limits D es (relay_exec1 D e w))"
  using limits_Cons [of D es "relay_exec1 D e w"] by (metis climbs.simps(1) limits.simps(2))

lemma climbs_ge: "xs \<noteq> [] \<Longrightarrow> last xs - hd xs \<le> int (climbs xs)"
  by (induction xs rule: climbs.induct) auto

lemma climbs_sorted: "sorted xs \<Longrightarrow> xs \<noteq> [] \<Longrightarrow> int (climbs xs) = last xs - hd xs"
  by (induction xs rule: climbs.induct) auto

lemma reload_limit:
  assumes "reload_settings D E w = (r, w')"
  shows "running w' = running w \<and> listening w' = listening w
    \<and> conn_semaphore w' = conn_semaphore w + (if conn_limit w < conn_limit w' then nat (conn_limit w' - conn_limit w) else 0)"
  using assms by (auto simp: reload_settings_def rbind_def set_limit_def Let_def split: prod.splits sum.splits if_splits)

lemma exec1_capacity: "capacity (relay_exec1 D e w) = capacity w
    + (if conn_limit w < conn_limit (relay_exec1 D e w) then nat (conn_limit (relay_exec1 D e w) - conn_limit w) else 0)"
proof (cases e)
  case (Round E msg)
  obtain r w' where "reload_settings D E w = (r, w')" by force
  with reload_limit [OF this] Round show ?thesis
    by (auto simp: capacity_def settings_listener_def split: sum.split bool.split)
qed (auto simp: capacity_def limited_handler_def handler_done_def)

lemma exec_capacity: "capacity (relay_exec D es w) = capacity w + climbs (limits D es w)"
proof (induction es arbitrary: w)
  case (Cons e es)
  then show ?case using exec1_capacity [of D e w] climbs_limits [of D e es w] by simp
qed simp

lemma run_server_start:
  assumes "run_server R D E T dbx now store s = (Inr w, s')"
  shows "int (capacity w) = conn_limit w" and "running w = 0" and "listening w" and "service_shape (rm_plugins w)"
  using assms by (auto simp: run_server_def rbind_def capacity_def semaphore_def bind_result_def Let_def shape_relay_plugins
      split: prod.splits sum.splits if_splits)

section \<open>How many connections run\<close>

text \<open>
  C11: From the start of the service on, in every order of connections, ends, reloads and changes of the
  table, the connections that run and the permits that are left add up to the first limit plus all
  raises of the limit; a new connection is let in exactly when fewer run than that. As long as the limit
  was never lowered this is the limit in force, and no more connections run. Lowering takes nothing away:
  after the limit went down and up again the service lets in more than the limit, by what was lowered.
\<close>

theorem connections_bounded:
  assumes "run_server R D E T dbx now store s = (Inr w0, s')"
  defines "w \<equiv> \<lambda>es. relay_exec D es w0"
  shows "int (running (w es) + conn_semaphore (w es)) = conn_limit w0 + int (climbs (limits D es w0))
    \<and> (fst (limited_handler (w es)) \<longleftrightarrow> int (running (w es)) < conn_limit w0 + int (climbs (limits D es w0)))
    \<and> (sorted (limits D es w0) \<longrightarrow> int (running (w es)) \<le> conn_limit (w es)
         \<and> (fst (limited_handler (w es)) \<longleftrightarrow> int (running (w es)) < conn_limit (w es)))
    \<and> conn_limit (w es) \<le> int (running (w es) + conn_semaphore (w es))"
proof -
  have eq: "int (running (w es) + conn_semaphore (w es)) = conn_limit w0 + int (climbs (limits D es w0))"
    using exec_capacity [of D es w0] run_server_start(1) [OF assms(1)] by (simp add: w_def capacity_def)
  have acc: "fst (limited_handler (w es)) \<longleftrightarrow> conn_semaphore (w es) \<noteq> 0" by (simp add: limited_handler_def)
  have ls: "hd (limits D es w0) = conn_limit w0" "last (limits D es w0) = conn_limit (w es)"
    by (subst limits_Cons, simp) (simp add: last_limits w_def)
  have "int (climbs (limits D es w0)) = conn_limit (w es) - conn_limit w0" if "sorted (limits D es w0)"
    using climbs_sorted [OF that] ls by simp
  moreover have "conn_limit (w es) - conn_limit w0 \<le> int (climbs (limits D es w0))"
    using climbs_ge [of "limits D es w0"] ls by simp
  ultimately show ?thesis using eq acc by auto
qed

definition ref_dns_lib :: dns_lib where
  "ref_dns_lib = \<lparr>system_resolver = Inr (), set_nameservers = (\<lambda>_. Inr ())\<rparr>"

definition relay_rows :: "int \<Rightarrow> jobj" where
  "relay_rows n = [(k_relay, JObj [(lit ''max_connections'', JInt n)])]"

definition ref_relay_settings :: "int \<Rightarrow> settings" where
  "ref_relay_settings n = (ref_settings (relay_rows n))\<lparr>s_seeded := True\<rparr>"

lemma ref_cache: "fresh_cache (relay_rows n) k_relay = Some [(lit ''max_connections'', JInt n)]"
  "fresh_cache (relay_rows n) k_dns = None" "fresh_cache (relay_rows n) k_redis_ttl = None"
  by (simp_all add: fresh_cache_def relay_rows_def key_names lit_eval)

lemma ref_max: "s_cache s = fresh_cache (relay_rows n) \<Longrightarrow> ttl_field ''max_connections'' (relay_params ref_senv s) d = n"
  by (simp add: relay_params_def ref_cache numbers_def dump_relay_def ttl_field_def lit_eval)

lemma ref_resolver_ok: "s_cache s = fresh_cache (relay_rows n) \<Longrightarrow> \<exists>d. DnsResolver_of ref_dns_lib (Settings_Manager.dns ref_senv s) = Inr d"
  by (simp add: DnsResolver_of_def Settings_Manager.dns_def ref_cache ref_senv_def ref_app_config_def ref_dns_lib_def)

lemma ref_load: "s_rows s = relay_rows n \<Longrightarrow> s_seeded s \<Longrightarrow>
    load ref_senv s = (Inr (), s\<lparr>s_cache := fresh_cache (relay_rows n), s_loaded_at := 0\<rparr>)"
  by (simp add: load_def ref_senv_def)

lemma ref_round:
  assumes "listening w" and "s_rows (rm_settings w) = relay_rows n" and "s_seeded (rm_settings w)"
  shows "\<exists>w'. relay_exec1 ref_dns_lib (Round ref_senv (Inr True)) w = w' \<and> conn_limit w' = n \<and> running w' = running w
    \<and> listening w' \<and> s_seeded (rm_settings w')"
proof -
  let ?st = "(rm_settings w)\<lparr>s_cache := fresh_cache (relay_rows n), s_loaded_at := 0\<rparr>"
  obtain d where "DnsResolver_of ref_dns_lib (Settings_Manager.dns ref_senv ?st) = Inr d" using ref_resolver_ok [of ?st n] by auto
  with assms show ?thesis
    by (simp add: settings_listener_def reload_settings_def rbind_def ref_load set_limit_def Let_def ref_max)
qed

theorem connections_bounded_witness:
  "\<exists>w0 s' es. run_server mem_redis ref_dns_lib ref_senv \<lparr>has_db = True, has_redis = False, t_instance_id = lit ''r''\<rparr> None 0 ref_store
       (ref_relay_settings 5, \<lparr>rdb = empty_db, history = [], conn_events = []\<rparr>) = (Inr w0, s')
     \<and> limits ref_dns_lib es w0 = [5, 5, 2, 2, 5] \<and> running (relay_exec ref_dns_lib es w0) = 0
     \<and> conn_semaphore (relay_exec ref_dns_lib es w0) = 8"
proof -
  let ?s = "(ref_relay_settings 5, \<lparr>rdb = empty_db, history = [], conn_events = []\<rparr>)"
  let ?T = "\<lparr>has_db = True, has_redis = False, t_instance_id = lit ''r''\<rparr>"
  let ?run = "run_server mem_redis ref_dns_lib ref_senv ?T None 0 ref_store ?s"
  let ?go = "Round ref_senv (Inr True)"
  let ?es = "[TableChanged (relay_rows 2), ?go, TableChanged (relay_rows 5), ?go]"
  have st: "s_rows (ref_relay_settings 5) = relay_rows 5" "s_seeded (ref_relay_settings 5)"
    by (simp_all add: ref_relay_settings_def ref_settings_def)
  let ?st = "(ref_relay_settings 5)\<lparr>s_cache := fresh_cache (relay_rows 5), s_loaded_at := 0\<rparr>"
  obtain d where d: "DnsResolver_of ref_dns_lib (Settings_Manager.dns ref_senv ?st) = Inr d" using ref_resolver_ok [of ?st 5] by auto
  have rm: "ttl_field ''max_connections'' (relay_params ref_senv ?st) n = 5" for n by (rule ref_max) simp
  have "\<exists>w0 s'. ?run = (Inr w0, s') \<and> conn_limit w0 = 5 \<and> s_seeded (rm_settings w0)"
    using ref_load [OF st] d rm st(2)
    by (simp add: run_server_def rbind_def on_settings_world_def on_world_of_def reconcile_stale_active_on_startup_def on_db_def
        rreturn_def semaphore_def Let_def reconcile_rows_def sql_update_def rowcount_def)
  then obtain w0 s' where run: "?run = (Inr w0, s')" and w0: "conn_limit w0 = 5" "s_seeded (rm_settings w0)" by blast
  have w0': "running w0 = 0" "listening w0" using run_server_start [OF run] by simp_all
  let ?w1 = "relay_exec1 ref_dns_lib (TableChanged (relay_rows 2)) w0"
  obtain w2 where w2: "relay_exec1 ref_dns_lib ?go ?w1 = w2" "conn_limit w2 = 2" "running w2 = 0" "listening w2" "s_seeded (rm_settings w2)"
    using ref_round [of ?w1 2] w0 w0' by auto
  let ?w3 = "relay_exec1 ref_dns_lib (TableChanged (relay_rows 5)) w2"
  obtain w4 where w4: "relay_exec1 ref_dns_lib ?go ?w3 = w4" "conn_limit w4 = 5" "running w4 = 0"
    using ref_round [of ?w3 5] w2 by auto
  have ls: "limits ref_dns_lib ?es w0 = [5, 5, 2, 2, 5]" and ex: "relay_exec ref_dns_lib ?es w0 = w4"
    using w0 w2 w4 by (simp_all del: relay_exec1.simps(3))
  have "conn_semaphore w4 = 8"
    using connections_bounded [OF run, of ?es] w0(1) w4(3) unfolding ls ex by simp
  with run ls ex w4 show ?thesis by blast
qed

section \<open>What a reload does\<close>

text \<open>What handlers and new connections read of the settings.\<close>

definition in_force :: "relay_service \<Rightarrow> DnsResolver \<times> SessionStore \<times> plugin list \<times> int" where
  "in_force w = (rm_dns w, rm_store w, rm_plugins w, conn_limit w)"

lemma stopped_exec1: "\<not> listening w \<Longrightarrow> \<not> listening (relay_exec1 D e w) \<and> in_force (relay_exec1 D e w) = in_force w"
  by (cases e) (auto simp: settings_listener_def limited_handler_def handler_done_def in_force_def)

lemma stopped_exec: "\<not> listening w \<Longrightarrow> \<not> listening (relay_exec D es w) \<and> in_force (relay_exec D es w) = in_force w"
  by (induction es arbitrary: w) (auto simp: stopped_exec1)

text \<open>
  A message takes the settings of the table over as a whole: a fresh resolver, times to live, time-outs
  and limit, each with its old value where the settings have none. It does so if the settings can be
  loaded and the resolver can be set up from them; if one of them fails the task ends, and then, whatever
  is saved later, resolver, store, plugins and limit stay as they are until the service is restarted.
\<close>

lemma settings_listener_reload:
  assumes "listening w" and "load E (rm_settings w) = (r, st)"
  shows "(\<forall>d. r = Inr () \<and> DnsResolver_of D (Settings_Manager.dns E st) = Inr d \<longrightarrow>
       listening (settings_listener D E (Inr True) w)
       \<and> in_force (settings_listener D E (Inr True) w)
         = (d, apply_ttl (redis_ttl E st) (rm_store w), map (set_timeouts (relay_params E st)) (rm_plugins w),
            ttl_field ''max_connections'' (relay_params E st) (conn_limit w)))
    \<and> (\<forall>e. r = Inl e \<or> DnsResolver_of D (Settings_Manager.dns E st) = Inl e \<longrightarrow>
       in_force (relay_exec D es (settings_listener D E (Inr True) w)) = in_force w)
    \<and> (\<forall>e. in_force (relay_exec D es (settings_listener D E (Inl e) w)) = in_force w)"
proof (intro conjI allI impI)
  fix d assume a: "r = Inr () \<and> DnsResolver_of D (Settings_Manager.dns E st) = Inr d"
  then show "listening (settings_listener D E (Inr True) w)"
    "in_force (settings_listener D E (Inr True) w)
       = (d, apply_ttl (redis_ttl E st) (rm_store w), map (set_timeouts (relay_params E st)) (rm_plugins w),
          ttl_field ''max_connections'' (relay_params E st) (conn_limit w))"
    using assms by (simp_all add: settings_listener_def reload_settings_def rbind_def set_limit_def in_force_def Let_def)
next
  fix e assume "r = Inl e \<or> DnsResolver_of D (Settings_Manager.dns E st) = Inl e"
  then obtain w' where "settings_listener D E (Inr True) w = w'" "\<not> listening w'" "in_force w' = in_force w"
    using assms by (cases r) (auto simp: settings_listener_def reload_settings_def rbind_def in_force_def)
  then show "in_force (relay_exec D es (settings_listener D E (Inr True) w)) = in_force w" by (simp add: stopped_exec)
next
  fix e
  show "in_force (relay_exec D es (settings_listener D E (Inl e) w)) = in_force w"
    using assms stopped_exec [of "w\<lparr>listening := False\<rparr>"] by (simp add: settings_listener_def in_force_def)
qed

lemma settings_listener_reload_witness:
  "\<exists>w. listening w \<and> s_rows (rm_settings w) = relay_rows 7
     \<and> conn_limit (settings_listener ref_dns_lib ref_senv (Inr True) w) = 7
     \<and> in_force (relay_exec ref_dns_lib [TableChanged (relay_rows 9), Round ref_senv (Inr True)]
          (settings_listener ref_dns_lib ref_senv (Inl OtherException) w)) = in_force w"
proof -
  let ?w = "\<lparr>rm_settings = ref_relay_settings 7, rm_dns = ref_resolver, rm_store = ref_store, rm_plugins = relay_plugins 60 0,
     conn_semaphore = 5, conn_limit = 5, running = 0, listening = True\<rparr>"
  let ?st = "(ref_relay_settings 7)\<lparr>s_cache := fresh_cache (relay_rows 7), s_loaded_at := 0\<rparr>"
  have l: "load ref_senv (rm_settings ?w) = (Inr (), ?st)"
    using ref_load [of "ref_relay_settings 7" 7] by (simp add: ref_relay_settings_def ref_settings_def)
  obtain d where d: "DnsResolver_of ref_dns_lib (Settings_Manager.dns ref_senv ?st) = Inr d" using ref_resolver_ok [of ?st 7] by auto
  have rm: "ttl_field ''max_connections'' (relay_params ref_senv ?st) n = 7" for n by (rule ref_max) simp
  have "snd (snd (snd (in_force (settings_listener ref_dns_lib ref_senv (Inr True) ?w)))) = 7"
    using settings_listener_reload [OF _ l, of ref_dns_lib] d rm by simp
  moreover have "in_force (relay_exec ref_dns_lib [TableChanged (relay_rows 9), Round ref_senv (Inr True)]
      (settings_listener ref_dns_lib ref_senv (Inl OtherException) ?w)) = in_force ?w"
    by (rule settings_listener_reload [OF _ l, THEN conjunct2, THEN conjunct2, THEN spec]) simp
  moreover have "s_rows (rm_settings ?w) = relay_rows 7" by (simp add: ref_relay_settings_def ref_settings_def)
  moreover have "listening ?w" by simp
  ultimately show ?thesis by (intro exI [of _ ?w]) (simp add: in_force_def)
qed

section \<open>Stopping\<close>

text \<open>
  A signal sets an event. \<^verbatim>\<open>run_server\<close> then cancels the task that follows the settings and closes the listening socket, so that no
  client is let in any more; \<^verbatim>\<open>wait_closed\<close> of asyncio returns when every connection that was let in has ended, and only then
  the client of Redis is closed and the service returns. A second signal changes nothing.
\<close>

datatype stop_phase = Serving | Ending | Ended

record relay_process =
  rp_service :: relay_service
  rp_phase :: stop_phase

definition signal_handler :: "relay_process \<Rightarrow> relay_process" where
  "signal_handler p = (if rp_phase p = Serving
     then p\<lparr>rp_phase := Ending, rp_service := (rp_service p)\<lparr>listening := False\<rparr>\<rparr> else p)"

definition server_closed :: "relay_process \<Rightarrow> relay_process" where
  "server_closed p = (if rp_phase p = Ending \<and> running (rp_service p) = 0 then p\<lparr>rp_phase := Ended\<rparr> else p)"

datatype process_step = Serve relay_step | Signal | WaitClosed

fun process_exec1 :: "dns_lib \<Rightarrow> process_step \<Rightarrow> relay_process \<Rightarrow> relay_process" where
  "process_exec1 D (Serve e) p =
     (if e = Connect \<and> rp_phase p \<noteq> Serving \<or> rp_phase p = Ended then p
      else p\<lparr>rp_service := relay_exec1 D e (rp_service p)\<rparr>)"
| "process_exec1 D Signal p = signal_handler p"
| "process_exec1 D WaitClosed p = server_closed p"

fun process_exec :: "dns_lib \<Rightarrow> process_step list \<Rightarrow> relay_process \<Rightarrow> relay_process" where
  "process_exec D [] p = p"
| "process_exec D (e # es) p = process_exec D es (process_exec1 D e p)"

text \<open>How many of the connections that run have left.\<close>

fun leaves :: "process_step list \<Rightarrow> nat" where
  "leaves [] = 0"
| "leaves (e # es) = (if e = Serve Leave then 1 else 0) + leaves es"

lemma relay_exec1_running: "e \<noteq> Connect \<Longrightarrow> running (relay_exec1 D e w) = running w - (if e = Leave then 1 else 0)"
proof (cases e)
  case (Round E msg)
  obtain r w' where "reload_settings D E w = (r, w')" by force
  with reload_limit [OF this] Round show ?thesis by (auto simp: settings_listener_def split: sum.split bool.split)
qed (auto simp: handler_done_def)

lemma closing_exec1:
  fixes D :: dns_lib and e :: process_step
  assumes "rp_phase p \<noteq> Serving" and "\<not> listening (rp_service p)" and "rp_phase p = Ended \<longrightarrow> running (rp_service p) = 0"
  defines "q \<equiv> process_exec1 D e p"
  shows "rp_phase q \<noteq> Serving" and "\<not> listening (rp_service q)" and "in_force (rp_service q) = in_force (rp_service p)"
    and "running (rp_service q) = running (rp_service p) - (if e = Serve Leave then 1 else 0)"
    and "rp_phase q = Ended \<longrightarrow> running (rp_service q) = 0"
proof -
  have "rp_phase q \<noteq> Serving \<and> \<not> listening (rp_service q) \<and> in_force (rp_service q) = in_force (rp_service p)
    \<and> running (rp_service q) = running (rp_service p) - (if e = Serve Leave then 1 else 0) \<and> (rp_phase q = Ended \<longrightarrow> running (rp_service q) = 0)"
  proof (cases "\<exists>s. e = Serve s \<and> s \<noteq> Connect \<and> rp_phase p \<noteq> Ended")
    case True
    then obtain s where s: "e = Serve s" "s \<noteq> Connect" "rp_phase p \<noteq> Ended" by blast
    then have "q = p\<lparr>rp_service := relay_exec1 D s (rp_service p)\<rparr>" by (simp add: q_def)
    with s assms(1) stopped_exec1 [OF assms(2), of D s] relay_exec1_running [OF s(2), of D "rp_service p"] show ?thesis by simp
  next
    case False
    then show ?thesis using assms(1-3) by (cases e) (auto simp: q_def signal_handler_def server_closed_def)
  qed
  then show "rp_phase q \<noteq> Serving" and "\<not> listening (rp_service q)" and "in_force (rp_service q) = in_force (rp_service p)"
    and "running (rp_service q) = running (rp_service p) - (if e = Serve Leave then 1 else 0)"
    and "rp_phase q = Ended \<longrightarrow> running (rp_service q) = 0" by blast+
qed

text \<open>
  After the first signal no connection is let in and the settings stay as they are; the connections that run go on until they
  leave by themselves, for stopping does not end them, and the service can stop exactly when the last one has left: a single silent connection, which even a kill
  does not end, keeps it from stopping.
\<close>

lemma stop_waits_for_connections:
  fixes D :: dns_lib and es :: "process_step list"
  assumes "rp_phase p = Serving"
  defines "q \<equiv> process_exec D es (signal_handler p)"
  shows "in_force (rp_service q) = in_force (rp_service p)"
    and "running (rp_service q) = running (rp_service p) - leaves es"
    and "rp_phase (process_exec1 D WaitClosed q) = Ended \<longleftrightarrow> running (rp_service p) \<le> leaves es"
proof -
  let ?I = "\<lambda>es p q. rp_phase q \<noteq> Serving \<and> (rp_phase q = Ended \<longrightarrow> running (rp_service q) = 0)
      \<and> in_force (rp_service q) = in_force (rp_service p) \<and> running (rp_service q) = running (rp_service p) - leaves es"
  have "?I es p (process_exec D es p)" if "rp_phase p \<noteq> Serving" "\<not> listening (rp_service p)" "rp_phase p = Ended \<longrightarrow> running (rp_service p) = 0" for p
    using that
  proof (induction es arbitrary: p)
    case (Cons e es)
    note c = closing_exec1 [OF Cons.prems, of D e]
    from Cons.IH [OF c(1,2,5)] c(3,4) show ?case by auto
  qed simp
  note step = this
  have I: "?I es (signal_handler p) q" unfolding q_def by (rule step) (simp_all add: signal_handler_def assms(1))
  have same: "in_force (rp_service (signal_handler p)) = in_force (rp_service p)" "running (rp_service (signal_handler p)) = running (rp_service p)"
    by (simp_all add: signal_handler_def in_force_def)
  from I have q: "rp_phase q \<noteq> Serving" "rp_phase q = Ended \<longrightarrow> running (rp_service q) = 0"
    "in_force (rp_service q) = in_force (rp_service p)" "running (rp_service q) = running (rp_service p) - leaves es" unfolding same by blast+
  from q(3,4) show "in_force (rp_service q) = in_force (rp_service p)" "running (rp_service q) = running (rp_service p) - leaves es" .
  have "rp_phase q = Ending \<or> rp_phase q = Ended" using q(1) by (cases "rp_phase q") simp_all
  then show "rp_phase (process_exec1 D WaitClosed q) = Ended \<longleftrightarrow> running (rp_service p) \<le> leaves es"
    using q(2,4) by (auto simp: server_closed_def)
qed

end
