(* ===== verification/Haproxy_Reload.thy ===== *)
theory Haproxy_Reload
  imports Py_Text Utf_Codec
begin

text \<open>
  Replacing the certificate of a running HAProxy (\<^verbatim>\<open>src/libs/acme_client/haproxy_reload.py\<close>) and the
  server that answers the challenges of the certificate authority
  (\<^verbatim>\<open>src/libs/acme_client/challenge_server.py\<close>). The socket of HAProxy is a parameter: what it answers to
  a command after the commands before, or how the exchange fails; the state is the commands sent. A
  connection to the challenge server is the bytes that arrive until the peer closes, and its result the
  bytes written.
\<close>

section \<open>Lines of a text\<close>

text \<open>\<^verbatim>\<open>s.splitlines()\<close>: carriage return and line feed together are one end of line.\<close>

definition line_break :: "nat \<Rightarrow> bool" where
  "line_break c \<longleftrightarrow> c \<in> {10, 11, 12, 13, 28, 29, 30, 133, 8232, 8233}"

definition drop_break :: "ustr \<Rightarrow> ustr" where
  "drop_break s = (case s of [] \<Rightarrow> [] | c # r \<Rightarrow> if c = 13 \<and> starts_with [10] r then tl r else r)"

lemma drop_break_less: "s \<noteq> [] \<Longrightarrow> length (drop_break (dropWhile P s)) < length s"
proof -
  assume s: "s \<noteq> []"
  have "length (drop_break t) < length s" if "length t \<le> length s" for t
    using that s by (cases t) (auto simp: drop_break_def)
  then show ?thesis using length_dropWhile_le by blast
qed

function splitlines :: "ustr \<Rightarrow> ustr list" where
  "splitlines s = (if s = [] then []
     else takeWhile (\<lambda>c. \<not> line_break c) s # splitlines (drop_break (dropWhile (\<lambda>c. \<not> line_break c) s)))"
  by pat_completeness auto

termination by (relation "measure length") (simp_all add: drop_break_less)

declare splitlines.simps [simp del]

lemma splitlines_no_break: "l \<in> set (splitlines s) \<Longrightarrow> c \<in> set l \<Longrightarrow> \<not> line_break c"
proof (induction s rule: splitlines.induct)
  case (1 s)
  from "1.prems"(1) have "s \<noteq> []" by (auto simp: splitlines.simps [of s] split: if_splits)
  with "1.prems"(1) have "l = takeWhile (\<lambda>c. \<not> line_break c) s \<or> l \<in> set (splitlines (drop_break (dropWhile (\<lambda>c. \<not> line_break c) s)))"
    by (simp add: splitlines.simps [of s])
  with "1.IH" [OF \<open>s \<noteq> []\<close>] "1.prems"(2) show ?case by (auto dest: set_takeWhileD)
qed

section \<open>The two-phase update\<close>

definition strip_blank_lines :: "ustr \<Rightarrow> ustr" where
  "strip_blank_lines pem = join [10] (filter (\<lambda>l. strip l \<noteq> []) (splitlines pem)) @ [10]"

type_synonym haproxy = "bytes list \<Rightarrow> bytes \<Rightarrow> ustr result"

definition send_command :: "haproxy \<Rightarrow> bytes \<Rightarrow> (bytes list, ustr) eff" where
  "send_command H payload sent = (bind_result (H sent payload) (\<lambda>r. Inr (strip r)), sent @ [payload])"

definition abort_command :: "ustr \<Rightarrow> ustr" where
  "abort_command path = lit ''abort ssl cert '' @ path @ [10]"

definition set_command :: "ustr \<Rightarrow> ustr \<Rightarrow> ustr" where
  "set_command path cert_str = lit ''set ssl cert '' @ path @ lit '' <<'' @ [10] @ cert_str @ [10]"

definition commit_command :: "ustr \<Rightarrow> ustr" where
  "commit_command path = lit ''commit ssl cert '' @ path @ [10]"

definition staged :: "ustr \<Rightarrow> bool" where
  "staged resp \<longleftrightarrow> py_contains (lit ''Transaction created'') resp \<or> py_contains (lit ''Transaction updated'') resp"

definition committed :: "ustr \<Rightarrow> bool" where
  "committed resp \<longleftrightarrow> py_contains (lit ''Success'') resp \<or> py_contains (lit ''New'') resp"

definition update_steps :: "haproxy \<Rightarrow> bytes \<Rightarrow> ustr \<Rightarrow> (bytes list, bool) eff" where
  "update_steps H pem_content path =
    rbind (rlift (utf8_decode pem_content)) (\<lambda>pem.
    let cert_str = strip_blank_lines pem in
    rbind (rlift (utf8_encode (abort_command path))) (\<lambda>abort_payload.
    rbind (send_command H abort_payload) (\<lambda>_.
    rbind (rlift (utf8_encode (set_command path cert_str))) (\<lambda>set_payload.
    rbind (send_command H set_payload) (\<lambda>set_resp.
    if \<not> staged set_resp then rreturn False
    else
    rbind (rlift (utf8_encode (commit_command path))) (\<lambda>commit_payload.
    rbind (send_command H commit_payload) (\<lambda>commit_resp.
    rreturn (committed commit_resp))))))))"

text \<open>Without a socket nothing is sent; an exception counts as failure.\<close>

definition hot_update_ssl_cert :: "bool \<Rightarrow> haproxy \<Rightarrow> bytes \<Rightarrow> ustr \<Rightarrow> bytes list \<Rightarrow> bool \<times> bytes list" where
  "hot_update_ssl_cert socket_exists H pem_content path sent =
    (if \<not> socket_exists then (False, sent)
     else case update_steps H pem_content path sent of (Inr ok, sent') \<Rightarrow> (ok, sent') | (Inl e, sent') \<Rightarrow> (False, sent'))"

text \<open>
  How HAProxy reads the payload of a command, as the source describes it: the lines after the command
  line up to the first empty one.
\<close>

definition heredoc :: "ustr \<Rightarrow> ustr list" where
  "heredoc payload = takeWhile (\<lambda>l. l \<noteq> []) (tl (split_on 10 payload))"

lemma heredoc_join:
  assumes "10 \<notin> set c" and "list_all (\<lambda>l. 10 \<notin> set l \<and> l \<noteq> []) ls"
  shows "heredoc (c @ [10] @ (join [10] ls @ [10]) @ [10]) = ls"
proof (cases "ls = []")
  case True
  then show ?thesis using assms(1) split_on_append [OF assms(1), of "[10, 10]"] by (simp add: heredoc_def)
next
  case False
  have "join [10] ls @ [10, 10] = join [10] (ls @ [[], []])" using False by (induction "[10::nat]" ls rule: join.induct) auto
  moreover have "split_on 10 (join [10] (ls @ [[], []])) = ls @ [[], []]"
    using assms(2) by (intro split_on_join) (auto simp: list_all_iff)
  moreover have "takeWhile (\<lambda>l. l \<noteq> []) (ls @ [[], []]) = ls"
    using assms(2) by (subst takeWhile_append2) (auto simp: list_all_iff)
  ultimately show ?thesis using split_on_append [OF assms(1), of "join [10] ls @ [10, 10]"] by (simp add: heredoc_def)
qed

lemma heredoc_set_command:
  assumes "10 \<notin> set path"
  shows "heredoc (set_command path (strip_blank_lines pem)) = filter (\<lambda>l. strip l \<noteq> []) (splitlines pem)"
proof -
  let ?ls = "filter (\<lambda>l. strip l \<noteq> []) (splitlines pem)"
  have "l \<noteq> []" if "strip l \<noteq> []" for l using that by (auto simp: strip_def)
  moreover have "10 \<notin> set l" if "l \<in> set (splitlines pem)" for l
    using splitlines_no_break [OF that, of 10] by (auto simp: line_break_def)
  ultimately have "list_all (\<lambda>l. 10 \<notin> set l \<and> l \<noteq> []) ?ls" by (auto simp: list_all_iff)
  moreover have "10 \<notin> set (lit ''set ssl cert '' @ path @ lit '' <<'')" using assms by (simp add: lit_eval)
  ultimately show ?thesis using heredoc_join [of "lit ''set ssl cert '' @ path @ lit '' <<''" ?ls]
    by (simp add: set_command_def strip_blank_lines_def)
qed

text \<open>
  The update reports success only after exactly three commands: an abort, the upload, which HAProxy
  acknowledged as a transaction, and the commit, which it acknowledged too. If the upload was not
  acknowledged no commit is sent, and without the socket nothing is.
\<close>

lemma hot_update_complete:
  assumes "utf8_decode pem_content = Inr pem" and "list_all scalar path"
    and "hot_update_ssl_cert ex H pem_content path sent0 = (ok, sent)"
  shows "(\<not> ex \<and> \<not> ok \<and> sent = sent0)
    \<or> (\<exists>a. utf8_encode (abort_command path) = Inr a \<and> ((\<not> ok \<and> sent = sent0 @ [a])
       \<or> (\<exists>s. utf8_decode s = Inr (set_command path (strip_blank_lines pem)) \<and> ((\<not> ok \<and> sent = sent0 @ [a, s])
          \<or> (\<exists>c r1. utf8_encode (commit_command path) = Inr c \<and> H (sent0 @ [a]) s = Inr r1 \<and> staged (strip r1) \<and> sent = sent0 @ [a, s, c]
              \<and> (ok \<longrightarrow> (\<exists>r2. H (sent0 @ [a, s]) c = Inr r2 \<and> committed (strip r2))))))))"
proof -
  have enc: "list_all scalar (lit s @ path @ [10])" if "list_all (\<lambda>c. c < 128) (lit s)" for s
    using that assms(2) by (auto simp: list_all_iff scalar_def)
  obtain a c where ab: "utf8_encode (abort_command path) = Inr a" and cm: "utf8_encode (commit_command path) = Inr c"
    using enc [of "''abort ssl cert ''"] enc [of "''commit ssl cert ''"]
    by (simp add: utf8_encode_def abort_command_def commit_command_def lit_eval)
  let ?set = "set_command path (strip_blank_lines pem)"
  show ?thesis
  proof (cases ex)
    case True
    then have run: "update_steps H pem_content path sent0 = (Inr ok, sent) \<or> (\<exists>e. update_steps H pem_content path sent0 = (Inl e, sent) \<and> \<not> ok)"
      using assms(3) by (auto simp: hot_update_ssl_cert_def split: if_splits prod.splits sum.splits)
    have "(sent = sent0 @ [a] \<and> \<not> ok) \<or> (\<exists>s. utf8_encode ?set = Inr s \<and> ((sent = sent0 @ [a, s] \<and> \<not> ok)
        \<or> (\<exists>r1. H (sent0 @ [a]) s = Inr r1 \<and> staged (strip r1) \<and> sent = sent0 @ [a, s, c]
            \<and> (ok \<longrightarrow> (\<exists>r2. H (sent0 @ [a, s]) c = Inr r2 \<and> committed (strip r2))))))"
      using run assms(1) ab cm
      by (auto simp: update_steps_def rd_simps send_command_def Let_def bind_result_Inr split: sum.splits if_splits)
    with ab cm utf8_decode_encode [of ?set] show ?thesis by metis
  next
    case False
    then show ?thesis using assms(3) by (simp add: hot_update_ssl_cert_def)
  qed
qed

definition ref_haproxy :: haproxy where
  "ref_haproxy sent payload = Inr (case length sent of 0 \<Rightarrow> lit ''x'' | Suc 0 \<Rightarrow> lit ''Transaction created'' | _ \<Rightarrow> lit ''Success!'')"

section \<open>The challenge server\<close>

text \<open>
  \<^verbatim>\<open>StreamReader.readline\<close>: up to and including the next line feed, or what is left at the end of the
  stream; a line of more than 65536 bytes raises.
\<close>

definition readline :: "bytes rd" where
  "readline s = (let line = takeWhile (\<lambda>b. b \<noteq> 10) s; rest = drop (length line) s in
     if 65536 < length line then (Inl ValueError, rest)
     else case rest of [] \<Rightarrow> (Inr line, []) | b # r \<Rightarrow> (Inr (line @ [b]), r))"

lemma readline_line: "10 \<notin> set l \<Longrightarrow> length l \<le> 65536 \<Longrightarrow> readline (l @ 10 # r) = (Inr (l @ [10]), r)"
proof -
  assume a: "10 \<notin> set l" "length l \<le> 65536"
  then have "takeWhile (\<lambda>b. b \<noteq> 10) (l @ 10 # r) = l" by (subst takeWhile_append2) auto
  with a(2) show ?thesis by (simp add: readline_def)
qed

lemma readline_shorter: "readline s = (Inr line, r) \<Longrightarrow> line \<noteq> [] \<Longrightarrow> length r < length s"
proof -
  assume a: "readline s = (Inr line, r)" "line \<noteq> []"
  let ?t = "takeWhile (\<lambda>b. b \<noteq> 10) s"
  have "length ?t \<le> length s" by (rule length_takeWhile_le)
  with a show ?thesis
    by (cases "drop (length ?t) s") (auto simp: readline_def Let_def split: if_splits dest: arg_cong [where f = length])
qed

text \<open>The rest of the header, up to a blank line or the end of the stream.\<close>

function skip_headers :: "(bytes, unit) eff" where
  "skip_headers s = (case readline s of
      (Inl e, r) \<Rightarrow> (Inl e, r)
    | (Inr line, r) \<Rightarrow> if line \<in> {[13, 10], [10], []} then (Inr (), r) else skip_headers r)"
  by pat_completeness auto
termination by (relation "measure length") (auto dest: readline_shorter [OF sym])

declare skip_headers.simps [simp del]

text \<open>\<^verbatim>\<open>decode("ascii", errors="replace")\<close> never fails.\<close>

definition ascii_replace :: "bytes \<Rightarrow> ustr" where
  "ascii_replace bs = map (\<lambda>b. if unat b < 128 then unat b else 65533) bs"

definition request_path :: "bytes \<Rightarrow> ustr" where
  "request_path request_line = (let parts = split_ws (ascii_replace request_line) in if 2 \<le> length parts then parts ! 1 else [])"

definition challenge_prefix :: ustr where
  "challenge_prefix = lit ''/.well-known/acme-challenge/''"

definition crlf :: bytes where "crlf = [13, 10]"

definition not_found :: bytes where
  "not_found = blit ''HTTP/1.1 404 Not Found'' @ crlf @ blit ''Content-Length: 0'' @ crlf @ crlf"

definition found :: "bytes \<Rightarrow> bytes" where
  "found body = blit ''HTTP/1.1 200 OK'' @ crlf @ blit ''Content-Type: application/octet-stream'' @ crlf
     @ blit ''Content-Length: '' @ map word_of_nat (nat_str (length body)) @ crlf @ crlf @ body"

definition challenge_answer :: "(ustr \<Rightarrow> ustr option) \<Rightarrow> ustr \<Rightarrow> bytes result" where
  "challenge_answer tokens path =
    (if starts_with challenge_prefix path
     then (case tokens (drop (length challenge_prefix) path) of
         Some k \<Rightarrow> if k \<noteq> [] then bind_result (utf8_encode k) (\<lambda>body. Inr (found body)) else Inr not_found
       | None \<Rightarrow> Inr not_found)
     else Inr not_found)"

text \<open>The bytes written to one connection. Every exception is swallowed and nothing is written.\<close>

definition handle_challenge :: "(ustr \<Rightarrow> ustr option) \<Rightarrow> bytes \<Rightarrow> bytes" where
  "handle_challenge tokens stream =
    (case rbind readline (\<lambda>request_line.
          rbind skip_headers (\<lambda>_.
          rlift (challenge_answer tokens (request_path request_line)))) stream of
       (Inr out, _) \<Rightarrow> out | (Inl e, _) \<Rightarrow> [])"

lemma skip_headers_lines:
  assumes "list_all (\<lambda>l. 10 \<notin> set l \<and> length l \<le> 65536 \<and> l \<noteq> [] \<and> l \<noteq> [13]) ls"
  shows "skip_headers (concat (map (\<lambda>l. l @ [10]) ls) @ [13, 10] @ rest) = (Inr (), rest)"
  using assms
proof (induction ls)
  case Nil
  then show ?case using readline_line [of "[13]" rest] by (simp add: skip_headers.simps)
next
  case (Cons l ls)
  then have "readline (concat (map (\<lambda>l. l @ [10]) (l # ls)) @ [13, 10] @ rest)
      = (Inr (l @ [10]), concat (map (\<lambda>l. l @ [10]) ls) @ [13, 10] @ rest)"
    using readline_line [of l "concat (map (\<lambda>l. l @ [10]) ls) @ [13, 10] @ rest"] by simp
  moreover have "l @ [10] \<notin> {[13, 10], [10], []}" using Cons.prems by auto
  ultimately show ?case using Cons by (simp add: skip_headers.simps)
qed

lemma request_path_get:
  assumes "list_all (\<lambda>c. c < 128 \<and> \<not> py_isspace c) path" and "path \<noteq> []"
  shows "request_path (blit ''GET '' @ map word_of_nat path @ blit '' HTTP/1.1'' @ [13, 10]) = path"
proof -
  have "map (\<lambda>b. if unat (b :: byte) < 128 then unat b else 65533) (map word_of_nat path) = path"
    using assms(1) by (induction path) (auto simp: unat_of_nat)
  then have t: "ascii_replace (blit ''GET '' @ map word_of_nat path @ blit '' HTTP/1.1'' @ [13, 10])
      = [71, 69, 84] @ (32 # path @ (32 # [72, 84, 84, 80, 47, 49, 46, 49] @ [13, 10]))"
    by (simp add: ascii_replace_def lit_eval)
  have ns: "\<not> py_isspace c" if "c \<in> {71, 69, 84, 72, 80, 47, 49, 46}" for c
    using that by (auto simp: py_isspace_def py_spaces_def)
  have sp: "py_isspace 32" "py_isspace 13" "py_isspace 10" by (simp_all add: py_isspace_def py_spaces_def)
  have "runs (\<lambda>c. \<not> py_isspace c) (path @ (32 # [72, 84, 84, 80, 47, 49, 46, 49] @ [13, 10]))
      = path # runs (\<lambda>c. \<not> py_isspace c) (32 # [72, 84, 84, 80, 47, 49, 46, 49] @ [13, 10])"
    using assms sp by (intro runs_run) (auto simp: list_all_iff)
  moreover have "runs (\<lambda>c. \<not> py_isspace c) ([71, 69, 84] @ (32 # path @ (32 # [72, 84, 84, 80, 47, 49, 46, 49] @ [13, 10])))
      = [71, 69, 84] # runs (\<lambda>c. \<not> py_isspace c) (32 # path @ (32 # [72, 84, 84, 80, 47, 49, 46, 49] @ [13, 10]))"
    using ns sp by (intro runs_run) auto
  moreover have "runs (\<lambda>c. \<not> py_isspace c) (32 # [72, 84, 84, 80, 47, 49, 46, 49] @ [13, 10])
      = [72, 84, 84, 80, 47, 49, 46, 49] # runs (\<lambda>c. \<not> py_isspace c) [13, 10]"
    using runs_run [of "\<lambda>c. \<not> py_isspace c" "[72, 84, 84, 80, 47, 49, 46, 49]" "[13, 10]"] ns sp by (simp add: runs_skip)
  ultimately show ?thesis using sp by (simp add: request_path_def split_ws_def t runs_skip)
qed

text \<open>
  A complete GET request for the path of a token, whatever its headers are and whatever follows, is
  answered with the key authorization that was set for the token, byte for byte with its length, and with
  404 if none is set. A request whose path is not under the prefix gets 404 always.
\<close>

lemma challenge_answered:
  assumes "list_all (\<lambda>c. c < 128 \<and> \<not> py_isspace c) path" and "path \<noteq> []" and "length path \<le> 60000"
    and "list_all (\<lambda>l. 10 \<notin> set l \<and> length l \<le> 65536 \<and> l \<noteq> [] \<and> l \<noteq> [13]) headers"
    and "stream = blit ''GET '' @ map word_of_nat path @ blit '' HTTP/1.1'' @ [13, 10] @ concat (map (\<lambda>l. l @ [10]) headers) @ [13, 10] @ rest"
  shows "(\<forall>tok k. path = challenge_prefix @ tok \<and> tokens tok = Some k \<and> k \<noteq> [] \<and> list_all (\<lambda>c. c < 128) k
           \<longrightarrow> handle_challenge tokens stream = found (map word_of_nat k))
    \<and> (\<forall>tok. path = challenge_prefix @ tok \<and> tokens tok = None \<longrightarrow> handle_challenge tokens stream = not_found)
    \<and> (\<not> starts_with challenge_prefix path \<longrightarrow> handle_challenge tokens stream = not_found)"
proof -
  let ?line = "blit ''GET '' @ map word_of_nat path @ blit '' HTTP/1.1'' @ [13]"
  let ?rest = "concat (map (\<lambda>l. l @ [10]) headers) @ [13, 10] @ rest"
  have "(word_of_nat c :: byte) \<noteq> 10" if "c \<in> set path" for c
  proof -
    have c: "c < 128" "c \<noteq> 10" using that assms(1) by (auto simp: list_all_iff py_isspace_def py_spaces_def)
    show ?thesis
    proof
      assume "(word_of_nat c :: byte) = 10"
      then have "unat (word_of_nat c :: byte) = unat (10 :: byte)" by simp
      with c show False by (simp add: unat_of_nat)
    qed
  qed
  then have "10 \<notin> set ?line" by (auto simp: lit_eval)
  moreover have "length ?line \<le> 65536" using assms(3) by (simp add: lit_eval)
  ultimately have "readline stream = (Inr (?line @ [10]), ?rest)"
    using readline_line [of ?line ?rest] by (simp add: assms(5))
  moreover have "request_path (?line @ [10]) = path" using request_path_get [OF assms(1,2)] by simp
  ultimately have "handle_challenge tokens stream = (case challenge_answer tokens path of Inr out \<Rightarrow> out | Inl e \<Rightarrow> [])"
    using skip_headers_lines [OF assms(4), of rest] by (simp add: handle_challenge_def rd_simps split: sum.split)
  then show ?thesis by (auto simp: challenge_answer_def utf8_encode_ascii)
qed

lemma challenge_answered_witness:
  "handle_challenge [lit ''t0k'' \<mapsto> lit ''t0k.abc'']
     (blit ''GET '' @ map word_of_nat (challenge_prefix @ lit ''t0k'') @ blit '' HTTP/1.1'' @ [13, 10] @ blit ''Host: a'' @ [13, 10] @ [13, 10])
   = found (map word_of_nat (lit ''t0k.abc''))"
proof -
  let ?path = "challenge_prefix @ lit ''t0k''" and ?headers = "[blit ''Host: a'' @ [13]]"
  have 1: "list_all (\<lambda>c. c < 128 \<and> \<not> py_isspace c) ?path"
    by (simp add: challenge_prefix_def lit_eval py_isspace_def py_spaces_def)
  have 2: "?path \<noteq> []" "length ?path \<le> 60000" by (simp_all add: challenge_prefix_def lit_eval)
  have 3: "list_all (\<lambda>l. 10 \<notin> set l \<and> length l \<le> 65536 \<and> l \<noteq> [] \<and> l \<noteq> [13]) ?headers" by (simp add: lit_eval)
  have "list_all (\<lambda>c. c < 128) (lit ''t0k.abc'')" "lit ''t0k.abc'' \<noteq> []" by (simp_all add: lit_eval)
  then show ?thesis
    using challenge_answered [OF 1 2 3 refl, where rest = "[]" and tokens = "[lit ''t0k'' \<mapsto> lit ''t0k.abc'']",
      THEN conjunct1, rule_format, of "lit ''t0k''" "lit ''t0k.abc''"] by simp
qed

end
