(* ===== verification/Acme_Client.thy ===== *)
theory Acme_Client
  imports Haproxy_Reload
begin

text \<open>
  Obtaining a certificate (\<^verbatim>\<open>src/libs/acme_client/client.py\<close>). The libraries \<^verbatim>\<open>acme\<close>,
  \<^verbatim>\<open>cryptography\<close> and \<^verbatim>\<open>josepy\<close> are parameters: which key files can be loaded, the keys that are
  generated, and what the authority answers. The state is the files of the certificate directory, the
  tokens that the challenge server of the request serves, and a record of what it served when a
  challenge was answered. Writing a file first empties it, and may fail on the way.
\<close>

section \<open>Environment and state\<close>

datatype challenge = HTTP01 ustr | OtherChallenge

datatype account = Registered | Conflict | AccountFails exn

datatype order_outcome = Issued bytes | ValidationFailed | PollTimeout | PollFails exn

datatype write_outcome = Written | CannotOpen exn | Partly exn nat

record acme_lib =
  load_pem :: "bytes \<Rightarrow> unit result"
  new_key :: bytes
  new_domain_key :: bytes
  key_authorization :: "bytes \<Rightarrow> ustr \<Rightarrow> ustr"
  get_directory :: "unit result"
  new_account :: account
  query_registration :: "unit result"
  new_order :: "challenge list list result"
  answer_challenge :: "ustr \<Rightarrow> unit result"
  poll_and_finalize :: order_outcome
  make_dirs :: "unit result"
  read_error :: "exn option"
  writing :: "ustr \<Rightarrow> write_outcome"
  bind_port :: "unit result"

record acme_state =
  files :: "ustr \<Rightarrow> bytes option"
  tokens :: "ustr \<Rightarrow> ustr option"
  serving :: bool
  answered :: "(ustr \<times> ustr option) list"

record CertResult =
  cert_success :: bool
  cert_domain :: ustr
  haproxy_pem_path :: ustr

definition write_file :: "acme_lib \<Rightarrow> ustr \<Rightarrow> bytes \<Rightarrow> (acme_state, unit) eff" where
  "write_file A path data s = (case writing A path of
      Written \<Rightarrow> (Inr (), s\<lparr>files := (files s)(path \<mapsto> data)\<rparr>)
    | CannotOpen e \<Rightarrow> (Inl e, s)
    | Partly e n \<Rightarrow> (Inl e, s\<lparr>files := (files s)(path \<mapsto> take n data)\<rparr>))"

text \<open>\<^verbatim>\<open>os.path.join\<close> of the certificate directory and a name; \<open>f_\<close> are the names used.\<close>

definition in_dir :: "ustr \<Rightarrow> ustr \<Rightarrow> ustr" where
  "in_dir dir name = (if dir = [] \<or> last dir = 47 then dir @ name else dir @ 47 # name)"

definition f_account :: ustr where "f_account = lit ''account.key''"
definition f_fullchain :: ustr where "f_fullchain = lit ''fullchain.pem''"
definition f_privkey :: ustr where "f_privkey = lit ''privkey.pem''"
definition f_haproxy :: ustr where "f_haproxy = lit ''rdp.pem''"

lemmas file_names = f_account_def f_fullchain_def f_privkey_def f_haproxy_def

lemma in_dir_inject: "in_dir d a = in_dir d b \<longleftrightarrow> a = b"
  by (simp add: in_dir_def)

section \<open>Keys\<close>

text \<open>A key that cannot be parsed (\<^verbatim>\<open>ValueError\<close>, \<^verbatim>\<open>TypeError\<close>) is replaced by a new one.\<close>

definition new_account_key :: "acme_lib \<Rightarrow> ustr \<Rightarrow> (acme_state, bytes) eff" where
  "new_account_key A path =
    rbind (rlift (make_dirs A)) (\<lambda>_.
    rbind (write_file A path (new_key A)) (\<lambda>_. rreturn (new_key A)))"

definition load_or_create_account_key :: "acme_lib \<Rightarrow> ustr \<Rightarrow> (acme_state, bytes) eff" where
  "load_or_create_account_key A path s = (case files s path of
      None \<Rightarrow> new_account_key A path s
    | Some pem \<Rightarrow> (case bind_result (case read_error A of None \<Rightarrow> Inr () | Some e \<Rightarrow> Inl e) (\<lambda>_. load_pem A pem) of
        Inr _ \<Rightarrow> (Inr pem, s)
      | Inl e \<Rightarrow> if e = ValueError \<or> e = TypeError then new_account_key A path s else (Inl e, s)))"

section \<open>The order\<close>

definition set_challenge :: "ustr \<Rightarrow> ustr \<Rightarrow> (acme_state, unit) eff" where
  "set_challenge token key_authz s = (Inr (), s\<lparr>tokens := (tokens s)(token \<mapsto> key_authz)\<rparr>)"

text \<open>An answered challenge, with what the server serves for its token at that moment.\<close>

definition answer :: "acme_lib \<Rightarrow> ustr \<Rightarrow> (acme_state, unit) eff" where
  "answer A token s = (answer_challenge A token, s\<lparr>answered := answered s @ [(token, if serving s then tokens s token else None)]\<rparr>)"

fun answer_all :: "acme_lib \<Rightarrow> bytes \<Rightarrow> challenge list \<Rightarrow> (acme_state, unit) eff" where
  "answer_all A key [] = rreturn ()"
| "answer_all A key (OtherChallenge # cs) = answer_all A key cs"
| "answer_all A key (HTTP01 token # cs) =
    rbind (set_challenge token (key_authorization A key token)) (\<lambda>_.
    rbind (answer A token) (\<lambda>_. answer_all A key cs))"

definition account_registration :: "acme_lib \<Rightarrow> unit result" where
  "account_registration A = (case new_account A of
      Registered \<Rightarrow> Inr () | Conflict \<Rightarrow> query_registration A | AccountFails e \<Rightarrow> Inl e)"

definition save_certificate :: "acme_lib \<Rightarrow> ustr \<Rightarrow> ustr \<Rightarrow> bytes \<Rightarrow> (acme_state, CertResult) eff" where
  "save_certificate A domain dir fullchain =
    rbind (rlift (make_dirs A)) (\<lambda>_.
    rbind (write_file A (in_dir dir f_fullchain) fullchain) (\<lambda>_.
    rbind (write_file A (in_dir dir f_privkey) (new_domain_key A)) (\<lambda>_.
    rbind (write_file A (in_dir dir f_haproxy) (fullchain @ new_domain_key A)) (\<lambda>_.
    rreturn \<lparr>cert_success = True, cert_domain = domain, haproxy_pem_path = in_dir dir f_haproxy\<rparr>))))"

definition obtain_sync :: "acme_lib \<Rightarrow> ustr \<Rightarrow> ustr \<Rightarrow> (acme_state, CertResult) eff" where
  "obtain_sync A domain dir =
    rbind (load_or_create_account_key A (in_dir dir f_account)) (\<lambda>account_key.
    rbind (rlift (get_directory A)) (\<lambda>_.
    rbind (rlift (account_registration A)) (\<lambda>_.
    rbind (rlift (new_order A)) (\<lambda>authorizations.
    rbind (answer_all A account_key (concat authorizations)) (\<lambda>_.
    case poll_and_finalize A of
      ValidationFailed \<Rightarrow> rreturn \<lparr>cert_success = False, cert_domain = domain, haproxy_pem_path = []\<rparr>
    | PollTimeout \<Rightarrow> rreturn \<lparr>cert_success = False, cert_domain = domain, haproxy_pem_path = []\<rparr>
    | PollFails e \<Rightarrow> rraise e
    | Issued fullchain \<Rightarrow> save_certificate A domain dir fullchain)))))"

text \<open>The server runs during the request; an exception becomes a failed result.\<close>

definition obtain_certificate :: "acme_lib \<Rightarrow> ustr \<Rightarrow> ustr \<Rightarrow> acme_state \<Rightarrow> CertResult \<times> acme_state" where
  "obtain_certificate A domain dir s0 =
    (let s = s0\<lparr>tokens := Map.empty, serving := False\<rparr> in
     case rbind (\<lambda>s. (bind_port A, case bind_port A of Inr _ \<Rightarrow> s\<lparr>serving := True\<rparr> | Inl _ \<Rightarrow> s)) (\<lambda>_. obtain_sync A domain dir) s of
       (r, s') \<Rightarrow> ((case r of Inr res \<Rightarrow> res | Inl e \<Rightarrow> \<lparr>cert_success = False, cert_domain = domain, haproxy_pem_path = []\<rparr>),
                   s'\<lparr>tokens := Map.empty, serving := False\<rparr>))"

section \<open>Expiry\<close>

text \<open>The end of validity of the certificate in the directory, if it can be read; times in seconds.\<close>

definition cert_days_remaining :: "(bytes \<Rightarrow> int option) \<Rightarrow> int \<Rightarrow> ustr \<Rightarrow> acme_state \<Rightarrow> int option" where
  "cert_days_remaining not_after now dir s = (case files s (in_dir dir f_fullchain) of
      None \<Rightarrow> None
    | Some pem \<Rightarrow> (case not_after pem of None \<Rightarrow> None | Some t \<Rightarrow> Some ((t - now) div 86400)))"

definition cert_needs_renewal :: "(bytes \<Rightarrow> int option) \<Rightarrow> int \<Rightarrow> ustr \<Rightarrow> int \<Rightarrow> acme_state \<Rightarrow> bool" where
  "cert_needs_renewal not_after now dir renew_before_days s =
    (case cert_days_remaining not_after now dir s of None \<Rightarrow> True | Some days \<Rightarrow> days < renew_before_days)"

section \<open>What a request leaves behind\<close>

definition cert_files :: "ustr \<Rightarrow> ustr set" where
  "cert_files dir = {in_dir dir f_fullchain, in_dir dir f_privkey, in_dir dir f_haproxy}"

definition cert_view :: "ustr \<Rightarrow> acme_state \<Rightarrow> bytes option list" where
  "cert_view dir s = map (files s) [in_dir dir f_fullchain, in_dir dir f_privkey, in_dir dir f_haproxy]"

text \<open>All challenges answered were served with the authorization of one account key.\<close>

definition served_with :: "acme_lib \<Rightarrow> bytes \<Rightarrow> acme_state \<Rightarrow> acme_state \<Rightarrow> bool" where
  "served_with A key s s' \<longleftrightarrow> (\<exists>ts. answered s' = answered s @ map (\<lambda>t. (t, Some (key_authorization A key t))) ts)"

lemma write_file_other: "write_file A path data s = (r, s') \<Longrightarrow> p \<noteq> path \<Longrightarrow> files s' p = files s p"
  by (auto simp: write_file_def split: write_outcome.splits)

lemma write_file_keeps: "write_file A path data s = (r, s') \<Longrightarrow> tokens s' = tokens s \<and> serving s' = serving s \<and> answered s' = answered s"
  by (auto simp: write_file_def split: write_outcome.splits)

lemma write_file_ok: "write_file A path data s = (Inr u, s') \<Longrightarrow> files s' = (files s)(path \<mapsto> data)"
  by (auto simp: write_file_def split: write_outcome.splits)

lemma account_key_keeps:
  assumes "load_or_create_account_key A path s = (r, s')"
  shows "tokens s' = tokens s \<and> serving s' = serving s \<and> answered s' = answered s \<and> (\<forall>p. p \<noteq> path \<longrightarrow> files s' p = files s p)"
  using assms write_file_keeps [of A path "new_key A" s] write_file_other [of A path "new_key A" s]
  by (auto simp: load_or_create_account_key_def new_account_key_def rd_simps split: option.splits sum.splits if_splits prod.splits)

lemma account_key_stored:
  assumes "load_or_create_account_key A path s = (Inr key, s')"
  shows "files s' path = Some key \<and> (\<forall>k. files s path = Some k \<and> read_error A = None \<and> load_pem A k = Inr () \<longrightarrow> key = k)"
  using assms write_file_ok [of A path "new_key A" s]
  by (auto simp: load_or_create_account_key_def new_account_key_def rd_simps split: option.splits sum.splits if_splits prod.splits)

lemma answer_all_keeps:
  assumes "answer_all A key cs s = (r, s')" and "serving s"
  shows "files s' = files s \<and> serving s' \<and> served_with A key s s'"
  using assms
proof (induction A key cs arbitrary: s rule: answer_all.induct)
  case (3 A key token cs)
  let ?s1 = "s\<lparr>tokens := (tokens s)(token \<mapsto> key_authorization A key token),
    answered := answered s @ [(token, Some (key_authorization A key token))]\<rparr>"
  have one: "served_with A key s ?s1" by (auto simp: served_with_def intro!: exI [of _ "[token]"])
  from "3.prems" consider "s' = ?s1" | "answer_all A key cs ?s1 = (r, s')"
    by (auto simp: rd_simps set_challenge_def answer_def split: sum.splits)
  then show ?case
  proof cases
    case 2
    have "files s' = files ?s1 \<and> serving s' \<and> served_with A key ?s1 s'" using "3.IH" [OF 2] "3.prems"(2) by simp
    moreover have "served_with A key s s'" if "served_with A key ?s1 s'"
    proof -
      from that obtain ts where "answered s' = answered ?s1 @ map (\<lambda>t. (t, Some (key_authorization A key t))) ts"
        by (auto simp: served_with_def)
      then show ?thesis unfolding served_with_def by (intro exI [of _ "token # ts"]) simp
    qed
    ultimately show ?thesis by simp
  qed (use one "3.prems" in simp)
qed (auto simp: rd_simps served_with_def)

lemma paths_distinct: "in_dir dir f_account \<notin> cert_files dir" "in_dir dir f_fullchain \<noteq> in_dir dir f_privkey"
  "in_dir dir f_fullchain \<noteq> in_dir dir f_haproxy" "in_dir dir f_privkey \<noteq> in_dir dir f_haproxy"
  by (simp_all add: cert_files_def in_dir_inject file_names lit_eval)

lemma save_certificate_keeps:
  assumes "save_certificate A domain dir chain s = (r, s')"
  shows "tokens s' = tokens s \<and> serving s' = serving s \<and> answered s' = answered s \<and> (\<forall>p. p \<notin> cert_files dir \<longrightarrow> files s' p = files s p)"
  using assms by (auto simp: save_certificate_def rd_simps cert_files_def write_file_def split: sum.splits write_outcome.splits)

lemma save_certificate_files:
  assumes "save_certificate A domain dir chain s = (r, s')"
  shows "(\<forall>res. r = Inr res \<longrightarrow> cert_success res \<and> haproxy_pem_path res = in_dir dir f_haproxy
       \<and> cert_view dir s' = [Some chain, Some (new_domain_key A), Some (chain @ new_domain_key A)])
    \<and> (\<forall>e. r = Inl e \<and> (\<forall>p \<in> cert_files dir. writing A p = Written) \<longrightarrow> s' = s)"
proof (intro conjI allI impI)
  fix e assume "r = Inl e \<and> (\<forall>p \<in> cert_files dir. writing A p = Written)"
  with assms show "s' = s" by (auto simp: save_certificate_def rd_simps write_file_def cert_files_def split: sum.splits)
next
  fix res assume r: "r = Inr res"
  with assms obtain s1 s2 where w: "write_file A (in_dir dir f_fullchain) chain s = (Inr (), s1)"
      "write_file A (in_dir dir f_privkey) (new_domain_key A) s1 = (Inr (), s2)"
      "write_file A (in_dir dir f_haproxy) (chain @ new_domain_key A) s2 = (Inr (), s')"
    and res: "cert_success res \<and> haproxy_pem_path res = in_dir dir f_haproxy"
    by (auto simp: save_certificate_def rd_simps split: sum.splits prod.splits)
  show "cert_success res" "haproxy_pem_path res = in_dir dir f_haproxy" using res by simp_all
  show "cert_view dir s' = [Some chain, Some (new_domain_key A), Some (chain @ new_domain_key A)]"
    using write_file_ok [OF w(1)] write_file_ok [OF w(2)] write_file_ok [OF w(3)] paths_distinct [of dir] by (simp add: cert_view_def)
qed

lemma obtain_sync_cases:
  assumes "obtain_sync A domain dir s = (r, s')" and "serving s"
  obtains (no_key) e where "load_or_create_account_key A (in_dir dir f_account) s = (Inl e, s')" "r = Inl e"
  | (failed) key s1 where "load_or_create_account_key A (in_dir dir f_account) s = (Inr key, s1)" "files s' = files s1"
      "served_with A key s1 s'" "\<forall>res. r = Inr res \<longrightarrow> \<not> cert_success res"
  | (saving) key s1 s2 chain where "load_or_create_account_key A (in_dir dir f_account) s = (Inr key, s1)" "files s2 = files s1"
      "served_with A key s1 s2" "poll_and_finalize A = Issued chain" "save_certificate A domain dir chain s2 = (r, s')"
proof (cases "load_or_create_account_key A (in_dir dir f_account) s")
  case (Pair q s1)
  show thesis
  proof (cases q)
    case (Inl e)
    with Pair assms(1) show thesis by (intro no_key) (auto simp: obtain_sync_def rd_simps)
  next
    case (Inr key)
    have s1: "serving s1" using account_key_keeps [OF Pair] assms(2) by simp
    have refl: "served_with A key s1 s1" by (auto simp: served_with_def intro!: exI [of _ "[]"])
    show thesis
    proof (cases "\<exists>auths. get_directory A = Inr () \<and> account_registration A = Inr () \<and> new_order A = Inr auths")
      case False
      with Pair Inr assms(1) refl show thesis by (intro failed) (auto simp: obtain_sync_def rd_simps split: sum.splits)
    next
      case True
      then obtain auths where net: "get_directory A = Inr ()" "account_registration A = Inr ()" "new_order A = Inr auths" by blast
      obtain q2 s2 where a: "answer_all A key (concat auths) s1 = (q2, s2)" by force
      note k = answer_all_keeps [OF a s1]
      show thesis
      proof (cases "\<exists>chain. q2 = Inr () \<and> poll_and_finalize A = Issued chain")
        case True
        then obtain chain where q2: "q2 = Inr ()" "poll_and_finalize A = Issued chain" by blast
        have "save_certificate A domain dir chain s2 = (r, s')"
          using assms(1) Pair Inr net a q2 by (simp add: obtain_sync_def rd_simps)
        with saving [of key s1 s2 chain] Pair Inr k q2(2) show thesis by simp
      next
        case False
        with Pair Inr net a k assms(1) show thesis
          by (intro failed) (auto simp: obtain_sync_def rd_simps split: sum.splits order_outcome.splits)
      qed
    qed
  qed
qed

text \<open>
  Whatever the authority answers and wherever a request fails, in the end the challenge server is
  stopped and serves nothing, and every challenge was answered while its token was served with the
  authorization of the account key. A request reports success only if the authority issued a
  certificate, and then the three files hold its chain, the key it was requested for, and both together.
  A request that fails otherwise than by writing these files leaves them as they were. An account key
  that can be read is kept.
\<close>

lemma obtain_certificate_safe:
  assumes "obtain_certificate A domain dir s = (res, s')"
  shows "tokens s' = Map.empty \<and> \<not> serving s'
    \<and> (\<exists>key ts. answered s' = answered s @ map (\<lambda>t. (t, Some (key_authorization A key t))) ts)
    \<and> (cert_success res \<longrightarrow> haproxy_pem_path res = in_dir dir f_haproxy \<and> (\<exists>chain. poll_and_finalize A = Issued chain
         \<and> cert_view dir s' = [Some chain, Some (new_domain_key A), Some (chain @ new_domain_key A)]))
    \<and> (\<not> cert_success res \<and> (\<forall>p \<in> cert_files dir. writing A p = Written) \<longrightarrow> cert_view dir s' = cert_view dir s)
    \<and> (\<forall>k. files s (in_dir dir f_account) = Some k \<and> read_error A = None \<and> load_pem A k = Inr ()
         \<longrightarrow> files s' (in_dir dir f_account) = Some k)"
proof -
  let ?s0 = "s\<lparr>tokens := Map.empty, serving := False\<rparr>" and ?s1 = "s\<lparr>tokens := Map.empty, serving := True\<rparr>"
  let ?acc = "in_dir dir f_account"
  have view: "cert_view dir t = cert_view dir u" if "\<forall>p. p \<noteq> ?acc \<longrightarrow> files t p = files u p" for t u
    using that by (simp add: cert_view_def in_dir_inject file_names lit_eval)
  have none: "\<exists>key ts. answered t = answered s @ map (\<lambda>t. (t, Some (key_authorization A key t))) ts" if "answered t = answered s" for t
    using that by (intro exI [of _ "[]"]) simp
  show ?thesis
  proof (cases "bind_port A")
    case (Inl e)
    with assms show ?thesis
      by (auto simp: obtain_certificate_def rd_simps Let_def cert_view_def intro!: exI [of _ "[]"])
  next
    case (Inr u)
    obtain r t where run: "obtain_sync A domain dir ?s1 = (r, t)" by force
    with assms Inr have res: "res = (case r of Inr x \<Rightarrow> x | Inl e \<Rightarrow> \<lparr>cert_success = False, cert_domain = domain, haproxy_pem_path = []\<rparr>)"
      and s': "s' = t\<lparr>tokens := Map.empty, serving := False\<rparr>"
      by (auto simp: obtain_certificate_def rd_simps Let_def)
    have s'_files: "files s' = files t" "answered s' = answered t" "cert_view dir s' = cert_view dir t"
      using s' by (simp_all add: cert_view_def)
    have srv: "serving ?s1" by simp
    from run srv show ?thesis
    proof (cases rule: obtain_sync_cases)
      case (no_key e)
      note k = account_key_keeps [OF no_key(1)]
      have "\<not> (files s ?acc = Some p \<and> read_error A = None \<and> load_pem A p = Inr ())" for p
        using no_key(1) by (auto simp: load_or_create_account_key_def)
      with k view [of t s] none [of s'] no_key(2) res s' s'_files show ?thesis by (auto simp del: not_None_eq)
    next
      case (failed key s1)
      note k = account_key_keeps [OF failed(1)] and st = account_key_stored [OF failed(1)]
      have "\<not> cert_success res" using res failed(4) by (auto split: sum.split)
      moreover have "cert_view dir t = cert_view dir s" using k failed(2) by (intro view) auto
      moreover have "\<exists>key ts. answered s' = answered s @ map (\<lambda>t. (t, Some (key_authorization A key t))) ts"
        using failed(3) k s'_files(2) by (auto simp: served_with_def)
      ultimately show ?thesis using st s' s'_files failed(2) by auto
    next
      case (saving key s1 s2 chain)
      note k = account_key_keeps [OF saving(1)] and st = account_key_stored [OF saving(1)]
      note sv = save_certificate_keeps [OF saving(5)] and fl = save_certificate_files [OF saving(5)]
      have "\<exists>key ts. answered s' = answered s @ map (\<lambda>t. (t, Some (key_authorization A key t))) ts"
        using saving(3) k sv s'_files(2) by (auto simp: served_with_def)
      moreover have "files s' ?acc = files s1 ?acc" using sv paths_distinct(1) saving(2) s'_files by simp
      moreover have "cert_view dir s' = cert_view dir s" if "\<not> cert_success res" "\<forall>p \<in> cert_files dir. writing A p = Written"
      proof -
        from that(1) fl res obtain e where "r = Inl e" by (cases r) auto
        with fl that(2) have "t = s2" by simp
        moreover have "cert_view dir s2 = cert_view dir s" using k saving(2) by (intro view) auto
        ultimately show ?thesis using s'_files by simp
      qed
      moreover have "haproxy_pem_path res = in_dir dir f_haproxy \<and> (\<exists>chain. poll_and_finalize A = Issued chain
         \<and> cert_view dir s' = [Some chain, Some (new_domain_key A), Some (chain @ new_domain_key A)])" if "cert_success res"
        using that fl res s'_files saving(4) by (cases r) auto
      ultimately show ?thesis using st s' by auto
    qed
  qed
qed

definition ref_acme :: acme_lib where
  "ref_acme = \<lparr>load_pem = (\<lambda>k. Inl ValueError), new_key = [2], new_domain_key = [3], key_authorization = (\<lambda>k t. t @ [46]),
     get_directory = Inr (), new_account = Conflict, query_registration = Inr (), new_order = Inr [[OtherChallenge, HTTP01 [7]]],
     answer_challenge = (\<lambda>_. Inr ()), poll_and_finalize = Issued [1], make_dirs = Inr (), read_error = None,
     writing = (\<lambda>_. Written), bind_port = Inr ()\<rparr>"

end
