(* ===== verification/Dotenv.thy ===== *)
theory Dotenv
  imports Py_Text
begin

text \<open>
  The file with the environment of the containers, in which the administration writes a changed public
  port (\<^verbatim>\<open>_update_dotenv_port\<close> in \<^verbatim>\<open>src/services/admin/app.py\<close>). A file is its text, with line ends as
  the text mode of Python gives them; \<open>env_value\<close> is how such a file is read, the last line for a name
  counts.
\<close>

section \<open>Lines with their ends\<close>

fun file_lines :: "ustr \<Rightarrow> ustr list" where
  "file_lines [] = []"
| "file_lines (c # s) = (if c = 10 then [c] # file_lines s
     else case file_lines s of [] \<Rightarrow> [[c]] | l # ls \<Rightarrow> (c # l) # ls)"

definition port_name :: ustr where
  "port_name = lit ''PUBLIC_PORT=''"

definition port_line :: "int \<Rightarrow> ustr" where
  "port_line port = port_name @ int_str port @ [10]"

text \<open>
  The file as it is written, and whether that succeeds; \<open>None\<close> is a file that is not there. Another
  failure of reading raises; a failure of writing is that the file cannot be opened.
\<close>

definition new_dotenv :: "int \<Rightarrow> ustr option \<Rightarrow> ustr" where
  "new_dotenv port old = (let ls = file_lines (case old of None \<Rightarrow> [] | Some t \<Rightarrow> t) in
     concat (map (\<lambda>l. if starts_with port_name l then port_line port else l) ls)
     @ (if list_ex (starts_with port_name) ls then [] else port_line port))"

definition update_dotenv_port :: "exn option \<Rightarrow> exn option \<Rightarrow> int \<Rightarrow> (ustr option, bool) eff" where
  "update_dotenv_port read_error write_error port old = (case read_error of
      Some e \<Rightarrow> (Inl e, old)
    | None \<Rightarrow> (case write_error of
        Some e \<Rightarrow> if e = OSError then (Inr False, old) else (Inl e, old)
      | None \<Rightarrow> (Inr True, Some (new_dotenv port old))))"

section \<open>Reading it\<close>

definition env_value :: "ustr \<Rightarrow> ustr \<Rightarrow> ustr option" where
  "env_value name t = (let ls = filter (starts_with name) (split_on 10 t) in
     if ls = [] then None else Some (drop (length name) (last ls)))"

definition other_lines :: "ustr \<Rightarrow> ustr \<Rightarrow> ustr list" where
  "other_lines name t = filter (\<lambda>l. \<not> starts_with name l) (split_on 10 t)"

definition ends_lines :: "ustr \<Rightarrow> bool" where
  "ends_lines t \<longleftrightarrow> t = [] \<or> last t = 10"

lemma file_lines_concat [simp]: "concat (file_lines t) = t"
  by (induction t rule: file_lines.induct) (auto split: list.split)

lemma file_lines_line: "10 \<notin> set l \<Longrightarrow> file_lines (l @ 10 # t) = (l @ [10]) # file_lines t"
  by (induction l) auto

lemma ends_lines_induct [consumes 1, case_names empty line]:
  assumes "ends_lines t" and "P []" and "\<And>l t. 10 \<notin> set l \<Longrightarrow> ends_lines t \<Longrightarrow> P t \<Longrightarrow> P (l @ 10 # t)"
  shows "P t"
  using assms(1)
proof (induction t rule: length_induct)
  case (1 t)
  show ?case
  proof (cases "t = []")
    case False
    with "1.prems" have "10 \<in> set t" by (auto simp: ends_lines_def) (metis last_in_set)
    then obtain l r where t: "t = l @ 10 # r" "10 \<notin> set l" by (meson split_list_first)
    then have "ends_lines r" using "1.prems" by (auto simp: ends_lines_def split: if_splits)
    with "1.IH" t assms(3) show ?thesis by simp
  qed (use assms(2) in simp)
qed

lemma int_str_no_break: "10 \<notin> set (int_str i)"
  using nat_str_digits [of 10] by (auto simp: int_str_def)

lemma port_line_no_break: "port_line port = (port_name @ int_str port) @ [10]" "10 \<notin> set (port_name @ int_str port)"
  using int_str_no_break by (simp_all add: port_line_def port_name_def lit_eval)

lemma starts_with_line: "10 \<notin> set n \<Longrightarrow> starts_with n (l @ 10 # t) \<longleftrightarrow> starts_with n l"
proof -
  assume n: "10 \<notin> set n"
  show ?thesis
  proof (cases "length n \<le> length l")
    case False
    then have "\<not> starts_with n l" using starts_with_length [of n l] by auto
    moreover have "\<not> starts_with n (l @ 10 # t)"
    proof
      assume "starts_with n (l @ 10 # t)"
      then have "n = take (length n) (l @ 10 # t)" by (simp add: starts_with_def)
      moreover have "10 \<in> set (take (length n) (l @ 10 # t))" using False by (cases "length n - length l") auto
      ultimately show False using n by metis
    qed
    ultimately show ?thesis by simp
  qed (simp add: starts_with_def)
qed

text \<open>The rewriting of one file, as a map on its lines.\<close>

definition set_port :: "int \<Rightarrow> ustr \<Rightarrow> ustr" where
  "set_port port l = (if starts_with port_name l then port_name @ int_str port else l)"

lemma port_name_no_break: "10 \<notin> set port_name"
  by (simp add: port_name_def lit_eval)

lemma new_dotenv_lines:
  assumes "ends_lines t"
  shows "split_on 10 (concat (map (\<lambda>l. if starts_with port_name l then port_line port else l) (file_lines t)))
      = map (set_port port) (split_on 10 t)
    \<and> (list_ex (starts_with port_name) (file_lines t) \<longleftrightarrow> list_ex (starts_with port_name) (split_on 10 t))
    \<and> ends_lines (concat (map (\<lambda>l. if starts_with port_name l then port_line port else l) (file_lines t)))"
  using assms
proof (induction t rule: ends_lines_induct)
  case empty
  have "\<not> starts_with port_name []" by (simp add: starts_with_def port_name_def lit_eval)
  then show ?case by (simp add: set_port_def ends_lines_def)
next
  case (line l t)
  have s: "starts_with port_name (l @ [10]) = starts_with port_name l"
    using starts_with_line [OF port_name_no_break, of l "[]"] by simp
  let ?c = "concat (map (\<lambda>l. if starts_with port_name l then port_line port else l) (file_lines t))"
  have ends: "ends_lines (x @ 10 # ?c)" for x using line.IH by (auto simp: ends_lines_def)
  show ?case
  proof (cases "starts_with port_name l")
    case True
    then show ?thesis
      using line s ends [of "port_name @ int_str port"] split_on_append [OF port_line_no_break(2), of port ?c]
      by (simp add: file_lines_line split_on_append port_line_no_break(1) set_port_def)
  next
    case False
    then show ?thesis
      using line s ends [of l] by (simp add: file_lines_line split_on_append set_port_def)
  qed
qed

lemma set_port_name [simp]: "starts_with port_name (set_port port l) \<longleftrightarrow> starts_with port_name l"
  by (simp add: set_port_def starts_with_def)

lemma split_on_ends: "ends_lines t \<Longrightarrow> split_on 10 (t @ l) = butlast (split_on 10 t) @ split_on 10 l"
proof (induction t rule: ends_lines_induct)
  case (line k t)
  then show ?case by (simp add: split_on_append)
qed simp

lemma split_on_ends_last: "ends_lines t \<Longrightarrow> split_on 10 t = butlast (split_on 10 t) @ [[]]"
  using split_on_ends [of t "[]"] by simp

lemma no_shifted_name:
  assumes "l \<noteq> []" and "\<not> starts_with port_name l"
  shows "\<not> starts_with port_name (l @ port_name @ r)"
proof
  assume s: "starts_with port_name (l @ port_name @ r)"
  have len: "length port_name = 12" and eq: "port_name ! 11 = 61" by (simp_all add: port_name_def lit_eval)
  have no: "port_name ! i \<noteq> 61" if "i < 11" for i
  proof -
    have "port_name ! i \<in> set (take 11 port_name)" using that len by (auto simp: in_set_conv_nth intro!: exI [of _ i])
    moreover have "61 \<notin> set (take 11 port_name)" by (simp add: port_name_def lit_eval)
    ultimately show ?thesis by metis
  qed
  have "take 12 (l @ port_name @ r) = port_name" using s len by (simp add: starts_with_def)
  then have "length l < 12" using assms(2) len by (cases "length l < 12") (simp_all add: starts_with_def)
  moreover have "(l @ port_name @ r) ! 11 = 61"
    using eq nth_take [of 11 12 "l @ port_name @ r"] \<open>take 12 (l @ port_name @ r) = port_name\<close> by simp
  ultimately have "port_name ! (11 - length l) = 61" using len by (simp add: nth_append split: if_splits)
  with no [of "11 - length l"] assms(1) \<open>length l < 12\<close> show False by (cases l) auto
qed

lemma filter_set_port: "filter (starts_with port_name) (map (set_port port) ls)
    = map (\<lambda>_. port_name @ int_str port) (filter (starts_with port_name) ls)"
  "filter (\<lambda>l. \<not> starts_with port_name l) (map (set_port port) ls) = filter (\<lambda>l. \<not> starts_with port_name l) ls"
  by (induction ls) (auto simp: set_port_def starts_with_def)

lemma new_dotenv_saved:
  assumes "t' = new_dotenv port (Some t)" and e: "ends_lines t"
  shows "env_value port_name t' = Some (int_str port) \<and> other_lines port_name t' = other_lines port_name t
       \<and> ends_lines t' \<and> new_dotenv port (Some t') = t'"
proof (intro conjI)
  let ?c = "concat (map (\<lambda>l. if starts_with port_name l then port_line port else l) (file_lines t))"
  note n = new_dotenv_lines [OF e, of port]
  let ?ls = "split_on 10 t"
  have lines: "split_on 10 t' = (if list_ex (starts_with port_name) ?ls then map (set_port port) ?ls
      else butlast ?ls @ [port_name @ int_str port, []])"
  proof (cases "list_ex (starts_with port_name) ?ls")
    case True
    then show ?thesis using assms(1) n by (simp add: new_dotenv_def)
  next
    case False
    then have "map (set_port port) ?ls = ?ls" by (auto simp: list_ex_iff set_port_def intro!: map_idI)
    moreover have "split_on 10 (?c @ port_line port) = butlast (split_on 10 ?c) @ [port_name @ int_str port, []]"
      using split_on_ends [of ?c "port_line port"] n split_on_append [OF port_line_no_break(2), of port "[]"] by (simp add: port_line_no_break(1))
    ultimately show ?thesis using assms(1) n False by (simp add: new_dotenv_def)
  qed
  have last: "?ls = butlast ?ls @ [[]]" by (rule split_on_ends_last [OF e])
  have nil: "\<not> starts_with port_name []" "starts_with port_name (port_name @ x)" for x
    by (simp_all add: starts_with_def port_name_def lit_eval)
  show "env_value port_name t' = Some (int_str port)"
  proof (cases "list_ex (starts_with port_name) ?ls")
    case True
    then have "filter (starts_with port_name) ?ls \<noteq> []" by (auto simp: list_ex_iff filter_empty_conv)
    then show ?thesis using True
      by (simp add: env_value_def Let_def lines filter_set_port last_map)
  next
    case False
    then have "filter (starts_with port_name) (butlast ?ls) = []" by (auto simp: list_ex_iff filter_empty_conv dest: in_set_butlastD)
    with False nil show ?thesis by (simp add: env_value_def Let_def lines)
  qed
  show "other_lines port_name t' = other_lines port_name t"
  proof (cases "list_ex (starts_with port_name) ?ls")
    case False
    then show ?thesis using nil by (subst (2) other_lines_def, subst last) (simp add: other_lines_def lines)
  qed (simp add: other_lines_def lines filter_set_port)
  show e': "ends_lines t'"
    using assms(1) n by (auto simp: new_dotenv_def ends_lines_def port_line_def split: if_splits)
  have "list_ex (starts_with port_name) (split_on 10 t')"
    using nil by (auto simp: lines list_ex_iff split: if_splits)
  then have "t' = concat (map (\<lambda>l. l) (file_lines t'))" and ex: "list_ex (starts_with port_name) (file_lines t')"
    using new_dotenv_lines [OF e', of port] by simp_all
  have "set_port port l = l" if "l \<in> set (split_on 10 t')" for l
    using that nil(1) by (auto simp: lines set_port_def starts_with_def list_ex_iff split: if_splits dest: in_set_butlastD)
  then have "map (set_port port) (split_on 10 t') = split_on 10 t'" by (simp add: map_idI)
  then have "split_on 10 (concat (map (\<lambda>l. if starts_with port_name l then port_line port else l) (file_lines t'))) = split_on 10 t'"
    using new_dotenv_lines [OF e', of port] by simp
  then have "concat (map (\<lambda>l. if starts_with port_name l then port_line port else l) (file_lines t')) = t'"
    by (metis join_split_on)
  then show "new_dotenv port (Some t') = t'" using ex by (simp add: new_dotenv_def)
qed

text \<open>
  After a change of the port the file says the new port, and every line for another name is as before,
  in order, if each line of the file was ended; the same change again does nothing. If the last line was
  not ended and no line was for the port, the new line is glued to the last one and the port is not found.
\<close>

lemma dotenv_port_saved:
  assumes "t' = new_dotenv port (Some t)"
  shows "(ends_lines t \<longrightarrow> env_value port_name t' = Some (int_str port) \<and> other_lines port_name t' = other_lines port_name t
       \<and> ends_lines t' \<and> new_dotenv port (Some t') = t')
    \<and> (\<not> ends_lines t \<and> list_all (\<lambda>l. \<not> starts_with port_name l) (split_on 10 t) \<longrightarrow> env_value port_name t' = None)"
proof (rule conjI [OF impI impI])
  assume "ends_lines t"
  then show "env_value port_name t' = Some (int_str port) \<and> other_lines port_name t' = other_lines port_name t
       \<and> ends_lines t' \<and> new_dotenv port (Some t') = t'" using new_dotenv_saved [OF assms] by simp
next
  assume a: "\<not> ends_lines t \<and> list_all (\<lambda>l. \<not> starts_with port_name l) (split_on 10 t)"
  define u where "u = rev (dropWhile (\<lambda>c. c \<noteq> 10) (rev t))"
  define l where "l = rev (takeWhile (\<lambda>c. c \<noteq> 10) (rev t))"
  have t: "t = u @ l" by (simp add: u_def l_def flip: rev_append)
  have l: "10 \<notin> set l" by (auto simp: l_def dest: set_takeWhileD)
  have "u = [] \<or> last u = 10"
    using hd_dropWhile [of "\<lambda>c. c \<noteq> 10" "rev t"] by (auto simp: u_def last_rev)
  then have u: "ends_lines u" by (auto simp: ends_lines_def)
  with a t have "l \<noteq> []" by auto
  have sp: "split_on 10 t = butlast (split_on 10 u) @ [l]" using split_on_ends [OF u, of l] t split_on_no_sep [OF l] by simp
  have fl: "file_lines (v @ l) = file_lines v @ [l]" if "ends_lines v" for v
    using that
  proof (induction v rule: ends_lines_induct)
    case empty
    have "file_lines k = (if k = [] then [] else [k])" if "10 \<notin> set k" for k using that by (induction k) auto
    with l \<open>l \<noteq> []\<close> show ?case by simp
  qed (simp add: file_lines_line)
  have nl: "\<not> starts_with port_name l" using a sp by (auto simp: list_all_iff)
  have nu: "\<not> list_ex (starts_with port_name) (split_on 10 u)"
  proof -
    have "\<not> starts_with port_name []" by (simp add: starts_with_def port_name_def lit_eval)
    moreover have "\<not> list_ex (starts_with port_name) (butlast (split_on 10 u))" using a sp by (auto simp: list_all_iff list_ex_iff)
    ultimately have "\<not> list_ex (starts_with port_name) (butlast (split_on 10 u) @ [[]])" by simp
    then show ?thesis unfolding split_on_ends_last [OF u, symmetric] .
  qed
  then have nf: "\<not> list_ex (starts_with port_name) (file_lines t)" using new_dotenv_lines [OF u] fl [OF u] t nl by simp
  then have "map (\<lambda>l. if starts_with port_name l then port_line port else l) (file_lines t) = file_lines t"
    by (auto simp: list_ex_iff intro!: map_idI)
  with nf assms have "t' = u @ (l @ port_line port)" by (simp add: new_dotenv_def t)
  moreover have "split_on 10 (l @ port_line port) = [l @ port_name @ int_str port, []]"
    using split_on_append [of 10 "l @ port_name @ int_str port" "[]"] l port_line_no_break by simp
  ultimately have "split_on 10 t' = butlast (split_on 10 u) @ [l @ port_name @ int_str port, []]"
    using split_on_ends [OF u] by simp
  moreover have "\<not> starts_with port_name (l @ port_name @ int_str port)" using no_shifted_name [OF \<open>l \<noteq> []\<close> nl] by simp
  moreover have "filter (starts_with port_name) (butlast (split_on 10 u)) = []"
    using nu by (auto simp: filter_empty_conv list_ex_iff dest: in_set_butlastD)
  moreover have "\<not> starts_with port_name []" by (simp add: starts_with_def port_name_def lit_eval)
  ultimately show "env_value port_name t' = None" by (simp add: env_value_def Let_def)
qed

text \<open>A file with a line for the port, and one whose last line is not ended.\<close>

lemma dotenv_port_saved_witness:
  "env_value port_name (new_dotenv 8443 (Some (lit ''A=1'' @ [10] @ lit ''PUBLIC_PORT=443'' @ [10]))) = Some (int_str 8443)
   \<and> env_value port_name (new_dotenv 8443 (Some (lit ''A=1''))) = None"
proof -
  let ?t = "lit ''A=1'' @ [10] @ lit ''PUBLIC_PORT=443'' @ [10]"
  have "ends_lines ?t" by (simp add: ends_lines_def)
  moreover have "\<not> ends_lines (lit ''A=1'')" by (simp add: ends_lines_def lit_eval)
  moreover have "list_all (\<lambda>l. \<not> starts_with port_name l) (split_on 10 (lit ''A=1''))" by (simp add: lit_eval starts_with_def port_name_def)
  ultimately show ?thesis using dotenv_port_saved [OF refl, where port = 8443 and t = ?t] dotenv_port_saved [OF refl, where port = 8443 and t = "lit ''A=1''"] by blast
qed

end
