(* ===== verification/Admin_App.thy ===== *)
theory Admin_App
  imports Portal Acme_Client Dotenv
begin

text \<open>
  The administration application around its routes (\<^verbatim>\<open>src/services/admin/app.py\<close>): what a saved setting
  triggers, taking the settings over at start-up and after a change, requesting certificates; and the
  routes of the settings (\<^verbatim>\<open>routes/settings.py\<close>). The state is the settings of the process and what the
  callbacks keep beside them: the authenticator, the session store, the cached name of the portal, the
  public host and port last seen, the status of the last certificate request, the certificate files, the
  file of the environment, and the commands sent to HAProxy. A task that is created runs later; the
  domains it was created for are recorded. Times to live are integers, as the settings page stores them.
\<close>

section \<open>State\<close>

datatype cert_status = Idle | InProgress ustr | CertSuccess ustr bool | CertError ustr

record admin_app =
  aa_settings :: settings
  aa_ldap :: "LDAPAuthenticator option"
  aa_store :: SessionStore
  portal_name_cache :: "json option"
  prev_public_host :: "ustr option"
  prev_public_port :: "int option"
  aa_cert_status :: cert_status
  requested :: "ustr list"
  dotenv :: "ustr option"
  aa_acme :: acme_state
  haproxy_sent :: "bytes list"

text \<open>How reading and writing the file of the environment fail, if they do.\<close>

record dotenv_env =
  env_read_error :: "exn option"
  env_write_error :: "exn option"

definition on_app_settings :: "(settings, 'a) eff \<Rightarrow> (admin_app, 'a) eff" where
  "on_app_settings m w = (case m (aa_settings w) of (r, s) \<Rightarrow> (r, w\<lparr>aa_settings := s\<rparr>))"

section \<open>The name of the portal\<close>

definition load_portal_name :: "senv \<Rightarrow> (admin_app, json) eff" where
  "load_portal_name E w = (case portal_name_cache w of
      Some name \<Rightarrow> (Inr name, w)
    | None \<Rightarrow> rbind (on_app_settings (get E k_portal)) (\<lambda>portal w.
        (let name = (if portal = [] then JStr (lit ''RDP-Proxy'') else field_or portal (lit ''name'') (JStr (lit ''RDP-Proxy'')));
             name = (if json_truthy name then name else JStr (lit ''RDP-Proxy'')) in
         (Inr name, w\<lparr>portal_name_cache := Some name\<rparr>))) w)"

section \<open>Callbacks of the settings\<close>

definition on_ldap_change :: "ldap3 \<Rightarrow> senv \<Rightarrow> (admin_app, unit) eff" where
  "on_ldap_change X E w = (Inr (), w\<lparr>aa_ldap := map_option (LDAPAuthenticator_of X) (ldap E (aa_settings w))\<rparr>)"

definition on_redis_ttl_change :: "jobj \<Rightarrow> (admin_app, unit) eff" where
  "on_redis_ttl_change data w = (Inr (), w\<lparr>aa_store := apply_ttl data (aa_store w)\<rparr>)"

definition on_portal_change :: "(admin_app, unit) eff" where
  "on_portal_change w = (Inr (), w\<lparr>portal_name_cache := None\<rparr>)"

text \<open>\<^verbatim>\<open>(data.get("public_host") or "").strip()\<close>, and the port under either of its names.\<close>

definition host_of :: "jobj \<Rightarrow> ustr result" where
  "host_of data = (let h = field_or data (lit ''public_host'') JNull in
     if \<not> json_truthy h then Inr [] else case h of JStr s \<Rightarrow> Inr (strip s) | _ \<Rightarrow> Inl OtherException)"

definition port_of :: "jobj \<Rightarrow> int option result" where
  "port_of data = (let p = field_or data f_public_port JNull;
       p = (if json_truthy p then p else field_or data f_listen_port JNull) in
     if p = JNull then Inr None else bind_result (jint p) (\<lambda>i. Inr (Some i)))"

definition write_port :: "dotenv_env \<Rightarrow> int \<Rightarrow> (admin_app, unit) eff" where
  "write_port F port w = (case update_dotenv_port (env_read_error F) (env_write_error F) port (dotenv w) of
      (Inl e, t) \<Rightarrow> (Inl e, w\<lparr>dotenv := t\<rparr>) | (Inr _, t) \<Rightarrow> (Inr (), w\<lparr>dotenv := t\<rparr>))"

definition set_host :: "ustr \<Rightarrow> admin_app \<Rightarrow> admin_app" where
  "set_host new_host w = (let prev = prev_public_host w in
     w\<lparr>prev_public_host := Some new_host,
       requested := requested w @ (if new_host \<noteq> [] \<and> prev \<noteq> None \<and> prev \<noteq> Some [] \<and> prev \<noteq> Some new_host then [new_host] else [])\<rparr>)"

definition on_proxy_change :: "dotenv_env \<Rightarrow> jobj \<Rightarrow> (admin_app, unit) eff" where
  "on_proxy_change F data =
    rbind (rlift (host_of data)) (\<lambda>new_host.
    rbind (\<lambda>w. (Inr (), set_host new_host w)) (\<lambda>_.
    rbind (rlift (port_of data)) (\<lambda>new_port.
    case new_port of
      None \<Rightarrow> rreturn ()
    | Some p \<Rightarrow> (\<lambda>w. (let prev_port = prev_public_port w; w = w\<lparr>prev_public_port := Some p\<rparr> in
        if prev_port \<noteq> None \<and> prev_port \<noteq> Some p then write_port F p w else (Inr (), w))))))"

definition hooked :: "ustr \<Rightarrow> nat" where
  "hooked key = (if key \<in> {k_ldap, k_redis_ttl, k_portal, k_proxy} then 1 else 0)"

text \<open>A callback that raises is logged.\<close>

definition run_hook :: "ldap3 \<Rightarrow> senv \<Rightarrow> dotenv_env \<Rightarrow> ustr \<times> jobj \<Rightarrow> admin_app \<Rightarrow> admin_app" where
  "run_hook X E F = (\<lambda>(key, data) w. snd (
     if key = k_ldap then on_ldap_change X E w
     else if key = k_redis_ttl then on_redis_ttl_change data w
     else if key = k_portal then on_portal_change w
     else if key = k_proxy then on_proxy_change F data w
     else (Inr (), w)))"

text \<open>Saving with the callbacks: those that \<^verbatim>\<open>save\<close> calls, with what it gives them.\<close>

definition save_setting :: "ldap3 \<Rightarrow> senv \<Rightarrow> dotenv_env \<Rightarrow> ustr \<Rightarrow> jobj \<Rightarrow> (admin_app, unit) eff" where
  "save_setting X E F key v w = (case save E hooked key v True (aa_settings w) of
      (r, s) \<Rightarrow> (r, fold (run_hook X E F) (drop (length (hook_calls (aa_settings w))) (hook_calls s)) (w\<lparr>aa_settings := s\<rparr>)))"

text \<open>Host and port of the proxy section; the raw value that stays behind when the port is not a number is left out.\<close>

definition take_proxy :: "senv \<Rightarrow> (admin_app, unit) eff" where
  "take_proxy E w = (let proxy = proxy_params E (aa_settings w) in
     rbind (rlift (host_of proxy)) (\<lambda>h.
     rbind (\<lambda>w. (Inr (), w\<lparr>prev_public_host := Some h\<rparr>)) (\<lambda>_.
     rbind (rlift (port_of proxy)) (\<lambda>p w. (Inr (), w\<lparr>prev_public_port := p\<rparr>)))) w)"

definition reapply_portal_settings :: "ldap3 \<Rightarrow> senv \<Rightarrow> (admin_app, unit) eff" where
  "reapply_portal_settings X E =
    rbind (on_app_settings (load E)) (\<lambda>_.
    rbind (on_ldap_change X E) (\<lambda>_.
    rbind (\<lambda>w. on_redis_ttl_change (redis_ttl E (aa_settings w)) w) (\<lambda>_.
    rbind (\<lambda>w. (Inr (), w\<lparr>portal_name_cache := None\<rparr>)) (\<lambda>_.
    take_proxy E))))"

text \<open>At start-up an absent directory section keeps the authenticator of the configuration.\<close>

definition load_settings :: "ldap3 \<Rightarrow> senv \<Rightarrow> (admin_app, unit) eff" where
  "load_settings X E =
    rbind (on_app_settings (load E)) (\<lambda>_.
    rbind (\<lambda>w. (Inr (), case ldap E (aa_settings w) of None \<Rightarrow> w | Some l \<Rightarrow> w\<lparr>aa_ldap := Some (LDAPAuthenticator_of X l)\<rparr>)) (\<lambda>_.
    rbind (\<lambda>w. on_redis_ttl_change (redis_ttl E (aa_settings w)) w) (\<lambda>_.
    take_proxy E)))"

section \<open>Certificates\<close>

definition HAPROXY_CERT_PATH :: ustr where
  "HAPROXY_CERT_PATH = lit ''/usr/local/etc/haproxy/certs/rdp.pem''"

text \<open>The status tells whether HAProxy took the certificate; otherwise it asks for a restart.\<close>

definition request_certificate :: "acme_lib \<Rightarrow> bool \<Rightarrow> haproxy \<Rightarrow> ustr \<Rightarrow> ustr \<Rightarrow> admin_app \<Rightarrow> admin_app" where
  "request_certificate A socket_exists H dir dmn w0 =
    (let w = w0\<lparr>aa_cert_status := InProgress dmn\<rparr> in
     case obtain_certificate A dmn dir (aa_acme w) of (result, ac) \<Rightarrow>
       (let w = w\<lparr>aa_acme := ac\<rparr> in
        if cert_success result
        then (case files ac (haproxy_pem_path result) of
            None \<Rightarrow> w\<lparr>aa_cert_status := CertSuccess dmn False\<rparr>
          | Some pem \<Rightarrow> (case hot_update_ssl_cert socket_exists H pem HAPROXY_CERT_PATH (haproxy_sent w) of
              (reloaded, sent) \<Rightarrow> w\<lparr>haproxy_sent := sent, aa_cert_status := CertSuccess dmn reloaded\<rparr>))
        else w\<lparr>aa_cert_status := CertError dmn\<rparr>))"

definition cert_domain_of :: "admin_app \<Rightarrow> ustr" where
  "cert_domain_of w = strip (case prev_public_host w of None \<Rightarrow> [] | Some h \<Rightarrow> h)"

text \<open>One round of the renewal task after its sleep, and the check a minute after start-up.\<close>

definition cert_renewal_round :: "acme_lib \<Rightarrow> bool \<Rightarrow> haproxy \<Rightarrow> (bytes \<Rightarrow> int option) \<Rightarrow> int \<Rightarrow> ustr \<Rightarrow> admin_app \<Rightarrow> admin_app" where
  "cert_renewal_round A ex H not_after now dir w =
    (if cert_domain_of w = [] then w
     else case cert_days_remaining not_after now dir (aa_acme w) of
       None \<Rightarrow> request_certificate A ex H dir (cert_domain_of w) w
     | Some days \<Rightarrow> if days < 30 then request_certificate A ex H dir (cert_domain_of w) w else w)"

definition startup_cert_check :: "acme_lib \<Rightarrow> bool \<Rightarrow> haproxy \<Rightarrow> (bytes \<Rightarrow> int option) \<Rightarrow> int \<Rightarrow> ustr \<Rightarrow> admin_app \<Rightarrow> admin_app" where
  "startup_cert_check A ex H not_after now dir w =
    (if cert_domain_of w = [] then w
     else case cert_days_remaining not_after now dir (aa_acme w) of
       None \<Rightarrow> w
     | Some days \<Rightarrow> if days < 30 then request_certificate A ex H dir (cert_domain_of w) w else w)"

section \<open>Unauthorized pages\<close>

text \<open>Whether an exception with a status becomes a redirection to the login page.\<close>

definition html_unauthorized :: "ustr \<Rightarrow> int \<Rightarrow> bool" where
  "html_unauthorized path code \<longleftrightarrow> code = 401 \<and> starts_with (lit ''/admin'') path \<and> \<not> starts_with (lit ''/api/'') path"

section \<open>The routes of the settings\<close>

definition MERGE_KEYS :: "ustr list" where
  "MERGE_KEYS = [k_ldap, k_security, k_proxy, k_redis_ttl, k_portal, k_dns, k_relay]"

definition blank :: "json \<Rightarrow> bool" where
  "blank v \<longleftrightarrow> (case v of JNull \<Rightarrow> True | JStr s \<Rightarrow> strip s = [] | _ \<Rightarrow> False)"

definition clean_dict :: "jobj \<Rightarrow> jobj" where
  "clean_dict v = filter (\<lambda>(k, x). \<not> blank x) v"

definition put_value :: "ustr \<Rightarrow> json \<Rightarrow> jobj" where
  "put_value key v = (let d = (case v of JObj d \<Rightarrow> d | _ \<Rightarrow> [(lit ''value'', v)]) in
     if key \<in> set MERGE_KEYS then clean_dict d else d)"

fun put_loop :: "ldap3 \<Rightarrow> senv \<Rightarrow> dotenv_env \<Rightarrow> jobj \<Rightarrow> (admin_app, unit) eff" where
  "put_loop X E F [] = rreturn ()"
| "put_loop X E F ((k, v) # r) =
    (let key = strip k in
     if key = [] then put_loop X E F r
     else if key \<notin> set MERGE_KEYS \<union> {lit ''instance''} then rraise (HTTPException 400)
     else rbind (save_setting X E F key (put_value key v)) (\<lambda>_. put_loop X E F r))"

definition put_settings :: "ldap3 \<Rightarrow> senv \<Rightarrow> dotenv_env \<Rightarrow> jobj \<Rightarrow> (admin_app, unit) eff" where
  "put_settings X E F values =
    rbind (put_loop X E F values) (\<lambda>_ w.
    (Inr (), snd (reapply_portal_settings X E w)))"

definition get_settings :: "senv \<Rightarrow> admin_app \<Rightarrow> jobj" where
  "get_settings E w = get_all_for_ui E (aa_settings w)"

text \<open>Both checks list one group; every failure is answered with 400.\<close>

definition ldap_check :: "ldap3 \<Rightarrow> LDAPAuthenticator option \<Rightarrow> unit ldap_op" where
  "ldap_check X auth = (case auth of
      None \<Rightarrow> rraise (HTTPException 500)
    | Some a \<Rightarrow> (\<lambda>t. case list_groups X a 1 t of (Inl e, t') \<Rightarrow> (Inl (HTTPException 400), t') | (Inr _, t') \<Rightarrow> (Inr (), t')))"

definition ldap_test_config :: "senv \<Rightarrow> jobj \<Rightarrow> jobj \<Rightarrow> LdapConfig result" where
  "ldap_test_config E current given =
    LdapConfig_of (s_scalars E) (pop_field bind_password_enc (merge current (clean_dict given)))"

definition ldap_test :: "ldap3 \<Rightarrow> senv \<Rightarrow> jobj \<Rightarrow> admin_app \<times> ldap_event list \<Rightarrow> unit result \<times> admin_app \<times> ldap_event list" where
  "ldap_test X E values = (\<lambda>(w, t). case on_app_settings (get E k_ldap) w of
      (Inl e, w') \<Rightarrow> (Inl e, w', t)
    | (Inr current, w') \<Rightarrow> (case field_or values k_ldap (JObj []) of
          JObj given \<Rightarrow> (case ldap_test_config E current given of
              Inl e \<Rightarrow> (Inl (HTTPException 400), w', t)
            | Inr cfg \<Rightarrow> (case ldap_check X (Some (LDAPAuthenticator_of X cfg)) t of (r, t') \<Rightarrow> (r, w', t')))
        | _ \<Rightarrow> (Inl OtherException, w', t)))"

section \<open>Saving through the route\<close>

lemma write_port_settings [simp]: "aa_settings (snd (write_port F p w)) = aa_settings w"
  by (simp add: write_port_def split: prod.split sum.split)

lemma on_proxy_change_settings [simp]: "aa_settings (snd (on_proxy_change F data w)) = aa_settings w"
  by (simp add: on_proxy_change_def rd_simps set_host_def Let_def split: sum.split option.split)

lemma run_hook_settings [simp]: "aa_settings (run_hook X E F c w) = aa_settings w"
  by (simp add: run_hook_def on_ldap_change_def on_redis_ttl_change_def on_portal_change_def split: prod.split)

lemma run_hooks_settings [simp]: "aa_settings (fold (run_hook X E F) cs w) = aa_settings w"
  by (induction cs arbitrary: w) simp_all

lemma save_setting_settings: "save_setting X E F key v w = (r, w') \<Longrightarrow> save E hooked key v True (aa_settings w) = (r, aa_settings w')"
  by (auto simp: save_setting_def split: prod.splits)

lemma save_published:
  assumes "save E hooks key v True s = (Inr u, s')" and "\<not> publish_fails E"
  shows "published s' = published s @ [key]"
proof -
  obtain sv where sv: "hide_secret E key v = Inr sv" and tx: "tx_fails E key = None"
    using assms(1) by (auto simp: save_def split: sum.splits option.splits)
  let ?s1 = "(save_cache key sv (save_row key sv s))\<lparr>s_loaded_at := s_now E\<rparr>"
  obtain r2 s2 where h: "run_hooks E hooks key ?s1 = (r2, s2)" by force
  have "published ?s1 = published s"
    by (simp add: save_cache_def save_row_def put_row_def put_cache_def split: option.split json.split)
  moreover have "published s' = published s2 @ [key]"
    using assms sv tx h by (auto simp: save_def rbind_def split: sum.splits)
  ultimately show ?thesis using run_hooks_state [OF h] by simp
qed

definition saved_keys :: "jobj \<Rightarrow> ustr list" where
  "saved_keys values = filter (\<lambda>k. k \<noteq> []) (map (strip \<circ> fst) values)"

lemma put_loop_published:
  assumes "put_loop X E F a w = (Inr u, w')" and "\<not> publish_fails E"
  shows "published (aa_settings w') = published (aa_settings w) @ saved_keys a"
  using assms(1)
proof (induction a arbitrary: w)
  case (Cons x a)
  obtain k v where x: "x = (k, v)" by force
  show ?case
  proof (cases "strip k = []")
    case True
    then show ?thesis using Cons x by (simp add: saved_keys_def)
  next
    case False
    with Cons.prems x obtain w1 where w1: "save_setting X E F (strip k) (put_value (strip k) v) w = (Inr (), w1)"
      and r: "put_loop X E F a w1 = (Inr u, w')"
      by (auto simp: rd_simps Let_def split: if_splits prod.splits sum.splits)
    have "published (aa_settings w1) = published (aa_settings w) @ [strip k]"
      using save_published [OF save_setting_settings [OF w1] assms(2)] .
    with Cons.IH [OF r] False x show ?thesis by (simp add: saved_keys_def)
  qed
qed (simp add: rd_simps saved_keys_def)

lemma rbind_rraise: "rbind (rraise e) f = rraise e"
  by (simp add: rbind_def rraise_def fun_eq_iff)

lemma put_loop_append: "put_loop X E F (a @ b) = rbind (put_loop X E F a) (\<lambda>_. put_loop X E F b)"
proof (induction a)
  case (Cons x a)
  then show ?case by (cases x) (simp add: Let_def rbind_assoc rbind_rraise)
qed simp

lemma clean_dict_blank: "(k, x) \<in> set (clean_dict d) \<Longrightarrow> \<not> blank x"
  by (auto simp: clean_dict_def)

lemma distinct_clean_dict: "distinct (map fst d) \<Longrightarrow> distinct (map fst (clean_dict d))"
  by (simp add: clean_dict_def distinct_map_filter)

lemma map_of_clean_dict: "distinct (map fst d) \<Longrightarrow> map_of d f = Some x \<Longrightarrow> blank x \<Longrightarrow> map_of (clean_dict d) f = None"
  by (induction d) (auto simp: clean_dict_def map_of_eq_None_iff image_iff)

lemma save_view:
  assumes "save E hooks key v True s = (r, s')" and "key \<noteq> k_ldap" and "key \<noteq> k_proxy" and "tx_fails E key = None"
    and "distinct (map fst v)"
  shows "view s' key = view s key ++ map_of v"
proof -
  have "hide_secret E key v = Inr v" using assms(2) by (simp add: hide_secret_def)
  note st = save_state [OF assms(1) this assms(4)]
  then show ?thesis using assms(3,5)
    by (auto simp: view_def save_cache_def put_cache_def drop_legacy_port_def map_of_merge split: option.split)
qed


section \<open>Testing the directory\<close>

text \<open>
  The test of directory settings that are not saved yet completes what is given with what is stored,
  the stored password included, also if the given server is another one. With a server that accepts
  connections the password that was stored is sent to the server that the request names.
\<close>

lemma ldap_test_sends_stored_password:
  assumes "on_app_settings (get E k_ldap) w = (Inr current, w')" and "map_of current bind_password = Some (JStr p)"
    and "map_of (clean_dict given) bind_password = None" and "map_of (clean_dict given) (lit ''server'') = Some (JStr h)"
    and "distinct (map fst given)" and "\<And>s. c_str (s_scalars E) (JStr s) = Inr s"
    and "ldap_test_config E current given = Inr cfg" and "l_mode cfg \<noteq> lit ''starttls''"
    and "l3_open X (build_server (LDAPAuthenticator_of X cfg)) = Inr True"
  shows "\<exists>srv rest. srv_host srv = h
    \<and> snd (snd (ldap_test X E [(k_ldap, JObj given)] (w, t))) = t @ EOpen srv # EBind (l_bind_dn cfg) p # rest"
proof -
  let ?d = "pop_field bind_password_enc (merge current (clean_dict given))" and ?A = "LDAPAuthenticator_of X cfg"
  have "bind_password \<noteq> bind_password_enc" "lit ''server'' \<noteq> bind_password_enc" by (simp_all add: field_names lit_eval)
  then have d: "map_of ?d bind_password = Some (JStr p)" "map_of ?d (lit ''server'') = Some (JStr h)"
    using assms(2,3,4) distinct_clean_dict [OF assms(5)] by (simp_all add: map_of_merge map_add_def)
  have "l_server cfg = h \<and> l_bind_password cfg = p"
    using assms(7) d assms(6)
    by (auto simp: ldap_test_config_def LdapConfig_of_def bind_result_Inr req_field_def field_names)
  then have A: "server_host ?A = h" "bind_secret ?A = p" "bind_dn ?A = l_bind_dn cfg" "l_mode_of ?A = l_mode cfg"
    by (simp_all add: LDAPAuthenticator_of_def)
  have "\<exists>r rest. bind X ?A (build_server ?A) (l_bind_dn cfg) p t = (r, t @ [EOpen (build_server ?A), EBind (l_bind_dn cfg) p] @ rest)"
    using assms(8,9) A by (auto simp: bind_def rd_simps call_def split: sum.split)
  then obtain r rest where b: "bind X ?A (build_server ?A) (l_bind_dn cfg) p t = (r, t @ [EOpen (build_server ?A), EBind (l_bind_dn cfg) p] @ rest)"
    by blast
  have "\<exists>r rest. list_groups X ?A 1 t = (r, t @ [EOpen (build_server ?A), EBind (l_bind_dn cfg) p] @ rest)"
    using b A by (auto simp: list_groups_def rd_simps and_unbind_def search_def call_def split: sum.split prod.split)
  then obtain r2 rest2 where "list_groups X ?A 1 t = (r2, t @ [EOpen (build_server ?A), EBind (l_bind_dn cfg) p] @ rest2)" by blast
  then have "snd (snd (ldap_test X E [(k_ldap, JObj given)] (w, t))) = t @ EOpen (build_server ?A) # EBind (l_bind_dn cfg) p # rest2"
    using assms(1,7) by (simp add: ldap_test_def field_or_def ldap_check_def split: sum.split)
  moreover have "srv_host (build_server ?A) = h" using A by (simp add: build_server_def)
  ultimately show ?thesis by blast
qed

section \<open>The public port\<close>

text \<open>
  The file of the environment names the port last seen. Every callback keeps this, as long as the file
  can be read and written: a changed port is written before the next change is looked at.
\<close>

definition port_agrees :: "admin_app \<Rightarrow> bool" where
  "port_agrees w \<longleftrightarrow> (\<exists>p t. prev_public_port w = Some p \<and> dotenv w = Some t \<and> ends_lines t \<and> env_value port_name t = Some (int_str p))"

lemma write_port_agrees:
  "env_read_error F = None \<Longrightarrow> env_write_error F = None \<Longrightarrow> dotenv w = Some t \<Longrightarrow> ends_lines t
    \<Longrightarrow> port_agrees (snd (write_port F p (w\<lparr>prev_public_port := Some p\<rparr>)))"
  using new_dotenv_saved [of _ p t] by (simp add: write_port_def update_dotenv_port_def port_agrees_def)

lemma run_hook_port_agrees:
  assumes "env_read_error F = None" and "env_write_error F = None" and "port_agrees w"
  shows "port_agrees (run_hook X E F c w)"
proof -
  have keep: "port_agrees w'" if "prev_public_port w' = prev_public_port w" "dotenv w' = dotenv w" for w'
    using that assms(3) by (simp add: port_agrees_def)
  from assms(3) obtain p t where w: "prev_public_port w = Some p" "dotenv w = Some t" "ends_lines t" "env_value port_name t = Some (int_str p)"
    by (auto simp: port_agrees_def)
  have "port_agrees (snd (on_proxy_change F data w))" for data
  proof (cases "host_of data")
    case (Inr h)
    show ?thesis
    proof (cases "\<exists>q. port_of data = Inr (Some q) \<and> q \<noteq> p")
      case True
      then obtain q where q: "port_of data = Inr (Some q)" "q \<noteq> p" by blast
      then have "snd (on_proxy_change F data w) = snd (write_port F q ((set_host h w)\<lparr>prev_public_port := Some q\<rparr>))"
        using Inr w(1) by (simp add: on_proxy_change_def rd_simps set_host_def Let_def)
      then show ?thesis using write_port_agrees [OF assms(1,2), of "set_host h w" t q] w by (simp add: set_host_def Let_def)
    next
      case False
      then show ?thesis using Inr w
        by (intro keep) (auto simp: on_proxy_change_def rd_simps set_host_def Let_def split: sum.split option.split)
    qed
  qed (use assms(3) in \<open>simp add: on_proxy_change_def rd_simps\<close>)
  then show ?thesis
    by (cases c) (auto simp: run_hook_def on_ldap_change_def on_redis_ttl_change_def on_portal_change_def intro: keep)
qed

lemma callbacks_port_agrees:
  "env_read_error F = None \<Longrightarrow> env_write_error F = None \<Longrightarrow> port_agrees w \<Longrightarrow> port_agrees (fold (run_hook X E F) cs w)"
  by (induction cs arbitrary: w) (simp_all add: run_hook_port_agrees)

section \<open>Installing a certificate\<close>

lemma hot_update_decodes: "hot_update_ssl_cert ex H pem path sent0 = (True, sent) \<Longrightarrow> \<exists>t. utf8_decode pem = Inr t"
  by (auto simp: hot_update_ssl_cert_def update_steps_def rd_simps split: if_splits prod.splits sum.splits)

lemma cert_path_plain: "list_all scalar HAPROXY_CERT_PATH" "10 \<notin> set HAPROXY_CERT_PATH"
  by (simp_all add: HAPROXY_CERT_PATH_def lit_eval scalar_def)

text \<open>
  C37: When the status of a request says success, the authority has issued a certificate and the files hold
  it with its key; when it says that HAProxy was updated, HAProxy has acknowledged an upload of which it
  reads exactly the lines of chain and key that are not blank, and then the commit. When it says error,
  HAProxy was not touched and the files are as before unless writing them failed. The renewal task
  requests a certificate exactly when the host is known and the certificate is missing or has less than
  thirty days left, and the check after start-up does the same but not for a missing one.
\<close>

theorem certificate_installed:
  assumes "request_certificate A ex H dir dmn w = w'"
  shows "(\<forall>d ok. aa_cert_status w' = CertSuccess d ok \<longrightarrow> d = dmn \<and> (\<exists>chain. poll_and_finalize A = Issued chain
        \<and> cert_view dir (aa_acme w') = [Some chain, Some (new_domain_key A), Some (chain @ new_domain_key A)]
        \<and> (ok \<longrightarrow> (\<exists>pem a s c r1 r2. utf8_decode (chain @ new_domain_key A) = Inr pem \<and> haproxy_sent w' = haproxy_sent w @ [a, s, c]
              \<and> utf8_decode s = Inr (set_command HAPROXY_CERT_PATH (strip_blank_lines pem))
              \<and> heredoc (set_command HAPROXY_CERT_PATH (strip_blank_lines pem)) = filter (\<lambda>l. strip l \<noteq> []) (splitlines pem)
              \<and> H (haproxy_sent w @ [a]) s = Inr r1 \<and> staged (strip r1)
              \<and> H (haproxy_sent w @ [a, s]) c = Inr r2 \<and> committed (strip r2)))))
    \<and> (\<forall>d. aa_cert_status w' = CertError d \<and> (\<forall>p \<in> cert_files dir. writing A p = Written)
        \<longrightarrow> haproxy_sent w' = haproxy_sent w \<and> cert_view dir (aa_acme w') = cert_view dir (aa_acme w))
    \<and> (dmn = cert_domain_of w \<longrightarrow> cert_renewal_round A ex H not_after now dir w
        = (if dmn \<noteq> [] \<and> cert_needs_renewal not_after now dir 30 (aa_acme w) then w' else w)
       \<and> startup_cert_check A ex H not_after now dir w
        = (if cert_days_remaining not_after now dir (aa_acme w) = None then w else cert_renewal_round A ex H not_after now dir w))"
proof -
  obtain res ac where o: "obtain_certificate A dmn dir (aa_acme w) = (res, ac)" by force
  note safe = obtain_certificate_safe [OF o]
  have view: "files ac (in_dir dir f_haproxy) = Some x" if "cert_view dir ac = [y, z, Some x]" for x y z
    using that by (simp add: cert_view_def)
  have ok: "d = dmn \<and> (\<exists>chain. poll_and_finalize A = Issued chain
        \<and> cert_view dir (aa_acme w') = [Some chain, Some (new_domain_key A), Some (chain @ new_domain_key A)]
        \<and> (ok \<longrightarrow> (\<exists>pem a s c r1 r2. utf8_decode (chain @ new_domain_key A) = Inr pem \<and> haproxy_sent w' = haproxy_sent w @ [a, s, c]
              \<and> utf8_decode s = Inr (set_command HAPROXY_CERT_PATH (strip_blank_lines pem))
              \<and> heredoc (set_command HAPROXY_CERT_PATH (strip_blank_lines pem)) = filter (\<lambda>l. strip l \<noteq> []) (splitlines pem)
              \<and> H (haproxy_sent w @ [a]) s = Inr r1 \<and> staged (strip r1)
              \<and> H (haproxy_sent w @ [a, s]) c = Inr r2 \<and> committed (strip r2))))"
    if st: "aa_cert_status w' = CertSuccess d ok" for d ok
  proof -
    have "cert_success res" using st assms o by (auto simp: request_certificate_def Let_def split: if_splits)
    with safe obtain chain where chain: "poll_and_finalize A = Issued chain" "haproxy_pem_path res = in_dir dir f_haproxy"
        "cert_view dir ac = [Some chain, Some (new_domain_key A), Some (chain @ new_domain_key A)]" by blast
    obtain u sent where h: "hot_update_ssl_cert ex H (chain @ new_domain_key A) HAPROXY_CERT_PATH (haproxy_sent w) = (u, sent)" by force
    with st assms o \<open>cert_success res\<close> chain(2) view [OF chain(3)]
    have w': "d = dmn" "ok = u" "haproxy_sent w' = sent" "aa_acme w' = ac" by (auto simp: request_certificate_def Let_def)
    have "\<exists>pem a s c r1 r2. utf8_decode (chain @ new_domain_key A) = Inr pem \<and> sent = haproxy_sent w @ [a, s, c]
        \<and> utf8_decode s = Inr (set_command HAPROXY_CERT_PATH (strip_blank_lines pem))
        \<and> H (haproxy_sent w @ [a]) s = Inr r1 \<and> staged (strip r1) \<and> H (haproxy_sent w @ [a, s]) c = Inr r2 \<and> committed (strip r2)" if u
    proof -
      from that h obtain pem where pem: "utf8_decode (chain @ new_domain_key A) = Inr pem" using hot_update_decodes by force
      from hot_update_complete [OF pem cert_path_plain(1) h] that pem show ?thesis by blast
    qed
    with w' chain heredoc_set_command [OF cert_path_plain(2)] show ?thesis by metis
  qed
  have err: "haproxy_sent w' = haproxy_sent w \<and> cert_view dir (aa_acme w') = cert_view dir (aa_acme w)"
    if "aa_cert_status w' = CertError d" "\<forall>p \<in> cert_files dir. writing A p = Written" for d
  proof -
    have "\<not> cert_success res" using that(1) assms o by (auto simp: request_certificate_def Let_def split: if_splits option.splits prod.splits)
    with safe that(2) assms o show ?thesis by (auto simp: request_certificate_def Let_def)
  qed
  show ?thesis
    using ok err assms
    by (auto simp: cert_renewal_round_def startup_cert_check_def cert_needs_renewal_def split: option.split)
qed

section \<open>At concrete inputs\<close>

definition ref_admin_app :: "settings \<Rightarrow> admin_app" where
  "ref_admin_app st = \<lparr>aa_settings = st, aa_ldap = None, aa_store = ref_store, portal_name_cache = None,
     prev_public_host = Some (lit ''h''), prev_public_port = Some 443, aa_cert_status = Idle, requested = [], dotenv = None,
     aa_acme = \<lparr>files = Map.empty, tokens = Map.empty, serving = False, answered = []\<rparr>, haproxy_sent = []\<rparr>"

definition ref_acme :: acme_lib where
  "ref_acme = \<lparr>load_pem = (\<lambda>k. Inl ValueError), new_key = [2], new_domain_key = [66, 10], key_authorization = (\<lambda>k t. t @ [46]),
     get_directory = Inr (), new_account = Conflict, query_registration = Inr (), new_order = Inr [[OtherChallenge, HTTP01 [7]]],
     answer_challenge = (\<lambda>_. Inr ()), poll_and_finalize = Issued [65, 10, 10], make_dirs = Inr (), read_error = None,
     writing = (\<lambda>_. Written), bind_port = Inr ()\<rparr>"

text \<open>A request that succeeds, with a HAProxy that is there and one that is not.\<close>

theorem certificate_installed_witness:
  "\<exists>w'. request_certificate ref_acme False ref_haproxy (lit ''/c'') (lit ''h'') (ref_admin_app (ref_settings [])) = w'
     \<and> aa_cert_status w' = CertSuccess (lit ''h'') False
     \<and> cert_view (lit ''/c'') (aa_acme w') = [Some [65, 10, 10], Some [66, 10], Some [65, 10, 10, 66, 10]]
     \<and> cert_renewal_round ref_acme False ref_haproxy (\<lambda>_. None) 0 (lit ''/c'') (ref_admin_app (ref_settings [])) = w'"
proof -
  let ?w = "ref_admin_app (ref_settings [])"
  obtain w' where run: "request_certificate ref_acme False ref_haproxy (lit ''/c'') (lit ''h'') ?w = w'" by blast
  have st: "aa_cert_status w' = CertSuccess (lit ''h'') False"
    using run by (auto simp: request_certificate_def obtain_certificate_def obtain_sync_def load_or_create_account_key_def new_account_key_def
        write_file_def account_registration_def save_certificate_def set_challenge_def answer_def ref_acme_def ref_admin_app_def rd_simps Let_def
        hot_update_ssl_cert_def)
  have "strip (lit ''h'') = lit ''h''" by (rule strip_no_space) (simp add: lit_eval py_isspace_def py_spaces_def)
  then have d: "cert_domain_of ?w = lit ''h''" "lit ''h'' \<noteq> []" by (simp_all add: cert_domain_of_def ref_admin_app_def lit_eval)
  have n: "cert_needs_renewal (\<lambda>_. None) 0 (lit ''/c'') 30 (aa_acme ?w)"
    by (simp add: cert_needs_renewal_def cert_days_remaining_def ref_admin_app_def)
  note c = certificate_installed [OF run]
  from c [THEN conjunct1, rule_format, OF st]
  have "cert_view (lit ''/c'') (aa_acme w') = [Some [65, 10, 10], Some [66, 10], Some [65, 10, 10, 66, 10]]" by (simp add: ref_acme_def)
  moreover from certificate_installed [where not_after = "\<lambda>_. None" and now = 0, OF run, THEN conjunct2, THEN conjunct2] d n
  have "cert_renewal_round ref_acme False ref_haproxy (\<lambda>_. None) 0 (lit ''/c'') ?w = w'" by simp
  ultimately show ?thesis using run st by blast
qed


definition ref_ldap_row :: jobj where
  "ref_ldap_row = [(lit ''server'', JStr (lit ''dc'')), (lit ''bind_dn'', JStr (lit ''svc'')), (bind_password, JStr (lit ''pw'')),
     (lit ''users_dn'', JStr (lit ''dc=x'')), (lit ''domain'', JStr (lit ''x''))]"

text \<open>The request names another server and no password.\<close>

lemma ldap_test_sends_stored_password_witness:
  "\<exists>srv rest. srv_host srv = lit ''other'' \<and> snd (snd (ldap_test ref_ldap3 ref_senv [(k_ldap, JObj [(lit ''server'', JStr (lit ''other''))])]
     (ref_admin_app (ref_settings [(k_ldap, JObj ref_ldap_row)]), []))) = EOpen srv # EBind (lit ''svc'') (lit ''pw'') # rest"
proof -
  let ?w = "ref_admin_app (ref_settings [(k_ldap, JObj ref_ldap_row)])" and ?given = "[(lit ''server'', JStr (lit ''other''))]"
  have cache: "s_cache (aa_settings ?w) k_ldap = Some ref_ldap_row"
    by (simp add: ref_admin_app_def ref_settings_def fresh_cache_def key_names lit_eval)
  have g: "on_app_settings (get ref_senv k_ldap) ?w = (Inr ref_ldap_row, ?w)"
    using cache by (simp add: on_app_settings_def get_def rd_simps ref_senv_def show_secret_def ref_admin_app_def ref_settings_def ref_ldap_row_def
        field_names lit_eval)
  have "strip (lit ''other'') = lit ''other''" by (rule strip_no_space) (simp add: lit_eval py_isspace_def py_spaces_def)
  then have cl: "clean_dict ?given = ?given" by (simp add: clean_dict_def blank_def lit_eval)
  obtain cfg where cfg: "ldap_test_config ref_senv ref_ldap_row ?given = Inr cfg" and m: "l_mode cfg = lit ''plain''" "l_bind_dn cfg = lit ''svc''"
    using cl by (simp add: ldap_test_config_def merge_def LdapConfig_of_def ref_ldap_row_def ref_senv_def ref_scalars_def req_field_def opt_field_def
        pop_field_def field_names lit_eval)
  have d: "map_of ref_ldap_row bind_password = Some (JStr (lit ''pw''))" by (simp add: ref_ldap_row_def field_names lit_eval)
  have e: "map_of (clean_dict ?given) bind_password = None" "map_of (clean_dict ?given) (lit ''server'') = Some (JStr (lit ''other''))"
    unfolding cl by (simp_all add: field_names lit_eval)
  have sc: "c_str (s_scalars ref_senv) (JStr x) = Inr x" for x by (simp add: ref_senv_def ref_scalars_def)
  have mode: "l_mode cfg \<noteq> lit ''starttls''" using m by (simp add: lit_eval)
  have op: "l3_open ref_ldap3 (build_server (LDAPAuthenticator_of ref_ldap3 cfg)) = Inr True" by (simp add: ref_ldap3_def)
  show ?thesis using ldap_test_sends_stored_password [OF g d e _ sc cfg mode op, of "[]"] m by simp
qed

end
