(* ===== verification/Json_Text.thy ===== *)
theory Json_Text
  imports Py_Text
begin

text \<open>
  Texts in JSON as \<^verbatim>\<open>json.dumps(text, ensure_ascii=False)\<close> of the standard library writes them, which the export of
  \<^verbatim>\<open>routes/sessions.py\<close> and the log of \<^verbatim>\<open>libs/common/logging.py\<close> use, and how a JSON parser reads them.
\<close>

definition json_char :: "nat \<Rightarrow> ustr" where
  "json_char c = (if c = 34 then [92, 34] else if c = 92 then [92, 92] else if c = 10 then [92, 110] else if c = 13 then [92, 114]
     else if c = 9 then [92, 116] else if c = 8 then [92, 98] else if c = 12 then [92, 102]
     else if c < 32 then [92, 117, 48, 48, hex_char (c div 16), hex_char (c mod 16)] else [c])"

definition json_text :: "ustr \<Rightarrow> ustr" where
  "json_text s = [34] @ concat (map json_char s) @ [34]"

lemma json_text_no_break: "10 \<notin> set (json_text t)"
proof -
  have "hex_char d \<noteq> 10" for d by (simp add: hex_char_def)
  then have "10 \<notin> set (json_char c)" for c by (auto simp: json_char_def)
  then show ?thesis by (auto simp: json_text_def)
qed

section \<open>Reading a text\<close>

definition short_escape :: "nat \<Rightarrow> nat option" where
  "short_escape e = (if e \<in> {34, 92, 47} then Some e else if e = 110 then Some 10 else if e = 114 then Some 13
     else if e = 116 then Some 9 else if e = 98 then Some 8 else if e = 102 then Some 12 else None)"

text \<open>From behind the opening quotes to the closing ones: the text and what follows.\<close>

fun json_read :: "ustr \<Rightarrow> (ustr \<times> ustr) option" where
  "json_read [] = None"
| "json_read (c # r) =
    (if c = 34 then Some ([], r)
     else if c < 32 then None
     else if c \<noteq> 92 then map_option (\<lambda>(t, u). (c # t, u)) (json_read r)
     else (case r of
         [] \<Rightarrow> None
       | e # r1 \<Rightarrow> if e = 117
           then (case r1 of h3 # h2 # h1 # h0 # r2 \<Rightarrow>
               (case (hex_digit h3, hex_digit h2, hex_digit h1, hex_digit h0) of
                  (Some d3, Some d2, Some d1, Some d0) \<Rightarrow>
                    map_option (\<lambda>(t, u). ((((d3 * 16 + d2) * 16 + d1) * 16 + d0) # t, u)) (json_read r2)
                | _ \<Rightarrow> None)
             | _ \<Rightarrow> None)
           else (case short_escape e of None \<Rightarrow> None | Some x \<Rightarrow> map_option (\<lambda>(t, u). (x # t, u)) (json_read r1))))"

lemma json_read_char: "json_read (json_char c @ r) = map_option (\<lambda>(t, u). (c # t, u)) (json_read r)"
proof -
  have z: "hex_digit 48 = Some 0" using hex_digit_char [of 0] by (simp add: hex_char_def)
  have "hex_digit (hex_char (c div 16)) = Some (c div 16)" "hex_digit (hex_char (c mod 16)) = Some (c mod 16)" if "c < 32"
    using that by (simp_all add: hex_digit_char)
  then show ?thesis using z by (auto simp: json_char_def short_escape_def)
qed

lemma json_read_text: "json_read (concat (map json_char s) @ 34 # r) = Some (s, r)"
  by (induction s) (simp_all add: json_read_char)

end
