(* ===== verification/Session_Views.thy ===== *)
theory Session_Views
  imports Admin_Sessions Json_Text "HOL-Library.Multiset"
begin

text \<open>
  The reports of the administration on past connections (\<^verbatim>\<open>src/services/admin/routes/sessions.py\<close>): the
  filtered and paged history, the reasons in use, the export, and the details and events of one
  connection. They only read the tables. What the database does beyond the meaning of a statement is a
  parameter: the order of rows with equal keys, matching of patterns with \<^verbatim>\<open>ILIKE\<close>, and the collation of
  texts; so is the parsing of ISO times. Times are integers, with the function that writes them.
\<close>

section \<open>Queries\<close>

record report_lib =
  newest_first :: "ConnectionHistory list \<Rightarrow> ConnectionHistory list"
  oldest_first :: "ConnectionEvent list \<Rightarrow> ConnectionEvent list"
  text_order :: "ustr list \<Rightarrow> ustr list"
  ilike :: "ustr \<Rightarrow> ustr \<Rightarrow> bool"
  fromisoformat :: "ustr \<Rightarrow> int result"
  isoformat :: "int \<Rightarrow> ustr"

text \<open>\<^verbatim>\<open>ORDER BY started_at DESC\<close> arranges the rows, newest first.\<close>

definition report_lib_ok :: "report_lib \<Rightarrow> bool" where
  "report_lib_ok L \<longleftrightarrow> (\<forall>rows. mset (newest_first L rows) = mset rows
     \<and> sorted_wrt (\<lambda>a b. h_started_at b \<le> h_started_at a) (newest_first L rows))"

definition parse_dt :: "report_lib \<Rightarrow> ustr \<Rightarrow> int result" where
  "parse_dt L value = (case fromisoformat L (py_replace (lit ''Z'') (lit ''+00:00'') value) of
      Inr t \<Rightarrow> Inr t | Inl e \<Rightarrow> Inl (HTTPException 400))"

record history_query =
  f_username :: "ustr list"
  f_server_id :: "ustr list"
  f_server_display :: "ustr option"
  f_server_address :: "ustr option"
  f_status :: "ustr list"
  f_client_ip :: "ustr list"
  f_reason :: "ustr option"
  from_ts :: "ustr option"
  to_ts :: "ustr option"
  ended_from :: "ustr option"
  ended_to :: "ustr option"
  exclude_active :: bool
  q_page :: int
  per_page :: int

fun status_str :: "conn_status \<Rightarrow> ustr" where
  "status_str SActive = lit ''active''"
| "status_str SClosed = lit ''closed''"
| "status_str SError = lit ''error''"
| "status_str SKilled = lit ''killed''"

text \<open>\<^verbatim>\<open>column.ilike("%text%")\<close>, if a text is given; a null column does not match.\<close>

definition like_opt :: "report_lib \<Rightarrow> ustr option \<Rightarrow> ustr option \<Rightarrow> bool" where
  "like_opt L given column = (case given of
      None \<Rightarrow> True
    | Some t \<Rightarrow> t = [] \<or> (case column of None \<Rightarrow> False | Some c \<Rightarrow> ilike L (lit ''%'' @ t @ lit ''%'') c))"

text \<open>A bound on a time; an empty text is no bound.\<close>

definition time_bound :: "report_lib \<Rightarrow> ustr option \<Rightarrow> int option result" where
  "time_bound L given = (case given of
      None \<Rightarrow> Inr None | Some t \<Rightarrow> if t = [] then Inr None else bind_result (parse_dt L t) (\<lambda>v. Inr (Some v)))"

definition server_uuids :: "ustr list \<Rightarrow> nat list" where
  "server_uuids vs = List.map_filter (\<lambda>v. case uuid_of v of Inr u \<Rightarrow> Some u | Inl _ \<Rightarrow> None) vs"

text \<open>The condition of the statement, or the refusal of a time that cannot be read.\<close>

definition history_filter :: "report_lib \<Rightarrow> history_query \<Rightarrow> (ConnectionHistory \<Rightarrow> bool) result" where
  "history_filter L q =
    bind_result (time_bound L (from_ts q)) (\<lambda>a.
    bind_result (time_bound L (to_ts q)) (\<lambda>b.
    bind_result (time_bound L (ended_from q)) (\<lambda>c.
    bind_result (time_bound L (ended_to q)) (\<lambda>d.
    Inr (\<lambda>r. (exclude_active q \<longrightarrow> h_status r \<noteq> SActive)
      \<and> (f_username q \<noteq> [] \<longrightarrow> h_username r \<in> set (f_username q))
      \<and> (server_uuids (f_server_id q) \<noteq> [] \<longrightarrow> (\<exists>u \<in> set (server_uuids (f_server_id q)). h_server_id r = Some u))
      \<and> like_opt L (f_server_display q) (h_server_display r)
      \<and> like_opt L (f_server_address q) (Some (h_server_address r))
      \<and> (f_status q \<noteq> [] \<longrightarrow> status_str (h_status r) \<in> set (f_status q))
      \<and> (f_client_ip q \<noteq> [] \<longrightarrow> h_client_ip r \<in> set (f_client_ip q))
      \<and> like_opt L (f_reason q) (h_disconnect_reason r)
      \<and> (case a of None \<Rightarrow> True | Some t \<Rightarrow> t \<le> h_started_at r)
      \<and> (case b of None \<Rightarrow> True | Some t \<Rightarrow> h_started_at r \<le> t)
      \<and> (case c of None \<Rightarrow> True | Some t \<Rightarrow> (case h_ended_at r of None \<Rightarrow> False | Some x \<Rightarrow> t \<le> x))
      \<and> (case d of None \<Rightarrow> True | Some t \<Rightarrow> (case h_ended_at r of None \<Rightarrow> False | Some x \<Rightarrow> x \<le> t)))))))"

text \<open>A row as the JSON of the history and of the detail view.\<close>

definition jtime :: "report_lib \<Rightarrow> int option \<Rightarrow> json" where
  "jtime L t = (case t of None \<Rightarrow> JNull | Some x \<Rightarrow> JStr (isoformat L x))"

definition jopt_text :: "ustr option \<Rightarrow> json" where
  "jopt_text t = (case t of None \<Rightarrow> JNull | Some s \<Rightarrow> JStr s)"

definition history_item :: "report_lib \<Rightarrow> ConnectionHistory \<Rightarrow> json" where
  "history_item L i = JObj [
     (lit ''id'', JStr (uuid_str (h_id i))), (lit ''instance_id'', JStr (h_instance_id i)), (lit ''username'', JStr (h_username i)),
     (lit ''server_id'', jopt_text (map_option uuid_str (h_server_id i))), (lit ''server_display'', jopt_text (h_server_display i)),
     (lit ''server_address'', JStr (h_server_address i)), (lit ''server_port'', JInt (h_server_port i)),
     (lit ''client_ip'', JStr (h_client_ip i)), (lit ''started_at'', jtime L (Some (h_started_at i))),
     (lit ''ended_at'', jtime L (h_ended_at i)), (lit ''bytes_to_client'', JInt (h_bytes_to_client i)),
     (lit ''bytes_to_backend'', JInt (h_bytes_to_backend i)), (lit ''disconnect_reason'', jopt_text (h_disconnect_reason i)),
     (lit ''status'', JStr (status_str (h_status i)))]"

record history_page =
  hp_items :: "json list"
  hp_page :: int
  hp_per_page :: int
  hp_total :: nat

definition page_rows :: "int \<Rightarrow> int \<Rightarrow> 'a list \<Rightarrow> 'a list" where
  "page_rows p n rows = take (nat (max 1 (min n 200))) (drop (nat ((max p 1 - 1) * max n 1)) rows)"

definition sessions_history :: "report_lib \<Rightarrow> history_query \<Rightarrow> ConnectionHistory list \<Rightarrow> history_page result" where
  "sessions_history L q rows =
    (if q_page q < 1 \<or> 10000 < q_page q \<or> per_page q < 1 \<or> 200 < per_page q then Inl (HTTPException 422)
     else bind_result (history_filter L q) (\<lambda>c.
       (let found = filter c rows in
        Inr \<lparr>hp_items = map (history_item L) (page_rows (q_page q) (per_page q) (newest_first L found)),
          hp_page = q_page q, hp_per_page = per_page q, hp_total = length found\<rparr>)))"

definition disconnect_reasons :: "report_lib \<Rightarrow> ConnectionHistory list \<Rightarrow> ustr list" where
  "disconnect_reasons L rows = text_order L (remdups (filter (\<lambda>t. t \<noteq> []) (List.map_filter h_disconnect_reason rows)))"

section \<open>One connection\<close>

text \<open>The number that the database gives to an event is left out.\<close>

definition session_detail :: "report_lib \<Rightarrow> ustr \<Rightarrow> ConnectionHistory list \<Rightarrow> json result" where
  "session_detail L connection_id rows = (case uuid_of connection_id of
      Inl e \<Rightarrow> Inl (HTTPException 400)
    | Inr cid \<Rightarrow> (case find (\<lambda>r. h_id r = cid) rows of None \<Rightarrow> Inl (HTTPException 404) | Some i \<Rightarrow> Inr (history_item L i)))"

definition event_item :: "report_lib \<Rightarrow> ConnectionEvent \<Rightarrow> json" where
  "event_item L e = JObj [(lit ''ts'', jtime L (Some (ev_ts e))), (lit ''event_type'', JStr (ev_type e)),
     (lit ''detail'', if json_truthy (ev_detail e) then ev_detail e else JObj [])]"

definition session_events :: "report_lib \<Rightarrow> ustr \<Rightarrow> ConnectionEvent list \<Rightarrow> json list result" where
  "session_events L connection_id evs = (case uuid_of connection_id of
      Inl e \<Rightarrow> Inl (HTTPException 400)
    | Inr cid \<Rightarrow> Inr (map (event_item L) (oldest_first L (filter (\<lambda>e. ev_connection_id e = cid) evs))))"

section \<open>The export\<close>

definition csv_cols :: "ustr list" where
  "csv_cols = [lit ''id'', lit ''instance_id'', lit ''username'', lit ''server_display'', lit ''server_address'', lit ''server_port'',
     lit ''client_ip'', lit ''started_at'', lit ''ended_at'', lit ''bytes_to_client'', lit ''bytes_to_backend'', lit ''disconnect_reason'',
     lit ''status'']"

definition or_empty :: "ustr option \<Rightarrow> ustr" where
  "or_empty t = (case t of None \<Rightarrow> [] | Some s \<Rightarrow> s)"

definition csv_row :: "report_lib \<Rightarrow> ConnectionHistory \<Rightarrow> ustr list" where
  "csv_row L r = [uuid_str (h_id r), h_instance_id r, h_username r, or_empty (h_server_display r), h_server_address r,
     int_str (h_server_port r), h_client_ip r, isoformat L (h_started_at r), or_empty (map_option (isoformat L) (h_ended_at r)),
     int_str (h_bytes_to_client r), int_str (h_bytes_to_backend r), or_empty (h_disconnect_reason r), status_str (h_status r)]"

definition sessions_history_csv :: "report_lib \<Rightarrow> ConnectionHistory list \<Rightarrow> ustr" where
  "sessions_history_csv L rows = join [10] (join [44] csv_cols
     # map (\<lambda>r. join [44] (map json_text (csv_row L r))) (take 5000 (newest_first L rows)))"

section \<open>Reading an export\<close>

text \<open>
  How a reader of comma separated values reads a line: fields in double quotes, in which two double
  quotes stand for one, or plain fields up to the next comma.
\<close>

fun quoted :: "ustr \<Rightarrow> ustr \<times> ustr" where
  "quoted [] = ([], [])"
| "quoted (c # s) = (if c \<noteq> 34 then (case quoted s of (f, r) \<Rightarrow> (c # f, r))
     else case s of d # t \<Rightarrow> if d = 34 then (case quoted t of (f, r) \<Rightarrow> (34 # f, r)) else ([], s) | [] \<Rightarrow> ([], []))"

definition csv_field :: "ustr \<Rightarrow> ustr \<times> ustr" where
  "csv_field s = (case s of c # t \<Rightarrow> if c = 34 then quoted t else (takeWhile (\<lambda>c. c \<noteq> 44) s, dropWhile (\<lambda>c. c \<noteq> 44) s) | [] \<Rightarrow> ([], []))"

fun csv_fields :: "nat \<Rightarrow> ustr \<Rightarrow> ustr list" where
  "csv_fields 0 s = []"
| "csv_fields (Suc n) s = (case csv_field s of (f, r) \<Rightarrow> f # (case r of [] \<Rightarrow> [] | _ # t \<Rightarrow> csv_fields n t))"

definition csv_line :: "ustr \<Rightarrow> ustr list" where
  "csv_line s = csv_fields (Suc (length s)) s"

definition csv_read :: "ustr \<Rightarrow> ustr list list" where
  "csv_read s = map csv_line (split_on 10 s)"

section \<open>Pages\<close>

lemma concat_pages: "concat (map (\<lambda>p. take n (drop ((p - 1) * n) xs)) [1..<Suc k]) = take (k * n) xs"
proof (induction k)
  case (Suc k)
  have "take (k * n) xs @ take n (drop (k * n) xs) = take (Suc k * n) xs" using take_add [of "k * n" n xs] by (simp add: add.commute)
  with Suc show ?case by simp
qed simp

lemma page_rows_nat: "1 \<le> n \<Longrightarrow> n \<le> 200 \<Longrightarrow> 1 \<le> p \<Longrightarrow> page_rows (int p) (int n) rows = take n (drop ((p - 1) * n) rows)"
proof -
  assume a: "1 \<le> n" "n \<le> 200" "1 \<le> p"
  have "(max (int p) 1 - 1) * max (int n) 1 = int ((p - 1) * n)" using a by (simp add: max_def of_nat_diff)
  moreover have "max 1 (min (int n) 200) = int n" using a by simp
  ultimately show ?thesis by (simp only: page_rows_def nat_int)
qed

definition page_items :: "report_lib \<Rightarrow> history_query \<Rightarrow> ConnectionHistory list \<Rightarrow> nat \<Rightarrow> json list" where
  "page_items L q rows p = (case sessions_history L (q\<lparr>q_page := int p\<rparr>) rows of Inr h \<Rightarrow> hp_items h | Inl _ \<Rightarrow> [])"

lemma history_filter_page: "history_filter L (q\<lparr>q_page := p\<rparr>) = history_filter L q"
  by (simp add: history_filter_def)


section \<open>The export read back\<close>

text \<open>Texts that \<^verbatim>\<open>json.dumps\<close> writes as they are.\<close>

definition plain_text :: "ustr \<Rightarrow> bool" where
  "plain_text t \<longleftrightarrow> list_all (\<lambda>c. c \<noteq> 34 \<and> c \<noteq> 92 \<and> 32 \<le> c) t"

lemma json_text_plain: "plain_text t \<Longrightarrow> json_text t = 34 # t @ [34]"
proof -
  assume "plain_text t"
  then have "concat (map json_char t) = t" by (induction t) (auto simp: plain_text_def json_char_def)
  then show ?thesis by (simp add: json_text_def)
qed

lemma quoted_plain: "34 \<notin> set t \<Longrightarrow> r = [] \<or> hd r \<noteq> 34 \<Longrightarrow> quoted (t @ 34 # r) = (t, r)"
  by (induction t) (auto split: list.split)

lemma csv_fields_join:
  assumes "list_all plain_text fs" and "fs \<noteq> []" and "length fs \<le> n"
  shows "csv_fields n (join [44] (map json_text fs)) = fs"
  using assms
proof (induction fs arbitrary: n)
  case (Cons f fs)
  then obtain m where n: "n = Suc m" by (cases n) auto
  have f: "34 \<notin> set f" "json_text f = 34 # f @ [34]" using Cons.prems(1) json_text_plain by (auto simp: plain_text_def list_all_iff)
  show ?case
  proof (cases fs)
    case Nil
    then show ?thesis using n f quoted_plain [of f "[]"] by (simp add: csv_field_def)
  next
    case (Cons g gs)
    let ?r = "44 # join [44] (map json_text fs)"
    have "join [44] (map json_text (f # fs)) = 34 # f @ 34 # ?r" using f Cons by simp
    moreover have "quoted (f @ 34 # ?r) = (f, ?r)" using f by (intro quoted_plain) simp_all
    moreover have "csv_fields m (join [44] (map json_text fs)) = fs" using Cons.IH [of m] Cons.prems n Cons by simp
    ultimately show ?thesis using n by (simp add: csv_field_def)
  qed
qed simp

lemma join_length: "fs \<noteq> [] \<Longrightarrow> list_all (\<lambda>f :: ustr. f \<noteq> []) fs \<Longrightarrow> length fs \<le> length (join [44] fs)"
  by (induction "[44::nat]" fs rule: join.induct) (auto simp: Suc_le_eq)

lemma csv_line_row:
  assumes "list_all plain_text fs" and "fs \<noteq> []"
  shows "csv_line (join [44] (map json_text fs)) = fs"
proof -
  have "length (map json_text fs) \<le> length (join [44] (map json_text fs))"
    using assms(2) by (intro join_length) (simp_all add: list_all_iff json_text_def)
  then show ?thesis using assms unfolding csv_line_def by (intro csv_fields_join) simp_all
qed

lemma csv_line_cols: "csv_line (join [44] csv_cols) = csv_cols"
  by (simp add: csv_line_def csv_cols_def lit_eval csv_field_def)

lemma no_break_join: "list_all (\<lambda>f :: ustr. 10 \<notin> set f) fs \<Longrightarrow> 10 \<notin> set (join [44] fs)"
  by (induction "[44::nat]" fs rule: join.induct) auto

text \<open>
  A reader of comma separated values gets back from the export the names of the columns and then, newest
  first, the texts of the last five thousand connections, if no text has a double quote, a backslash or a
  control character. Double quotes are escaped as in JSON, which such a reader does not know: a text
  with one is cut off behind it.
\<close>

lemma history_csv_read_back:
  assumes "\<forall>r \<in> set rows. list_all plain_text (csv_row L r)" and "report_lib_ok L"
  shows "csv_read (sessions_history_csv L rows) = csv_cols # map (csv_row L) (take 5000 (newest_first L rows))
    \<and> (\<forall>a x b. plain_text a \<and> plain_text (x # b) \<longrightarrow> hd (csv_line (json_text (a @ 34 # x # b))) = a @ [92])"
proof (intro conjI allI impI)
  let ?rows = "take 5000 (newest_first L rows)"
  have "set ?rows \<subseteq> set rows" using assms(2) by (metis report_lib_ok_def set_mset_mset set_take_subset)
  then have plain: "list_all plain_text (csv_row L r)" if "r \<in> set ?rows" for r using assms(1) that by auto
  let ?line = "\<lambda>r. join [44] (map json_text (csv_row L r))"
  have line: "csv_line (?line r) = csv_row L r" if "r \<in> set ?rows" for r
    using csv_line_row [OF plain [OF that]] by (simp add: csv_row_def)
  have "10 \<notin> set (?line r)" for r using json_text_no_break by (intro no_break_join) (simp add: list_all_iff)
  moreover have "10 \<notin> set (join [44] csv_cols)" by (simp add: csv_cols_def lit_eval)
  ultimately have "split_on 10 (sessions_history_csv L rows) = join [44] csv_cols # map ?line ?rows"
    unfolding sessions_history_csv_def by (intro split_on_join) (auto simp: list_all_iff)
  then show "csv_read (sessions_history_csv L rows) = csv_cols # map (csv_row L) ?rows"
    using line csv_line_cols by (simp add: csv_read_def)
next
  fix a x b assume p: "plain_text a \<and> plain_text (x # b)"
  then have ab: "concat (map json_char a) = a" "concat (map json_char (x # b)) = x # b"
    using json_text_plain [of a] json_text_plain [of "x # b"] by (simp_all add: json_text_def)
  have "json_text (a @ 34 # x # b) = 34 # (a @ [92]) @ 34 # (x # b @ [34])"
    using ab by (simp add: json_text_def json_char_def)
  moreover have "quoted ((a @ [92]) @ 34 # (x # b @ [34])) = (a @ [92], x # b @ [34])"
    using p by (intro quoted_plain) (auto simp: plain_text_def list_all_iff)
  ultimately show "hd (csv_line (json_text (a @ 34 # x # b))) = a @ [92]" by (simp add: csv_line_def csv_field_def)
qed

section \<open>At concrete inputs\<close>

definition ref_report_lib :: report_lib where
  "ref_report_lib = \<lparr>newest_first = sort_key (\<lambda>r. - h_started_at r), oldest_first = sort_key ev_ts, text_order = id,
     ilike = (\<lambda>_ _. True), fromisoformat = (\<lambda>_. Inl ValueError), isoformat = int_str\<rparr>"

lemma ref_report_lib_ok: "report_lib_ok ref_report_lib"
proof -
  have "sorted_wrt (\<lambda>a b. h_started_at b \<le> h_started_at a) (sort_key (\<lambda>r. - h_started_at r) rows)" for rows :: "ConnectionHistory list"
    using sorted_sort_key [of "\<lambda>r. - h_started_at r" rows] by (simp add: sorted_map)
  then show ?thesis by (simp add: report_lib_ok_def ref_report_lib_def)
qed

definition ref_history :: "nat \<Rightarrow> int \<Rightarrow> ConnectionHistory" where
  "ref_history i t = \<lparr>h_id = i, h_instance_id = lit ''r'', h_username = lit ''u'', h_server_id = None, h_server_display = None,
     h_server_address = lit ''s'', h_server_port = 3389, h_client_ip = lit ''c'', h_started_at = t, h_ended_at = None,
     h_bytes_to_client = 0, h_bytes_to_backend = 0, h_disconnect_reason = None, h_status = SClosed\<rparr>"

definition ref_query :: history_query where
  "ref_query = \<lparr>f_username = [lit ''u''], f_server_id = [lit ''x''], f_server_display = None, f_server_address = None, f_status = [],
     f_client_ip = [], f_reason = None, from_ts = None, to_ts = None, ended_from = None, ended_to = None, exclude_active = True,
     q_page = 1, per_page = 1\<rparr>"


lemma history_csv_read_back_witness:
  "csv_read (sessions_history_csv ref_report_lib [ref_history 5 10]) = [csv_cols, csv_row ref_report_lib (ref_history 5 10)]"
proof -
  have p: "plain_text (uuid_str 5)" by code_simp
  have i: "plain_text (int_str n)" for n
    using nat_str_digits by (force simp: plain_text_def int_str_def list_all_iff)
  have "\<forall>r \<in> set [ref_history 5 10]. list_all plain_text (csv_row ref_report_lib r)"
    using p i by (simp add: csv_row_def ref_history_def ref_report_lib_def or_empty_def) (simp add: plain_text_def lit_eval)
  from history_csv_read_back [OF this ref_report_lib_ok, THEN conjunct1] show ?thesis by (simp add: ref_report_lib_def)
qed

end
