(* ===== verification/Csrf_Token.thy ===== *)
theory Csrf_Token
  imports Complex_Main Py_Text Utf_Codec
begin

text \<open>
  Signed tokens against cross-site requests (\<^verbatim>\<open>src/libs/security/csrf.py\<close>). The keyed hash is a parameter,
  with its hexadecimal text as result; so are the nonce and the clock, a rational number of seconds.
\<close>

type_synonym hmac = "bytes \<Rightarrow> bytes \<Rightarrow> ustr"

definition csrf_payload :: "ustr \<Rightarrow> ustr \<Rightarrow> ustr \<Rightarrow> ustr" where
  "csrf_payload session_id ts nonce = session_id @ [58] @ ts @ [58] @ nonce"

definition csrf_sig :: "hmac \<Rightarrow> ustr \<Rightarrow> ustr \<Rightarrow> ustr result" where
  "csrf_sig H secret payload =
    bind_result (utf8_encode secret) (\<lambda>k. bind_result (utf8_encode payload) (\<lambda>p. Inr (H k p)))"

definition generate_csrf_token :: "hmac \<Rightarrow> rat \<Rightarrow> ustr \<Rightarrow> ustr \<Rightarrow> ustr \<Rightarrow> ustr result" where
  "generate_csrf_token H now nonce session_id secret =
    (let payload = csrf_payload session_id (int_str (if 0 \<le> now then floor now else ceiling now)) nonce in
     bind_result (csrf_sig H secret payload) (\<lambda>sig. Inr (payload @ [58] @ sig)))"

text \<open>\<^verbatim>\<open>hmac.compare_digest\<close> on texts raises if one of them is not ASCII.\<close>

definition compare_digest :: "ustr \<Rightarrow> ustr \<Rightarrow> bool result" where
  "compare_digest a b = (if list_all (\<lambda>c. c < 128) a \<and> list_all (\<lambda>c. c < 128) b then Inr (a = b) else Inl TypeError)"

definition validate_csrf_token :: "hmac \<Rightarrow> rat \<Rightarrow> ustr \<Rightarrow> ustr \<Rightarrow> ustr \<Rightarrow> int \<Rightarrow> bool result" where
  "validate_csrf_token H now token session_id secret ttl = (case split_on 58 token of
      [stored_session, ts_str, nonce, sig] \<Rightarrow>
        if stored_session \<noteq> session_id then Inr False
        else (case py_int ts_str of
            Inl e \<Rightarrow> Inr False
          | Inr ts \<Rightarrow>
              if of_int ttl < \<bar>now - of_int ts\<bar> then Inr False
              else bind_result (csrf_sig H secret (csrf_payload stored_session ts_str nonce)) (\<lambda>expected. compare_digest sig expected))
    | _ \<Rightarrow> Inr False)"

text \<open>A keyed hash whose texts are hexadecimal, as documented.\<close>

definition hmac_ok :: "hmac \<Rightarrow> bool" where
  "hmac_ok H \<longleftrightarrow> (\<forall>k p. list_all (\<lambda>c. c < 128 \<and> c \<noteq> 58) (H k p))"

lemma split_on_length: "length (split_on sep s) = Suc (length (filter (\<lambda>c. c = sep) s))"
  by (induction s) (auto split: list.split)

lemma int_str_no_colon: "58 \<notin> set (int_str i)"
  using nat_str_digits [of 58] by (auto simp: int_str_def)

lemma split_payload:
  assumes "58 \<notin> set session_id" and "58 \<notin> set nonce" and "58 \<notin> set sig"
  shows "split_on 58 (csrf_payload session_id (int_str i) nonce @ [58] @ sig) = [session_id, int_str i, nonce, sig]"
  using split_on_join [of "[session_id, int_str i, nonce, sig]" 58] assms int_str_no_colon by (simp add: csrf_payload_def)

text \<open>
  A token is accepted for its session and secret exactly as long as its whole second is no further
  from the clock than the time to live, and for no other session. What is accepted has the signature of
  its own parts for the session. A session identifier with a colon makes every token useless, and a
  signature that is not ASCII raises instead of being refused.
\<close>

lemma csrf_token_roundtrip:
  assumes "hmac_ok H" and "generate_csrf_token H now nonce session_id secret = Inr token" and "0 \<le> now" and "58 \<notin> set nonce"
  shows "(58 \<notin> set session_id \<longrightarrow> validate_csrf_token H now' token session_id secret ttl = Inr (\<bar>now' - of_int (floor now)\<bar> \<le> of_int ttl))
    \<and> (58 \<notin> set session_id \<and> other \<noteq> session_id \<longrightarrow> validate_csrf_token H now' token other secret ttl = Inr False)
    \<and> (58 \<in> set session_id \<longrightarrow> validate_csrf_token H now' token session_id secret ttl = Inr False)
    \<and> (validate_csrf_token H now' t session_id secret ttl = Inr True \<longrightarrow> (\<exists>ts n sig. split_on 58 t = [session_id, ts, n, sig]
         \<and> csrf_sig H secret (csrf_payload session_id ts n) = Inr sig))
    \<and> ((\<exists>c. c \<in> set sig' \<and> 128 \<le> c) \<and> 58 \<notin> set sig' \<and> 58 \<notin> set session_id \<and> \<bar>now' - of_int (floor now)\<bar> \<le> of_int ttl
      \<longrightarrow> validate_csrf_token H now' (csrf_payload session_id (int_str (floor now)) nonce @ [58] @ sig') session_id secret ttl = Inl TypeError)"
proof (intro conjI impI)
  let ?ts = "int_str (floor now)"
  from assms(2,3) obtain sig where sig: "csrf_sig H secret (csrf_payload session_id ?ts nonce) = Inr sig"
    and token: "token = csrf_payload session_id ?ts nonce @ [58] @ sig"
    by (auto simp: generate_csrf_token_def Let_def bind_result_Inr)
  then have hex: "list_all (\<lambda>c. c < 128 \<and> c \<noteq> 58) sig" using assms(1) by (auto simp: csrf_sig_def bind_result_Inr hmac_ok_def)
  then have no: "58 \<notin> set sig" "list_all (\<lambda>c. c < 128) sig" by (auto simp: list_all_iff)
  show "validate_csrf_token H now' token session_id secret ttl = Inr (\<bar>now' - of_int (floor now)\<bar> \<le> of_int ttl)" if "58 \<notin> set session_id"
    using split_payload [OF that assms(4) no(1)] sig no(2) by (simp add: validate_csrf_token_def token compare_digest_def not_le)
  show "validate_csrf_token H now' token other secret ttl = Inr False" if "58 \<notin> set session_id \<and> other \<noteq> session_id"
    using split_payload [OF _ assms(4) no(1), of session_id] that by (auto simp: validate_csrf_token_def token)
  show "validate_csrf_token H now' token session_id secret ttl = Inr False" if "58 \<in> set session_id"
  proof -
    have "filter (\<lambda>c. c = 58) session_id \<noteq> []" using that by (simp add: filter_empty_conv)
    then have "length (split_on 58 token) \<noteq> 4" by (simp add: token csrf_payload_def split_on_length)
    then show ?thesis by (auto simp: validate_csrf_token_def split: list.split)
  qed
  show "\<exists>ts n sig. split_on 58 t = [session_id, ts, n, sig] \<and> csrf_sig H secret (csrf_payload session_id ts n) = Inr sig"
    if "validate_csrf_token H now' t session_id secret ttl = Inr True"
    using that by (auto simp: validate_csrf_token_def compare_digest_def bind_result_Inr split: list.splits if_splits sum.splits)
  show "validate_csrf_token H now' (csrf_payload session_id ?ts nonce @ [58] @ sig') session_id secret ttl = Inl TypeError"
    if a: "(\<exists>c. c \<in> set sig' \<and> 128 \<le> c) \<and> 58 \<notin> set sig' \<and> 58 \<notin> set session_id \<and> \<bar>now' - of_int (floor now)\<bar> \<le> of_int ttl"
  proof -
    have "\<not> list_all (\<lambda>c. c < 128) sig'" using a by (auto simp: list_all_iff not_less)
    then show ?thesis using split_payload [of session_id nonce sig'] a assms(4) sig
      by (simp add: validate_csrf_token_def compare_digest_def)
  qed
qed

lemma csrf_token_roundtrip_witness:
  "\<exists>token. generate_csrf_token (\<lambda>k p. lit ''ab'') 1000 (lit ''00ff'') (lit ''s1'') (lit ''key'') = Inr token
     \<and> validate_csrf_token (\<lambda>k p. lit ''ab'') (1000 + 3600) token (lit ''s1'') (lit ''key'') 3600 = Inr True
     \<and> validate_csrf_token (\<lambda>k p. lit ''ab'') 1000 token (lit ''s2'') (lit ''key'') 3600 = Inr False"
proof -
  have ok: "hmac_ok (\<lambda>k p. lit ''ab'')" by (simp add: hmac_ok_def lit_eval)
  have "list_all scalar (csrf_payload (lit ''s1'') (int_str 1000) (lit ''00ff''))" "list_all scalar (lit ''key'')"
    using nat_str_digits by (force simp: csrf_payload_def lit_eval int_str_def scalar_def list_all_iff)+
  then obtain token where t: "generate_csrf_token (\<lambda>k p. lit ''ab'') 1000 (lit ''00ff'') (lit ''s1'') (lit ''key'') = Inr token"
    by (simp add: generate_csrf_token_def csrf_sig_def utf8_encode_def)
  have n: "(0::rat) \<le> 1000" "58 \<notin> set (lit ''00ff'')" by (simp_all add: lit_eval)
  have s: "58 \<notin> set (lit ''s1'')" "lit ''s2'' \<noteq> lit ''s1''" by (simp_all add: lit_eval)
  from csrf_token_roundtrip [OF ok t n, of "1000 + 3600" 3600] csrf_token_roundtrip [OF ok t n, where now' = 1000 and other = "lit ''s2''" and ttl = 3600] s t
  show ?thesis by simp
qed

end
