(* ===== verification/Ad_Groups.thy ===== *)
theory Ad_Groups
  imports Ldap_Auth Servers Redis_Store
begin

text \<open>
  The groups of the directory as the administration sees them: the routes of
  \<^verbatim>\<open>src/services/admin/routes/ad_groups.py\<close> with the cache of searches in Redis, the table of known
  groups (\<^verbatim>\<open>src/libs/db/models/settings.py\<close>), and the names that the listings of servers take from it
  (\<^verbatim>\<open>_load_group_name_map\<close> and \<^verbatim>\<open>_to_out\<close> of \<^verbatim>\<open>routes/servers.py\<close>). SHA-1, \<^verbatim>\<open>str.lower\<close>, the directory and
  the database driver are parameters: how the driver reads the text of an identifier, and how many
  arguments one statement may have.
\<close>

record groups_lib =
  gl_lower :: "ustr \<Rightarrow> ustr"
  gl_sha1 :: "bytes \<Rightarrow> ustr"
  gl_uuid :: "ustr \<Rightarrow> nat result"
  gl_max_args :: nat
  gl_ldap :: ldap3

section \<open>The table\<close>

record AdGroupCache =
  gc_guid :: nat
  gc_dn :: ustr
  gc_cn :: ustr
  gc_description :: "ustr option"
  gc_cached_at :: int

definition upsert_values :: "group_row list \<Rightarrow> group_row list" where
  "upsert_values groups = filter (\<lambda>g. g_guid g \<noteq> [] \<and> g_dn g \<noteq> [] \<and> g_cn g \<noteq> []) groups"

text \<open>The text widths of the columns are checked like in the table of servers.\<close>

definition cache_row :: "groups_lib \<Rightarrow> int \<Rightarrow> group_row \<Rightarrow> AdGroupCache result" where
  "cache_row L now g = bind_result (gl_uuid L (g_guid g)) (\<lambda>u.
     if 512 < length (g_dn g) \<or> 255 < length (g_cn g) \<or> (case g_description g of None \<Rightarrow> False | Some d \<Rightarrow> 512 < length d)
     then Inl DataError
     else Inr \<lparr>gc_guid = u, gc_dn = g_dn g, gc_cn = g_cn g, gc_description = g_description g, gc_cached_at = now\<rparr>)"

fun cache_rows :: "groups_lib \<Rightarrow> int \<Rightarrow> group_row list \<Rightarrow> AdGroupCache list result" where
  "cache_rows L now [] = Inr []"
| "cache_rows L now (g # gs) = bind_result (cache_row L now g) (\<lambda>r. bind_result (cache_rows L now gs) (\<lambda>rs. Inr (r # rs)))"

definition put_group :: "AdGroupCache \<Rightarrow> AdGroupCache list \<Rightarrow> AdGroupCache list" where
  "put_group r t = (if gc_guid r \<in> gc_guid ` set t then map (\<lambda>x. if gc_guid x = gc_guid r then r else x) t else t @ [r])"

text \<open>
  One statement with four arguments for each row. It may not touch a row twice; an error of the
  statement leaves the table as it was.
\<close>

definition upsert_groups :: "groups_lib \<Rightarrow> int \<Rightarrow> group_row list \<Rightarrow> (AdGroupCache list, unit) eff" where
  "upsert_groups L now groups t =
    (let rows = upsert_values groups in
     if rows = [] then (Inr (), t)
     else if gl_max_args L < 4 * length rows then (Inl OtherException, t)
     else (case cache_rows L now rows of
         Inl e \<Rightarrow> (Inl e, t)
       | Inr rs \<Rightarrow> if distinct (map gc_guid rs) then (Inr (), fold put_group rs t) else (Inl OtherException, t)))"

section \<open>The routes\<close>

record 'db groups_world =
  gw_redis :: 'db
  gw_ldap :: "ldap_event list"
  gw_table :: "AdGroupCache list"

definition gw_on_redis :: "('db, 'a) eff \<Rightarrow> ('db groups_world, 'a) eff" where
  "gw_on_redis m w = (case m (gw_redis w) of (r, d) \<Rightarrow> (r, w\<lparr>gw_redis := d\<rparr>))"

definition gw_on_ldap :: "'a ldap_op \<Rightarrow> ('db groups_world, 'a) eff" where
  "gw_on_ldap m w = (case m (gw_ldap w) of (r, t) \<Rightarrow> (r, w\<lparr>gw_ldap := t\<rparr>))"

definition gw_on_table :: "(AdGroupCache list, 'a) eff \<Rightarrow> ('db groups_world, 'a) eff" where
  "gw_on_table m w = (case m (gw_table w) of (r, t) \<Rightarrow> (r, w\<lparr>gw_table := t\<rparr>))"

definition AD_GROUPS_SEARCH :: "ustr \<Rightarrow> ustr" where
  "AD_GROUPS_SEARCH hash = lit ''rdp:adgroups:search:'' @ hash"

definition AD_SEARCH_CACHE_TTL :: int where
  "AD_SEARCH_CACHE_TTL = 120"

definition get_ldap :: "LDAPAuthenticator option \<Rightarrow> LDAPAuthenticator result" where
  "get_ldap A = (case A of None \<Rightarrow> Inl (HTTPException 500) | Some a \<Rightarrow> Inr a)"

text \<open>A group as JSON text, and \<^verbatim>\<open>AdGroupOut(**v)\<close>: further members are ignored, the description may be missing.\<close>

definition group_json :: "group_row \<Rightarrow> json" where
  "group_json g = JObj [(lit ''guid'', JStr (g_guid g)), (lit ''dn'', JStr (g_dn g)), (lit ''cn'', JStr (g_cn g)),
     (lit ''description'', case g_description g of None \<Rightarrow> JNull | Some d \<Rightarrow> JStr d)]"

fun json_str :: "json option \<Rightarrow> ustr result" where
  "json_str (Some (JStr s)) = Inr s"
| "json_str _ = Inl ValueError"

fun json_opt_str :: "json option \<Rightarrow> ustr option result" where
  "json_opt_str None = Inr None"
| "json_opt_str (Some JNull) = Inr None"
| "json_opt_str (Some (JStr s)) = Inr (Some s)"
| "json_opt_str (Some _) = Inl ValueError"

fun group_of_json :: "json \<Rightarrow> group_row result" where
  "group_of_json (JObj f) =
    bind_result (json_str (map_of f (lit ''guid''))) (\<lambda>guid.
    bind_result (json_str (map_of f (lit ''dn''))) (\<lambda>dn.
    bind_result (json_str (map_of f (lit ''cn''))) (\<lambda>cn.
    bind_result (json_opt_str (map_of f (lit ''description''))) (\<lambda>d.
      Inr \<lparr>g_guid = guid, g_dn = dn, g_cn = cn, g_description = d\<rparr>))))"
| "group_of_json _ = Inl TypeError"

fun groups_of_list :: "json list \<Rightarrow> group_row list result" where
  "groups_of_list [] = Inr []"
| "groups_of_list (v # vs) = bind_result (group_of_json v) (\<lambda>g. bind_result (groups_of_list vs) (\<lambda>gs. Inr (g # gs)))"

text \<open>Only an array has objects as its items; an empty object or text has no items.\<close>

fun groups_of_json :: "json \<Rightarrow> group_row list result" where
  "groups_of_json (JArr vs) = groups_of_list vs"
| "groups_of_json (JObj []) = Inr []"
| "groups_of_json (JStr []) = Inr []"
| "groups_of_json _ = Inl TypeError"

definition cached_groups :: "'db redis \<Rightarrow> ustr \<Rightarrow> ('db, group_row list option) eff" where
  "cached_groups R k = rbind (x_get R k) (\<lambda>cached.
     if \<not> raw_truthy cached then rreturn None
     else (case bind_result (json_loads cached) groups_of_json of
         Inr gs \<Rightarrow> rreturn (Some gs)
       | Inl _ \<Rightarrow> rbind (x_delete R k) (\<lambda>_. rreturn None)))"

definition search_limit :: "int \<Rightarrow> int" where
  "search_limit limit = max 1 (min (if limit = 0 then 20 else limit) 50)"

definition search_key :: "groups_lib \<Rightarrow> ustr \<Rightarrow> ustr result" where
  "search_key L q = bind_result (utf8_encode (gl_lower L q)) (\<lambda>b. Inr (AD_GROUPS_SEARCH (gl_sha1 L b)))"

definition search_groups_route ::
  "'db redis \<Rightarrow> groups_lib \<Rightarrow> LDAPAuthenticator option \<Rightarrow> int \<Rightarrow> ustr \<Rightarrow> int \<Rightarrow> ('db groups_world, group_row list) eff" where
  "search_groups_route R L A now text limit =
    (let q = strip text in
     if length q < 2 then rreturn []
     else rbind (rlift (search_key L q)) (\<lambda>k.
       rbind (gw_on_redis (cached_groups R k)) (\<lambda>hit.
       case hit of
         Some gs \<Rightarrow> rreturn gs
       | None \<Rightarrow>
         rbind (rlift (get_ldap A)) (\<lambda>a.
         rbind (gw_on_ldap (search_groups (gl_ldap L) a q (search_limit limit))) (\<lambda>groups.
         rbind (gw_on_redis (x_setex R k AD_SEARCH_CACHE_TTL (RJson (JArr (map group_json groups))))) (\<lambda>_.
         rbind (gw_on_table (upsert_groups L now groups)) (\<lambda>_. rreturn groups)))))))"

definition refresh_groups :: "groups_lib \<Rightarrow> LDAPAuthenticator option \<Rightarrow> int \<Rightarrow> ('db groups_world, nat) eff" where
  "refresh_groups L A now =
    rbind (rlift (get_ldap A)) (\<lambda>a.
    rbind (gw_on_ldap (list_groups (gl_ldap L) a 20000)) (\<lambda>groups.
    rbind (gw_on_table (upsert_groups L now groups)) (\<lambda>_. rreturn (length groups))))"

section \<open>Names in the listings of servers\<close>

definition load_group_name_map :: "AdGroupCache list \<Rightarrow> RdpServer list \<Rightarrow> (ustr \<rightharpoonup> ustr)" where
  "load_group_name_map t servers =
    map_of (map (\<lambda>r. (uuid_str (gc_guid r), gc_cn r)) (filter (\<lambda>r. gc_guid r \<in> set (concat (map sv_groups servers))) t))"

record ServerOut =
  so_id :: ustr
  so_tech_name :: ustr
  so_display_name :: ustr
  so_address :: ustr
  so_port :: int
  so_is_enabled :: bool
  so_sort_order :: int
  so_groups :: "ustr list"
  so_group_details :: "(ustr \<times> ustr) list"

definition to_out :: "RdpServer \<Rightarrow> (ustr \<rightharpoonup> ustr) \<Rightarrow> ServerOut" where
  "to_out s names =
    (let guids = map uuid_str (sv_groups s) in
     \<lparr>so_id = uuid_str (sv_id s), so_tech_name = sv_tech_name s, so_display_name = sv_display_name s, so_address = sv_address s,
      so_port = sv_port s, so_is_enabled = sv_enabled s, so_sort_order = sv_sort_order s, so_groups = guids,
      so_group_details = map (\<lambda>g. (g, case names g of None \<Rightarrow> g | Some cn \<Rightarrow> cn)) guids\<rparr>)"

definition listed_servers :: "(RdpServer list \<Rightarrow> RdpServer list) \<Rightarrow> AdGroupCache list \<Rightarrow> RdpServer list \<Rightarrow> ServerOut list" where
  "listed_servers order_by t rows =
    (let servers = list_servers order_by rows in map (\<lambda>s. to_out s (load_group_name_map t servers)) servers)"

section \<open>The table as a map\<close>

definition table_map :: "AdGroupCache list \<Rightarrow> (nat \<rightharpoonup> AdGroupCache)" where
  "table_map t = map_of (map (\<lambda>r. (gc_guid r, r)) t)"

lemma table_map_None: "table_map t u = None \<longleftrightarrow> u \<notin> gc_guid ` set t"
  by (force simp: table_map_def map_of_eq_None_iff)

lemma table_map_put: "table_map (put_group r t) = (table_map t)(gc_guid r \<mapsto> r)"
proof (cases "gc_guid r \<in> gc_guid ` set t")
  case True
  have "map_of (map (\<lambda>x. (gc_guid (if gc_guid x = gc_guid r then r else x), if gc_guid x = gc_guid r then r else x)) t) u
      = (if u = gc_guid r \<and> gc_guid r \<in> gc_guid ` set t then Some r else map_of (map (\<lambda>x. (gc_guid x, x)) t) u)" for u
    by (induction t) (auto simp: image_iff)
  with True show ?thesis by (auto simp: table_map_def put_group_def comp_def fun_eq_iff)
next
  case False
  then have "table_map t (gc_guid r) = None" by (simp add: table_map_None)
  with False show ?thesis by (auto simp: table_map_def put_group_def map_add_def fun_eq_iff split: option.split)
qed

lemma put_group_guids: "map gc_guid (put_group r t) = (if gc_guid r \<in> gc_guid ` set t then map gc_guid t else map gc_guid t @ [gc_guid r])"
  by (simp add: put_group_def comp_def)

lemma put_group_distinct: "distinct (map gc_guid t) \<Longrightarrow> distinct (map gc_guid (put_group r t))"
  unfolding put_group_guids by simp

lemma fold_put_group:
  assumes "distinct (map gc_guid rs)" and "distinct (map gc_guid t)"
  shows "distinct (map gc_guid (fold put_group rs t)) \<and> table_map (fold put_group rs t) = table_map t ++ table_map rs"
  using assms
proof (induction rs arbitrary: t)
  case (Cons r rs)
  have "table_map rs (gc_guid r) = None" using Cons.prems(1) by (simp add: table_map_None)
  then have "(table_map t)(gc_guid r \<mapsto> r) ++ table_map rs = table_map t ++ table_map (r # rs)"
    by (auto simp: table_map_def map_add_def fun_eq_iff split: option.split)
  with Cons.IH [of "put_group r t"] Cons.prems show ?case by (simp add: table_map_put put_group_distinct del: fun_upd_apply)
qed (simp add: table_map_def)

text \<open>Identifiers that come from the directory are in canonical spelling.\<close>

lemma guid_canonical: "guid_from_ldap_raw raw = Inr (Some g) \<Longrightarrow> \<exists>u < 2 ^ 128. g = uuid_str u"
proof (cases raw)
  case (RawBytes b)
  assume g: "guid_from_ldap_raw raw = Inr (Some g)"
  let ?b = "rev (take 4 b) @ rev (take 2 (drop 4 b)) @ rev (take 2 (drop 6 b)) @ drop 8 b"
  from g RawBytes have "length b = 16" and "g = uuid_str (be_nat ?b)"
    by (auto simp: guid_from_ldap_raw_def uuid_of_bytes_le_def bind_result_Inr split: if_splits)
  then show ?thesis using be_nat_less [of ?b] by (auto intro!: exI [of _ "be_nat ?b"])
next
  case (RawText t)
  assume "guid_from_ldap_raw raw = Inr (Some g)"
  with RawText obtain u where "uuid_of (strip t) = Inr u" "g = uuid_str u"
    by (auto simp: guid_from_ldap_raw_def Let_def split: if_splits sum.splits)
  moreover from this(1) have "u < 2 ^ 128" by (auto simp: uuid_of_def Let_def bind_result_Inr nat_less_iff split: if_splits)
  ultimately show ?thesis by blast
qed (simp_all add: guid_from_ldap_raw_def)

lemma group_rows_canonical: "group_rows es = Inr gs \<Longrightarrow> g \<in> set gs \<Longrightarrow> \<exists>u < 2 ^ 128. g_guid g = uuid_str u"
proof (induction es arbitrary: gs)
  case (Cons e es)
  then show ?case by (fastforce simp: bind_result_Inr Let_def split: option.splits if_splits dest!: guid_canonical)
qed simp

lemma list_groups_canonical:
  "list_groups X a n t = (Inr gs, t') \<Longrightarrow> g \<in> set gs \<Longrightarrow> \<exists>u < 2 ^ 128. g_guid g = uuid_str u"
  using group_rows_canonical
  by (fastforce simp: list_groups_def rd_simps and_unbind_def search_def call_def split: prod.splits sum.splits)

text \<open>What the driver is documented to do with a canonical identifier.\<close>

definition driver_ok :: "groups_lib \<Rightarrow> bool" where
  "driver_ok L \<longleftrightarrow> (\<forall>u < 2 ^ 128. gl_uuid L (uuid_str u) = Inr u)"

definition row_of :: "int \<Rightarrow> nat \<Rightarrow> group_row \<Rightarrow> AdGroupCache" where
  "row_of now u g = \<lparr>gc_guid = u, gc_dn = g_dn g, gc_cn = g_cn g, gc_description = g_description g, gc_cached_at = now\<rparr>"

lemma cache_rows_map:
  assumes "driver_ok L" and "cache_rows L now gs = Inr rs" and "\<forall>g \<in> set gs. \<exists>u < 2 ^ 128. g_guid g = uuid_str u" and "u < 2 ^ 128"
  shows "table_map rs u = map_option (row_of now u) (find (\<lambda>g. g_guid g = uuid_str u) gs)"
  using assms(2,3)
proof (induction gs arbitrary: rs)
  case (Cons g gs)
  from Cons.prems(2) obtain v where v: "v < 2 ^ 128" "g_guid g = uuid_str v" by auto
  with Cons.prems(1) assms(1) obtain rs' where rs: "rs = row_of now v g # rs'" "cache_rows L now gs = Inr rs'"
    by (auto simp: bind_result_Inr cache_row_def driver_ok_def row_of_def split: if_splits)
  have e: "uuid_str v = uuid_str u \<longleftrightarrow> v = u" using uuid_str_inject v(1) assms(4) by auto
  have "table_map rs u = (if v = u then Some (row_of now v g) else table_map rs' u)"
    by (simp add: rs(1) table_map_def row_of_def)
  with Cons.IH [OF rs(2)] Cons.prems(2) v(2) e show ?case by simp
qed (simp add: table_map_def)

lemma upsert_groups_effect:
  assumes "driver_ok L" and "\<forall>g \<in> set gs. \<exists>u < 2 ^ 128. g_guid g = uuid_str u" and "distinct (map gc_guid t)"
    and "upsert_groups L now gs t = (Inr (), t')"
  shows "distinct (map gc_guid t') \<and> (\<forall>u < 2 ^ 128. table_map t' u
    = (case find (\<lambda>g. g_guid g = uuid_str u) (upsert_values gs) of Some g \<Rightarrow> Some (row_of now u g) | None \<Rightarrow> table_map t u))"
proof (cases "upsert_values gs = []")
  case True
  with assms(3,4) show ?thesis by (simp add: upsert_groups_def)
next
  case False
  with assms(4) obtain rs where rs: "cache_rows L now (upsert_values gs) = Inr rs" "distinct (map gc_guid rs)" "t' = fold put_group rs t"
    by (auto simp: upsert_groups_def Let_def split: if_splits sum.splits)
  have "\<forall>g \<in> set (upsert_values gs). \<exists>u < 2 ^ 128. g_guid g = uuid_str u" using assms(2) by (auto simp: upsert_values_def)
  from cache_rows_map [OF assms(1) rs(1) this] fold_put_group [OF rs(2) assms(3)] rs(3) show ?thesis
    by (auto simp: map_add_def split: option.split)
qed

lemma upsert_groups_failed: "upsert_groups L now gs t = (Inl e, t') \<Longrightarrow> t' = t"
  by (auto simp: upsert_groups_def Let_def split: if_splits sum.splits)

section \<open>The cache of searches\<close>

lemma group_of_group_json: "group_of_json (group_json g) = Inr g"
  by (cases g) (auto simp: group_json_def lit_eval split: option.split)

lemma groups_of_list_json: "groups_of_list (map group_json gs) = Inr gs"
  by (induction gs) (simp_all add: group_of_group_json)

context redis_server
begin

lemma cached_groups_miss: "look db k = None \<Longrightarrow> cached_groups R k db = (Inr None, db)"
  by (simp add: cached_groups_def x_get_def rd_simps get_look)

lemma cached_groups_hit:
  "look db k = Some (RJson (JArr (map group_json gs)), e) \<Longrightarrow> cached_groups R k db = (Inr (Some gs), db)"
  by (simp add: cached_groups_def x_get_def rd_simps get_look groups_of_list_json)

lemma search_cached_hit:
  assumes "search_key L (strip text) = Inr k" and "2 \<le> length (strip text)"
    and "look (gw_redis w) k = Some (RJson (JArr (map group_json gs)), e)"
  shows "search_groups_route R L A now text limit w = (Inr gs, w)"
  using assms(1,2) cached_groups_hit [OF assms(3)]
  by (simp add: search_groups_route_def Let_def rd_simps gw_on_redis_def)

lemma search_cached_miss:
  assumes "search_key L (strip text) = Inr k" and "2 \<le> length (strip text)" and "look (gw_redis w) k = None"
    and "search_groups (gl_ldap L) a (strip text) (search_limit limit) (gw_ldap w) = (Inr groups, tr)"
  shows "\<exists>d. search_groups_route R L (Some a) now text limit w
      = ((case fst (upsert_groups L now groups (gw_table w)) of Inl e \<Rightarrow> Inl e | Inr _ \<Rightarrow> Inr groups),
         \<lparr>gw_redis = d, gw_ldap = tr, gw_table = snd (upsert_groups L now groups (gw_table w))\<rparr>)
    \<and> look d k = Some (RJson (JArr (map group_json groups)), Some 120000)"
proof -
  have "0 < AD_SEARCH_CACHE_TTL" by (simp add: AD_SEARCH_CACHE_TTL_def)
  then obtain d where d: "r_setex R (gw_redis w) k AD_SEARCH_CACHE_TTL (RJson (JArr (map group_json groups))) = Inr d"
      "look d k = Some (RJson (JArr (map group_json groups)), Some 120000)"
    using setex_ok [of AD_SEARCH_CACHE_TTL "gw_redis w" k] by (fastforce simp: AD_SEARCH_CACHE_TTL_def)
  with assms cached_groups_miss [OF assms(3)] show ?thesis
    by (cases w; cases "upsert_groups L now groups (gw_table w)")
      (auto simp: search_groups_route_def Let_def rd_simps gw_on_redis_def gw_on_ldap_def gw_on_table_def get_ldap_def x_setex_def split: sum.split)
qed

end

text \<open>
  A search that is not cached asks the directory once for at most fifty groups and answers what it found, if the table can
  take it. For two minutes every search for the same text in any letter case is answered with exactly these groups and
  changes nothing: also one that asks for more groups, also when the first request failed in the table and
  its groups were never recorded there.
\<close>

lemma group_search_cached:
  assumes "redis_server R look watch_state"
    and "search_key L (strip text) = Inr k" and "2 \<le> length (strip text)" and "look (gw_redis w) k = None"
    and "search_groups (gl_ldap L) a (strip text) (search_limit limit) (gw_ldap w) = (Inr groups, tr)"
    and "search_groups_route R L (Some a) now text limit w = (r, w1)"
  shows "r = (case fst (upsert_groups L now groups (gw_table w)) of Inl e \<Rightarrow> Inl e | Inr _ \<Rightarrow> Inr groups)
    \<and> gw_ldap w1 = tr \<and> 1 \<le> search_limit limit \<and> search_limit limit \<le> 50
    \<and> (\<forall>e. r = Inl e \<longrightarrow> gw_table w1 = gw_table w)
    \<and> (untouched k is \<and> waited is < 120000 \<and> search_key L (strip text') = Inr k \<and> 2 \<le> length (strip text')
      \<longrightarrow> (let w2 = w1\<lparr>gw_redis := r_env R (gw_redis w1) is\<rparr> in search_groups_route R L A' now' text' limit' w2 = (Inr groups, w2)))"
proof -
  from redis_server.search_cached_miss [OF assms(1-5), of now] assms(6) obtain d where
    run: "r = (case fst (upsert_groups L now groups (gw_table w)) of Inl e \<Rightarrow> Inl e | Inr _ \<Rightarrow> Inr groups)"
      "w1 = \<lparr>gw_redis = d, gw_ldap = tr, gw_table = snd (upsert_groups L now groups (gw_table w))\<rparr>"
    and d: "look d k = Some (RJson (JArr (map group_json groups)), Some 120000)" by auto
  have "look (r_env R d is) k = Some (RJson (JArr (map group_json groups)), Some (120000 - waited is))"
    if "untouched k is" "waited is < 120000"
    using redis_server.env_look [OF assms(1) that(1), of d] d that(2) by simp
  then have "let w2 = w1\<lparr>gw_redis := r_env R (gw_redis w1) is\<rparr> in search_groups_route R L A' now' text' limit' w2 = (Inr groups, w2)"
    if "untouched k is \<and> waited is < 120000 \<and> search_key L (strip text') = Inr k \<and> 2 \<le> length (strip text')"
    using redis_server.search_cached_hit [OF assms(1), of L text' k "w1\<lparr>gw_redis := r_env R (gw_redis w1) is\<rparr>" groups] that run(2)
    by (simp add: Let_def)
  moreover have "1 \<le> search_limit limit \<and> search_limit limit \<le> 50" by (simp add: search_limit_def)
  moreover have "gw_table w1 = gw_table w" if "r = Inl e" for e
    using that run upsert_groups_failed [of L now groups "gw_table w" e]
    by (cases "upsert_groups L now groups (gw_table w)") (auto split: sum.splits)
  ultimately show ?thesis using run by auto
qed

text \<open>A directory with one group, the server in memory and a driver that reads identifiers like \<^verbatim>\<open>uuid.UUID\<close>.\<close>

definition ref_group_entry :: ldap_entry where
  "ref_group_entry = \<lparr>e_dn = lit ''cn=ops'', e_distinguished = None, e_guid = RawBytes (replicate 16 0), e_member_of = [],
     e_sam = None, e_cn = Some (lit ''ops''), e_description = None\<rparr>"

definition ref_groups_lib :: groups_lib where
  "ref_groups_lib = \<lparr>gl_lower = id, gl_sha1 = (\<lambda>b. map unat b), gl_uuid = uuid_of, gl_max_args = 32767,
     gl_ldap = ref_ldap3\<lparr>l3_search := \<lambda>_ _ _ _. Inr [ref_group_entry]\<rparr>\<rparr>"

definition ref_group :: group_row where
  "ref_group = \<lparr>g_guid = uuid_str 0, g_dn = lit ''cn=ops'', g_cn = lit ''ops'', g_description = None\<rparr>"

definition ref_groups_world :: "mem_db groups_world" where
  "ref_groups_world = \<lparr>gw_redis = empty_db, gw_ldap = [], gw_table = []\<rparr>"

lemma ref_group_rows: "group_rows [ref_group_entry] = Inr [ref_group]"
proof -
  have "guid_from_ldap_raw (RawBytes (replicate 16 0)) = Inr (Some (uuid_str 0))"
    by (simp add: guid_from_ldap_raw_def uuid_of_bytes_le_def be_nat_def numeral_eq_Suc)
  moreover have "uuid_str 0 \<noteq> []" using length_uuid_str [of 0] by auto
  ultimately show ?thesis
    by (simp add: ref_group_entry_def ref_group_def some_text_def Let_def) (simp add: lit_eval)
qed

lemma ref_driver_ok: "driver_ok ref_groups_lib"
  by (simp add: driver_ok_def ref_groups_lib_def uuid_of_uuid_str)

lemma ref_upsert: "upsert_groups ref_groups_lib now [ref_group] [] = (Inr (), [row_of now 0 ref_group])"
proof -
  have v: "upsert_values [ref_group] = [ref_group]"
    using length_uuid_str [of 0] by (auto simp: upsert_values_def ref_group_def lit_eval)
  have "gl_uuid ref_groups_lib (g_guid ref_group) = Inr 0"
    using ref_driver_ok by (simp add: driver_ok_def ref_group_def)
  then have "cache_rows ref_groups_lib now [ref_group] = Inr [row_of now 0 ref_group]"
    by (simp add: cache_row_def row_of_def) (simp add: ref_group_def lit_eval)
  with v show ?thesis by (simp add: upsert_groups_def put_group_def ref_groups_lib_def)
qed

lemma group_search_cached_witness:
  "\<exists>w1. search_groups_route mem_redis ref_groups_lib (Some ref_authenticator) 7 (lit ''ops'') 5 ref_groups_world = (Inr [ref_group], w1)
     \<and> (let w2 = w1\<lparr>gw_redis := mem_step (gw_redis w1) (IWait 60000)\<rparr>
        in search_groups_route mem_redis ref_groups_lib None 8 (lit '' ops'') 50 w2 = (Inr [ref_group], w2))"
proof -
  let ?run = "search_groups_route mem_redis ref_groups_lib (Some ref_authenticator) 7 (lit ''ops'') 5 ref_groups_world"
  have q: "strip (lit ''ops'') = lit ''ops''" "strip (lit '' ops'') = lit ''ops''"
    by (simp_all add: lit_eval strip_def py_isspace_def py_spaces_def)
  then have "\<exists>k. search_key ref_groups_lib (strip (lit ''ops'')) = Inr k"
    by (simp add: search_key_def ref_groups_lib_def utf8_encode_def scalar_def lit_eval)
  then obtain k where k: "search_key ref_groups_lib (strip (lit ''ops'')) = Inr k" by blast
  have two: "2 \<le> length (strip (lit ''ops''))" "2 \<le> length (strip (lit '' ops''))" by (simp_all add: q length_lit)
  have none: "mem_look (gw_redis ref_groups_world) k = None"
    by (simp add: ref_groups_world_def empty_db_def mem_look_def)
  have "\<exists>tr. search_groups (gl_ldap ref_groups_lib) ref_authenticator (strip (lit ''ops'')) (search_limit 5) (gw_ldap ref_groups_world)
      = (Inr [ref_group], tr)"
    using two(1) ref_group_rows
    by (simp add: q search_groups_def ref_groups_lib_def ref_ldap3_def ref_authenticator_def ref_groups_world_def bind_def call_def
        rd_simps and_unbind_def search_def Let_def)
  then obtain tr where s: "search_groups (gl_ldap ref_groups_lib) ref_authenticator (strip (lit ''ops'')) (search_limit 5) (gw_ldap ref_groups_world)
      = (Inr [ref_group], tr)" by blast
  note all = group_search_cached [OF mem.redis_server_axioms k two(1) none s, of 7 "fst ?run" "snd ?run" "[IWait 60000]" "lit '' ops''" None 8 50]
  have u: "upsert_groups ref_groups_lib 7 [ref_group] (gw_table ref_groups_world) = (Inr (), [row_of 7 0 ref_group])"
    using ref_upsert by (simp add: ref_groups_world_def)
  have st: "r_step mem_redis = mem_step" by (simp add: mem_redis_def)
  from all u k q two show ?thesis by (auto simp: Let_def st intro!: exI [of _ "snd ?run"] prod_eqI)
qed

section \<open>The refreshed table\<close>

lemma names_of_table:
  assumes "\<forall>r \<in> set t. gc_guid r < 2 ^ 128" and "s \<in> set servers" and "u \<in> set (sv_groups s)" and "u < 2 ^ 128"
  shows "load_group_name_map t servers (uuid_str u) = map_option gc_cn (table_map t u)"
proof -
  let ?wanted = "\<lambda>r. gc_guid r \<in> set (concat (map sv_groups servers))"
  have "map_of (map (\<lambda>r. (uuid_str (gc_guid r), gc_cn r)) (filter ?wanted t)) (uuid_str u)
      = map_option gc_cn (map_of (map (\<lambda>r. (gc_guid r, r)) t) u)"
    using assms(1)
  proof (induction t)
    case (Cons r t)
    moreover have "uuid_str (gc_guid r) = uuid_str u \<longleftrightarrow> gc_guid r = u" using uuid_str_inject assms(4) Cons.prems by auto
    moreover have "?wanted r" if "gc_guid r = u" using that assms(2,3) by auto
    ultimately show ?case by auto
  qed simp
  then show ?thesis by (simp only: load_group_name_map_def table_map_def)
qed

text \<open>
  A refresh that succeeds answers the number of the groups that the directory lists. Then the row of every listed group
  has what the directory says, all other rows stay as they were, also those of groups that are gone, and no
  identifier is there twice. Listings of servers show for every group the name from the table, and for an
  unknown group its identifier. If the arguments for all groups are more than the driver takes in one
  statement, the refresh fails and the table is unchanged.
\<close>

lemma group_table_refreshed:
  assumes "driver_ok L" and "distinct (map gc_guid (gw_table w))"
    and "list_groups (gl_ldap L) a 20000 (gw_ldap w) = (Inr groups, tr)"
    and "refresh_groups L (Some a) now w = (r, w')"
  shows "(r = Inr n \<longrightarrow> n = length groups \<and> distinct (map gc_guid (gw_table w'))
        \<and> (\<forall>u < 2 ^ 128. table_map (gw_table w') u = (case find (\<lambda>g. g_guid g = uuid_str u) (upsert_values groups) of
              Some g \<Rightarrow> Some (row_of now u g) | None \<Rightarrow> table_map (gw_table w) u)))
    \<and> (gl_max_args L < 4 * length (upsert_values groups) \<longrightarrow> r = Inl OtherException)
    \<and> (r = Inl e \<longrightarrow> gw_table w' = gw_table w)
    \<and> ((\<forall>x \<in> set (gw_table w'). gc_guid x < 2 ^ 128) \<and> s \<in> set servers \<and> (\<forall>u \<in> set (sv_groups s). u < 2 ^ 128)
      \<longrightarrow> so_group_details (to_out s (load_group_name_map (gw_table w') servers))
        = map (\<lambda>u. (uuid_str u, case table_map (gw_table w') u of None \<Rightarrow> uuid_str u | Some x \<Rightarrow> gc_cn x)) (sv_groups s))"
proof -
  let ?up = "upsert_groups L now groups (gw_table w)"
  have run: "(r, w') = (case fst ?up of Inl e \<Rightarrow> Inl e | Inr _ \<Rightarrow> Inr (length groups), w\<lparr>gw_ldap := tr, gw_table := snd ?up\<rparr>)"
    using assms(3,4) by (cases ?up) (auto simp: refresh_groups_def get_ldap_def rd_simps gw_on_ldap_def gw_on_table_def split: sum.splits)
  have "\<forall>g \<in> set groups. \<exists>u < 2 ^ 128. g_guid g = uuid_str u" using list_groups_canonical [OF assms(3)] by blast
  then have "n = length groups \<and> distinct (map gc_guid (gw_table w')) \<and> (\<forall>u < 2 ^ 128. table_map (gw_table w') u
      = (case find (\<lambda>g. g_guid g = uuid_str u) (upsert_values groups) of Some g \<Rightarrow> Some (row_of now u g) | None \<Rightarrow> table_map (gw_table w) u))"
    if "r = Inr n"
    using upsert_groups_effect [OF assms(1) _ assms(2), of groups now "snd ?up"] run that by (cases ?up) (auto split: sum.splits)
  moreover have "r = Inl OtherException" if "gl_max_args L < 4 * length (upsert_values groups)"
  proof -
    from that have "upsert_values groups \<noteq> []" by auto
    with that run show ?thesis by (simp add: upsert_groups_def)
  qed
  moreover have "gw_table w' = gw_table w" if "r = Inl e"
    using run that upsert_groups_failed [of L now groups "gw_table w"] by (cases ?up) (auto split: sum.splits)
  moreover have "so_group_details (to_out s (load_group_name_map (gw_table w') servers))
      = map (\<lambda>u. (uuid_str u, case table_map (gw_table w') u of None \<Rightarrow> uuid_str u | Some x \<Rightarrow> gc_cn x)) (sv_groups s)"
    if "(\<forall>x \<in> set (gw_table w'). gc_guid x < 2 ^ 128) \<and> s \<in> set servers \<and> (\<forall>u \<in> set (sv_groups s). u < 2 ^ 128)"
    using names_of_table [of "gw_table w'" s servers] that by (auto simp: to_out_def Let_def split: option.split)
  ultimately show ?thesis by blast
qed

lemma group_table_refreshed_witness:
  "\<exists>w'. refresh_groups ref_groups_lib (Some ref_authenticator) 7 ref_groups_world = (Inr 1, w')
     \<and> table_map (gw_table w') 0 = Some (row_of 7 0 ref_group)"
proof -
  let ?run = "refresh_groups ref_groups_lib (Some ref_authenticator) 7 ref_groups_world"
  have "\<exists>tr. list_groups (gl_ldap ref_groups_lib) ref_authenticator 20000 (gw_ldap ref_groups_world) = (Inr [ref_group], tr)"
    using ref_group_rows
    by (simp add: list_groups_def ref_groups_lib_def ref_ldap3_def ref_authenticator_def ref_groups_world_def bind_def call_def
        rd_simps and_unbind_def search_def Let_def)
  then obtain tr where l: "list_groups (gl_ldap ref_groups_lib) ref_authenticator 20000 (gw_ldap ref_groups_world) = (Inr [ref_group], tr)"
    by blast
  have d: "distinct (map gc_guid (gw_table ref_groups_world))" by (simp add: ref_groups_world_def)
  have v: "upsert_values [ref_group] = [ref_group]"
    using length_uuid_str [of 0] by (auto simp: upsert_values_def ref_group_def lit_eval)
  have ok: "fst ?run = Inr 1" using l ref_upsert [of 7]
    by (simp add: refresh_groups_def get_ldap_def rd_simps gw_on_ldap_def gw_on_table_def) (simp add: ref_groups_world_def rd_simps)
  then obtain w' where run: "?run = (Inr 1, w')" by (metis prod.collapse)
  from group_table_refreshed [OF ref_driver_ok d l run, where n = 1 and servers = "[]"] v
  have "table_map (gw_table w') 0 = Some (row_of 7 0 ref_group)" by (auto simp: ref_group_def)
  with run show ?thesis by blast
qed

end
