(* ===== verification/Monitoring.thy ===== *)
theory Monitoring
  imports Connection_Quality Connection_Tracker
begin

text \<open>
  Metrics, cluster state and health: the collector (\<^verbatim>\<open>src/services/metrics/collector.py\<close>) with the table of
  nodes (\<^verbatim>\<open>src/libs/db/models/node.py\<close>), the routes that show what it publishes
  (\<^verbatim>\<open>routes/stats.py\<close>, \<^verbatim>\<open>routes/cluster.py\<close>, \<^verbatim>\<open>routes/services_mgmt.py\<close> of the administration) and
  \<^verbatim>\<open>src/libs/common/health.py\<close>. The readings of the host and the answers of the probed services are
  parameters. Floating-point numbers are rational numbers. The lists that Redis keeps are used by no
  other service and are a store of their own, with their commands as parameters.
\<close>

section \<open>Lists in Redis\<close>

record 'l list_cmds =
  rl_push :: "'l \<Rightarrow> ustr \<Rightarrow> rval \<Rightarrow> 'l"
  rl_trim :: "'l \<Rightarrow> ustr \<Rightarrow> int \<Rightarrow> int \<Rightarrow> 'l"
  rl_range :: "'l \<Rightarrow> ustr \<Rightarrow> int \<Rightarrow> int \<Rightarrow> rval list"

locale redis_lists =
  fixes Q :: "'l list_cmds"
    and kept :: "'l \<Rightarrow> ustr \<Rightarrow> rval list"
  assumes push_lists: "kept (rl_push Q l k v) = (kept l)(k := v # kept l k)"
    and trim_lists: "0 \<le> n \<Longrightarrow> kept (rl_trim Q l k 0 n) = (kept l)(k := take (Suc (nat n)) (kept l k))"
    and range_lists: "0 \<le> n \<Longrightarrow> rl_range Q l k 0 n = take (Suc (nat n)) (kept l k)"

text \<open>Lists in memory, with the end points counted from the right where they are negative.\<close>

definition list_slice :: "int \<Rightarrow> int \<Rightarrow> 'a list \<Rightarrow> 'a list" where
  "list_slice a b xs =
    (let n = int (length xs); i = (if a < 0 then max 0 (a + n) else a); j = (if b < 0 then b + n else b)
     in if j < i then [] else take (nat (j - i + 1)) (drop (nat i) xs))"

definition mem_lists :: "(ustr \<Rightarrow> rval list) list_cmds" where
  "mem_lists = \<lparr>rl_push = (\<lambda>l k v. l(k := v # l k)), rl_trim = (\<lambda>l k a b. l(k := list_slice a b (l k))),
     rl_range = (\<lambda>l k a b. list_slice a b (l k))\<rparr>"

interpretation mem_list: redis_lists mem_lists "\<lambda>l. l"
  by unfold_locales (auto simp: mem_lists_def list_slice_def Let_def nat_add_distrib)

section \<open>Readings of the host\<close>

definition METRICS_LATEST :: "ustr \<Rightarrow> ustr" where
  "METRICS_LATEST instance_id = lit ''rdp:metrics:'' @ instance_id @ lit '':latest''"

definition METRICS_SERIES :: "ustr \<Rightarrow> ustr" where
  "METRICS_SERIES instance_id = lit ''rdp:metrics:'' @ instance_id @ lit '':series''"

definition HEARTBEAT :: "ustr \<Rightarrow> ustr" where
  "HEARTBEAT instance_id = lit ''rdp:heartbeat:'' @ instance_id"

definition NODE :: "ustr \<Rightarrow> ustr" where
  "NODE instance_id = lit ''rdp:node:'' @ instance_id"

definition NODE_SCAN :: ustr where
  "NODE_SCAN = lit ''rdp:node:*''"

definition SIGNAL_RESTART :: ustr where
  "SIGNAL_RESTART = lit ''rdp:signal:restart''"

definition METRICS_LATEST_TTL :: int where
  "METRICS_LATEST_TTL = 120"

definition SIGNAL_RESTART_TTL :: int where
  "SIGNAL_RESTART_TTL = 30"

definition SERIES_MAX_LEN :: int where
  "SERIES_MAX_LEN = 24 * 60 * 6"

definition HEARTBEAT_REDIS_TTL :: int where
  "HEARTBEAT_REDIS_TTL = 60"

record host_sample =
  hs_now :: rat
  hs_net_dev :: "ustr option"
  hs_net_counters :: "int \<times> int"
  hs_cpu_percent :: rat
  hs_cpu_count :: "int option"
  hs_load :: "rat \<times> rat \<times> rat"
  hs_mem :: "int \<times> int \<times> rat"
  hs_swap :: "int \<times> int \<times> rat"
  hs_disk :: "int \<times> int \<times> rat"

record MetricsCollector =
  mc_instance_id :: ustr
  mc_lan_ip :: ustr
  mc_interval :: int
  mc_prev_net :: "(int \<times> int) option"
  mc_prev_ts :: rat
  mc_cpu_name :: ustr
  mc_cpu_freq_mhz :: int

text \<open>\<^verbatim>\<open>int(x)\<close> cuts the fraction off.\<close>

definition py_trunc :: "rat \<Rightarrow> int" where
  "py_trunc x = (if 0 \<le> x then floor x else ceiling x)"

text \<open>The first line of \<^verbatim>\<open>/proc/cpuinfo\<close> that names the model decides; without a colon it raises.\<close>

fun model_name :: "ustr list \<Rightarrow> ustr option" where
  "model_name [] = None"
| "model_name (l # ls) = (if starts_with (lit ''model name'') l
     then (if 58 \<in> set l then Some (strip (snd (split_once 58 l))) else None)
     else model_name ls)"

definition detect_cpu_name :: "ustr \<Rightarrow> ustr option \<Rightarrow> ustr \<Rightarrow> ustr" where
  "detect_cpu_name processor cpuinfo machine =
    (if processor \<noteq> [] then processor
     else case (case cpuinfo of None \<Rightarrow> None | Some t \<Rightarrow> model_name (split_on 10 t)) of
       Some n \<Rightarrow> n
     | None \<Rightarrow> if machine \<noteq> [] then machine else lit ''Unknown'')"

definition new_collector :: "ustr \<Rightarrow> ustr \<Rightarrow> int \<Rightarrow> ustr \<Rightarrow> rat option \<Rightarrow> MetricsCollector" where
  "new_collector instance_id lan_ip interval cpu_name freq =
    \<lparr>mc_instance_id = instance_id, mc_lan_ip = lan_ip, mc_interval = max 5 interval, mc_prev_net = None, mc_prev_ts = 0,
     mc_cpu_name = cpu_name,
     mc_cpu_freq_mhz = (case freq of None \<Rightarrow> 0 | Some f \<Rightarrow> py_trunc f)\<rparr>"

text \<open>The sums over all interfaces but the loopback; a number that cannot be read makes the fall-back count.\<close>

fun net_lines :: "ustr list \<Rightarrow> int \<Rightarrow> int \<Rightarrow> (int \<times> int) result" where
  "net_lines [] recv sent = Inr (recv, sent)"
| "net_lines (l # ls) recv sent =
    (case split_ws l of
       [] \<Rightarrow> net_lines ls recv sent
     | w # ws \<Rightarrow>
         if length (w # ws) < 10 \<or> \<not> (w \<noteq> [] \<and> last w = 58) then net_lines ls recv sent
         else if rev (dropWhile (\<lambda>c. c = 58) (rev w)) = lit ''lo'' then net_lines ls recv sent
         else bind_result (py_int (ws ! 0)) (\<lambda>r. bind_result (py_int (ws ! 8)) (\<lambda>s. net_lines ls (recv + r) (sent + s))))"

definition read_host_net :: "host_sample \<Rightarrow> int \<times> int" where
  "read_host_net s = (case hs_net_dev s of
      None \<Rightarrow> hs_net_counters s
    | Some t \<Rightarrow> (case net_lines (split_on 10 t) 0 0 of Inr p \<Rightarrow> p | Inl e \<Rightarrow> hs_net_counters s))"

definition net_rates :: "MetricsCollector \<Rightarrow> rat \<Rightarrow> int \<times> int \<Rightarrow> rat \<times> rat" where
  "net_rates mc now p = (case (mc_prev_net mc, p) of
      (None, _) \<Rightarrow> (0, 0)
    | (Some (s0, r0), (recv, sent)) \<Rightarrow>
        if mc_prev_ts mc < now
        then (of_int (sent - s0) / (now - mc_prev_ts mc), of_int (recv - r0) / (now - mc_prev_ts mc))
        else (0, 0))"

definition usage :: "string \<Rightarrow> int \<times> int \<times> rat \<Rightarrow> (ustr \<times> json) list" where
  "usage name u = (case u of (whole, used, percent) \<Rightarrow>
     [(lit (name @ ''_total''), JInt whole), (lit (name @ ''_used''), JInt used), (lit (name @ ''_percent''), JFloat percent)])"

definition snapshot :: "host_sample \<Rightarrow> nat \<Rightarrow> MetricsCollector \<Rightarrow> (ustr \<times> json) list \<times> MetricsCollector" where
  "snapshot s active mc =
    (let (recv, sent) = read_host_net s;
         (sent_sec, recv_sec) = net_rates mc (hs_now s) (recv, sent);
         (load1, load5, load15) = hs_load s
     in ([(lit ''ts'', JInt (py_trunc (hs_now s))),
          (lit ''instance_id'', JStr (mc_instance_id mc)),
          (lit ''cpu_percent'', JFloat (hs_cpu_percent s)),
          (lit ''cpu_count'', JInt (case hs_cpu_count s of None \<Rightarrow> 1 | Some n \<Rightarrow> if n = 0 then 1 else n)),
          (lit ''cpu_name'', JStr (mc_cpu_name mc)),
          (lit ''cpu_freq_mhz'', JInt (mc_cpu_freq_mhz mc)),
          (lit ''cpu_load_1'', JFloat (round2 load1)),
          (lit ''cpu_load_5'', JFloat (round2 load5)),
          (lit ''cpu_load_15'', JFloat (round2 load15))]
         @ usage ''mem'' (hs_mem s) @ usage ''swap'' (hs_swap s) @ usage ''disk'' (hs_disk s) @
         [(lit ''net_bytes_sent_sec'', JInt (round_even sent_sec)),
          (lit ''net_bytes_recv_sec'', JInt (round_even recv_sec)),
          (lit ''active_sessions'', JInt (int active))],
         mc\<lparr>mc_prev_net := Some (sent, recv), mc_prev_ts := hs_now s\<rparr>))"

section \<open>Publication\<close>

record ClusterNode =
  cn_instance_id :: ustr
  cn_hostname :: ustr
  cn_ip :: ustr
  cn_services :: "(ustr \<times> json) list"
  cn_resources :: "(ustr \<times> json) list"
  cn_last_heartbeat :: int
  cn_registered_at :: int

record ('db, 'l) metrics_world =
  mw_redis :: 'db
  mw_lists :: 'l
  mw_nodes :: "ClusterNode list"

text \<open>What may fail in one round: all of Redis, and the database.\<close>

record tick_faults =
  redis_down :: bool
  db_fault :: "exn option"

definition count_active_sessions :: "'db redis \<Rightarrow> bool \<Rightarrow> 'db \<Rightarrow> nat" where
  "count_active_sessions R down db = (if down then 0 else length (r_scan R db ACTIVE_SCAN))"

definition publish_redis ::
  "'db redis \<Rightarrow> 'l list_cmds \<Rightarrow> bool \<Rightarrow> ustr \<Rightarrow> (ustr \<times> json) list \<Rightarrow> (('db, 'l) metrics_world, unit) eff" where
  "publish_redis R Q down iid snap w =
    (if down then (Inl OtherException, w)
     else let raw = RJson (JObj snap);
          (r1, db1) = x_setex R (METRICS_LATEST iid) METRICS_LATEST_TTL raw (mw_redis w);
          l1 = rl_push Q (mw_lists w) (METRICS_SERIES iid) raw;
          l2 = rl_trim Q l1 (METRICS_SERIES iid) 0 SERIES_MAX_LEN;
          (r2, db2) = x_setex R (HEARTBEAT iid) HEARTBEAT_REDIS_TTL raw db1
      in (bind_result r1 (\<lambda>_. r2), w\<lparr>mw_redis := db2, mw_lists := l2\<rparr>))"

definition detect_services :: "(ustr \<times> json) list" where
  "detect_services = [(lit ''metrics'', JStr (lit ''running''))]"

definition node_fits :: "ClusterNode \<Rightarrow> bool" where
  "node_fits n \<longleftrightarrow> length (cn_instance_id n) \<le> 64 \<and> length (cn_hostname n) \<le> 255 \<and> length (cn_ip n) \<le> 45"

definition upsert_node :: "ClusterNode \<Rightarrow> ClusterNode list \<Rightarrow> ClusterNode list" where
  "upsert_node n ns =
    (if cn_instance_id n \<in> cn_instance_id ` set ns
     then map (\<lambda>x. if cn_instance_id x = cn_instance_id n then n\<lparr>cn_registered_at := cn_registered_at x\<rparr> else x) ns
     else ns @ [n])"

definition heartbeat_pg ::
  "exn option \<Rightarrow> ustr \<Rightarrow> int \<Rightarrow> MetricsCollector \<Rightarrow> (ustr \<times> json) list \<Rightarrow> (('db, 'l) metrics_world, unit) eff" where
  "heartbeat_pg dbx hostname now mc snap w =
    (let n = \<lparr>cn_instance_id = mc_instance_id mc, cn_hostname = hostname, cn_ip = mc_lan_ip mc, cn_services = detect_services,
              cn_resources = filter (\<lambda>f. fst f \<notin> {lit ''ts'', lit ''instance_id''}) snap, cn_last_heartbeat = now, cn_registered_at = now\<rparr>
     in case dbx of
       Some e \<Rightarrow> (Inl e, w)
     | None \<Rightarrow> if node_fits n then (Inr (), w\<lparr>mw_nodes := upsert_node n (mw_nodes w)\<rparr>) else (Inl DataError, w))"

text \<open>One round of the task: what fails is logged, and the next round comes after the interval.\<close>

definition tick ::
  "'db redis \<Rightarrow> 'l list_cmds \<Rightarrow> ustr \<Rightarrow> tick_faults \<times> host_sample \<times> int \<Rightarrow> MetricsCollector \<times> ('db, 'l) metrics_world
    \<Rightarrow> MetricsCollector \<times> ('db, 'l) metrics_world" where
  "tick R Q hostname i s = (case (i, s) of ((f, h, now), (mc, w)) \<Rightarrow>
     let (snap, mc') = snapshot h (count_active_sessions R (redis_down f) (mw_redis w)) mc
     in (mc', snd (rbind (publish_redis R Q (redis_down f) (mc_instance_id mc) snap)
                (\<lambda>_. heartbeat_pg (db_fault f) hostname now mc' snap) w)))"

text \<open>The rounds, with the time of the interval between them.\<close>

fun ticks ::
  "'db redis \<Rightarrow> 'l list_cmds \<Rightarrow> ustr \<Rightarrow> (tick_faults \<times> host_sample \<times> int) list \<Rightarrow> MetricsCollector \<times> ('db, 'l) metrics_world
    \<Rightarrow> MetricsCollector \<times> ('db, 'l) metrics_world" where
  "ticks R Q hostname [] s = s"
| "ticks R Q hostname (i # is) s =
    (let (mc, w) = tick R Q hostname i s
     in ticks R Q hostname is (mc, w\<lparr>mw_redis := r_step R (mw_redis w) (IWait (1000 * nat (mc_interval mc)))\<rparr>))"

section \<open>The routes of the administration\<close>

definition period_points :: "ustr \<Rightarrow> int" where
  "period_points period = (if period = lit ''1h'' then 360 else if period = lit ''6h'' then 2160 else if period = lit ''24h'' then 8640 else 360)"

definition overview :: "'db redis \<Rightarrow> int \<Rightarrow> 'db world \<Rightarrow> nat \<times> nat" where
  "overview R today_start w =
    (length (r_scan R (rdb w) ACTIVE_SCAN), length (filter (\<lambda>h. today_start \<le> h_started_at h) (history w)))"

definition loaded :: "rval list \<Rightarrow> json list" where
  "loaded vs = concat (map (\<lambda>v. case json_loads (Some v) of Inr j \<Rightarrow> [j] | Inl e \<Rightarrow> []) vs)"

definition resources :: "'db redis \<Rightarrow> 'l list_cmds \<Rightarrow> ustr \<Rightarrow> ustr \<Rightarrow> ('db, 'l) metrics_world \<Rightarrow> json \<times> json list" where
  "resources R Q iid period w =
    (let raw = r_get R (mw_redis w) (METRICS_LATEST iid)
     in (if raw_truthy raw then (case json_loads raw of Inr j \<Rightarrow> j | Inl e \<Rightarrow> JObj []) else JObj [],
         loaded (rl_range Q (mw_lists w) (METRICS_SERIES iid) 0 (period_points period))))"

definition list_nodes :: "'db redis \<Rightarrow> 'db \<Rightarrow> json list" where
  "list_nodes R db = concat (map (\<lambda>k. let raw = r_get R db k in
     if raw_truthy raw then loaded (case raw of None \<Rightarrow> [] | Some v \<Rightarrow> [v]) else []) (r_scan R db NODE_SCAN))"

definition node_error :: "string \<Rightarrow> json" where
  "node_error text = JObj [(lit ''error'', JStr (lit text))]"

definition get_node :: "'db redis \<Rightarrow> ustr \<Rightarrow> 'db \<Rightarrow> json" where
  "get_node R instance_id db =
    (let raw = r_get R db (NODE instance_id) in
     if \<not> raw_truthy raw then node_error ''Node not found''
     else case json_loads raw of Inr j \<Rightarrow> j | Inl e \<Rightarrow> node_error ''Invalid data'')"

text \<open>The entries of one node; a value that is no object has no \<^verbatim>\<open>get\<close> and raises.\<close>

fun service_entries :: "json \<Rightarrow> json \<Rightarrow> (ustr \<times> json) list \<Rightarrow> json list result" where
  "service_entries node_id host [] = Inr []"
| "service_entries node_id host ((name, info) # rest) =
    bind_result (jget info (lit ''status'') (JStr (lit ''unknown''))) (\<lambda>st.
    bind_result (jget info (lit ''port'') JNull) (\<lambda>port.
    bind_result (jget info (lit ''pid'') JNull) (\<lambda>pid.
    bind_result (service_entries node_id host rest) (\<lambda>es.
      Inr (JObj [(lit ''node'', node_id), (lit ''instance_id'', host), (lit ''service'', JStr name), (lit ''status'', st),
                 (lit ''port'', port), (lit ''pid'', pid)] # es)))))"

definition node_services :: "ustr \<Rightarrow> json \<Rightarrow> json list result" where
  "node_services k data =
    bind_result (jget data (lit ''hostname'') (JStr k)) (\<lambda>node_id.
    bind_result (jget data (lit ''hostname'') JNull) (\<lambda>host.
    bind_result (jget data (lit ''services'') JNull) (\<lambda>services.
      if \<not> json_truthy services then Inr []
      else (case services of JObj f \<Rightarrow> service_entries node_id host f | _ \<Rightarrow> Inl TypeError))))"

fun services_of :: "(ustr \<times> rval option) list \<Rightarrow> json list result" where
  "services_of [] = Inr []"
| "services_of ((k, raw) # rest) =
    (if \<not> raw_truthy raw then services_of rest
     else case json_loads raw of
       Inl e \<Rightarrow> services_of rest
     | Inr data \<Rightarrow> bind_result (node_services k data) (\<lambda>es. bind_result (services_of rest) (\<lambda>r. Inr (es @ r))))"

definition list_services :: "'db redis \<Rightarrow> 'db \<Rightarrow> json list result" where
  "list_services R db = services_of (map (\<lambda>k. (k, r_get R db k)) (r_scan R db NODE_SCAN))"

definition restart_service :: "'db redis \<Rightarrow> ('db, ustr) eff" where
  "restart_service R = rbind (x_setex R SIGNAL_RESTART SIGNAL_RESTART_TTL (RText (lit ''1''))) (\<lambda>_. rreturn (lit ''restart_signaled''))"

section \<open>Probes\<close>

text \<open>What a connection, a request over it and a command to the socket of HAProxy answer, with the seconds taken.\<close>

record probes =
  p_tcp :: "ustr \<Rightarrow> int \<Rightarrow> rat result"
  p_http :: "ustr \<Rightarrow> int \<Rightarrow> bytes \<Rightarrow> (bytes \<times> rat) result"
  p_unix :: "ustr \<Rightarrow> bytes \<Rightarrow> (bytes \<times> rat) result"

datatype check_kind = CheckTcp ustr int | CheckSelf | CheckHttp ustr int ustr | CheckHaproxy ustr | CheckHeartbeat

definition SERVICE_CHECKS :: "(ustr \<times> check_kind) list" where
  "SERVICE_CHECKS = [(lit ''postgres'', CheckTcp (lit ''postgres'') 5432), (lit ''redis'', CheckTcp (lit ''redis'') 6379),
     (lit ''admin'', CheckSelf), (lit ''portal'', CheckHttp (lit ''portal'') 8001 (lit ''/health'')),
     (lit ''rdp-relay'', CheckTcp (lit ''rdp-relay'') 8002), (lit ''haproxy'', CheckHaproxy (lit ''/var/run/haproxy/admin.sock'')),
     (lit ''metrics'', CheckHeartbeat)]"

definition latency_ms :: "rat \<Rightarrow> rat" where
  "latency_ms t = of_int (round_even (t * 1000 * 10)) / 10"

definition stopped_status :: "ustr \<times> rat" where
  "stopped_status = (lit ''stopped'', 0)"

definition check_tcp :: "probes \<Rightarrow> ustr \<Rightarrow> int \<Rightarrow> ustr \<times> rat" where
  "check_tcp P host port = (case p_tcp P host port of Inl e \<Rightarrow> stopped_status | Inr t \<Rightarrow> (lit ''running'', latency_ms t))"

definition status_line :: "bytes \<Rightarrow> bytes" where
  "status_line response = (case py_find (blit [CHR 13, CHR 10]) response of None \<Rightarrow> response | Some i \<Rightarrow> take i response)"

definition check_http :: "probes \<Rightarrow> ustr \<Rightarrow> int \<Rightarrow> ustr \<Rightarrow> ustr \<times> rat" where
  "check_http P host port path =
    (case bind_result (utf8_encode (lit ''GET '' @ path @ lit '' HTTP/1.0'' @ [13, 10] @ lit ''Host: '' @ host @ [13, 10, 13, 10])) (p_http P host port) of
       Inl e \<Rightarrow> stopped_status
     | Inr (response, t) \<Rightarrow> (if py_contains (blit '' 200 '') (status_line response) then lit ''running'' else lit ''unhealthy'', latency_ms t))"

definition check_haproxy_stats :: "probes \<Rightarrow> ustr \<Rightarrow> ustr \<times> rat" where
  "check_haproxy_stats P path = (case p_unix P path (blit ''show info'' @ [10]) of
      Inl e \<Rightarrow> stopped_status
    | Inr (data, t) \<Rightarrow> (if py_contains (blit ''Uptime'') data then lit ''running'' else lit ''unhealthy'', latency_ms t))"

definition check_redis_heartbeat :: "'db redis \<Rightarrow> 'db \<Rightarrow> ustr \<times> rat" where
  "check_redis_heartbeat R db =
    (if list_ex (\<lambda>k. 0 < r_ttl R db k) (r_scan R db (lit ''rdp:heartbeat:*'')) then (lit ''running'', 0) else stopped_status)"

definition check_one :: "'db redis \<Rightarrow> probes \<Rightarrow> 'db \<Rightarrow> ustr \<times> check_kind \<Rightarrow> ustr \<times> ustr \<times> rat" where
  "check_one R P db spec = (fst spec, case snd spec of
      CheckSelf \<Rightarrow> (lit ''running'', 0)
    | CheckHeartbeat \<Rightarrow> check_redis_heartbeat R db
    | CheckHaproxy path \<Rightarrow> check_haproxy_stats P path
    | CheckHttp host port path \<Rightarrow> check_http P host port path
    | CheckTcp host port \<Rightarrow> check_tcp P host port)"

definition service_health :: "'db redis \<Rightarrow> probes \<Rightarrow> 'db \<Rightarrow> (ustr \<times> ustr \<times> rat) list" where
  "service_health R P db = map (check_one R P db) SERVICE_CHECKS"

text \<open>The health of one service: each dependency is left out, answers, or fails with a text.\<close>

record Health =
  he_status :: ustr
  he_db :: "ustr option"
  he_redis :: "ustr option"
  he_errors :: "ustr list"

definition sub_check :: "ustr option option \<Rightarrow> ustr option" where
  "sub_check c = map_option (\<lambda>r. case r of None \<Rightarrow> lit ''ok'' | Some _ \<Rightarrow> lit ''error'') c"

definition sub_errors :: "string \<Rightarrow> ustr option option \<Rightarrow> ustr list" where
  "sub_errors name c = (case c of Some (Some exc) \<Rightarrow> [lit name @ lit '': '' @ exc] | _ \<Rightarrow> [])"

definition check_health :: "ustr option option \<Rightarrow> ustr option option \<Rightarrow> Health" where
  "check_health dbc rc =
    (let errors = sub_errors ''db'' dbc @ sub_errors ''redis'' rc
     in \<lparr>he_status = (if errors = [] then lit ''ok'' else lit ''degraded''), he_db = sub_check dbc, he_redis = sub_check rc,
         he_errors = errors\<rparr>)"

section \<open>What is published\<close>

lemma metrics_keys_distinct: "METRICS_LATEST iid \<noteq> HEARTBEAT iid'" "METRICS_LATEST iid \<noteq> NODE n" "HEARTBEAT iid \<noteq> NODE n"
  by (simp_all add: METRICS_LATEST_def HEARTBEAT_def NODE_def lit_eval)

lemma publish_up:
  assumes "redis_server R look watch_state" and "redis_lists Q kept"
  shows "\<exists>w'. publish_redis R Q False iid snap w = (Inr (), w') \<and> mw_nodes w' = mw_nodes w
    \<and> kept (mw_lists w') = (kept (mw_lists w))(METRICS_SERIES iid := take 8641 (RJson (JObj snap) # kept (mw_lists w) (METRICS_SERIES iid)))
    \<and> look (mw_redis w') = (look (mw_redis w))(METRICS_LATEST iid \<mapsto> (RJson (JObj snap), Some 120000), HEARTBEAT iid \<mapsto> (RJson (JObj snap), Some 60000))"
proof -
  have t: "0 < METRICS_LATEST_TTL" "0 < HEARTBEAT_REDIS_TTL" "0 \<le> SERIES_MAX_LEN"
    by (simp_all add: METRICS_LATEST_TTL_def HEARTBEAT_REDIS_TTL_def SERIES_MAX_LEN_def)
  obtain d1 where d1: "r_setex R (mw_redis w) (METRICS_LATEST iid) METRICS_LATEST_TTL (RJson (JObj snap)) = Inr d1"
    "look d1 = (look (mw_redis w))(METRICS_LATEST iid \<mapsto> (RJson (JObj snap), Some 120000))"
    using redis_server.setex_ok [OF assms(1) t(1), of "mw_redis w" "METRICS_LATEST iid"] by (fastforce simp: METRICS_LATEST_TTL_def)
  obtain d2 where d2: "r_setex R d1 (HEARTBEAT iid) HEARTBEAT_REDIS_TTL (RJson (JObj snap)) = Inr d2"
    "look d2 = (look d1)(HEARTBEAT iid \<mapsto> (RJson (JObj snap), Some 60000))"
    using redis_server.setex_ok [OF assms(1) t(2), of d1 "HEARTBEAT iid"] by (fastforce simp: HEARTBEAT_REDIS_TTL_def)
  have "Suc (nat SERIES_MAX_LEN) = 8641" by (simp add: SERIES_MAX_LEN_def)
  with d1 d2 show ?thesis
    by (simp add: publish_redis_def x_setex_def redis_lists.trim_lists [OF assms(2) t(3)] redis_lists.push_lists [OF assms(2)])
qed

lemma snapshot_ts: "map_of (fst (snapshot h n mc)) (lit ''ts'') = Some (JInt (py_trunc (hs_now h)))"
  by (simp add: snapshot_def case_prod_beta)

lemma snapshot_collector:
  "mc_instance_id (snd (snapshot h n mc)) = mc_instance_id mc" "mc_interval (snd (snapshot h n mc)) = mc_interval mc"
  by (simp_all add: snapshot_def case_prod_beta)

lemma heartbeat_keeps: "mw_redis (snd (heartbeat_pg f hn t mc snap w)) = mw_redis w \<and> mw_lists (snd (heartbeat_pg f hn t mc snap w)) = mw_lists w"
  by (simp add: heartbeat_pg_def Let_def split: option.split)

lemma tick_collector:
  "mc_instance_id (fst (tick R Q hn i (mc, w))) = mc_instance_id mc" "mc_interval (fst (tick R Q hn i (mc, w))) = mc_interval mc"
  using snapshot_collector by (simp_all add: tick_def split: prod.split) (metis snd_conv)+

text \<open>One round with Redis there.\<close>

lemma tick_up:
  assumes "redis_server R look watch_state" and "redis_lists Q kept" and "\<not> redis_down f"
  shows "\<exists>snap. map_of snap (lit ''ts'') = Some (JInt (py_trunc (hs_now h)))
    \<and> kept (mw_lists (snd (tick R Q hn (f, h, t) (mc, w)))) (METRICS_SERIES (mc_instance_id mc))
      = take 8641 (RJson (JObj snap) # kept (mw_lists w) (METRICS_SERIES (mc_instance_id mc)))
    \<and> look (mw_redis (snd (tick R Q hn (f, h, t) (mc, w)))) = (look (mw_redis w))(METRICS_LATEST (mc_instance_id mc) \<mapsto> (RJson (JObj snap), Some 120000),
        HEARTBEAT (mc_instance_id mc) \<mapsto> (RJson (JObj snap), Some 60000))"
proof -
  obtain snap mc' where s: "snapshot h (count_active_sessions R (redis_down f) (mw_redis w)) mc = (snap, mc')" by fastforce
  obtain w' where w': "publish_redis R Q False (mc_instance_id mc) snap w = (Inr (), w')"
    "kept (mw_lists w') = (kept (mw_lists w))(METRICS_SERIES (mc_instance_id mc) := take 8641 (RJson (JObj snap) # kept (mw_lists w) (METRICS_SERIES (mc_instance_id mc))))"
    "look (mw_redis w') = (look (mw_redis w))(METRICS_LATEST (mc_instance_id mc) \<mapsto> (RJson (JObj snap), Some 120000),
        HEARTBEAT (mc_instance_id mc) \<mapsto> (RJson (JObj snap), Some 60000))"
    using publish_up [OF assms(1,2)] by blast
  have "snd (tick R Q hn (f, h, t) (mc, w)) = snd (heartbeat_pg (db_fault f) hn t mc' snap w')"
    using s w'(1) assms(3) by (simp add: tick_def rd_simps)
  moreover have "map_of snap (lit ''ts'') = Some (JInt (py_trunc (hs_now h)))"
    using snapshot_ts [of h "count_active_sessions R (redis_down f) (mw_redis w)" mc] s by simp
  ultimately show ?thesis
    using w'(2,3) heartbeat_keeps [of "db_fault f" hn t mc' snap w'] by (intro exI [of _ snap]) simp
qed

lemma take_append_take: "take n (ys @ take n zs) = take n (ys @ zs)"
  by (simp add: min_def)

text \<open>All rounds with Redis there.\<close>

lemma ticks_up:
  assumes "redis_server R look watch_state" and "redis_lists Q kept"
    and "\<forall>i \<in> set is. \<not> redis_down (fst i)" and "is \<noteq> []" and "0 \<le> mc_interval mc" and "mc_interval mc < 60"
  shows "\<exists>snaps. map (\<lambda>s. map_of s (lit ''ts'')) snaps = map (\<lambda>i. Some (JInt (py_trunc (hs_now (fst (snd i)))))) is
    \<and> kept (mw_lists (snd (ticks R Q hn is (mc, w)))) (METRICS_SERIES (mc_instance_id mc))
      = take 8641 (rev (map (RJson \<circ> JObj) snaps) @ kept (mw_lists w) (METRICS_SERIES (mc_instance_id mc)))
    \<and> look (mw_redis (snd (ticks R Q hn is (mc, w)))) (METRICS_LATEST (mc_instance_id mc))
      = Some (RJson (JObj (last snaps)), Some (120000 - 1000 * nat (mc_interval mc)))
    \<and> look (mw_redis (snd (ticks R Q hn is (mc, w)))) (HEARTBEAT (mc_instance_id mc))
      = Some (RJson (JObj (last snaps)), Some (60000 - 1000 * nat (mc_interval mc)))"
  using assms(3-6)
proof (induction "is" arbitrary: mc w)
  case (Cons i "is")
  obtain f h t where i: "i = (f, h, t)" by (cases i)
  obtain mc1 w1 where tk: "tick R Q hn i (mc, w) = (mc1, w1)" by fastforce
  let ?w2 = "w1\<lparr>mw_redis := r_step R (mw_redis w1) (IWait (1000 * nat (mc_interval mc)))\<rparr>"
  from Cons.prems i have "\<not> redis_down f" by simp
  from tick_up [OF assms(1,2) this, of h hn t mc w] i tk obtain snap where
    ts: "map_of snap (lit ''ts'') = Some (JInt (py_trunc (hs_now h)))"
    and ser: "kept (mw_lists w1) (METRICS_SERIES (mc_instance_id mc)) = take 8641 (RJson (JObj snap) # kept (mw_lists w) (METRICS_SERIES (mc_instance_id mc)))"
    and lk: "look (mw_redis w1) = (look (mw_redis w))(METRICS_LATEST (mc_instance_id mc) \<mapsto> (RJson (JObj snap), Some 120000),
        HEARTBEAT (mc_instance_id mc) \<mapsto> (RJson (JObj snap), Some 60000))"
    by auto
  have same: "mc_instance_id mc1 = mc_instance_id mc" "mc_interval mc1 = mc_interval mc"
    using tick_collector [of R Q hn i mc w] tk by simp_all
  have run: "ticks R Q hn (i # is) (mc, w) = ticks R Q hn is (mc1, ?w2)" by (simp add: tk same)
  show ?case
  proof (cases "is = []")
    case True
    have "1000 * nat (mc_interval mc) < 60000" using Cons.prems(3,4) by simp
    then have "look (mw_redis ?w2) (METRICS_LATEST (mc_instance_id mc)) = Some (RJson (JObj snap), Some (120000 - 1000 * nat (mc_interval mc)))"
      "look (mw_redis ?w2) (HEARTBEAT (mc_instance_id mc)) = Some (RJson (JObj snap), Some (60000 - 1000 * nat (mc_interval mc)))"
      by (simp_all add: redis_server.wait_look [OF assms(1)] lk same metrics_keys_distinct)
    with True run ts ser i show ?thesis by (intro exI [of _ "[snap]"]) simp
  next
    case False
    have up: "\<forall>i \<in> set is. \<not> redis_down (fst i)" using Cons.prems(1) by simp
    have iv: "0 \<le> mc_interval mc1" "mc_interval mc1 < 60" using Cons.prems(3,4) same by simp_all
    have wl: "mw_lists ?w2 = mw_lists w1" by simp
    from Cons.IH [OF up False iv, of ?w2, unfolded same wl] obtain snaps where
      IH: "map (\<lambda>s. map_of s (lit ''ts'')) snaps = map (\<lambda>i. Some (JInt (py_trunc (hs_now (fst (snd i)))))) is"
      "kept (mw_lists (snd (ticks R Q hn is (mc1, ?w2)))) (METRICS_SERIES (mc_instance_id mc))
        = take 8641 (rev (map (RJson \<circ> JObj) snaps) @ kept (mw_lists w1) (METRICS_SERIES (mc_instance_id mc)))"
      "look (mw_redis (snd (ticks R Q hn is (mc1, ?w2)))) (METRICS_LATEST (mc_instance_id mc))
        = Some (RJson (JObj (last snaps)), Some (120000 - 1000 * nat (mc_interval mc)))"
      "look (mw_redis (snd (ticks R Q hn is (mc1, ?w2)))) (HEARTBEAT (mc_instance_id mc))
        = Some (RJson (JObj (last snaps)), Some (60000 - 1000 * nat (mc_interval mc)))"
      by (elim exE conjE) (rule that; assumption)
    have "length snaps = length is" using arg_cong [OF IH(1), of length] by simp
    with False have ne: "snaps \<noteq> []" by auto
    have "kept (mw_lists (snd (ticks R Q hn is (mc1, ?w2)))) (METRICS_SERIES (mc_instance_id mc))
        = take 8641 (rev (map (RJson \<circ> JObj) (snap # snaps)) @ kept (mw_lists w) (METRICS_SERIES (mc_instance_id mc)))"
      unfolding IH(2) ser take_append_take by simp
    with IH ne ts i show ?thesis unfolding run by (intro exI [of _ "snap # snaps"]) (simp only: list.simps last.simps if_False fst_conv snd_conv)
  qed
qed simp

text \<open>
  If Redis is there in every round, the list of the collector holds the snapshots of the rounds before
  what it held, newest first and never more than 8641, and a request shows the newest of them: 361, 2161 or 8641 for
  an hour, six hours and a day (a round every ten seconds makes 360, 2160 and 8640), and the last snapshot as the
  current one. Up to the next round the check of the services sees the collector running.
\<close>

lemma metrics_window:
  assumes "redis_server R look watch_state" and "redis_lists Q kept"
    and "ticks R Q hostname rounds (mc, w) = (mc', w')" and "\<forall>i \<in> set rounds. \<not> redis_down (fst i)" and "rounds \<noteq> []"
    and "0 \<le> mc_interval mc" and "mc_interval mc < 60"
    and "kept (mw_lists w) (METRICS_SERIES (mc_instance_id mc)) = map RJson old"
  shows "\<exists>snaps. map (\<lambda>s. map_of s (lit ''ts'')) snaps = map (\<lambda>i. Some (JInt (py_trunc (hs_now (fst (snd i)))))) rounds
    \<and> length (kept (mw_lists w') (METRICS_SERIES (mc_instance_id mc))) \<le> 8641
    \<and> resources R Q (mc_instance_id mc) period w'
      = (JObj (last snaps), take (Suc (nat (period_points period))) (rev (map JObj snaps) @ old))
    \<and> check_redis_heartbeat R (mw_redis w') = (lit ''running'', 0)"
proof -
  let ?iid = "mc_instance_id mc"
  from ticks_up [OF assms(1,2,4-7), of hostname w] assms(3) obtain snaps where
    ts: "map (\<lambda>s. map_of s (lit ''ts'')) snaps = map (\<lambda>i. Some (JInt (py_trunc (hs_now (fst (snd i)))))) rounds"
    and ser: "kept (mw_lists w') (METRICS_SERIES ?iid) = take 8641 (map RJson (rev (map JObj snaps) @ old))"
    and latest: "look (mw_redis w') (METRICS_LATEST ?iid) = Some (RJson (JObj (last snaps)), Some (120000 - 1000 * nat (mc_interval mc)))"
    and hb: "look (mw_redis w') (HEARTBEAT ?iid) = Some (RJson (JObj (last snaps)), Some (60000 - 1000 * nat (mc_interval mc)))"
    using assms(8) by (auto simp: rev_map comp_def)
  have ld: "loaded (map RJson js) = js" for js by (simp add: loaded_def comp_def)
  have pp: "0 \<le> period_points period" "Suc (nat (period_points period)) \<le> 8641" by (simp_all add: period_points_def)
  have cut: "loaded (take n (take 8641 (map RJson js))) = take n js" if "n \<le> 8641" for n js
    using that by (simp add: min_def take_map ld)
  have "loaded (rl_range Q (mw_lists w') (METRICS_SERIES ?iid) 0 (period_points period))
      = take (Suc (nat (period_points period))) (rev (map JObj snaps) @ old)"
    unfolding redis_lists.range_lists [OF assms(2) pp(1)] ser by (rule cut [OF pp(2)])
  moreover have "r_get R (mw_redis w') (METRICS_LATEST ?iid) = Some (RJson (JObj (last snaps)))"
    by (simp add: redis_server.get_look [OF assms(1)] latest)
  moreover have "check_redis_heartbeat R (mw_redis w') = (lit ''running'', 0)"
  proof -
    have "HEARTBEAT ?iid \<in> set (r_scan R (mw_redis w') (lit ''rdp:heartbeat:'' @ lit ''*''))"
      using redis_server.scan_look [OF assms(1), of "lit ''rdp:heartbeat:''" "mw_redis w'"] hb
      by (simp add: HEARTBEAT_def starts_with_def lit_eval)
    moreover have "0 < r_ttl R (mw_redis w') (HEARTBEAT ?iid)"
      using assms(6,7) by (simp add: redis_server.ttl_look [OF assms(1)] hb ttl_of_pos)
    ultimately show ?thesis by (auto simp: check_redis_heartbeat_def list_ex_iff lit_eval)
  qed
  ultimately show ?thesis using ts ser by (intro exI [of _ snaps]) (simp add: resources_def)
qed

section \<open>The table of nodes and the view of the cluster\<close>

text \<open>What holds of the state through every round, whatever fails.\<close>

definition nodes_inv :: "('db \<Rightarrow> rlook) \<Rightarrow> ClusterNode list \<Rightarrow> ('db, 'l) metrics_world \<Rightarrow> bool" where
  "nodes_inv look before w \<longleftrightarrow> (\<forall>k. starts_with (lit ''rdp:node:'') k \<longrightarrow> look (mw_redis w) k = None)
     \<and> distinct (map cn_instance_id (mw_nodes w))
     \<and> (\<forall>n \<in> set before. \<exists>n' \<in> set (mw_nodes w). cn_instance_id n' = cn_instance_id n \<and> cn_registered_at n' = cn_registered_at n)"

lemma not_node_key:
  "\<not> starts_with (lit ''rdp:node:'') (METRICS_LATEST iid)" "\<not> starts_with (lit ''rdp:node:'') (HEARTBEAT iid)"
  by (simp_all add: starts_with_def METRICS_LATEST_def HEARTBEAT_def lit_eval)

lemma upsert_node_ids:
  "map cn_instance_id (upsert_node n ns)
    = (if cn_instance_id n \<in> cn_instance_id ` set ns then map cn_instance_id ns else map cn_instance_id ns @ [cn_instance_id n])"
  by (simp add: upsert_node_def)

lemma upsert_node_in: "\<exists>r. n\<lparr>cn_registered_at := r\<rparr> \<in> set (upsert_node n ns)"
proof (cases "cn_instance_id n \<in> cn_instance_id ` set ns")
  case True
  then obtain x where "x \<in> set ns" "cn_instance_id x = cn_instance_id n" by auto
  with True show ?thesis by (intro exI [of _ "cn_registered_at x"]) (auto simp: upsert_node_def intro!: rev_image_eqI [of x])
next
  case False
  then show ?thesis by (intro exI [of _ "cn_registered_at n"]) (simp add: upsert_node_def)
qed

lemma upsert_node_registered:
  "x \<in> set ns \<Longrightarrow> \<exists>x' \<in> set (upsert_node n ns). cn_instance_id x' = cn_instance_id x \<and> cn_registered_at x' = cn_registered_at x"
proof (cases "cn_instance_id n \<in> cn_instance_id ` set ns")
  case True
  assume "x \<in> set ns"
  with True have "(if cn_instance_id x = cn_instance_id n then n\<lparr>cn_registered_at := cn_registered_at x\<rparr> else x) \<in> set (upsert_node n ns)"
    by (simp add: upsert_node_def)
  then show ?thesis by (rule rev_bexI) simp
next
  case False
  assume "x \<in> set ns"
  with False show ?thesis by (auto simp: upsert_node_def)
qed

lemma heartbeat_inv: "nodes_inv look before w \<Longrightarrow> nodes_inv look before (snd (heartbeat_pg f hn t mc snap w))"
proof -
  assume inv: "nodes_inv look before w"
  have "nodes_inv look before (w\<lparr>mw_nodes := upsert_node n (mw_nodes w)\<rparr>)" for n
  proof -
    have "distinct (map cn_instance_id (upsert_node n (mw_nodes w)))"
      using inv by (simp add: nodes_inv_def upsert_node_ids del: map_map)
    moreover have "\<exists>x' \<in> set (upsert_node n (mw_nodes w)). cn_instance_id x' = cn_instance_id x \<and> cn_registered_at x' = cn_registered_at x"
      if "x \<in> set before" for x
      using that inv upsert_node_registered [of _ "mw_nodes w" n] by (fastforce simp: nodes_inv_def)
    ultimately show ?thesis using inv by (simp add: nodes_inv_def)
  qed
  with inv show ?thesis by (simp add: heartbeat_pg_def Let_def split: option.split)
qed

lemma tick_inv:
  assumes "redis_server R look watch_state" and "redis_lists Q kept" and "nodes_inv look before w"
  shows "nodes_inv look before (snd (tick R Q hn i (mc, w)))"
proof -
  obtain f h t where i: "i = (f, h, t)" by (cases i)
  obtain snap mc' where s: "snapshot h (count_active_sessions R (redis_down f) (mw_redis w)) mc = (snap, mc')" by fastforce
  show ?thesis
  proof (cases "redis_down f")
    case True
    with i s assms(3) show ?thesis by (simp add: tick_def rd_simps publish_redis_def)
  next
    case False
    obtain w' where w': "publish_redis R Q False (mc_instance_id mc) snap w = (Inr (), w')" "mw_nodes w' = mw_nodes w"
      "look (mw_redis w') = (look (mw_redis w))(METRICS_LATEST (mc_instance_id mc) \<mapsto> (RJson (JObj snap), Some 120000),
          HEARTBEAT (mc_instance_id mc) \<mapsto> (RJson (JObj snap), Some 60000))"
      using publish_up [OF assms(1,2)] by blast
    then have "nodes_inv look before w'" using assms(3) not_node_key by (auto simp: nodes_inv_def)
    with i s w'(1) False show ?thesis by (simp add: tick_def rd_simps heartbeat_inv)
  qed
qed

lemma ticks_inv:
  assumes "redis_server R look watch_state" and "redis_lists Q kept" and "nodes_inv look before w"
  shows "nodes_inv look before (snd (ticks R Q hn is (mc, w)))
    \<and> mc_instance_id (fst (ticks R Q hn is (mc, w))) = mc_instance_id mc \<and> mc_lan_ip (fst (ticks R Q hn is (mc, w))) = mc_lan_ip mc"
  using assms(3)
proof (induction "is" arbitrary: mc w)
  case (Cons i "is")
  obtain mc1 w1 where tk: "tick R Q hn i (mc, w) = (mc1, w1)" by fastforce
  have "nodes_inv look before w1" using tick_inv [OF assms(1,2) Cons.prems, of hn i mc] tk by simp
  then have "nodes_inv look before (w1\<lparr>mw_redis := r_step R (mw_redis w1) (IWait n)\<rparr>)" for n
    by (simp add: nodes_inv_def redis_server.wait_look [OF assms(1)])
  moreover have "mc_instance_id mc1 = mc_instance_id mc" "mc_lan_ip mc1 = mc_lan_ip mc"
    using tk by (auto simp: tick_def snapshot_def case_prod_beta split: prod.splits)
  ultimately show ?case using Cons.IH [of _ mc1] tk by simp
qed simp

lemma ticks_append: "ticks R Q hn (is @ js) s = ticks R Q hn js (ticks R Q hn is s)"
  by (induction "is" arbitrary: s) (simp_all split: prod.split)

text \<open>
  C40: The collector keeps one row for each node in the table, with the time of its last round and the time of
  its registration for good, but none of its rounds, whatever fails in them, creates a key that the cluster
  and service routes look for: with no such key before, the lists of nodes and services stay empty and no node
  is found, even right after a round in which everything worked. The services that a node reports are
  texts, and the list of services would raise on them.
\<close>

theorem nodes_never_listed:
  assumes "redis_server R look watch_state" and "redis_lists Q kept"
    and "\<forall>k. starts_with (lit ''rdp:node:'') k \<longrightarrow> look (mw_redis w) k = None"
    and "distinct (map cn_instance_id (mw_nodes w))"
    and "ticks R Q hostname (rounds @ [(\<lparr>redis_down = False, db_fault = None\<rparr>, h, now)]) (mc, w) = (mc', w')"
    and "length (mc_instance_id mc) \<le> 64" and "length hostname \<le> 255" and "length (mc_lan_ip mc) \<le> 45"
  shows "list_nodes R (mw_redis w') = [] \<and> list_services R (mw_redis w') = Inr []
    \<and> get_node R x (mw_redis w') = node_error ''Node not found''
    \<and> distinct (map cn_instance_id (mw_nodes w'))
    \<and> (\<forall>n \<in> set (mw_nodes w). \<exists>n' \<in> set (mw_nodes w'). cn_instance_id n' = cn_instance_id n \<and> cn_registered_at n' = cn_registered_at n)
    \<and> (\<exists>n \<in> set (mw_nodes w'). cn_instance_id n = mc_instance_id mc \<and> cn_last_heartbeat n = now
        \<and> \<not> is_ok (node_services k (JObj [(lit ''services'', JObj (cn_services n))])))"
proof -
  have inv0: "nodes_inv look (mw_nodes w) w" using assms(3,4) by (auto simp: nodes_inv_def)
  let ?is = "rounds @ [(\<lparr>redis_down = False, db_fault = None\<rparr>, h, now)]"
  from ticks_inv [OF assms(1,2) inv0, of hostname ?is mc] assms(5)
  have inv: "nodes_inv look (mw_nodes w) w'" by simp
  have none: "look (mw_redis w') k = None" if "starts_with (lit ''rdp:node:'') k" for k
    using inv that by (simp add: nodes_inv_def)
  have "NODE_SCAN = lit ''rdp:node:'' @ lit ''*''" by (simp add: NODE_SCAN_def lit_eval)
  then have "set (r_scan R (mw_redis w') NODE_SCAN) = {}"
    using redis_server.scan_look [OF assms(1), of "lit ''rdp:node:''" "mw_redis w'"] none by (auto simp: lit_eval)
  moreover have "r_get R (mw_redis w') (NODE x) = None"
    using none [of "NODE x"] by (simp add: redis_server.get_look [OF assms(1)] NODE_def starts_with_append)
  moreover have "\<exists>n \<in> set (mw_nodes w'). cn_instance_id n = mc_instance_id mc \<and> cn_last_heartbeat n = now \<and> cn_services n = detect_services"
  proof -
    obtain mc1 w1 where t1: "ticks R Q hostname rounds (mc, w) = (mc1, w1)" by fastforce
    with ticks_inv [OF assms(1,2) inv0, of hostname rounds mc]
    have id1: "mc_instance_id mc1 = mc_instance_id mc" "mc_lan_ip mc1 = mc_lan_ip mc" by simp_all
    obtain snap mc2 where s: "snapshot h (count_active_sessions R False (mw_redis w1)) mc1 = (snap, mc2)" by fastforce
    then have id2: "mc_instance_id mc2 = mc_instance_id mc" "mc_lan_ip mc2 = mc_lan_ip mc"
      using id1 by (auto simp: snapshot_def case_prod_beta)
    obtain w2 where p: "publish_redis R Q False (mc_instance_id mc1) snap w1 = (Inr (), w2)" using publish_up [OF assms(1,2)] by blast
    let ?n = "\<lparr>cn_instance_id = mc_instance_id mc, cn_hostname = hostname, cn_ip = mc_lan_ip mc, cn_services = detect_services,
              cn_resources = filter (\<lambda>f. fst f \<notin> {lit ''ts'', lit ''instance_id''}) snap, cn_last_heartbeat = now, cn_registered_at = now\<rparr>"
    have "mw_nodes w' = upsert_node ?n (mw_nodes w2)"
      using assms(5-8) t1 s p id2 by (auto simp: ticks_append tick_def rd_simps heartbeat_pg_def node_fits_def)
    with upsert_node_in [of ?n "mw_nodes w2"] show ?thesis by (auto intro: rev_bexI)
  qed
  moreover have "\<not> is_ok (node_services k (JObj [(lit ''services'', JObj detect_services)]))"
    by (simp add: node_services_def detect_services_def)
  ultimately show ?thesis using inv by (auto simp: list_nodes_def list_services_def get_node_def nodes_inv_def)
qed

definition ref_host :: "int \<Rightarrow> host_sample" where
  "ref_host t = \<lparr>hs_now = of_int t, hs_net_dev = None, hs_net_counters = (10 * t, 5 * t), hs_cpu_percent = 3, hs_cpu_count = Some 4,
     hs_load = (1, 1, 1), hs_mem = (100, 50, 50), hs_swap = (0, 0, 0), hs_disk = (100, 20, 20)\<rparr>"

definition ref_collector :: MetricsCollector where
  "ref_collector = new_collector (lit ''n1'') (lit ''10.0.0.1'') 10 (lit ''cpu'') None"

definition ref_metrics_world :: "(mem_db, ustr \<Rightarrow> rval list) metrics_world" where
  "ref_metrics_world = \<lparr>mw_redis = empty_db, mw_lists = (\<lambda>_. []), mw_nodes = []\<rparr>"

definition ref_round :: "int \<Rightarrow> tick_faults \<times> host_sample \<times> int" where
  "ref_round t = (\<lparr>redis_down = False, db_fault = None\<rparr>, ref_host t, t)"

lemma metrics_window_witness:
  "\<exists>snaps. length snaps = 2
    \<and> resources mem_redis mem_lists (lit ''n1'') (lit ''1h'') (snd (ticks mem_redis mem_lists (lit ''host'') [ref_round 100, ref_round 110]
        (ref_collector, ref_metrics_world))) = (JObj (last snaps), rev (map JObj snaps))"
proof -
  let ?is = "[ref_round 100, ref_round 110]"
  obtain mc' w' where run: "ticks mem_redis mem_lists (lit ''host'') ?is (ref_collector, ref_metrics_world) = (mc', w')" by fastforce
  have c: "\<forall>i \<in> set ?is. \<not> redis_down (fst i)" "?is \<noteq> []" "0 \<le> mc_interval ref_collector" "mc_interval ref_collector < 60"
    "mw_lists ref_metrics_world (METRICS_SERIES (mc_instance_id ref_collector)) = map RJson []"
    by (simp_all add: ref_round_def ref_collector_def new_collector_def ref_metrics_world_def)
  obtain snaps where snaps: "map (\<lambda>s. map_of s (lit ''ts'')) snaps = map (\<lambda>i. Some (JInt (py_trunc (hs_now (fst (snd i)))))) ?is"
    "resources mem_redis mem_lists (mc_instance_id ref_collector) (lit ''1h'') w'
      = (JObj (last snaps), take (Suc (nat (period_points (lit ''1h'')))) (rev (map JObj snaps) @ []))"
    using metrics_window [where kept = "\<lambda>l. l" and period = "lit ''1h''", OF mem.redis_server_axioms mem_list.redis_lists_axioms run c] by blast
  have "length snaps = 2" using arg_cong [OF snaps(1), of length] by simp
  moreover have "mc_instance_id ref_collector = lit ''n1''" by (simp add: ref_collector_def new_collector_def)
  ultimately show ?thesis using snaps(2) run by (intro exI [of _ snaps]) (simp add: period_points_def)
qed

theorem nodes_never_listed_witness:
  "list_nodes mem_redis (mw_redis (snd (ticks mem_redis mem_lists (lit ''host'') [ref_round 100, ref_round 110] (ref_collector, ref_metrics_world)))) = []"
proof -
  obtain mc' w' where run: "ticks mem_redis mem_lists (lit ''host'') ([ref_round 100] @ [(\<lparr>redis_down = False, db_fault = None\<rparr>, ref_host 110, 110)])
      (ref_collector, ref_metrics_world) = (mc', w')" by fastforce
  have c: "\<forall>k. starts_with (lit ''rdp:node:'') k \<longrightarrow> mem_look (mw_redis ref_metrics_world) k = None"
    "distinct (map cn_instance_id (mw_nodes ref_metrics_world))"
    by (simp_all add: ref_metrics_world_def empty_db_def mem_look_def)
  have l: "length (mc_instance_id ref_collector) \<le> 64" "length (lit ''host'') \<le> 255" "length (mc_lan_ip ref_collector) \<le> 45"
    by (simp_all add: ref_collector_def new_collector_def length_lit)
  from nodes_never_listed [OF mem.redis_server_axioms mem_list.redis_lists_axioms c run l] run show ?thesis
    by (simp add: ref_round_def)
qed

end
