(* ===== verification/Relay_Session.thy ===== *)
theory Relay_Session
  imports Rdp_Handler
begin

text \<open>
  The two-way relay of a connection (\<^verbatim>\<open>relay_bidirectional\<close> and \<^verbatim>\<open>_kill_poller\<close> of
  \<^verbatim>\<open>src/services/rdp_relay/relay.py\<close>) as a transition system. Its
  steps are what the event loop runs without giving control away: a pump between two awaits, one
  answer of the kill check, the end of the wait for the first pump, and the return. Which of them comes next, and
  what the streams bring, is the label of the step. Every pump keeps the turns of its loop, as the
  sequential model \<open>pipe\<close> takes them.
\<close>

section \<open>Pumps\<close>

datatype leg_pc = NotStarted | Reading | Draining | LegDone LegResult

record relay_leg =
  leg_pc :: leg_pc
  leg_turns :: "turn list"
  leg_moved :: nat
  leg_sent :: "bytes list"

text \<open>
  What wakes a pump: its first run, a chunk (with the time of the packet, whether the buffer of the writer
  is then above its mark, and an error of the write), the end of the stream, an error, and the end of waiting for the buffer.
\<close>

datatype leg_event = Start | Data int bytes bool "exn option" | EndOfStream | ReadFails exn | Drained | DrainFails exn

definition leg_end :: "direction \<Rightarrow> leg_reason \<Rightarrow> turn list \<Rightarrow> relay_leg \<Rightarrow> relay_leg" where
  "leg_end d reason ts g = g\<lparr>leg_pc := LegDone \<lparr>leg_direction = d, transferred = leg_moved g, leg_reason = reason\<rparr>, leg_turns := ts\<rparr>"

text \<open>The head of the loop: the kill event ends the pump, else it waits for a chunk.\<close>

definition loop_head :: "bool option \<Rightarrow> direction \<Rightarrow> relay_leg \<Rightarrow> relay_leg" where
  "loop_head kill d g =
    (if kill = Some True then leg_end d Killed (leg_turns g @ [\<lparr>kill_set = True, clock = 0, chunk = Inr [], write_error = None\<rparr>]) g
     else g\<lparr>leg_pc := Reading\<rparr>)"

text \<open>A chunk is counted and written; an aborted writer (\<open>is_open\<close> is false) drops it.\<close>

definition leg_data :: "SessionContext \<Rightarrow> bool option \<Rightarrow> bool \<Rightarrow> direction \<Rightarrow> int \<Rightarrow> bytes \<Rightarrow> bool \<Rightarrow> exn option
    \<Rightarrow> relay_leg \<Rightarrow> plugin list \<Rightarrow> relay_leg \<times> plugin list" where
  "leg_data ctx kill is_open d now data high werr g ps =
    (case (if d = ClientToBackend then on_client_packet now ctx ps data else on_backend_packet now ctx ps data) of
      (out, ps') \<Rightarrow>
        let ts = leg_turns g @ [\<lparr>kill_set = False, clock = now, chunk = Inr data, write_error = werr\<rparr>];
            g' = g\<lparr>leg_turns := ts, leg_moved := leg_moved g + length out, leg_sent := leg_sent g @ (if is_open then [out] else [])\<rparr>
        in (case werr of
              Some e \<Rightarrow> leg_end d (reason_of e) ts g'
            | None \<Rightarrow> if high then g'\<lparr>leg_pc := Draining\<rparr> else loop_head kill d g', ps'))"

fun leg_next :: "SessionContext \<Rightarrow> bool option \<Rightarrow> bool \<Rightarrow> direction \<Rightarrow> leg_event \<Rightarrow> relay_leg \<Rightarrow> plugin list
    \<Rightarrow> (relay_leg \<times> plugin list) option" where
  "leg_next ctx kill is_open d Start g ps =
     (if leg_pc g = NotStarted then Some (loop_head kill d g, ps) else None)"
| "leg_next ctx kill is_open d (Data now data high werr) g ps =
     (if leg_pc g = Reading \<and> data \<noteq> [] then Some (leg_data ctx kill is_open d now data high werr g ps) else None)"
| "leg_next ctx kill is_open d EndOfStream g ps =
     (if leg_pc g = Reading
      then Some (leg_end d Eof (leg_turns g @ [\<lparr>kill_set = False, clock = 0, chunk = Inr [], write_error = None\<rparr>]) g, ps) else None)"
| "leg_next ctx kill is_open d (ReadFails e) g ps =
     (if leg_pc g = Reading
      then Some (leg_end d (reason_of e) (leg_turns g @ [\<lparr>kill_set = False, clock = 0, chunk = Inl e, write_error = None\<rparr>]) g, ps) else None)"
| "leg_next ctx kill is_open d Drained g ps =
     (if leg_pc g = Draining then Some (loop_head kill d g, ps) else None)"
| "leg_next ctx kill is_open d (DrainFails e) g ps =
     (if leg_pc g = Draining
      then Some (leg_end d (reason_of e) (butlast (leg_turns g) @ [(last (leg_turns g))\<lparr>write_error := Some e\<rparr>]) g, ps) else None)"

section \<open>The relay\<close>

datatype main_pc = Waiting | Closing | Returned RelayResult

record relay_state =
  rs_leg :: "direction \<Rightarrow> relay_leg"
  rs_kill :: "bool option"
  rs_poller :: bool
  rs_main :: main_pc
  rs_plugins :: "plugin list"

text \<open>Without a kill check there is neither event nor poller.\<close>

definition relay_start :: "bool \<Rightarrow> plugin list \<Rightarrow> relay_state" where
  "relay_start checker ps =
    \<lparr>rs_leg = (\<lambda>_. \<lparr>leg_pc = NotStarted, leg_turns = [], leg_moved = 0, leg_sent = []\<rparr>),
     rs_kill = (if checker then Some False else None), rs_poller = checker, rs_main = Waiting, rs_plugins = ps\<rparr>"

text \<open>An exception of the check ends the task of the poller, unseen.\<close>

fun poll :: "bool result \<Rightarrow> relay_state \<Rightarrow> relay_state" where
  "poll (Inr True) s = s\<lparr>rs_kill := Some True, rs_poller := False\<rparr>"
| "poll (Inr False) s = s"
| "poll (Inl e) s = s\<lparr>rs_poller := False\<rparr>"

lemma poll_frame [simp]:
  "rs_main (poll r s) = rs_main s" "rs_leg (poll r s) = rs_leg s" "rs_plugins (poll r s) = rs_plugins s"
  by (cases "(r, s)" rule: poll.cases; simp)+

fun leg_result :: "relay_leg \<Rightarrow> LegResult option" where
  "leg_result g = (case leg_pc g of LegDone r \<Rightarrow> Some r | _ \<Rightarrow> None)"

text \<open>The first pump that ends makes the relay set the event, cancel the poller and abort both writers.\<close>

definition close_relay :: "relay_state \<Rightarrow> relay_state option" where
  "close_relay s =
    (if rs_main s = Waiting \<and> (leg_result (rs_leg s ClientToBackend) \<noteq> None \<or> leg_result (rs_leg s BackendToClient) \<noteq> None)
     then Some (s\<lparr>rs_kill := map_option (\<lambda>_. True) (rs_kill s), rs_poller := False, rs_main := Closing\<rparr>) else None)"

definition return_relay :: "relay_state \<Rightarrow> relay_state option" where
  "return_relay s = (case (rs_main s, leg_result (rs_leg s ClientToBackend), leg_result (rs_leg s BackendToClient)) of
      (Closing, Some a, Some b) \<Rightarrow> Some (s\<lparr>rs_main := Returned (relay_result [Inr a, Inr b])\<rparr>)
    | _ \<Rightarrow> None)"

datatype relay_label = Leg direction leg_event | Poll "bool result" | Close | Return

fun relay_next :: "SessionContext \<Rightarrow> relay_label \<Rightarrow> relay_state \<Rightarrow> relay_state option" where
  "relay_next ctx (Leg d e) s =
     (case leg_next ctx (rs_kill s) (rs_main s = Waiting) d e (rs_leg s d) (rs_plugins s) of
        None \<Rightarrow> None
      | Some (g, ps) \<Rightarrow> Some (s\<lparr>rs_leg := (rs_leg s)(d := g), rs_plugins := ps\<rparr>))"
| "relay_next ctx (Poll r) s = (if rs_poller s \<and> rs_kill s = Some False then Some (poll r s) else None)"
| "relay_next ctx Close s = close_relay s"
| "relay_next ctx Return s = return_relay s"

fun relay_run :: "SessionContext \<Rightarrow> relay_label list \<Rightarrow> relay_state \<Rightarrow> relay_state option" where
  "relay_run ctx [] s = Some s"
| "relay_run ctx (l # ls) s = (case relay_next ctx l s of None \<Rightarrow> None | Some s' \<Rightarrow> relay_run ctx ls s')"

lemma relay_run_append:
  "relay_run ctx (ls @ ms) s = (case relay_run ctx ls s of None \<Rightarrow> None | Some s' \<Rightarrow> relay_run ctx ms s')"
  by (induction ls arbitrary: s) (auto split: option.split)

text \<open>What holds at the start and is kept by every step holds after every run.\<close>

lemma relay_run_invariant:
  assumes "relay_run ctx ls s = Some s'" and "I s" and "\<And>l s s'. I s \<Longrightarrow> relay_next ctx l s = Some s' \<Longrightarrow> I s'"
  shows "I s'"
  using assms(1,2)
proof (induction ls arbitrary: s)
  case (Cons l ls)
  then show ?case using assms(3) by (auto split: option.splits)
qed simp

section \<open>A pump and its sequential model\<close>

definition open_turn :: "turn \<Rightarrow> bool" where
  "open_turn t \<longleftrightarrow> \<not> kill_set t \<and> (\<exists>x xs. chunk t = Inr (x # xs)) \<and> write_error t = None"

definition turn_reason :: "turn \<Rightarrow> leg_reason" where
  "turn_reason t = (if kill_set t then Killed else case chunk t of
      Inl e \<Rightarrow> reason_of e
    | Inr data \<Rightarrow> if data = [] then Eof else (case write_error t of Some e \<Rightarrow> reason_of e | None \<Rightarrow> Eof))"

lemma pipe_reason:
  "list_all open_turn ts \<Longrightarrow> leg_reason (fst (snd (pipe d ctx (ts @ [t]) ps n))) = turn_reason t"
proof (induction ts arbitrary: ps n)
  case Nil
  show ?case
    by (auto simp: turn_reason_def neq_Nil_conv split: sum.split option.split prod.split list.split)
next
  case (Cons u ts)
  then obtain x xs where u: "\<not> kill_set u" "chunk u = Inr (x # xs)" "write_error u = None" by (auto simp: open_turn_def)
  with Cons show ?case by (auto split: prod.split) (metis fst_conv snd_conv)+
qed

lemma chunks_append: "list_all open_turn ts \<Longrightarrow> chunks (ts @ us) = chunks ts @ chunks us"
  by (induction ts) (auto simp: open_turn_def)

lemma chunks_write_error: "list_all open_turn ts \<Longrightarrow> open_turn t \<Longrightarrow> chunks (ts @ [t\<lparr>write_error := w\<rparr>]) = chunks (ts @ [t])"
  by (auto simp: chunks_append) (auto simp: open_turn_def)

definition leg_inv :: "direction \<Rightarrow> relay_leg \<Rightarrow> bool" where
  "leg_inv d g \<longleftrightarrow> leg_moved g = length (concat (chunks (leg_turns g)))
     \<and> (case leg_pc g of
         NotStarted \<Rightarrow> leg_turns g = []
       | Reading \<Rightarrow> list_all open_turn (leg_turns g)
       | Draining \<Rightarrow> leg_turns g \<noteq> [] \<and> list_all open_turn (leg_turns g)
       | LegDone r \<Rightarrow> \<exists>ts t. leg_turns g = ts @ [t] \<and> list_all open_turn ts \<and> r = \<lparr>leg_direction = d, transferred = leg_moved g, leg_reason = turn_reason t\<rparr>)"

lemma leg_inv_pipe:
  assumes "leg_inv d g" and "leg_pc g = LegDone r"
  shows "r = fst (snd (pipe d ctx (leg_turns g) ps 0))"
proof -
  obtain ts t where g: "leg_turns g = ts @ [t]" "list_all open_turn ts" "r = \<lparr>leg_direction = d, transferred = leg_moved g, leg_reason = turn_reason t\<rparr>"
    "leg_moved g = length (concat (chunks (leg_turns g)))"
    using assms by (auto simp: leg_inv_def)
  obtain out q ps' where p: "pipe d ctx (ts @ [t]) ps 0 = (out, q, ps')" by (metis prod_cases3)
  with pipe_transferred [where dir = d and ctx = ctx and ts = "ts @ [t]" and ps = ps and n = 0] pipe_reason [OF g(2), of d ctx t ps 0] g show ?thesis
    by (auto intro!: LegResult.equality)
qed

lemma leg_inv_done: "leg_inv d g \<Longrightarrow> leg_pc g = LegDone r \<Longrightarrow> leg_direction r = d \<and> transferred r = leg_moved g"
  by (auto simp: leg_inv_def)

text \<open>One step of a pump.\<close>

definition hook :: "direction \<Rightarrow> int \<Rightarrow> SessionContext \<Rightarrow> plugin list \<Rightarrow> bytes \<Rightarrow> bytes \<times> plugin list" where
  "hook d now ctx ps data = (if d = ClientToBackend then on_client_packet now ctx ps data else on_backend_packet now ctx ps data)"

lemma hook_length: "length (fst (hook d now ctx ps data)) = length data"
  using client_hook.chain_length backend_hook.chain_length by (simp add: hook_def on_client_packet_def on_backend_packet_def)

lemma loop_head_inv:
  assumes "list_all open_turn (leg_turns g)" and "leg_moved g = length (concat (chunks (leg_turns g)))"
  shows "leg_inv d (loop_head kill d g)"
  using assms by (auto simp: loop_head_def leg_end_def leg_inv_def chunks_append turn_reason_def)

lemma loop_head_turns:
  "list_all open_turn (leg_turns g) \<Longrightarrow> chunks (leg_turns (loop_head kill d g)) = chunks (leg_turns g)"
  by (simp add: loop_head_def leg_end_def chunks_append)

lemma loop_head_sent [simp]: "leg_sent (loop_head kill d g) = leg_sent g"
  by (simp add: loop_head_def leg_end_def)

lemma leg_data_step:
  assumes "leg_inv d g" and "leg_pc g = Reading" and "data \<noteq> []"
  shows "case leg_data ctx kill is_open d now data high werr g ps of (g', ps') \<Rightarrow>
    leg_inv d g' \<and> chunks (leg_turns g') = chunks (leg_turns g) @ [data] \<and> ps' = snd (hook d now ctx ps data)
    \<and> leg_sent g' = leg_sent g @ (if is_open then [fst (hook d now ctx ps data)] else [])"
proof -
  let ?t = "\<lparr>kill_set = False, clock = now, chunk = Inr data, write_error = werr\<rparr>"
  obtain out ps' where h: "hook d now ctx ps data = (out, ps')" by force
  then have len: "length out = length data" using hook_length [of d now ctx ps data] by simp
  have ts: "list_all open_turn (leg_turns g)" "leg_moved g = length (concat (chunks (leg_turns g)))" using assms by (auto simp: leg_inv_def)
  have c: "chunks (leg_turns g @ [?t]) = chunks (leg_turns g) @ [data]" using assms(3) ts by (cases data) (simp_all add: chunks_append)
  let ?g = "g\<lparr>leg_turns := leg_turns g @ [?t], leg_moved := leg_moved g + length out, leg_sent := leg_sent g @ (if is_open then [out] else [])\<rparr>"
  have o: "list_all open_turn (leg_turns ?g)" if "werr = None" using that ts assms(3) by (cases data) (auto simp: open_turn_def)
  have m: "leg_moved ?g = length (concat (chunks (leg_turns ?g)))" using c ts len by simp
  show ?thesis
  proof (cases werr)
    case None
    have "leg_inv d (loop_head kill d ?g)" by (rule loop_head_inv [OF o [OF None] m])
    moreover have "leg_inv d (?g\<lparr>leg_pc := Draining\<rparr>)" using o [OF None] m by (simp add: leg_inv_def)
    ultimately show ?thesis
      using h None c loop_head_turns [OF o [OF None], of kill d] by (simp add: leg_data_def hook_def [symmetric] Let_def)
  next
    case (Some e)
    have "turn_reason ?t = reason_of e" using assms(3) Some by (simp add: turn_reason_def)
    then have "leg_inv d (leg_end d (reason_of e) (leg_turns g @ [?t]) ?g)"
      using ts(1) m by (auto simp: leg_end_def leg_inv_def intro!: exI [of _ "leg_turns g"])
    with Some h c show ?thesis by (simp add: leg_data_def hook_def [symmetric] Let_def leg_end_def)
  qed
qed

text \<open>A step of a pump keeps its invariant and forwards at most one chunk.\<close>

definition forwards :: "SessionContext \<Rightarrow> bool \<Rightarrow> direction \<Rightarrow> bytes list \<Rightarrow> relay_leg \<Rightarrow> plugin list \<Rightarrow> relay_leg \<Rightarrow> plugin list \<Rightarrow> bool" where
  "forwards ctx is_open d cs g ps g' ps' \<longleftrightarrow> chunks (leg_turns g') = chunks (leg_turns g) @ cs
    \<and> (cs = [] \<and> ps' = ps \<and> leg_sent g' = leg_sent g
       \<or> (\<exists>now data. cs = [data] \<and> ps' = snd (hook d now ctx ps data)
            \<and> leg_sent g' = leg_sent g @ (if is_open then [fst (hook d now ctx ps data)] else [])))"

lemma leg_next_step:
  assumes "leg_next ctx kill is_open d e g ps = Some (g', ps')" and "leg_inv d g"
  shows "leg_inv d g' \<and> (\<exists>cs. forwards ctx is_open d cs g ps g' ps')"
proof (cases e)
  case Start
  with assms have "leg_turns g = []" "g' = loop_head kill d g" "ps' = ps" by (auto simp: leg_inv_def split: if_splits)
  then show ?thesis using assms(2) loop_head_inv [of g d kill] loop_head_turns [of g kill d]
    by (auto simp: leg_inv_def forwards_def intro!: exI [of _ "[]"])
next
  case (Data now data high werr)
  with assms have g: "leg_pc g = Reading" "data \<noteq> []" "leg_data ctx kill is_open d now data high werr g ps = (g', ps')"
    by (auto split: if_splits)
  from leg_data_step [OF assms(2) g(1,2), where ctx = ctx and kill = kill and is_open = is_open and now = now and high = high and werr = werr and ps = ps] g(3) show ?thesis
    by (auto simp: forwards_def intro!: exI [of _ "[data]"])
next
  case EndOfStream
  with assms show ?thesis
    by (auto simp: leg_inv_def leg_end_def forwards_def chunks_append turn_reason_def split: if_splits intro!: exI [of _ "[]"])
next
  case (ReadFails x)
  with assms show ?thesis
    by (auto simp: leg_inv_def leg_end_def forwards_def chunks_append turn_reason_def split: if_splits intro!: exI [of _ "[]"])
next
  case Drained
  with assms have g: "list_all open_turn (leg_turns g)" "leg_moved g = length (concat (chunks (leg_turns g)))" "g' = loop_head kill d g" "ps' = ps"
    by (auto simp: leg_inv_def split: if_splits)
  then show ?thesis using loop_head_inv [of g d kill] loop_head_turns [of g kill d] by (auto simp: forwards_def intro!: exI [of _ "[]"])
next
  case (DrainFails x)
  with assms have g: "leg_turns g \<noteq> []" "list_all open_turn (leg_turns g)" "leg_moved g = length (concat (chunks (leg_turns g)))" "ps' = ps"
    "g' = leg_end d (reason_of x) (butlast (leg_turns g) @ [(last (leg_turns g))\<lparr>write_error := Some x\<rparr>]) g"
    by (auto simp: leg_inv_def split: if_splits)
  from g(1) obtain ts t where t: "leg_turns g = ts @ [t]" by (metis append_butlast_last_id)
  with g(2) have o: "list_all open_turn ts" "open_turn t" by simp_all
  then have "turn_reason (t\<lparr>write_error := Some x\<rparr>) = reason_of x" by (auto simp: open_turn_def turn_reason_def)
  with g t o chunks_write_error [OF o, of "Some x"] show ?thesis
    by (auto simp: leg_inv_def leg_end_def forwards_def intro!: exI [of _ "[]"] exI [of _ ts] exI [of _ "t\<lparr>write_error := Some x\<rparr>"])
qed

section \<open>The invariant of the relay\<close>

definition patched :: "SessionContext \<Rightarrow> direction \<Rightarrow> bytes list \<Rightarrow> bytes list" where
  "patched ctx d cs = (if d = ClientToBackend then patched_by_client True cs else patched_by_server ctx True cs)"

definition plugins_inv :: "relay_state \<Rightarrow> bool" where
  "plugins_inv s \<longleftrightarrow> (\<exists>a b c. rs_plugins s = [McsPatch a, SessionMonitor b, ConnectionQuality c]
     \<and> client_first a = (chunks (leg_turns (rs_leg s ClientToBackend)) = [])
     \<and> backend_first a = (chunks (leg_turns (rs_leg s BackendToClient)) = []))"

definition relay_inv :: "SessionContext \<Rightarrow> relay_state \<Rightarrow> bool" where
  "relay_inv ctx s \<longleftrightarrow> (\<forall>d. leg_inv d (rs_leg s d)) \<and> plugins_inv s
     \<and> (\<forall>d. \<exists>rest. patched ctx d (chunks (leg_turns (rs_leg s d))) = leg_sent (rs_leg s d) @ rest \<and> (rs_main s = Waiting \<longrightarrow> rest = []))
     \<and> (case rs_main s of Returned res \<Rightarrow> \<exists>a b. leg_pc (rs_leg s ClientToBackend) = LegDone a \<and> leg_pc (rs_leg s BackendToClient) = LegDone b
          \<and> res = relay_result [Inr a, Inr b] | _ \<Rightarrow> True)"

lemma patched_hook:
  assumes "rs_plugins s = [McsPatch a, SessionMonitor b, ConnectionQuality c]"
    and "(if d = ClientToBackend then client_first a else backend_first a) = (cs = [])"
  shows "patched ctx d (cs @ [data]) = patched ctx d cs @ [fst (hook d now ctx (rs_plugins s) data)]"
  using assms by (cases d; cases cs)
    (auto simp: patched_def patched_by_client_def patched_by_server_def hook_def on_client_packet_service on_backend_packet_service split: sum.split)

lemma hook_plugins:
  "snd (hook d now ctx [McsPatch a, SessionMonitor b, ConnectionQuality c] data)
    = [McsPatch (if d = ClientToBackend then a\<lparr>client_first := False\<rparr> else a\<lparr>backend_first := False\<rparr>),
       SessionMonitor (b\<lparr>last_activity := now\<rparr>), ConnectionQuality c]"
  by (cases d) (simp_all add: hook_def on_client_packet_service on_backend_packet_service)

lemma leg_step_inv:
  assumes inv: "relay_inv ctx s" and step: "leg_next ctx kill (rs_main s = Waiting) d e (rs_leg s d) (rs_plugins s) = Some (g, ps)"
  shows "relay_inv ctx (s\<lparr>rs_leg := (rs_leg s)(d := g), rs_plugins := ps\<rparr>)"
proof -
  have li: "leg_inv d (rs_leg s d)" using inv by (simp add: relay_inv_def)
  from leg_next_step [OF step li] obtain cs where g: "leg_inv d g" and f: "forwards ctx (rs_main s = Waiting) d cs (rs_leg s d) (rs_plugins s) g ps"
    by blast
  have running: "\<And>r. leg_pc (rs_leg s d) \<noteq> LegDone r" using step by (cases e) (auto split: if_splits)
  then have main: "\<And>res. rs_main s \<noteq> Returned res" using inv by (cases d) (auto simp: relay_inv_def)
  let ?c = "\<lambda>d. chunks (leg_turns (rs_leg s d))"
  obtain a b c where p: "rs_plugins s = [McsPatch a, SessionMonitor b, ConnectionQuality c]"
    "client_first a = (?c ClientToBackend = [])" "backend_first a = (?c BackendToClient = [])"
    using inv by (auto simp: relay_inv_def plugins_inv_def)
  obtain rest where r: "patched ctx d (?c d) = leg_sent (rs_leg s d) @ rest" "rs_main s = Waiting \<longrightarrow> rest = []"
    using inv by (auto simp: relay_inv_def)
  have sent: "\<exists>rest. patched ctx d (chunks (leg_turns g)) = leg_sent g @ rest \<and> (rs_main s = Waiting \<longrightarrow> rest = [])"
  proof (cases "cs = []")
    case True
    with f r show ?thesis by (auto simp: forwards_def)
  next
    case False
    then obtain now data where c: "cs = [data]" "chunks (leg_turns g) = ?c d @ [data]"
      "leg_sent g = leg_sent (rs_leg s d) @ (if rs_main s = Waiting then [fst (hook d now ctx (rs_plugins s) data)] else [])"
      using f by (auto simp: forwards_def)
    have "patched ctx d (?c d @ [data]) = patched ctx d (?c d) @ [fst (hook d now ctx (rs_plugins s) data)]"
      by (rule patched_hook [OF p(1)]) (use p in \<open>cases d; simp\<close>)
    with c r show ?thesis by auto
  qed
  have "plugins_inv (s\<lparr>rs_leg := (rs_leg s)(d := g), rs_plugins := ps\<rparr>)"
  proof (cases "cs = []")
    case True
    with f p show ?thesis by (cases d) (auto simp: forwards_def plugins_inv_def)
  next
    case False
    with f p show ?thesis by (cases d) (auto simp: forwards_def plugins_inv_def hook_plugins)
  qed
  with g sent inv main show ?thesis by (auto simp: relay_inv_def split: main_pc.splits)
qed

lemma relay_next_inv: "relay_inv ctx s \<Longrightarrow> relay_next ctx l s = Some s' \<Longrightarrow> relay_inv ctx s'"
proof (cases l)
  case (Leg d e)
  assume "relay_inv ctx s" "relay_next ctx l s = Some s'"
  with Leg leg_step_inv [of ctx s "rs_kill s" d e] show ?thesis by (auto split: option.splits prod.splits)
next
  case (Poll r)
  assume "relay_inv ctx s" "relay_next ctx l s = Some s'"
  with Poll show ?thesis by (cases "(r, s)" rule: poll.cases) (auto simp: relay_inv_def plugins_inv_def split: if_splits main_pc.splits)
next
  case Close
  assume "relay_inv ctx s" "relay_next ctx l s = Some s'"
  with Close show ?thesis by (auto simp: relay_inv_def plugins_inv_def close_relay_def split: if_splits)
next
  case Return
  assume "relay_inv ctx s" "relay_next ctx l s = Some s'"
  with Return show ?thesis
    by (auto simp: relay_inv_def plugins_inv_def return_relay_def split: main_pc.splits option.splits leg_pc.splits)
qed

lemma relay_start_inv:
  "relay_inv ctx (relay_start checker (on_session_start now ctx (relay_plugins idle dur)))"
  by (cases "has_sockets ctx")
    (auto simp: relay_inv_def leg_inv_def plugins_inv_def relay_start_def on_session_start_def relay_plugins_def mcs_session_start_def
      patched_def patched_by_client_def patched_by_server_def)

text \<open>
  C19: The interleaved relay of a connection refines the sequential pumps. However the steps of the two pumps, the kill check and the
  relay itself alternate: what was handed to each writer before it was aborted is, in order, a part from the
  beginning of what the patches make of the chunks read, and all of it while the relay waits; a pump counts
  the bytes it read, and when it has ended it has the result of the sequential model on its own turns. The
  returned result has exactly these two legs and counts.
\<close>

theorem relay_refines_pipes:
  assumes "relay_run ctx ls (relay_start checker ps) = Some s" and "ps = on_session_start now ctx (relay_plugins idle dur)"
  shows "(\<exists>rest. patched ctx d (chunks (leg_turns (rs_leg s d))) = leg_sent (rs_leg s d) @ rest \<and> (rs_main s = Waiting \<longrightarrow> rest = []))
    \<and> leg_moved (rs_leg s d) = length (concat (chunks (leg_turns (rs_leg s d))))
    \<and> (leg_pc (rs_leg s d) = LegDone r \<longrightarrow>
        fst (snd (pipe d ctx (leg_turns (rs_leg s d)) ps 0)) = r \<and> fst (pipe d ctx (leg_turns (rs_leg s d)) ps 0) = patched ctx d (chunks (leg_turns (rs_leg s d))))
    \<and> (rs_main s = Returned res \<longrightarrow> (\<exists>a b. leg_pc (rs_leg s ClientToBackend) = LegDone a \<and> leg_pc (rs_leg s BackendToClient) = LegDone b
        \<and> legs res = [a, b] \<and> bytes_to_backend res = leg_moved (rs_leg s ClientToBackend) \<and> bytes_to_client res = leg_moved (rs_leg s BackendToClient)))"
proof -
  have inv: "relay_inv ctx s"
    using relay_run_invariant [where I = "relay_inv ctx", OF assms(1)] relay_start_inv relay_next_inv assms(2) by blast
  then have li: "leg_inv d (rs_leg s d)" for d by (simp add: relay_inv_def)
  have out: "fst (pipe d ctx ts ps 0) = patched ctx d (chunks ts)" for ts
    using relay_forwards [where ctx = ctx and ts = ts and now = now and idle = idle and dur = dur] assms(2) by (cases d) (auto simp: patched_def)
  have "\<exists>a b. leg_pc (rs_leg s ClientToBackend) = LegDone a \<and> leg_pc (rs_leg s BackendToClient) = LegDone b
        \<and> legs res = [a, b] \<and> bytes_to_backend res = leg_moved (rs_leg s ClientToBackend) \<and> bytes_to_client res = leg_moved (rs_leg s BackendToClient)"
    if "rs_main s = Returned res"
  proof -
    from inv that obtain a b where ab: "leg_pc (rs_leg s ClientToBackend) = LegDone a" "leg_pc (rs_leg s BackendToClient) = LegDone b"
      "res = relay_result [Inr a, Inr b]" by (auto simp: relay_inv_def)
    with leg_inv_done [OF li ab(1)] leg_inv_done [OF li ab(2)] show ?thesis by (simp add: relay_result_def Let_def)
  qed
  then show ?thesis using inv li [of d] leg_inv_pipe [OF li, where r = r and ctx = ctx and ps = ps] out by (auto simp: relay_inv_def leg_inv_def)
qed

section \<open>The end of a relay\<close>

text \<open>How many steps are left at most once the kill event is set.\<close>

definition leg_steps :: "relay_leg \<Rightarrow> nat" where
  "leg_steps g = (case leg_pc g of NotStarted \<Rightarrow> 1 | Reading \<Rightarrow> 2 | Draining \<Rightarrow> 1 | LegDone r \<Rightarrow> 0)"

definition steps_left :: "relay_state \<Rightarrow> nat" where
  "steps_left s = leg_steps (rs_leg s ClientToBackend) + leg_steps (rs_leg s BackendToClient)
     + (case rs_main s of Waiting \<Rightarrow> 2 | Closing \<Rightarrow> 1 | Returned res \<Rightarrow> 0)"

definition arrival :: "leg_event \<Rightarrow> bool" where
  "arrival e = (case e of Data now data high werr \<Rightarrow> True | EndOfStream \<Rightarrow> True | ReadFails x \<Rightarrow> True | _ \<Rightarrow> False)"

lemma leg_steps_bound: "leg_steps g \<le> 2"
  by (simp add: leg_steps_def split: leg_pc.split)

lemma steps_left_bound: "steps_left s \<le> 6"
  using leg_steps_bound [of "rs_leg s ClientToBackend"] leg_steps_bound [of "rs_leg s BackendToClient"]
  by (simp add: steps_left_def split: main_pc.split)

lemma loop_head_killed: "leg_steps (loop_head (Some True) d g) = 0"
  by (simp add: loop_head_def leg_end_def leg_steps_def)

lemma leg_next_killed: "leg_next ctx (Some True) is_open d e g ps = Some (g', ps') \<Longrightarrow> leg_steps g' < leg_steps g"
proof (cases e)
  case (Data now data high werr)
  assume "leg_next ctx (Some True) is_open d e g ps = Some (g', ps')"
  with Data have g: "leg_pc g = Reading" "leg_data ctx (Some True) is_open d now data high werr g ps = (g', ps')" by (auto split: if_splits)
  then have "leg_steps g' \<le> 1"
    using loop_head_killed by (auto simp: leg_data_def Let_def leg_end_def leg_steps_def split: prod.splits option.splits if_splits)
  with g(1) show ?thesis by (simp add: leg_steps_def)
qed (auto simp: leg_steps_def leg_end_def loop_head_def split: if_splits)

lemma relay_next_killed:
  assumes "relay_next ctx l s = Some s'" and "rs_kill s = Some True"
  shows "rs_kill s' = Some True \<and> steps_left s' < steps_left s"
proof (cases l)
  case (Leg d e)
  with assms obtain g ps where "leg_next ctx (Some True) (rs_main s = Waiting) d e (rs_leg s d) (rs_plugins s) = Some (g, ps)"
    "s' = s\<lparr>rs_leg := (rs_leg s)(d := g), rs_plugins := ps\<rparr>" by (auto split: option.splits)
  with leg_next_killed [OF this(1)] assms(2) show ?thesis by (cases d) (simp_all add: steps_left_def)
next
  case Close
  with assms show ?thesis by (auto simp: close_relay_def steps_left_def split: if_splits)
next
  case Return
  with assms show ?thesis by (auto simp: return_relay_def steps_left_def split: main_pc.splits option.splits)
qed (use assms in auto)

lemma relay_run_killed: "relay_run ctx ls s = Some s' \<Longrightarrow> rs_kill s = Some True \<Longrightarrow> length ls + steps_left s' \<le> steps_left s"
proof (induction ls arbitrary: s)
  case (Cons l ls)
  then obtain s1 where s1: "relay_next ctx l s = Some s1" "relay_run ctx ls s1 = Some s'" by (auto split: option.splits)
  with relay_next_killed [OF s1(1) Cons.prems(2)] Cons.IH [OF s1(2)] show ?case by simp
qed simp

lemma list_all_split_last: "list_all P xs \<Longrightarrow> xs \<noteq> [] \<Longrightarrow> list_all P (butlast xs) \<and> P (last xs)"
  by (auto simp: list_all_iff dest: in_set_butlastD)

text \<open>The chunks a pump has read and the one it waits for.\<close>

definition chunk_bound :: "relay_leg \<Rightarrow> nat" where
  "chunk_bound g = length (chunks (leg_turns g)) + (if leg_pc g = Reading then 1 else 0)"

lemma leg_next_chunks:
  assumes "leg_next ctx (Some True) is_open d e g ps = Some (g', ps')" and "leg_inv d g"
  shows "chunk_bound g' \<le> chunk_bound g"
proof -
  obtain cs where cs: "chunks (leg_turns g') = chunks (leg_turns g) @ cs" "length cs \<le> 1"
    using leg_next_step [OF assms] by (auto simp: forwards_def)
  have "leg_pc g' \<noteq> Reading"
    using assms(1) by (cases e) (auto simp: leg_data_def Let_def leg_end_def loop_head_def split: if_splits prod.splits option.splits)
  moreover have "leg_pc g = Reading" if "cs \<noteq> []"
  proof (rule ccontr)
    assume "leg_pc g \<noteq> Reading"
    with assms have "chunks (leg_turns g') = chunks (leg_turns g)"
      using loop_head_turns [of g "Some True" d] chunks_write_error [of "butlast (leg_turns g)" "last (leg_turns g)"]
      by (cases e) (auto simp: leg_inv_def leg_end_def list_all_split_last split: if_splits)
    with cs(1) that show False by simp
  qed
  ultimately show ?thesis using cs by (cases "cs = []") (auto simp: chunk_bound_def)
qed

lemma relay_run_chunks:
  "relay_run ctx ls s = Some s' \<Longrightarrow> rs_kill s = Some True \<Longrightarrow> relay_inv ctx s \<Longrightarrow> chunk_bound (rs_leg s' d) \<le> chunk_bound (rs_leg s d)"
proof (induction ls arbitrary: s)
  case (Cons l ls)
  then obtain s1 where s1: "relay_next ctx l s = Some s1" "relay_run ctx ls s1 = Some s'" by (auto split: option.splits)
  have "chunk_bound (rs_leg s1 d) \<le> chunk_bound (rs_leg s d)"
  proof (cases l)
    case (Leg d' e)
    with s1(1) Cons.prems(2) obtain g ps where g: "leg_next ctx (Some True) (rs_main s = Waiting) d' e (rs_leg s d') (rs_plugins s) = Some (g, ps)"
      "s1 = s\<lparr>rs_leg := (rs_leg s)(d' := g), rs_plugins := ps\<rparr>" by (auto split: option.splits)
    have "leg_inv d' (rs_leg s d')" using Cons.prems(3) by (simp add: relay_inv_def)
    from leg_next_chunks [OF g(1) this] g(2) show ?thesis by simp
  next
    case Close
    with s1(1) show ?thesis by (auto simp: close_relay_def split: if_splits)
  next
    case Return
    with s1(1) show ?thesis by (auto simp: return_relay_def split: main_pc.splits option.splits)
  qed (use s1(1) Cons.prems(2) in auto)
  moreover have "chunk_bound (rs_leg s' d) \<le> chunk_bound (rs_leg s1 d)"
    using Cons.IH [OF s1(2)] relay_next_killed [OF s1(1) Cons.prems(2)] relay_next_inv [OF Cons.prems(3) s1(1)] by simp
  ultimately show ?case by simp
qed simp

text \<open>A relay that has not returned always has a next step.\<close>

lemma relay_progress: "(\<And>res. rs_main s \<noteq> Returned res) \<Longrightarrow> \<exists>l s'. relay_next ctx l s = Some s'"
proof -
  assume main: "\<And>res. rs_main s \<noteq> Returned res"
  show ?thesis
  proof (cases "\<exists>d. leg_result (rs_leg s d) = None")
    case True
    then obtain d where "leg_result (rs_leg s d) = None" by blast
    then consider "leg_pc (rs_leg s d) = NotStarted" | "leg_pc (rs_leg s d) = Reading" | "leg_pc (rs_leg s d) = Draining"
      by (auto split: leg_pc.splits)
    then have "relay_next ctx (Leg d Start) s \<noteq> None \<or> relay_next ctx (Leg d EndOfStream) s \<noteq> None \<or> relay_next ctx (Leg d Drained) s \<noteq> None"
      by cases simp_all
    then show ?thesis by blast
  next
    case False
    then obtain a b where "leg_result (rs_leg s ClientToBackend) = Some a" "leg_result (rs_leg s BackendToClient) = Some b"
      by (metis not_None_eq)
    then have "relay_next ctx Close s \<noteq> None \<or> relay_next ctx Return s \<noteq> None"
      using main by (cases "rs_main s") (auto simp: close_relay_def return_relay_def simp del: leg_result.simps)
    then show ?thesis by blast
  qed
qed

lemma dead_poller: "relay_run ctx ls s = Some s' \<Longrightarrow> \<not> rs_poller s \<Longrightarrow> rs_kill s = Some False \<Longrightarrow> rs_main s' = Waiting \<Longrightarrow> rs_kill s' = Some False"
proof (induction ls arbitrary: s)
  case (Cons l ls)
  then obtain s1 where s1: "relay_next ctx l s = Some s1" "relay_run ctx ls s1 = Some s'" by (auto split: option.splits)
  have gone: "rs_main s' \<noteq> Waiting" if "rs_main s1 \<noteq> Waiting"
  proof (rule relay_run_invariant [OF s1(2)])
    show "rs_main s1 \<noteq> Waiting" by (rule that)
  next
    fix l s s'
    assume "rs_main s \<noteq> Waiting" "relay_next ctx l s = Some s'"
    then show "rs_main s' \<noteq> Waiting"
      by (cases l) (auto simp: close_relay_def return_relay_def split: option.splits if_splits main_pc.splits)
  qed
  then have "rs_main s1 = Waiting" using Cons.prems(4) by blast
  then have "\<not> rs_poller s1 \<and> rs_kill s1 = Some False"
    using s1(1) Cons.prems(2,3) by (cases l) (auto simp: close_relay_def return_relay_def split: option.splits if_splits main_pc.splits)
  with Cons.IH [OF s1(2)] Cons.prems(4) show ?case by simp
qed simp

text \<open>
  C20: How a relay ends. Until it has returned, a step is possible; once the kill event is set, by the check or because a pump ended, there are at
  most six more steps, and each pump forwards at most one more chunk. But while both pumps wait for their streams, the only
  steps are arrivals: a kill, and with it the idle limit, has no effect on a silent connection until one side sends
  something or closes. An exception of the check ends the checking unseen: the event is never set again while the relay waits.
\<close>

theorem kill_takes_an_arrival:
  assumes "relay_run ctx before (relay_start True (on_session_start now ctx (relay_plugins idle dur))) = Some s"
  shows "((\<forall>res. rs_main s \<noteq> Returned res) \<longrightarrow> (\<exists>l s'. relay_next ctx l s = Some s'))
    \<and> (rs_kill s = Some True \<and> relay_run ctx ls s = Some s' \<longrightarrow> length ls \<le> 6
        \<and> length (chunks (leg_turns (rs_leg s' d))) \<le> length (chunks (leg_turns (rs_leg s d))) + 1)
    \<and> (rs_kill s = Some True \<and> rs_main s = Waiting \<and> (\<forall>d. leg_pc (rs_leg s d) = Reading) \<and> relay_next ctx l s = Some s'
        \<longrightarrow> (\<exists>d e. l = Leg d e \<and> arrival e))
    \<and> (relay_next ctx (Poll (Inl x)) s = Some s1 \<and> relay_run ctx ls s1 = Some s' \<and> rs_main s' = Waiting \<longrightarrow> rs_kill s' = Some False)"
proof (intro conjI impI)
  have inv: "relay_inv ctx s" using relay_run_invariant [where I = "relay_inv ctx", OF assms] relay_start_inv relay_next_inv by blast
  show "\<exists>l s'. relay_next ctx l s = Some s'" if "\<forall>res. rs_main s \<noteq> Returned res" using relay_progress that by blast
  assume k: "rs_kill s = Some True \<and> relay_run ctx ls s = Some s'"
  then show "length ls \<le> 6" using relay_run_killed [of ctx ls s s'] steps_left_bound [of s] by simp
  from k have "chunk_bound (rs_leg s' d) \<le> chunk_bound (rs_leg s d)" using relay_run_chunks [of ctx ls s s' d] inv by simp
  then show "length (chunks (leg_turns (rs_leg s' d))) \<le> length (chunks (leg_turns (rs_leg s d))) + 1"
    by (simp add: chunk_bound_def split: if_splits)
next
  assume k: "rs_kill s = Some True \<and> rs_main s = Waiting \<and> (\<forall>d. leg_pc (rs_leg s d) = Reading) \<and> relay_next ctx l s = Some s'"
  show "\<exists>d e. l = Leg d e \<and> arrival e"
  proof (cases l)
    case (Leg d e)
    with k show ?thesis by (cases e) (auto simp: arrival_def split: if_splits)
  qed (use k in \<open>auto simp: close_relay_def return_relay_def split: if_splits\<close>)
next
  assume k: "relay_next ctx (Poll (Inl x)) s = Some s1 \<and> relay_run ctx ls s1 = Some s' \<and> rs_main s' = Waiting"
  then show "rs_kill s' = Some False" using dead_poller [of ctx ls s1 s'] by (auto split: if_splits)
qed

section \<open>A close that is recorded as a kill\<close>

text \<open>
  A connection that the backend ends by itself can be recorded as ended for being idle: if a chunk of the client
  arrives after the relay has seen the end and set the event, the other pump ends as killed although no
  check ever asked for it, and without a kill by the administration or a passed limit the handler takes that for the idle limit.
\<close>

lemma normal_close_recorded_idle:
  assumes "data \<noteq> []" and "\<not> raw_truthy (r_get R db (KILL_SESSION cid))"
    and "\<And>m. get_monitor ps' = Some m \<Longrightarrow> \<not> is_duration_exceeded now m"
  shows "\<exists>ls s res. (\<forall>r. Poll r \<notin> set ls) \<and> Leg ClientToBackend (Data t data False None) \<in> set ls \<and> relay_run ctx ls (relay_start True ps) = Some s \<and> rs_main s = Returned res
    \<and> map leg_reason (legs res) = [Killed, Eof]
    \<and> fin_status R now ps' cid (legs res) db = (SClosed, lit ''idle_timeout'')"
proof -
  let ?ls = "[Leg ClientToBackend Start, Leg BackendToClient Start, Leg BackendToClient EndOfStream, Close,
     Leg ClientToBackend (Data t data False None), Return]"
  obtain out qs where h: "on_client_packet t ctx ps data = (out, qs)" by force
  have "\<exists>s res. relay_run ctx ?ls (relay_start True ps) = Some s \<and> rs_main s = Returned res \<and> map leg_reason (legs res) = [Killed, Eof]"
    using assms(1) h by (simp add: relay_start_def loop_head_def leg_end_def close_relay_def leg_data_def Let_def return_relay_def relay_result_def)
  then obtain s res where s: "relay_run ctx ?ls (relay_start True ps) = Some s" "rs_main s = Returned res" "map leg_reason (legs res) = [Killed, Eof]"
    by (elim exE conjE)
  from s(3) have "list_ex (\<lambda>l. leg_reason l = Killed) (legs res)" by (auto simp: map_eq_Cons_conv)
  then have "fin_status R now ps' cid (legs res) db = (SClosed, lit ''idle_timeout'')"
    using assms(2,3) by (auto simp: fin_status_def split: option.split)
  with s show ?thesis by (intro exI [of _ ?ls]) auto
qed

definition ref_session_ctx :: SessionContext where
  "ref_session_ctx = \<lparr>connection_id = lit ''c'', ctx_username = lit ''u'', client_ip = lit ''10.0.0.9'', ctx_target_host = lit ''h'',
     ctx_target_port = 3389, ctx_instance_id = lit ''n1'', client_requested_protocols = Some 1, has_sockets = False\<rparr>"

lemma normal_close_recorded_idle_witness:
  "\<exists>ls s res. relay_run ref_session_ctx ls (relay_start True (relay_plugins 600 0)) = Some s \<and> rs_main s = Returned res
    \<and> fin_status mem_redis 5 (relay_plugins 600 0) (lit ''c'') (legs res) empty_db = (SClosed, lit ''idle_timeout'')"
proof -
  have k: "\<not> raw_truthy (r_get mem_redis empty_db (KILL_SESSION (lit ''c'')))"
    by (simp add: mem_redis_def empty_db_def mem_look_def)
  have m: "\<not> is_duration_exceeded 5 m" if "get_monitor (relay_plugins 600 0) = Some m" for m
    using that by (auto simp: relay_plugins_def is_duration_exceeded_def)
  from normal_close_recorded_idle [where data = "[1]" and ctx = ref_session_ctx, OF _ k m] show ?thesis by blast
qed

text \<open>A short run of the service: a chunk of the client, a kill, and the next chunk.\<close>

definition ref_relay_run :: "relay_label list" where
  "ref_relay_run = [Leg ClientToBackend Start, Leg BackendToClient Start, Leg ClientToBackend (Data 1 [7] False None), Poll (Inr True)]"

lemma ref_relay_runs:
  "\<exists>s. relay_run ref_session_ctx ref_relay_run (relay_start True (on_session_start 0 ref_session_ctx (relay_plugins 600 0))) = Some s \<and> rs_kill s = Some True
     \<and> rs_main s = Waiting \<and> (\<forall>d. leg_pc (rs_leg s d) = Reading)"
proof -
  obtain out qs where h: "on_client_packet 1 ref_session_ctx (on_session_start 0 ref_session_ctx (relay_plugins 600 0)) [7] = (out, qs)" by force
  have "\<forall>d. d = ClientToBackend \<or> d = BackendToClient" by (metis direction.exhaust)
  with h show ?thesis by (auto simp: ref_relay_run_def relay_start_def loop_head_def leg_data_def Let_def)
qed

theorem relay_refines_pipes_witness:
  "\<exists>s. relay_run ref_session_ctx ref_relay_run (relay_start True (on_session_start 0 ref_session_ctx (relay_plugins 600 0))) = Some s
     \<and> leg_sent (rs_leg s ClientToBackend) = patched ref_session_ctx ClientToBackend (chunks (leg_turns (rs_leg s ClientToBackend)))"
proof -
  obtain s where s: "relay_run ref_session_ctx ref_relay_run (relay_start True (on_session_start 0 ref_session_ctx (relay_plugins 600 0))) = Some s" "rs_main s = Waiting"
    using ref_relay_runs  by blast
  from relay_refines_pipes [OF s(1) refl, where d = ClientToBackend] s show ?thesis by auto
qed

theorem kill_takes_an_arrival_witness:
  "\<exists>s. rs_kill s = Some True \<and> (\<forall>l s'. relay_next ref_session_ctx l s = Some s' \<longrightarrow> (\<exists>d e. l = Leg d e \<and> arrival e)) \<and> (\<exists>l s'. relay_next ref_session_ctx l s = Some s')"
proof -
  obtain s where s: "relay_run ref_session_ctx ref_relay_run (relay_start True (on_session_start 0 ref_session_ctx (relay_plugins 600 0))) = Some s"
    "rs_kill s = Some True" "rs_main s = Waiting" "\<forall>d. leg_pc (rs_leg s d) = Reading"
    using ref_relay_runs  by blast
  from kill_takes_an_arrival [OF s(1)] s(2-4) show ?thesis by (intro exI [of _ s]) auto
qed

end
