(* ===== verification/Admin_Listings.thy ===== *)
theory Admin_Listings
  imports Ad_Groups Rdp_File Admin_Users "HOL-Library.Multiset"
begin

text \<open>
  The listings of the administration that have no theory of their own: accounts
  (\<^verbatim>\<open>routes/admin_users.py\<close>) and templates (\<^verbatim>\<open>routes/templates.py\<close>) with the names of their groups from the
  table of known groups. The order of names, which the collation decides, and the text of a time are parameters.
\<close>

record AdminUserOut =
  ao_id :: ustr
  ao_username :: ustr
  ao_is_active :: bool
  ao_must_change :: bool
  ao_allowed_ips :: "ustr list"
  ao_last_login :: "ustr option"

definition admin_user_out :: "(int \<Rightarrow> ustr) \<Rightarrow> AdminUser \<Rightarrow> AdminUserOut" where
  "admin_user_out show_time u = \<lparr>ao_id = uuid_str (u_id u), ao_username = u_username u, ao_is_active = u_is_active u,
     ao_must_change = u_must_change u, ao_allowed_ips = u_allowed_ips u, ao_last_login = map_option show_time (u_last_login u)\<rparr>"

definition list_admin_users :: "(int \<Rightarrow> ustr) \<Rightarrow> (AdminUser list \<Rightarrow> AdminUser list) \<Rightarrow> AdminUser list \<Rightarrow> AdminUserOut list" where
  "list_admin_users show_time order_by us = map (admin_user_out show_time) (order_by us)"

record TemplateOut =
  to_id :: ustr
  to_name :: ustr
  to_is_default :: bool
  to_priority :: int
  to_params :: jobj
  to_groups :: "ustr list"
  to_group_details :: "(ustr \<times> ustr) list"

definition template_names :: "AdGroupCache list \<Rightarrow> RdpTemplate list \<Rightarrow> (ustr \<rightharpoonup> ustr)" where
  "template_names t templates =
    map_of (map (\<lambda>r. (uuid_str (gc_guid r), gc_cn r)) (filter (\<lambda>r. gc_guid r \<in> set (concat (map t_groups templates))) t))"

definition template_out :: "RdpTemplate \<Rightarrow> (ustr \<rightharpoonup> ustr) \<Rightarrow> TemplateOut" where
  "template_out t names =
    (let guids = map uuid_str (t_groups t) in
     \<lparr>to_id = uuid_str (t_id t), to_name = t_name t, to_is_default = t_is_default t, to_priority = t_priority t, to_params = t_params t,
      to_groups = guids, to_group_details = map (\<lambda>g. (g, case names g of None \<Rightarrow> g | Some cn \<Rightarrow> cn)) guids\<rparr>)"

text \<open>The default first, then by priority, then by name.\<close>

definition list_templates :: "(RdpTemplate list \<Rightarrow> RdpTemplate list) \<Rightarrow> AdGroupCache list \<Rightarrow> RdpTemplate list \<Rightarrow> TemplateOut list" where
  "list_templates by_name t rows =
    (let templates = sort_key (\<lambda>r. if t_is_default r then 0 else 1 :: nat) (sort_key t_priority (by_name rows))
     in map (\<lambda>r. template_out r (template_names t templates)) templates)"

text \<open>
  A listing shows every row once, the default of the table in front and the others by rising priority; the listing
  of accounts never shows a password hash, having no field for it.
\<close>

lemma template_listing:
  assumes "mset (by_name rows) = mset rows"
  shows "mset (map to_id (list_templates by_name t rows)) = mset (map (\<lambda>r :: RdpTemplate. uuid_str (t_id r)) rows)
    \<and> sorted (map (\<lambda>o1. if to_is_default o1 then 0 else 1 :: nat) (list_templates by_name t rows))
    \<and> sorted (map to_priority (filter (\<lambda>o1. \<not> to_is_default o1) (list_templates by_name t rows)))"
proof -
  let ?p = "sort_key t_priority (by_name rows)" and ?d = "\<lambda>r. if t_is_default r then 0 else 1 :: nat"
  let ?s = "sort_key ?d ?p"
  have "mset ?s = mset rows" using assms by simp
  then have "mset (map f ?s) = mset (map f rows)" for f :: "RdpTemplate \<Rightarrow> ustr" by simp
  moreover have e: "(\<lambda>r. \<not> t_is_default r) = (\<lambda>r. ?d r = 1)" by auto
  have "filter (\<lambda>r. \<not> t_is_default r) ?s = filter (\<lambda>r. \<not> t_is_default r) ?p"
    unfolding e by (rule sort_key_stable)
  moreover have "sorted (map t_priority (filter (\<lambda>r. \<not> t_is_default r) ?p))"
    using sorted_filter [of t_priority ?p] by simp
  ultimately show ?thesis
    by (simp add: list_templates_def Let_def template_out_def comp_def filter_map)
qed

end
