(* ===== verification/Dependencies.thy ===== *)
theory Dependencies
  imports Portal
begin

text \<open>
  What the routes get from their application: the dependencies of the portal (\<^verbatim>\<open>src/services/portal/dependencies.py\<close>)
  and those of the administration (\<^verbatim>\<open>src/services/admin/dependencies.py\<close>) that look up one attribute of the state, and the
  tokens of the login forms. An attribute that is missing is answered with 500, a missing directory with 503.
\<close>

definition state_or :: "int \<Rightarrow> 'a option \<Rightarrow> 'a result" where
  "state_or code a = (case a of None \<Rightarrow> Inl (HTTPException code) | Some x \<Rightarrow> Inr x)"

record portal_state =
  pst_config :: "AppConfig option"
  pst_settings :: "settings option"
  pst_store :: "SessionStore option"
  pst_db :: "unit option"
  pst_ldap :: "LDAPAuthenticator option"

definition portal_get_config :: "portal_state \<Rightarrow> AppConfig result" where
  "portal_get_config S = state_or 500 (pst_config S)"

definition portal_get_settings_manager :: "portal_state \<Rightarrow> settings result" where
  "portal_get_settings_manager S = state_or 500 (pst_settings S)"

definition portal_get_session_store :: "portal_state \<Rightarrow> SessionStore result" where
  "portal_get_session_store S = state_or 500 (pst_store S)"

definition portal_get_db_sessionmaker :: "portal_state \<Rightarrow> unit result" where
  "portal_get_db_sessionmaker S = state_or 500 (pst_db S)"

text \<open>The client of the store, for which the store itself stands here.\<close>

definition portal_get_redis_client :: "portal_state \<Rightarrow> SessionStore result" where
  "portal_get_redis_client S = portal_get_session_store S"

definition portal_get_ldap :: "portal_state \<Rightarrow> LDAPAuthenticator result" where
  "portal_get_ldap S = state_or 503 (pst_ldap S)"

definition is_ldap_configured :: "portal_state \<Rightarrow> bool" where
  "is_ldap_configured S \<longleftrightarrow> pst_ldap S \<noteq> None"

definition portal_browser_fingerprint :: "request \<Rightarrow> ustr" where
  "portal_browser_fingerprint rq = join (lit ''||'') [header_text rq ''user-agent'', header_text rq ''sec-ch-ua'',
     header_text rq ''sec-ch-ua-platform'', header_text rq ''accept-language'']"

section \<open>The administration\<close>

definition get_db_session :: "app_state \<Rightarrow> unit result" where
  "get_db_session A = get_db_sessionmaker A"

definition get_redis_client :: "app_state \<Rightarrow> SessionStore result" where
  "get_redis_client A = get_session_store A"

definition get_settings_manager :: "settings option \<Rightarrow> settings result" where
  "get_settings_manager mgr = state_or 500 mgr"

section \<open>Tokens of the login forms\<close>

definition portal_csrf_token :: "ustr \<Rightarrow> request \<Rightarrow> ustr" where
  "portal_csrf_token fresh rq = (let t = cookie_text rq CSRF_COOKIE_NAME in if t \<noteq> [] then t else fresh)"

definition admin_csrf_token :: "ustr \<Rightarrow> request \<Rightarrow> ustr" where
  "admin_csrf_token fresh rq = (let t = cookie_text rq ADMIN_CSRF_COOKIE_NAME in if t \<noteq> [] then t else fresh)"

text \<open>
  The two services fingerprint a browser alike, so a session of one is bound to the same headers as one of the other; a request
  for a directory that is not configured is refused with 503, and only then; and the token of a form that is shown is one that the
  check of the login accepts from the same browser.
\<close>

lemma dependencies_agree:
  "portal_browser_fingerprint rq = browser_fingerprint rq
    \<and> (portal_get_ldap S = Inl (HTTPException 503) \<longleftrightarrow> \<not> is_ldap_configured S)
    \<and> (t = portal_csrf_token fresh rq \<and> fresh \<noteq> [] \<longrightarrow> t \<noteq> []
        \<and> cookie_text (rq\<lparr>rq_cookie := (rq_cookie rq)(CSRF_COOKIE_NAME \<mapsto> t)\<rparr>) CSRF_COOKIE_NAME = t)"
  by (auto simp: portal_browser_fingerprint_def browser_fingerprint_def portal_get_ldap_def is_ldap_configured_def state_or_def
    portal_csrf_token_def Let_def cookie_text_def split: option.split)

end
