(* ===== verification/Db_Schema.thy ===== *)
theory Db_Schema
  imports Rdp_Prelude "HOL-Library.Multiset"
begin

text \<open>
  The database: the tables as the models declare them (\<^verbatim>\<open>src/libs/db/models/\<close>), the migration that
  creates and removes them (\<^verbatim>\<open>migrations/versions/19a673b79a25_initial_schema.py\<close>), and how the
  administration service applies it at start-up (\<^verbatim>\<open>migrations/env.py\<close>, \<^verbatim>\<open>src/services/admin/main.py\<close>). Of
  PostgreSQL the part is modelled that the migration relies on: the names of tables and indexes are unique, a foreign key needs the
  key it refers to, a table that others refer to is not dropped, an index goes with its table, and a migration is a transaction.
\<close>

section \<open>Tables\<close>

datatype column_type = Uuid | Text nat | Boolean | Integer | BigInteger | Timestamp | Jsonb

datatype server_default = Now | Flag bool | Number int | EmptyObject | EmptyArray | Word string

datatype delete_rule = Cascade | SetNull

record column =
  col_name :: string
  col_type :: column_type
  col_null :: bool
  col_default :: "server_default option"
  col_auto :: bool

record foreign_key =
  fk_column :: string
  fk_table :: string
  fk_target :: string
  fk_delete :: delete_rule

record table =
  tab_name :: string
  tab_columns :: "column list"
  tab_key :: "string list"
  tab_unique :: "string list list"
  tab_foreign :: "foreign_key list"
  tab_checks :: "(string \<times> string) list"

record db_index =
  ix_name :: string
  ix_table :: string
  ix_columns :: "string list"
  ix_unique :: bool

record schema =
  sc_tables :: "table list"
  sc_indexes :: "db_index list"

definition empty_schema :: schema where
  "empty_schema = \<lparr>sc_tables = [], sc_indexes = []\<rparr>"

section \<open>Operations of a migration\<close>

datatype ddl = CreateTable table | CreateIndex db_index | DropIndex string | DropTable string

definition relations :: "schema \<Rightarrow> string set" where
  "relations S = tab_name ` set (sc_tables S) \<union> ix_name ` set (sc_indexes S)"

definition key_of :: "table list \<Rightarrow> string \<Rightarrow> string \<Rightarrow> bool" where
  "key_of ts t c \<longleftrightarrow> (\<exists>u \<in> set ts. tab_name u = t \<and> (tab_key u = [c] \<or> [c] \<in> set (tab_unique u)))"

definition has_columns :: "table \<Rightarrow> string list \<Rightarrow> bool" where
  "has_columns t cs \<longleftrightarrow> set cs \<subseteq> set (map col_name (tab_columns t))"

definition table_ok :: "table \<Rightarrow> bool" where
  "table_ok t \<longleftrightarrow> distinct (map col_name (tab_columns t)) \<and> has_columns t (tab_key t) \<and> list_all (has_columns t) (tab_unique t)
     \<and> list_all (\<lambda>k. has_columns t [fk_column k]) (tab_foreign t)"

fun ddl_step :: "ddl \<Rightarrow> schema \<Rightarrow> schema option" where
  "ddl_step (CreateTable t) S =
     (if tab_name t \<notin> relations S \<and> table_ok t \<and> list_all (\<lambda>k. key_of (sc_tables S) (fk_table k) (fk_target k)) (tab_foreign t)
      then Some (S\<lparr>sc_tables := sc_tables S @ [t]\<rparr>) else None)"
| "ddl_step (CreateIndex i) S =
     (if ix_name i \<notin> relations S \<and> (\<exists>t \<in> set (sc_tables S). tab_name t = ix_table i \<and> has_columns t (ix_columns i))
      then Some (S\<lparr>sc_indexes := sc_indexes S @ [i]\<rparr>) else None)"
| "ddl_step (DropIndex n) S =
     (if n \<in> ix_name ` set (sc_indexes S) then Some (S\<lparr>sc_indexes := filter (\<lambda>i. ix_name i \<noteq> n) (sc_indexes S)\<rparr>) else None)"
| "ddl_step (DropTable n) S =
     (if n \<in> tab_name ` set (sc_tables S) \<and> list_all (\<lambda>t. tab_name t = n \<or> list_all (\<lambda>k. fk_table k \<noteq> n) (tab_foreign t)) (sc_tables S)
      then Some \<lparr>sc_tables = filter (\<lambda>t. tab_name t \<noteq> n) (sc_tables S), sc_indexes = filter (\<lambda>i. ix_table i \<noteq> n) (sc_indexes S)\<rparr>
      else None)"

fun ddl_run :: "ddl list \<Rightarrow> schema \<Rightarrow> schema option" where
  "ddl_run [] S = Some S"
| "ddl_run (o1 # os) S = (case ddl_step o1 S of None \<Rightarrow> None | Some S' \<Rightarrow> ddl_run os S')"

section \<open>The migration\<close>

definition sa_column :: "string \<Rightarrow> column_type \<Rightarrow> server_default option \<Rightarrow> bool \<Rightarrow> column" where
  "sa_column n ty d nullable = \<lparr>col_name = n, col_type = ty, col_null = nullable, col_default = d, col_auto = False\<rparr>"

definition autoincrement :: "column \<Rightarrow> column" where
  "autoincrement c = c\<lparr>col_auto := True\<rparr>"

definition created_ad_groups_cache :: table where
  "created_ad_groups_cache = \<lparr>tab_name = ''ad_groups_cache'', tab_columns = [
     sa_column ''guid'' Uuid None False,
     sa_column ''dn'' (Text 512) None False,
     sa_column ''cn'' (Text 255) None False,
     sa_column ''description'' (Text 512) None True,
     sa_column ''cached_at'' Timestamp (Some Now) False],
     tab_key = [''guid''], tab_unique = [], tab_foreign = [], tab_checks = []\<rparr>"

definition created_admin_audit_log :: table where
  "created_admin_audit_log = \<lparr>tab_name = ''admin_audit_log'', tab_columns = [
     autoincrement (sa_column ''id'' BigInteger None False),
     sa_column ''ts'' Timestamp (Some Now) False,
     sa_column ''instance_id'' (Text 64) None True,
     sa_column ''admin_user'' (Text 128) None False,
     sa_column ''action'' (Text 64) None False,
     sa_column ''target_type'' (Text 64) None True,
     sa_column ''target_id'' (Text 128) None True,
     sa_column ''old_value'' Jsonb None True,
     sa_column ''new_value'' Jsonb None True,
     sa_column ''client_ip'' (Text 45) None True],
     tab_key = [''id''], tab_unique = [], tab_foreign = [], tab_checks = []\<rparr>"

definition created_admin_users :: table where
  "created_admin_users = \<lparr>tab_name = ''admin_users'', tab_columns = [
     sa_column ''id'' Uuid None False,
     sa_column ''username'' (Text 128) None False,
     sa_column ''password_hash'' (Text 255) None False,
     sa_column ''is_active'' Boolean (Some (Flag True)) False,
     sa_column ''must_change_password'' Boolean (Some (Flag True)) False,
     sa_column ''allowed_ips'' Jsonb (Some EmptyArray) False,
     sa_column ''created_at'' Timestamp (Some Now) False,
     sa_column ''updated_at'' Timestamp (Some Now) False,
     sa_column ''last_login_at'' Timestamp None True],
     tab_key = [''id''], tab_unique = [[''username'']], tab_foreign = [], tab_checks = []\<rparr>"

definition created_cluster_nodes :: table where
  "created_cluster_nodes = \<lparr>tab_name = ''cluster_nodes'', tab_columns = [
     sa_column ''instance_id'' (Text 64) None False,
     sa_column ''hostname'' (Text 255) None False,
     sa_column ''ip'' (Text 45) None False,
     sa_column ''services'' Jsonb (Some EmptyObject) False,
     sa_column ''resources'' Jsonb (Some EmptyObject) False,
     sa_column ''last_heartbeat'' Timestamp (Some Now) False,
     sa_column ''registered_at'' Timestamp (Some Now) False],
     tab_key = [''instance_id''], tab_unique = [], tab_foreign = [], tab_checks = []\<rparr>"

definition created_portal_settings :: table where
  "created_portal_settings = \<lparr>tab_name = ''portal_settings'', tab_columns = [
     sa_column ''key'' (Text 128) None False,
     sa_column ''value'' Jsonb (Some EmptyObject) False,
     sa_column ''updated_at'' Timestamp (Some Now) False],
     tab_key = [''key''], tab_unique = [], tab_foreign = [], tab_checks = []\<rparr>"

definition created_rdp_servers :: table where
  "created_rdp_servers = \<lparr>tab_name = ''rdp_servers'', tab_columns = [
     sa_column ''id'' Uuid None False,
     sa_column ''tech_name'' (Text 64) None False,
     sa_column ''display_name'' (Text 255) None False,
     sa_column ''address'' (Text 255) None False,
     sa_column ''port'' Integer (Some (Number 3389)) False,
     sa_column ''is_enabled'' Boolean (Some (Flag True)) False,
     sa_column ''sort_order'' Integer (Some (Number 0)) False,
     sa_column ''created_at'' Timestamp (Some Now) False,
     sa_column ''updated_at'' Timestamp (Some Now) False],
     tab_key = [''id''], tab_unique = [[''tech_name'']], tab_foreign = [], tab_checks = []\<rparr>"

definition created_rdp_templates :: table where
  "created_rdp_templates = \<lparr>tab_name = ''rdp_templates'', tab_columns = [
     sa_column ''id'' Uuid None False,
     sa_column ''name'' (Text 128) None False,
     sa_column ''is_default'' Boolean (Some (Flag False)) False,
     sa_column ''priority'' Integer (Some (Number 0)) False,
     sa_column ''params'' Jsonb (Some EmptyObject) False,
     sa_column ''created_at'' Timestamp (Some Now) False,
     sa_column ''updated_at'' Timestamp (Some Now) False],
     tab_key = [''id''], tab_unique = [[''name'']], tab_foreign = [],
     tab_checks = [(''ck_rdp_templates_priority_nonneg'', ''priority >= 0'')]\<rparr>"

definition created_connection_history :: table where
  "created_connection_history = \<lparr>tab_name = ''connection_history'', tab_columns = [
     sa_column ''id'' Uuid None False,
     sa_column ''instance_id'' (Text 64) None False,
     sa_column ''username'' (Text 128) None False,
     sa_column ''server_id'' Uuid None True,
     sa_column ''server_display'' (Text 255) None True,
     sa_column ''server_address'' (Text 255) None False,
     sa_column ''server_port'' Integer None False,
     sa_column ''client_ip'' (Text 45) None False,
     sa_column ''started_at'' Timestamp (Some Now) False,
     sa_column ''ended_at'' Timestamp None True,
     sa_column ''bytes_to_client'' BigInteger (Some (Number 0)) False,
     sa_column ''bytes_to_backend'' BigInteger (Some (Number 0)) False,
     sa_column ''disconnect_reason'' (Text 128) None True,
     sa_column ''status'' (Text 32) (Some (Word ''active'')) False],
     tab_key = [''id''], tab_unique = [],
     tab_foreign = [\<lparr>fk_column = ''server_id'', fk_table = ''rdp_servers'', fk_target = ''id'', fk_delete = SetNull\<rparr>], tab_checks = []\<rparr>"

definition created_server_group_bindings :: table where
  "created_server_group_bindings = \<lparr>tab_name = ''server_group_bindings'', tab_columns = [
     sa_column ''server_id'' Uuid None False,
     sa_column ''ad_group_guid'' Uuid None False],
     tab_key = [''server_id'', ''ad_group_guid''], tab_unique = [],
     tab_foreign = [\<lparr>fk_column = ''server_id'', fk_table = ''rdp_servers'', fk_target = ''id'', fk_delete = Cascade\<rparr>], tab_checks = []\<rparr>"

definition created_template_group_bindings :: table where
  "created_template_group_bindings = \<lparr>tab_name = ''template_group_bindings'', tab_columns = [
     sa_column ''template_id'' Uuid None False,
     sa_column ''ad_group_guid'' Uuid None False],
     tab_key = [''template_id'', ''ad_group_guid''], tab_unique = [],
     tab_foreign = [\<lparr>fk_column = ''template_id'', fk_table = ''rdp_templates'', fk_target = ''id'', fk_delete = Cascade\<rparr>], tab_checks = []\<rparr>"

definition created_connection_events :: table where
  "created_connection_events = \<lparr>tab_name = ''connection_events'', tab_columns = [
     autoincrement (sa_column ''id'' BigInteger None False),
     sa_column ''connection_id'' Uuid None False,
     sa_column ''ts'' Timestamp (Some Now) False,
     sa_column ''event_type'' (Text 64) None False,
     sa_column ''detail'' Jsonb (Some EmptyObject) False],
     tab_key = [''id''], tab_unique = [],
     tab_foreign = [\<lparr>fk_column = ''connection_id'', fk_table = ''connection_history'', fk_target = ''id'', fk_delete = Cascade\<rparr>], tab_checks = []\<rparr>"

definition create_index :: "string \<Rightarrow> string \<Rightarrow> string list \<Rightarrow> bool \<Rightarrow> ddl" where
  "create_index n t cs u = CreateIndex \<lparr>ix_name = n, ix_table = t, ix_columns = cs, ix_unique = u\<rparr>"

definition upgrade :: "ddl list" where
  "upgrade = [
     CreateTable created_ad_groups_cache,
     CreateTable created_admin_audit_log,
     CreateTable created_admin_users,
     CreateTable created_cluster_nodes,
     CreateTable created_portal_settings,
     CreateTable created_rdp_servers,
     CreateTable created_rdp_templates,
     CreateTable created_connection_history,
     create_index ''idx_conn_history_started'' ''connection_history'' [''started_at''] False,
     create_index ''idx_conn_history_user'' ''connection_history'' [''username''] False,
     CreateTable created_server_group_bindings,
     CreateTable created_template_group_bindings,
     CreateTable created_connection_events,
     create_index ''idx_conn_events_conn_id'' ''connection_events'' [''connection_id''] False]"

definition downgrade :: "ddl list" where
  "downgrade = [
     DropIndex ''idx_conn_events_conn_id'',
     DropTable ''connection_events'',
     DropTable ''template_group_bindings'',
     DropTable ''server_group_bindings'',
     DropIndex ''idx_conn_history_user'',
     DropIndex ''idx_conn_history_started'',
     DropTable ''connection_history'',
     DropTable ''rdp_templates'',
     DropTable ''rdp_servers'',
     DropTable ''portal_settings'',
     DropTable ''cluster_nodes'',
     DropTable ''admin_users'',
     DropTable ''admin_audit_log'',
     DropTable ''ad_groups_cache'']"

section \<open>The models\<close>

text \<open>
  A column as the models declare it: the options of \<^verbatim>\<open>mapped_column\<close> are functions on it. Without
  \<^verbatim>\<open>nullable=True\<close> it is not null; keys, unique columns and foreign keys are options of the column.
\<close>

record mapped_column =
  mc_column :: column
  mc_primary :: bool
  mc_unique :: bool
  mc_foreign :: "(string \<times> string \<times> delete_rule) option"
  mc_onupdate :: bool

definition mapped :: "string \<Rightarrow> column_type \<Rightarrow> mapped_column" where
  "mapped n ty = \<lparr>mc_column = sa_column n ty None False, mc_primary = False, mc_unique = False, mc_foreign = None, mc_onupdate = False\<rparr>"

definition primary :: "mapped_column \<Rightarrow> mapped_column" where
  "primary c = c\<lparr>mc_primary := True\<rparr>"

definition unique_col :: "mapped_column \<Rightarrow> mapped_column" where
  "unique_col c = c\<lparr>mc_unique := True\<rparr>"

definition nullable :: "mapped_column \<Rightarrow> mapped_column" where
  "nullable c = c\<lparr>mc_column := (mc_column c)\<lparr>col_null := True\<rparr>\<rparr>"

definition auto_col :: "mapped_column \<Rightarrow> mapped_column" where
  "auto_col c = c\<lparr>mc_column := autoincrement (mc_column c)\<rparr>"

definition default_is :: "server_default \<Rightarrow> mapped_column \<Rightarrow> mapped_column" where
  "default_is d c = c\<lparr>mc_column := (mc_column c)\<lparr>col_default := Some d\<rparr>\<rparr>"

definition references :: "string \<Rightarrow> string \<Rightarrow> delete_rule \<Rightarrow> mapped_column \<Rightarrow> mapped_column" where
  "references t c od m = m\<lparr>mc_foreign := Some (t, c, od)\<rparr>"

definition onupdate_now :: "mapped_column \<Rightarrow> mapped_column" where
  "onupdate_now c = c\<lparr>mc_onupdate := True\<rparr>"

record model =
  mod_table :: string
  mod_columns :: "mapped_column list"
  mod_checks :: "(string \<times> string) list"
  mod_indexes :: "(string \<times> string list) list"

definition AdminUser_model :: model where
  "AdminUser_model = \<lparr>mod_table = ''admin_users'', mod_columns = [
     primary (mapped ''id'' Uuid),
     unique_col (mapped ''username'' (Text 128)),
     mapped ''password_hash'' (Text 255),
     default_is (Flag True) (mapped ''is_active'' Boolean),
     default_is (Flag True) (mapped ''must_change_password'' Boolean),
     default_is EmptyArray (mapped ''allowed_ips'' Jsonb),
     default_is Now (mapped ''created_at'' Timestamp),
     onupdate_now (default_is Now (mapped ''updated_at'' Timestamp)),
     nullable (mapped ''last_login_at'' Timestamp)], mod_checks = [], mod_indexes = []\<rparr>"

definition AdminAuditLog_model :: model where
  "AdminAuditLog_model = \<lparr>mod_table = ''admin_audit_log'', mod_columns = [
     auto_col (primary (mapped ''id'' BigInteger)),
     default_is Now (mapped ''ts'' Timestamp),
     nullable (mapped ''instance_id'' (Text 64)),
     mapped ''admin_user'' (Text 128),
     mapped ''action'' (Text 64),
     nullable (mapped ''target_type'' (Text 64)),
     nullable (mapped ''target_id'' (Text 128)),
     nullable (mapped ''old_value'' Jsonb),
     nullable (mapped ''new_value'' Jsonb),
     nullable (mapped ''client_ip'' (Text 45))], mod_checks = [], mod_indexes = []\<rparr>"

definition ConnectionHistory_model :: model where
  "ConnectionHistory_model = \<lparr>mod_table = ''connection_history'', mod_columns = [
     primary (mapped ''id'' Uuid),
     mapped ''instance_id'' (Text 64),
     mapped ''username'' (Text 128),
     nullable (references ''rdp_servers'' ''id'' SetNull (mapped ''server_id'' Uuid)),
     nullable (mapped ''server_display'' (Text 255)),
     mapped ''server_address'' (Text 255),
     mapped ''server_port'' Integer,
     mapped ''client_ip'' (Text 45),
     default_is Now (mapped ''started_at'' Timestamp),
     nullable (mapped ''ended_at'' Timestamp),
     default_is (Number 0) (mapped ''bytes_to_client'' BigInteger),
     default_is (Number 0) (mapped ''bytes_to_backend'' BigInteger),
     nullable (mapped ''disconnect_reason'' (Text 128)),
     default_is (Word ''active'') (mapped ''status'' (Text 32))], mod_checks = [],
     mod_indexes = [(''idx_conn_history_user'', [''username'']), (''idx_conn_history_started'', [''started_at''])]\<rparr>"

definition ConnectionEvent_model :: model where
  "ConnectionEvent_model = \<lparr>mod_table = ''connection_events'', mod_columns = [
     auto_col (primary (mapped ''id'' BigInteger)),
     references ''connection_history'' ''id'' Cascade (mapped ''connection_id'' Uuid),
     default_is Now (mapped ''ts'' Timestamp),
     mapped ''event_type'' (Text 64),
     default_is EmptyObject (mapped ''detail'' Jsonb)], mod_checks = [], mod_indexes = [(''idx_conn_events_conn_id'', [''connection_id''])]\<rparr>"

definition ClusterNode_model :: model where
  "ClusterNode_model = \<lparr>mod_table = ''cluster_nodes'', mod_columns = [
     primary (mapped ''instance_id'' (Text 64)),
     mapped ''hostname'' (Text 255),
     mapped ''ip'' (Text 45),
     default_is EmptyObject (mapped ''services'' Jsonb),
     default_is EmptyObject (mapped ''resources'' Jsonb),
     default_is Now (mapped ''last_heartbeat'' Timestamp),
     default_is Now (mapped ''registered_at'' Timestamp)], mod_checks = [], mod_indexes = []\<rparr>"

definition RdpServer_model :: model where
  "RdpServer_model = \<lparr>mod_table = ''rdp_servers'', mod_columns = [
     primary (mapped ''id'' Uuid),
     unique_col (mapped ''tech_name'' (Text 64)),
     mapped ''display_name'' (Text 255),
     mapped ''address'' (Text 255),
     default_is (Number 3389) (mapped ''port'' Integer),
     default_is (Flag True) (mapped ''is_enabled'' Boolean),
     default_is (Number 0) (mapped ''sort_order'' Integer),
     default_is Now (mapped ''created_at'' Timestamp),
     onupdate_now (default_is Now (mapped ''updated_at'' Timestamp))], mod_checks = [], mod_indexes = []\<rparr>"

definition ServerGroupBinding_model :: model where
  "ServerGroupBinding_model = \<lparr>mod_table = ''server_group_bindings'', mod_columns = [
     primary (references ''rdp_servers'' ''id'' Cascade (mapped ''server_id'' Uuid)),
     primary (mapped ''ad_group_guid'' Uuid)], mod_checks = [], mod_indexes = []\<rparr>"

definition PortalSetting_model :: model where
  "PortalSetting_model = \<lparr>mod_table = ''portal_settings'', mod_columns = [
     primary (mapped ''key'' (Text 128)),
     default_is EmptyObject (mapped ''value'' Jsonb),
     onupdate_now (default_is Now (mapped ''updated_at'' Timestamp))], mod_checks = [], mod_indexes = []\<rparr>"

definition AdGroupCache_model :: model where
  "AdGroupCache_model = \<lparr>mod_table = ''ad_groups_cache'', mod_columns = [
     primary (mapped ''guid'' Uuid),
     mapped ''dn'' (Text 512),
     mapped ''cn'' (Text 255),
     nullable (mapped ''description'' (Text 512)),
     default_is Now (mapped ''cached_at'' Timestamp)], mod_checks = [], mod_indexes = []\<rparr>"

definition RdpTemplate_model :: model where
  "RdpTemplate_model = \<lparr>mod_table = ''rdp_templates'', mod_columns = [
     primary (mapped ''id'' Uuid),
     unique_col (mapped ''name'' (Text 128)),
     default_is (Flag False) (mapped ''is_default'' Boolean),
     default_is (Number 0) (mapped ''priority'' Integer),
     default_is EmptyObject (mapped ''params'' Jsonb),
     default_is Now (mapped ''created_at'' Timestamp),
     onupdate_now (default_is Now (mapped ''updated_at'' Timestamp))],
     mod_checks = [(''ck_rdp_templates_priority_nonneg'', ''priority >= 0'')], mod_indexes = []\<rparr>"

definition TemplateGroupBinding_model :: model where
  "TemplateGroupBinding_model = \<lparr>mod_table = ''template_group_bindings'', mod_columns = [
     primary (references ''rdp_templates'' ''id'' Cascade (mapped ''template_id'' Uuid)),
     primary (mapped ''ad_group_guid'' Uuid)], mod_checks = [], mod_indexes = []\<rparr>"

text \<open>The metadata of the models, in the order in which they are imported.\<close>

definition Base_metadata :: "model list" where
  "Base_metadata = [AdminUser_model, AdminAuditLog_model, ConnectionHistory_model, ConnectionEvent_model, ClusterNode_model,
     RdpServer_model, ServerGroupBinding_model, PortalSetting_model, AdGroupCache_model, RdpTemplate_model, TemplateGroupBinding_model]"

definition table_of :: "model \<Rightarrow> table" where
  "table_of M = (let cs = mod_columns M; name = col_name \<circ> mc_column in
     \<lparr>tab_name = mod_table M, tab_columns = map mc_column cs, tab_key = map name (filter mc_primary cs),
      tab_unique = map (\<lambda>c. [name c]) (filter mc_unique cs),
      tab_foreign = concat (map (\<lambda>c. case mc_foreign c of None \<Rightarrow> []
        | Some (t, k, od) \<Rightarrow> [\<lparr>fk_column = name c, fk_table = t, fk_target = k, fk_delete = od\<rparr>]) cs),
      tab_checks = mod_checks M\<rparr>)"

definition indexes_of :: "model \<Rightarrow> db_index list" where
  "indexes_of M = map (\<lambda>(n, cs). \<lparr>ix_name = n, ix_table = mod_table M, ix_columns = cs, ix_unique = False\<rparr>) (mod_indexes M)"

section \<open>The migration creates what the models declare\<close>

named_theorems schema_simps \<open>evaluation of columns, tables and models\<close>

lemmas column_options [schema_simps] = sa_column_def autoincrement_def mapped_def primary_def unique_col_def nullable_def auto_col_def
  default_is_def references_def onupdate_now_def

lemma created_tables:
  "created_ad_groups_cache = table_of AdGroupCache_model"
  "created_admin_audit_log = table_of AdminAuditLog_model"
  "created_admin_users = table_of AdminUser_model"
  "created_cluster_nodes = table_of ClusterNode_model"
  "created_portal_settings = table_of PortalSetting_model"
  "created_rdp_servers = table_of RdpServer_model"
  "created_rdp_templates = table_of RdpTemplate_model"
  "created_connection_history = table_of ConnectionHistory_model"
  "created_server_group_bindings = table_of ServerGroupBinding_model"
  "created_template_group_bindings = table_of TemplateGroupBinding_model"
  "created_connection_events = table_of ConnectionEvent_model"
  unfolding created_ad_groups_cache_def AdGroupCache_model_def created_admin_audit_log_def AdminAuditLog_model_def
    created_admin_users_def AdminUser_model_def created_cluster_nodes_def ClusterNode_model_def created_portal_settings_def
    PortalSetting_model_def created_rdp_servers_def RdpServer_model_def created_rdp_templates_def RdpTemplate_model_def
    created_connection_history_def ConnectionHistory_model_def created_server_group_bindings_def ServerGroupBinding_model_def
    created_template_group_bindings_def TemplateGroupBinding_model_def created_connection_events_def ConnectionEvent_model_def
  by (simp_all add: table_of_def schema_simps)


section \<open>Running the migration\<close>

lemmas created_defs = created_ad_groups_cache_def created_admin_audit_log_def created_admin_users_def created_cluster_nodes_def
  created_portal_settings_def created_rdp_servers_def created_rdp_templates_def created_connection_history_def
  created_server_group_bindings_def created_template_group_bindings_def created_connection_events_def

definition new_tables :: "table list" where
  "new_tables = [created_ad_groups_cache, created_admin_audit_log, created_admin_users, created_cluster_nodes, created_portal_settings,
     created_rdp_servers, created_rdp_templates, created_connection_history, created_server_group_bindings, created_template_group_bindings,
     created_connection_events]"

definition new_indexes :: "db_index list" where
  "new_indexes = [
     \<lparr>ix_name = ''idx_conn_history_started'', ix_table = ''connection_history'', ix_columns = [''started_at''], ix_unique = False\<rparr>,
     \<lparr>ix_name = ''idx_conn_history_user'', ix_table = ''connection_history'', ix_columns = [''username''], ix_unique = False\<rparr>,
     \<lparr>ix_name = ''idx_conn_events_conn_id'', ix_table = ''connection_events'', ix_columns = [''connection_id''], ix_unique = False\<rparr>]"

definition new_names :: "string set" where
  "new_names = tab_name ` set new_tables \<union> ix_name ` set new_indexes"

lemma created_names [schema_simps]:
  "tab_name created_ad_groups_cache = ''ad_groups_cache''" "tab_name created_admin_audit_log = ''admin_audit_log''"
  "tab_name created_admin_users = ''admin_users''" "tab_name created_cluster_nodes = ''cluster_nodes''"
  "tab_name created_portal_settings = ''portal_settings''" "tab_name created_rdp_servers = ''rdp_servers''"
  "tab_name created_rdp_templates = ''rdp_templates''" "tab_name created_connection_history = ''connection_history''"
  "tab_name created_server_group_bindings = ''server_group_bindings''"
  "tab_name created_template_group_bindings = ''template_group_bindings''" "tab_name created_connection_events = ''connection_events''"
  by (simp_all add: created_defs)

lemma created_foreign [schema_simps]:
  "tab_foreign created_ad_groups_cache = []" "tab_foreign created_admin_audit_log = []"
  "tab_foreign created_admin_users = []" "tab_foreign created_cluster_nodes = []"
  "tab_foreign created_portal_settings = []" "tab_foreign created_rdp_servers = []" "tab_foreign created_rdp_templates = []"
  "tab_foreign created_connection_history = [\<lparr>fk_column = ''server_id'', fk_table = ''rdp_servers'', fk_target = ''id'', fk_delete = SetNull\<rparr>]"
  "tab_foreign created_server_group_bindings = [\<lparr>fk_column = ''server_id'', fk_table = ''rdp_servers'', fk_target = ''id'', fk_delete = Cascade\<rparr>]"
  "tab_foreign created_template_group_bindings = [\<lparr>fk_column = ''template_id'', fk_table = ''rdp_templates'', fk_target = ''id'', fk_delete = Cascade\<rparr>]"
  "tab_foreign created_connection_events = [\<lparr>fk_column = ''connection_id'', fk_table = ''connection_history'', fk_target = ''id'', fk_delete = Cascade\<rparr>]"
  by (simp_all add: created_defs)

lemma created_keys [schema_simps]:
  "tab_key created_rdp_servers = [''id'']" "tab_key created_rdp_templates = [''id'']" "tab_key created_connection_history = [''id'']"
  by (simp_all add: created_defs)

lemma created_ok: "list_all table_ok new_tables"
  unfolding new_tables_def created_defs by (simp add: table_ok_def has_columns_def schema_simps)

lemma created_indexed [schema_simps]:
  "has_columns created_connection_history [''started_at'']" "has_columns created_connection_history [''username'']"
  "has_columns created_connection_events [''connection_id'']"
  unfolding created_defs by (simp_all add: has_columns_def schema_simps)

lemma upgrade_runs:
  assumes "relations S \<inter> new_names = {}"
  shows "ddl_run upgrade S = Some \<lparr>sc_tables = sc_tables S @ new_tables, sc_indexes = sc_indexes S @ new_indexes\<rparr>"
  using assms created_ok
  by (simp add: upgrade_def create_index_def new_tables_def new_indexes_def new_names_def relations_def key_of_def schema_simps
    image_Un bex_Un insert_eq_iff)

text \<open>A schema in which every reference has its target, which every operation keeps.\<close>

definition wf_schema :: "schema \<Rightarrow> bool" where
  "wf_schema S \<longleftrightarrow> distinct (map tab_name (sc_tables S)) \<and> distinct (map ix_name (sc_indexes S))
     \<and> (\<forall>t \<in> set (sc_tables S). \<forall>i \<in> set (sc_indexes S). tab_name t \<noteq> ix_name i)
     \<and> (\<forall>t \<in> set (sc_tables S). \<forall>k \<in> set (tab_foreign t). key_of (sc_tables S) (fk_table k) (fk_target k))
     \<and> (\<forall>i \<in> set (sc_indexes S). ix_table i \<in> tab_name ` set (sc_tables S))"

lemma key_of_append: "key_of ts t c \<Longrightarrow> key_of (ts @ us) t c"
  by (auto simp: key_of_def)

lemma key_of_filter: "key_of ts t c \<Longrightarrow> t \<noteq> n \<Longrightarrow> key_of (filter (\<lambda>u. tab_name u \<noteq> n) ts) t c"
  by (auto simp: key_of_def)

lemma ddl_step_wf: "ddl_step o1 S = Some S' \<Longrightarrow> wf_schema S \<Longrightarrow> wf_schema S'"
proof (induction o1 S rule: ddl_step.induct)
  case (1 t S)
  then show ?case by (auto simp: wf_schema_def relations_def list_all_iff key_of_append split: if_splits)
next
  case (2 i S)
  then show ?case by (auto simp: wf_schema_def relations_def split: if_splits) (metis imageI)+
next
  case (3 n S)
  then show ?case by (auto simp: wf_schema_def distinct_map_filter split: if_splits)
next
  case (4 n S)
  then have k: "\<forall>t \<in> set (sc_tables S). tab_name t \<noteq> n \<longrightarrow> (\<forall>k \<in> set (tab_foreign t). fk_table k \<noteq> n \<and> key_of (sc_tables S) (fk_table k) (fk_target k))"
    and i: "\<forall>i \<in> set (sc_indexes S). ix_table i \<noteq> n \<longrightarrow> ix_table i \<in> tab_name ` set (filter (\<lambda>t. tab_name t \<noteq> n) (sc_tables S))"
    and S': "S' = \<lparr>sc_tables = filter (\<lambda>t. tab_name t \<noteq> n) (sc_tables S), sc_indexes = filter (\<lambda>i. ix_table i \<noteq> n) (sc_indexes S)\<rparr>"
    by (auto simp: wf_schema_def list_all_iff split: if_splits)
  show ?case using 4(2) k i unfolding S' wf_schema_def by (auto simp: distinct_map_filter intro!: key_of_filter)
qed

lemma ddl_run_wf: "ddl_run os S = Some S' \<Longrightarrow> wf_schema S \<Longrightarrow> wf_schema S'"
  by (induction os arbitrary: S) (auto simp: ddl_step_wf split: option.splits)

lemma new_names_list [schema_simps]:
  "new_names = {''idx_conn_history_started'', ''idx_conn_history_user'', ''idx_conn_events_conn_id'', ''ad_groups_cache'',
     ''admin_audit_log'', ''admin_users'', ''cluster_nodes'', ''portal_settings'', ''rdp_servers'', ''rdp_templates'',
     ''connection_history'', ''server_group_bindings'', ''template_group_bindings'', ''connection_events''}"
  unfolding new_names_def new_tables_def new_indexes_def by (simp add: created_names)

lemma drop_frame:
  assumes "wf_schema S" and "relations S \<inter> new_names = {}" and "n \<in> new_names"
  shows "filter (\<lambda>t. tab_name t \<noteq> n) (sc_tables S) = sc_tables S" "filter (\<lambda>i. ix_name i \<noteq> n) (sc_indexes S) = sc_indexes S"
    "filter (\<lambda>i. ix_table i \<noteq> n) (sc_indexes S) = sc_indexes S"
    "list_all (\<lambda>t. tab_name t = n \<or> list_all (\<lambda>k. fk_table k \<noteq> n) (tab_foreign t)) (sc_tables S)"
proof -
  have n: "n \<notin> tab_name ` set (sc_tables S)" "n \<notin> ix_name ` set (sc_indexes S)" using assms(2,3) by (auto simp: relations_def)
  then show "filter (\<lambda>t. tab_name t \<noteq> n) (sc_tables S) = sc_tables S" "filter (\<lambda>i. ix_name i \<noteq> n) (sc_indexes S) = sc_indexes S"
    by (auto simp: filter_id_conv)
  show "filter (\<lambda>i. ix_table i \<noteq> n) (sc_indexes S) = sc_indexes S"
    using n(1) assms(1) by (auto simp: filter_id_conv wf_schema_def)
  show "list_all (\<lambda>t. tab_name t = n \<or> list_all (\<lambda>k. fk_table k \<noteq> n) (tab_foreign t)) (sc_tables S)"
  proof -
    have "fk_table k \<noteq> n" if "t \<in> set (sc_tables S)" "k \<in> set (tab_foreign t)" for t k
    proof -
      have "key_of (sc_tables S) (fk_table k) (fk_target k)" using that assms(1) by (simp add: wf_schema_def)
      then show ?thesis using n(1) unfolding key_of_def by (metis imageI)
    qed
    then show ?thesis by (simp add: list_all_iff)
  qed
qed

text \<open>Dropping what is new does not look at what was there.\<close>

definition drops_new :: "ddl \<Rightarrow> bool" where
  "drops_new o1 \<longleftrightarrow> (case o1 of DropIndex n \<Rightarrow> n \<in> new_names | DropTable n \<Rightarrow> n \<in> new_names | _ \<Rightarrow> False)"

definition beside :: "schema \<Rightarrow> schema \<Rightarrow> schema" where
  "beside S T = \<lparr>sc_tables = sc_tables S @ sc_tables T, sc_indexes = sc_indexes S @ sc_indexes T\<rparr>"

lemma ddl_step_beside:
  assumes "wf_schema S" and "relations S \<inter> new_names = {}" and "drops_new o1" and "ddl_step o1 T = Some T'"
  shows "ddl_step o1 (beside S T) = Some (beside S T')"
proof (cases o1)
  case (DropIndex n)
  with assms drop_frame [OF assms(1,2), of n] show ?thesis by (auto simp: drops_new_def beside_def split: if_splits)
next
  case (DropTable n)
  with assms drop_frame [OF assms(1,2), of n] show ?thesis by (auto simp: drops_new_def beside_def split: if_splits)
qed (use assms in \<open>simp_all add: drops_new_def\<close>)

lemma ddl_run_beside:
  assumes "wf_schema S" and "relations S \<inter> new_names = {}"
  shows "list_all drops_new os \<Longrightarrow> ddl_run os T = Some T' \<Longrightarrow> ddl_run os (beside S T) = Some (beside S T')"
proof (induction os arbitrary: T)
  case (Cons o1 os)
  then show ?case using ddl_step_beside [OF assms, of o1 T] by (auto split: option.splits)
qed simp

lemma downgrade_alone: "ddl_run downgrade \<lparr>sc_tables = new_tables, sc_indexes = new_indexes\<rparr> = Some empty_schema"
  by (simp add: downgrade_def new_tables_def new_indexes_def created_names created_foreign empty_schema_def)

lemma downgrade_runs:
  assumes "wf_schema S" and "relations S \<inter> new_names = {}"
  shows "ddl_run downgrade (beside S \<lparr>sc_tables = new_tables, sc_indexes = new_indexes\<rparr>) = Some S"
proof -
  have "list_all drops_new downgrade" by (simp add: downgrade_def drops_new_def new_names_list)
  from ddl_run_beside [OF assms this downgrade_alone] show ?thesis by (simp add: beside_def empty_schema_def)
qed

section \<open>Applying it\<close>

text \<open>
  The database with the revision that Alembic has stamped, and what \<^verbatim>\<open>upgrade head\<close> does: nothing if the revision is the last one,
  an error if it is not known, else the migration and the stamp in one transaction. The first argument is an error of the connection.
\<close>

record database =
  db_schema :: schema
  db_revision :: "string option"

definition revision :: string where
  "revision = ''19a673b79a25''"

definition do_run_migrations :: "exn option \<Rightarrow> (database, unit) eff" where
  "do_run_migrations dbx D = (case dbx of
      Some e \<Rightarrow> (Inl e, D)
    | None \<Rightarrow> (case db_revision D of
        Some v \<Rightarrow> (if v = revision then Inr () else Inl OtherException, D)
      | None \<Rightarrow> (case ddl_run upgrade (db_schema D) of
          None \<Rightarrow> (Inl OtherException, D)
        | Some S \<Rightarrow> (Inr (), \<lparr>db_schema = S, db_revision = Some revision\<rparr>))))"

text \<open>The service starts whatever the migration ends with.\<close>

definition admin_migrate :: "exn option \<Rightarrow> database \<Rightarrow> database" where
  "admin_migrate dbx D = snd (do_run_migrations dbx D)"

text \<open>The address of the database: that of the configuration, or the one of \<^verbatim>\<open>alembic.ini\<close> if there is none.\<close>

definition migration_url :: "'c result \<Rightarrow> ('c \<Rightarrow> ustr) \<Rightarrow> ustr \<Rightarrow> ustr" where
  "migration_url loaded url_of ini = (case loaded of Inl e \<Rightarrow> ini | Inr c \<Rightarrow> url_of c)"

lemma model_parts:
  "mod_table ConnectionHistory_model = ''connection_history''" "mod_table ConnectionEvent_model = ''connection_events''"
  "mod_indexes AdminUser_model = []" "mod_indexes AdminAuditLog_model = []" "mod_indexes ClusterNode_model = []" "mod_indexes RdpServer_model = []"
  "mod_indexes ServerGroupBinding_model = []" "mod_indexes PortalSetting_model = []" "mod_indexes AdGroupCache_model = []"
  "mod_indexes RdpTemplate_model = []" "mod_indexes TemplateGroupBinding_model = []"
  "mod_indexes ConnectionHistory_model = [(''idx_conn_history_user'', [''username'']), (''idx_conn_history_started'', [''started_at''])]"
  "mod_indexes ConnectionEvent_model = [(''idx_conn_events_conn_id'', [''connection_id''])]"
  by (simp_all add: AdminUser_model_def AdminAuditLog_model_def ClusterNode_model_def RdpServer_model_def ServerGroupBinding_model_def
    PortalSetting_model_def AdGroupCache_model_def RdpTemplate_model_def TemplateGroupBinding_model_def ConnectionHistory_model_def
    ConnectionEvent_model_def)



end
