(* ===== verification/Schema_Use.thy ===== *)
theory Schema_Use
  imports Db_Schema Web_Access Monitoring Servers
begin

text \<open>
  The services and the schema: the limits under which the models of the tables accept a row (\<open>audit_fits\<close>, \<open>node_fits\<close>,
  \<open>server_fits\<close>) are the widths of the columns that the migration creates.
\<close>

definition text_fits :: "table \<Rightarrow> string \<Rightarrow> ustr \<Rightarrow> bool" where
  "text_fits t c s \<longleftrightarrow> list_ex (\<lambda>k. col_name k = c \<and> (case col_type k of Text n \<Rightarrow> length s \<le> n | _ \<Rightarrow> False)) (tab_columns t)"

lemma rows_fit_columns:
  "audit_fits a \<longleftrightarrow> text_fits created_admin_audit_log ''instance_id'' (al_instance_id a)
      \<and> text_fits created_admin_audit_log ''admin_user'' (al_admin_user a) \<and> text_fits created_admin_audit_log ''action'' (al_action a)
      \<and> text_fits created_admin_audit_log ''target_id'' (al_target_id a) \<and> text_fits created_admin_audit_log ''client_ip'' (al_client_ip a)"
  "node_fits n \<longleftrightarrow> text_fits created_cluster_nodes ''instance_id'' (cn_instance_id n)
      \<and> text_fits created_cluster_nodes ''hostname'' (cn_hostname n) \<and> text_fits created_cluster_nodes ''ip'' (cn_ip n)"
  "server_fits s \<longleftrightarrow> text_fits created_rdp_servers ''tech_name'' (sv_tech_name s)
      \<and> text_fits created_rdp_servers ''display_name'' (sv_display_name s) \<and> text_fits created_rdp_servers ''address'' (sv_address s)
      \<and> sv_sort_order s \<in> {- (2 ^ 31)..<2 ^ 31}"
  unfolding created_admin_audit_log_def created_cluster_nodes_def created_rdp_servers_def
  by (auto simp: audit_fits_def node_fits_def server_fits_def text_fits_def schema_simps)

end
