(* ===== verification/Portal_App.thy ===== *)
theory Portal_App
  imports Portal Monitoring Admin_Users
begin

text \<open>
  The portal application around its routes (\<^verbatim>\<open>src/services/portal/app.py\<close>): what is built from the
  configuration, start-up, the task that follows changed settings, and the middleware that every
  request passes (\<^verbatim>\<open>middleware/correlation_id.py\<close>, \<^verbatim>\<open>security_headers.py\<close> around \<^verbatim>\<open>real_ip.py\<close>); its
  health route. Of FastAPI the order of the middleware is modelled, the last one added being the outermost, and that an
  \<^verbatim>\<open>HTTPException\<close> becomes a response inside of it and any other exception one outside of it.
\<close>

section \<open>Construction\<close>

definition new_store :: "aead \<Rightarrow> (bytes \<Rightarrow> ustr) \<Rightarrow> RedisConfig \<Rightarrow> SecurityConfig \<Rightarrow> SessionStore result" where
  "new_store A sha redis_c sec = bind_result (AESEncryptor (encryption_key sec)) (\<lambda>key.
     Inr \<lparr>web_ttl = web_session_ttl redis_c, rdp_token_ttl = cfg_token_ttl redis_c, web_idle_ttl = cfg_web_idle_ttl redis_c,
          enc_key = key, cipher = A, sha256_hex = sha\<rparr>)"

definition new_manager :: "jobj \<Rightarrow> settings" where
  "new_manager rows = \<lparr>s_rows = rows, s_cache = (\<lambda>_. None), s_loaded_at = 0, s_seeded = False, hook_calls = [], published = []\<rparr>"

record 'db portal_service =
  ps_portal :: "'db portal"
  ps_admins :: "AdminUser list"
  ps_listening :: bool

definition create_portal :: "aead \<Rightarrow> (bytes \<Rightarrow> ustr) \<Rightarrow> ldap3 \<Rightarrow> AppConfig \<Rightarrow> 'db \<Rightarrow> jobj \<Rightarrow> AdminUser list \<Rightarrow> 'db portal_service result" where
  "create_portal A sha X cfg db rows admins =
    bind_result (new_store A sha (redis_cfg cfg) (security cfg)) (\<lambda>store.
      Inr \<lparr>ps_portal = \<lparr>p_rdb = db, p_settings = new_manager rows, p_calls = [],
             p_ldap_auth = map_option (LDAPAuthenticator_of X) (ldap_cfg cfg), p_store = Some store\<rparr>,
           ps_admins = admins, ps_listening = False\<rparr>)"

section \<open>Changed settings\<close>

definition portal_on_ldap_change :: "ldap3 \<Rightarrow> senv \<Rightarrow> 'db portal \<Rightarrow> 'db portal" where
  "portal_on_ldap_change X E w = w\<lparr>p_ldap_auth := map_option (LDAPAuthenticator_of X) (ldap E (p_settings w))\<rparr>"

definition portal_on_redis_ttl_change :: "jobj \<Rightarrow> 'db portal \<Rightarrow> 'db portal" where
  "portal_on_redis_ttl_change data w = w\<lparr>p_store := map_option (apply_ttl data) (p_store w)\<rparr>"

definition ps_reload :: "ldap3 \<Rightarrow> senv \<Rightarrow> ('db portal_service, unit) eff" where
  "ps_reload X E s = (case portal_reload X E (ps_portal s) of (r, w) \<Rightarrow> (r, s\<lparr>ps_portal := w\<rparr>))"

text \<open>Start-up; if the settings cannot be loaded, it fails before the account and the task.\<close>

definition portal_bootstrap :: "ldap3 \<Rightarrow> senv \<Rightarrow> pw_lib \<Rightarrow> nat \<Rightarrow> ('db portal_service, unit) eff" where
  "portal_bootstrap X E P uid =
    rbind (ps_reload X E) (\<lambda>_ s. (Inr (), s\<lparr>ps_admins := bootstrap_default_admin P uid (ps_admins s), ps_listening := True\<rparr>))"

text \<open>One round of the task with what \<^verbatim>\<open>get_message\<close> brings; every exception ends it.\<close>

definition portal_listener :: "ldap3 \<Rightarrow> senv \<Rightarrow> bool result \<Rightarrow> 'db portal_service \<Rightarrow> 'db portal_service" where
  "portal_listener X E msg s = (if \<not> ps_listening s then s
    else (case msg of
        Inl _ \<Rightarrow> s\<lparr>ps_listening := False\<rparr>
      | Inr False \<Rightarrow> s
      | Inr True \<Rightarrow> (case ps_reload X E s of (Inr _, s') \<Rightarrow> s' | (Inl _, s') \<Rightarrow> s'\<lparr>ps_listening := False\<rparr>)))"

definition portal_health :: "bool \<Rightarrow> bool \<Rightarrow> ustr option \<Rightarrow> ustr option \<Rightarrow> Health" where
  "portal_health has_factory has_client db_error redis_error =
    check_health (if has_factory then Some db_error else None) (if has_client then Some redis_error else None)"

section \<open>Middleware\<close>

record http_response =
  hr_status :: int
  hr_headers :: "ustr \<rightharpoonup> ustr"

type_synonym endpoint = "request \<Rightarrow> http_response result"

text \<open>The inner handler of exceptions, inside of all middleware.\<close>

definition http_errors :: "endpoint \<Rightarrow> endpoint" where
  "http_errors h rq = (case h rq of
      Inl (HTTPException code) \<Rightarrow> Inr \<lparr>hr_status = code, hr_headers = Map.empty\<rparr>
    | r \<Rightarrow> r)"

definition csp_word :: "string \<Rightarrow> ustr" where
  "csp_word w = [39] @ lit w @ [39]"

definition CSP :: ustr where
  "CSP = lit ''default-src '' @ csp_word ''self'' @ lit ''; script-src '' @ csp_word ''self'' @ lit '' '' @ csp_word ''unsafe-inline''
     @ lit '' https://cdn.jsdelivr.net; style-src '' @ csp_word ''self'' @ lit '' '' @ csp_word ''unsafe-inline''
     @ lit ''; img-src '' @ csp_word ''self'' @ lit '' data:; font-src '' @ csp_word ''self'' @ lit '' data:; connect-src '' @ csp_word ''self''
     @ lit ''; frame-ancestors '' @ csp_word ''none'' @ lit ''; form-action '' @ csp_word ''self'' @ lit ''; base-uri '' @ csp_word ''self''"

definition standard_headers :: "http_response \<Rightarrow> http_response" where
  "standard_headers r = r\<lparr>hr_headers := (hr_headers r)(lit ''X-Frame-Options'' \<mapsto> lit ''DENY'', lit ''X-Content-Type-Options'' \<mapsto> lit ''nosniff'',
     lit ''Content-Security-Policy'' \<mapsto> CSP)\<rparr>"

definition security_headers :: "endpoint \<Rightarrow> endpoint" where
  "security_headers next' rq = bind_result (next' rq) (\<lambda>r. Inr (standard_headers r))"

definition correlation_of :: "ustr \<Rightarrow> request \<Rightarrow> ustr" where
  "correlation_of fresh rq = (if header_text rq ''x-correlation-id'' \<noteq> [] then header_text rq ''x-correlation-id'' else fresh)"

definition correlation_id :: "ustr \<Rightarrow> endpoint \<Rightarrow> endpoint" where
  "correlation_id fresh next' rq = bind_result (next' rq) (\<lambda>r.
     Inr (r\<lparr>hr_headers := (hr_headers r)(lit ''X-Correlation-Id'' \<mapsto> correlation_of fresh rq)\<rparr>))"

definition real_ip :: "endpoint \<Rightarrow> endpoint" where
  "real_ip next' rq = next' (real_ip_dispatch rq)"

definition portal_stack :: "ustr \<Rightarrow> endpoint \<Rightarrow> endpoint" where
  "portal_stack fresh h = real_ip (correlation_id fresh (security_headers (http_errors h)))"

text \<open>What the client gets: an exception that passed all middleware is answered by the server.\<close>

definition portal_serve :: "ustr \<Rightarrow> endpoint \<Rightarrow> request \<Rightarrow> http_response" where
  "portal_serve fresh h rq = (case portal_stack fresh h rq of
      Inr r \<Rightarrow> r
    | Inl e \<Rightarrow> \<lparr>hr_status = 500, hr_headers = Map.empty\<rparr>)"

section \<open>What every response carries\<close>

text \<open>
  Every response of the application carries the three headers, whatever it set for them itself, and the
  correlation identifier of the request or a fresh one; it was made for the address that the proxy
  named. Only the answer to an exception that no handler took has none of them.
\<close>

lemma portal_responses:
  assumes "http_errors h (real_ip_dispatch rq) = r"
  shows "(\<forall>a. r = Inr a \<longrightarrow> hr_status (portal_serve fresh h rq) = hr_status a
      \<and> hr_headers (portal_serve fresh h rq) (lit ''X-Frame-Options'') = Some (lit ''DENY'')
      \<and> hr_headers (portal_serve fresh h rq) (lit ''X-Content-Type-Options'') = Some (lit ''nosniff'')
      \<and> hr_headers (portal_serve fresh h rq) (lit ''Content-Security-Policy'') = Some CSP
      \<and> hr_headers (portal_serve fresh h rq) (lit ''X-Correlation-Id'') = Some (correlation_of fresh rq))
    \<and> (\<forall>e. r = Inl e \<longrightarrow> (\<forall>code. e \<noteq> HTTPException code) \<and> hr_headers (portal_serve fresh h rq) = Map.empty)"
proof -
  have "correlation_of fresh (real_ip_dispatch rq) = correlation_of fresh rq"
    by (simp add: correlation_of_def real_ip_dispatch_def header_text_def)
  moreover have "e \<noteq> HTTPException code" if "r = Inl e" for e code
    using that assms by (auto simp: http_errors_def split: sum.splits exn.splits)
  ultimately show ?thesis
    using assms by (auto simp: portal_serve_def portal_stack_def real_ip_def correlation_id_def security_headers_def standard_headers_def) (auto simp: lit_eval)
qed

section \<open>Following the settings\<close>

text \<open>What the application uses agrees with its settings: the directory, and the times to live where the settings have them.\<close>

definition follows :: "ldap3 \<Rightarrow> senv \<Rightarrow> 'db portal \<Rightarrow> bool" where
  "follows X E w \<longleftrightarrow> p_ldap_auth w = map_option (LDAPAuthenticator_of X) (ldap E (p_settings w))
     \<and> (case p_store w of None \<Rightarrow> True | Some S \<Rightarrow> S = apply_ttl (redis_ttl E (p_settings w)) S)"

lemma apply_ttl_idem: "apply_ttl t (apply_ttl t S) = apply_ttl t S"
  by (simp add: apply_ttl_def ttl_field_def split: option.split json.split)

lemma ps_reload_follows: "ps_reload X E s = (Inr (), s') \<Longrightarrow> follows X E (ps_portal s')"
  by (auto simp: ps_reload_def portal_reload_def on_settings_def rd_simps follows_def apply_ttl_idem split: prod.splits sum.splits option.split)

text \<open>
  Start-up leaves an application that follows its settings and has an account, or fails without either; a
  message makes it follow the new settings, or the task has ended and no later message is looked at.
\<close>

lemma portal_follows:
  "(portal_bootstrap X E P uid s = (Inr (), s') \<longrightarrow> follows X E (ps_portal s') \<and> ps_admins s' \<noteq> [] \<and> ps_listening s')
    \<and> (portal_bootstrap X E P uid s = (Inl e, s') \<longrightarrow> ps_admins s' = ps_admins s \<and> ps_listening s' = ps_listening s)
    \<and> (ps_listening s \<longrightarrow> follows X E (ps_portal (portal_listener X E (Inr True) s)) \<or> \<not> ps_listening (portal_listener X E (Inr True) s))
    \<and> (\<not> ps_listening s \<longrightarrow> portal_listener X E msg s = s)"
proof (intro conjI impI)
  assume b: "portal_bootstrap X E P uid s = (Inr (), s')"
  then obtain s1 where s1: "ps_reload X E s = (Inr (), s1)"
    "s' = s1\<lparr>ps_admins := bootstrap_default_admin P uid (ps_admins s1), ps_listening := True\<rparr>"
    by (auto simp: portal_bootstrap_def rd_simps split: prod.splits sum.splits)
  then show "follows X E (ps_portal s')" "ps_admins s' \<noteq> []" "ps_listening s'"
    using ps_reload_follows [OF s1(1)] by (simp_all add: follows_def bootstrap_default_admin_def)
next
  assume "portal_bootstrap X E P uid s = (Inl e, s')"
  then show "ps_admins s' = ps_admins s" "ps_listening s' = ps_listening s"
    by (auto simp: portal_bootstrap_def rd_simps ps_reload_def split: prod.splits sum.splits)
next
  show "follows X E (ps_portal (portal_listener X E (Inr True) s)) \<or> \<not> ps_listening (portal_listener X E (Inr True) s)"
    using ps_reload_follows [of X E s] by (auto simp: portal_listener_def split: prod.splits sum.splits)
qed (simp add: portal_listener_def)

end
