(* ===== verification/Admin_Web.thy ===== *)
theory Admin_Web
  imports Admin_App Portal_App
begin

text \<open>
  The administration application as a server (\<^verbatim>\<open>src/services/admin/app.py\<close>): what \<^verbatim>\<open>create_app\<close> builds, the
  layers that every request passes, from the outside the headers, the check of the origin and the audit around the handlers of
  exceptions and the routes, and the pages. The routes of the interface are an argument; what a page shows beyond its context is left out.
\<close>

section \<open>Construction\<close>

definition create_admin :: "aead \<Rightarrow> (bytes \<Rightarrow> ustr) \<Rightarrow> ldap3 \<Rightarrow> AppConfig \<Rightarrow> jobj \<Rightarrow> ustr option \<Rightarrow> acme_state \<Rightarrow> admin_app result" where
  "create_admin A sha X cfg rows env certs =
    bind_result (new_store A sha (redis_cfg cfg) (security cfg)) (\<lambda>store.
      Inr \<lparr>aa_settings = new_manager rows, aa_ldap = map_option (LDAPAuthenticator_of X) (ldap_cfg cfg), aa_store = store,
           portal_name_cache = None, prev_public_host = None, prev_public_port = None, aa_cert_status = Idle, requested = [],
           dotenv = env, aa_acme = certs, haproxy_sent = []\<rparr>)"

text \<open>What runs: the application with the tables and Redis; the renewal task from start-up to the end.\<close>

record 'db admin_world =
  aw_au :: "'db audited"
  aw_app :: admin_app
  aw_renewal :: bool
  aw_engine :: bool

definition on_au :: "('db, 'a) eff \<Rightarrow> ('db admin_world, 'a) eff" where
  "on_au m w = (case m (au_rdb (aw_au w)) of (r, db) \<Rightarrow> (r, w\<lparr>aw_au := (aw_au w)\<lparr>au_rdb := db\<rparr>\<rparr>))"

definition on_app :: "(admin_app, 'a) eff \<Rightarrow> ('db admin_world, 'a) eff" where
  "on_app m w = (case m (aw_app w) of (r, a) \<Rightarrow> (r, w\<lparr>aw_app := a\<rparr>))"

definition admin_startup :: "ldap3 \<Rightarrow> senv \<Rightarrow> ('db admin_world, unit) eff" where
  "admin_startup X E = rbind (on_app (load_settings X E)) (\<lambda>_ w. (Inr (), w\<lparr>aw_renewal := True\<rparr>))"

definition admin_cleanup :: "'db admin_world \<Rightarrow> 'db admin_world" where
  "admin_cleanup w = w\<lparr>aw_renewal := False, aw_engine := False\<rparr>"

definition cert_status_route :: "'db admin_world \<Rightarrow> cert_status" where
  "cert_status_route w = aa_cert_status (aw_app w)"

section \<open>Layers\<close>

type_synonym 'db handler = "request \<Rightarrow> ('db admin_world, http_response) eff"

definition plain_response :: "int \<Rightarrow> http_response" where
  "plain_response code = \<lparr>hr_status = code, hr_headers = Map.empty\<rparr>"

definition redirect_to :: "string \<Rightarrow> int \<Rightarrow> http_response" where
  "redirect_to url code = \<lparr>hr_status = code, hr_headers = [lit ''location'' \<mapsto> lit url]\<rparr>"

definition admin_errors :: "'db handler \<Rightarrow> 'db handler" where
  "admin_errors h rq w = (case h rq w of
      (Inl (HTTPException code), w') \<Rightarrow>
        (Inr (if html_unauthorized (rq_path rq) code then redirect_to ''/admin/login'' 303 else plain_response code), w')
    | rw \<Rightarrow> rw)"

text \<open>The environment of a request: Redis, the address library, the services, the clock and the rounds of two transactions, and the audit table.\<close>

record 'db request_env =
  re_redis :: "'db redis"
  re_ips :: ip_lib
  re_state :: app_state
  re_now :: int
  re_round :: round
  re_audit_round :: round
  re_audit_error :: "exn option"
  re_netloc_ok :: "ustr \<Rightarrow> bool"
  re_settings :: senv

definition audit_layer :: "'db request_env \<Rightarrow> 'db handler \<Rightarrow> 'db handler" where
  "audit_layer Q h rq w = (case h rq w of
      (Inr resp, w') \<Rightarrow> (Inr resp, w'\<lparr>aw_au := audit_dispatch (re_redis Q) (re_state Q) (re_now Q) (re_audit_round Q) (re_audit_error Q) rq
         (hr_status resp) (aw_au w')\<rparr>)
    | rw \<Rightarrow> rw)"

definition csrf_layer :: "'db request_env \<Rightarrow> 'db handler \<Rightarrow> 'db handler" where
  "csrf_layer Q h rq = rbind (rlift (csrf_dispatch (re_netloc_ok Q) rq)) (\<lambda>ok. if ok then h rq else rreturn (plain_response 403))"

definition headers_layer :: "'db handler \<Rightarrow> 'db handler" where
  "headers_layer h rq = rbind (h rq) (\<lambda>resp. rreturn (standard_headers resp))"

definition admin_stack :: "'db request_env \<Rightarrow> 'db handler \<Rightarrow> 'db handler" where
  "admin_stack Q h = headers_layer (csrf_layer Q (audit_layer Q (admin_errors h)))"

text \<open>An exception that passed all layers is answered by the server.\<close>

definition admin_serve :: "'db request_env \<Rightarrow> 'db handler \<Rightarrow> request \<Rightarrow> 'db admin_world \<Rightarrow> http_response \<times> 'db admin_world" where
  "admin_serve Q h rq w = (case admin_stack Q h rq w of (Inr resp, w') \<Rightarrow> (resp, w') | (Inl e, w') \<Rightarrow> (plain_response 500, w'))"

section \<open>Pages\<close>

definition page_routes :: "(ustr \<times> string \<times> string) list" where
  "page_routes = [
     (lit ''/admin/dashboard'', ''admin_dashboard.html'', ''dashboard''),
     (lit ''/admin/servers'', ''admin_servers.html'', ''servers''),
     (lit ''/admin/templates'', ''admin_templates.html'', ''templates''),
     (lit ''/admin/settings'', ''admin_settings.html'', ''settings''),
     (lit ''/admin/sessions'', ''admin_sessions.html'', ''sessions''),
     (lit ''/admin/history'', ''admin_history.html'', ''history'')]"

record page =
  pg_template :: string
  pg_admin :: AdminWebSessionData
  pg_nav :: string
  pg_portal_name :: json

definition admin_dep :: "'db request_env \<Rightarrow> request \<Rightarrow> ('db admin_world, AdminWebSessionData) eff" where
  "admin_dep Q rq = on_au (require_admin (re_redis Q) (re_ips Q) (re_state Q) (re_now Q) (re_round Q) rq)"

definition page_handler :: "'db request_env \<Rightarrow> string \<Rightarrow> string \<Rightarrow> request \<Rightarrow> ('db admin_world, page) eff" where
  "page_handler Q tpl nav rq =
    rbind (admin_dep Q rq) (\<lambda>admin.
    rbind (on_app (load_portal_name (re_settings Q))) (\<lambda>name.
    rreturn \<lparr>pg_template = tpl, pg_admin = admin, pg_nav = nav, pg_portal_name = name\<rparr>))"

definition admin_root :: "'db request_env \<Rightarrow> 'db handler" where
  "admin_root Q rq = rbind (admin_dep Q rq) (\<lambda>_. rreturn (redirect_to ''/admin/dashboard'' 302))"

text \<open>The routes: the pages by their path, then the interface.\<close>

definition admin_routes :: "'db request_env \<Rightarrow> 'db handler \<Rightarrow> 'db handler" where
  "admin_routes Q api rq =
    (if rq_method rq = lit ''GET'' \<and> rq_path rq = lit ''/admin'' then admin_root Q rq
     else (case (if rq_method rq = lit ''GET'' then map_of page_routes (rq_path rq) else None) of
         Some (tpl, nav) \<Rightarrow> rbind (page_handler Q tpl nav rq) (\<lambda>_. rreturn (plain_response 200))
       | None \<Rightarrow> api rq))"

section \<open>Who sees a page\<close>

definition carries_headers :: "http_response \<Rightarrow> bool" where
  "carries_headers r \<longleftrightarrow> hr_headers r (lit ''X-Frame-Options'') = Some (lit ''DENY'')
     \<and> hr_headers r (lit ''X-Content-Type-Options'') = Some (lit ''nosniff'') \<and> hr_headers r (lit ''Content-Security-Policy'') = Some CSP"

lemma standard_headers_carries [simp]: "carries_headers (standard_headers r)" "hr_status (standard_headers r) = hr_status r"
  by (simp_all add: standard_headers_def carries_headers_def) (simp add: lit_eval)

lemma standard_headers_location: "hr_headers (standard_headers r) (lit ''location'') = hr_headers r (lit ''location'')"
  by (simp add: standard_headers_def lit_eval)

lemma admin_serve_headers:
  "admin_serve Q h rq w = (resp, w') \<Longrightarrow> carries_headers resp \<or> resp = plain_response 500"
  by (auto simp: admin_serve_def admin_stack_def headers_layer_def rd_simps split: prod.splits sum.splits)

lemma admin_stack_reading:
  assumes "\<not> mutating (rq_method rq)"
  shows "admin_stack Q h rq w = (case admin_errors h rq w of (Inr r, w') \<Rightarrow> (Inr (standard_headers r), w') | (Inl e, w') \<Rightarrow> (Inl e, w'))"
  using assms by (auto simp: admin_stack_def headers_layer_def csrf_layer_def csrf_dispatch_def audit_layer_def audit_dispatch_def rd_simps
    split: prod.split sum.split)

text \<open>A page asks for an administrator first; everything it changes is what that check and the name of the portal change.\<close>

definition page_paths :: "ustr set" where
  "page_paths = insert (lit ''/admin'') (fst ` set page_routes)"

lemma page_path_login: "p \<in> page_paths \<Longrightarrow> html_unauthorized p code \<longleftrightarrow> code = 401"
  by (auto simp: page_paths_def page_routes_def html_unauthorized_def starts_with_def lit_eval)

lemma page_path_route:
  "p \<in> page_paths \<Longrightarrow> p \<noteq> lit ''/admin'' \<Longrightarrow> \<exists>tpl nav. map_of page_routes p = Some (tpl, nav)"
  by (auto simp: page_paths_def page_routes_def)

lemma get_reads: "\<not> mutating (lit ''GET'')"
  by (simp add: mutating_def lit_eval)

lemma admin_routes_refused:
  assumes "rq_method rq = lit ''GET''" and "rq_path rq \<in> page_paths"
    and "require_admin (re_redis Q) (re_ips Q) (re_state Q) (re_now Q) (re_round Q) rq (au_rdb (aw_au w)) = (Inl e, db)"
  shows "admin_routes Q api rq w = (Inl e, w\<lparr>aw_au := (aw_au w)\<lparr>au_rdb := db\<rparr>\<rparr>)"
proof (cases "rq_path rq = lit ''/admin''")
  case True
  with assms show ?thesis by (simp add: admin_routes_def admin_root_def admin_dep_def on_au_def rd_simps)
next
  case False
  with page_path_route assms(2) obtain tpl nav where "map_of page_routes (rq_path rq) = Some (tpl, nav)" by blast
  with False assms show ?thesis by (simp add: admin_routes_def page_handler_def admin_dep_def on_au_def rd_simps)
qed

definition answer_to :: "exn \<Rightarrow> http_response" where
  "answer_to e = (case e of HTTPException code \<Rightarrow> standard_headers (if code = 401 then redirect_to ''/admin/login'' 303 else plain_response code)
     | _ \<Rightarrow> plain_response 500)"

text \<open>
  C21: Only an administrator sees a page: for everyone else a page is answered with a redirection to the login, with 403 for an address
  that is not admitted, or with an error, and neither the accounts nor the settings nor the audit log are touched. The start page redirects
  an administrator to the overview; the other pages are shown, if the name of the portal can be read. A mutating request
  that fails the check of its origin runs nothing, but leaves no trace in the audit log either; nor does one that ends in an exception.
\<close>

theorem admin_pages_guarded:
  assumes "rq_method rq = lit ''GET''" and "rq_path rq \<in> page_paths"
    and "admin_serve Q (admin_routes Q api) rq w = (resp, w')"
    and "require_admin (re_redis Q) (re_ips Q) (re_state Q) (re_now Q) (re_round Q) rq (au_rdb (aw_au w)) = (r, db)"
  shows "(\<forall>e. r = Inl e \<longrightarrow> w' = w\<lparr>aw_au := (aw_au w)\<lparr>au_rdb := db\<rparr>\<rparr>
        \<and> resp = answer_to e)
    \<and> (\<forall>sess. r = Inr sess \<longrightarrow> audit_log (aw_au w') = audit_log (aw_au w)
        \<and> (rq_path rq = lit ''/admin'' \<longrightarrow> resp = standard_headers (redirect_to ''/admin/dashboard'' 302))
        \<and> (rq_path rq \<noteq> lit ''/admin'' \<longrightarrow> (case fst (load_portal_name (re_settings Q) (aw_app w)) of
            Inr name \<Rightarrow> resp = standard_headers (plain_response 200) | Inl e \<Rightarrow> resp = answer_to e)))
    \<and> (mutating (rq_method rq2) \<and> csrf_dispatch (re_netloc_ok Q) rq2 = Inr False
        \<longrightarrow> admin_serve Q h rq2 w = (standard_headers (plain_response 403), w))
    \<and> (csrf_dispatch (re_netloc_ok Q) rq2 = Inr True \<and> h rq2 w = (Inl x, w2) \<and> (\<forall>code. x \<noteq> HTTPException code)
        \<longrightarrow> admin_serve Q h rq2 w = (plain_response 500, w2))"
proof (intro conjI allI impI)
  have reading: "\<not> mutating (rq_method rq)" using assms(1) get_reads by simp
  let ?w = "w\<lparr>aw_au := (aw_au w)\<lparr>au_rdb := db\<rparr>\<rparr>"
  have serve: "admin_serve Q h rq w = (case h rq w of
      (Inr a, w1) \<Rightarrow> (standard_headers a, w1) | (Inl e, w1) \<Rightarrow> (answer_to e, w1))" for h
    using page_path_login [OF assms(2)]
    by (auto simp: admin_serve_def admin_stack_reading [OF reading] admin_errors_def answer_to_def split: prod.split sum.split exn.split)
  {
    fix e
    assume e: "r = Inl e"
    note refused = admin_routes_refused [OF assms(1,2) assms(4) [unfolded e]]
    show "w' = ?w" using assms(3) serve refused by simp
    show "resp = answer_to e"
      using assms(3) serve refused by simp
  }
  fix sess
  assume s: "r = Inr sess"
  have dep: "admin_dep Q rq w = (Inr sess, ?w)" using assms(4) s by (simp add: admin_dep_def on_au_def)
  obtain n a where n: "load_portal_name (re_settings Q) (aw_app w) = (n, a)" by force
  have root: "admin_routes Q api rq w = (Inr (redirect_to ''/admin/dashboard'' 302), ?w)" if "rq_path rq = lit ''/admin''"
    using that assms(1) dep by (simp add: admin_routes_def admin_root_def rd_simps)
  have shown: "admin_routes Q api rq w = (case n of Inl e \<Rightarrow> Inl e | Inr name \<Rightarrow> Inr (plain_response 200), ?w\<lparr>aw_app := a\<rparr>)"
    if p: "rq_path rq \<noteq> lit ''/admin''"
  proof -
    obtain tpl nav where "map_of page_routes (rq_path rq) = Some (tpl, nav)" using page_path_route [OF assms(2) p] by blast
    with p assms(1) dep n show ?thesis by (auto simp: admin_routes_def page_handler_def on_app_def rd_simps split: sum.split)
  qed
  show "audit_log (aw_au w') = audit_log (aw_au w)"
  proof (cases "rq_path rq = lit ''/admin''")
    case True
    with assms(3) serve root show ?thesis by auto
  next
    case False
    with assms(3) serve shown show ?thesis by (cases n) auto
  qed
  show "resp = standard_headers (redirect_to ''/admin/dashboard'' 302)" if "rq_path rq = lit ''/admin''"
    using assms(3) serve root [OF that] by simp
  show "case fst (load_portal_name (re_settings Q) (aw_app w)) of
      Inr name \<Rightarrow> resp = standard_headers (plain_response 200) | Inl e \<Rightarrow> resp = answer_to e"
    if "rq_path rq \<noteq> lit ''/admin''"
    using assms(3) serve shown [OF that] n by (cases n) auto
next
  assume "mutating (rq_method rq2) \<and> csrf_dispatch (re_netloc_ok Q) rq2 = Inr False"
  then show "admin_serve Q h rq2 w = (standard_headers (plain_response 403), w)"
    by (simp add: admin_serve_def admin_stack_def headers_layer_def csrf_layer_def rd_simps)
next
  assume "csrf_dispatch (re_netloc_ok Q) rq2 = Inr True \<and> h rq2 w = (Inl x, w2) \<and> (\<forall>code. x \<noteq> HTTPException code)"
  then show "admin_serve Q h rq2 w = (plain_response 500, w2)"
    by (cases x) (simp_all add: admin_serve_def admin_stack_def headers_layer_def csrf_layer_def audit_layer_def admin_errors_def rd_simps)
qed

theorem admin_pages_guarded_witness:
  "\<exists>(Q :: mem_db request_env) w w'. admin_serve Q (admin_routes Q (\<lambda>_. rraise TypeError)) ref_request w
     = (standard_headers (redirect_to ''/admin/login'' 303), w')"
proof -
  let ?A = "\<lparr>app_config = None, app_store = Some ref_store, app_db = True\<rparr>"
  let ?Q = "\<lparr>re_redis = mem_redis, re_ips = ref_ip_lib, re_state = ?A, re_now = 0, re_round = ([], [], []), re_audit_round = ([], [], []),
    re_audit_error = None, re_netloc_ok = (\<lambda>_. True), re_settings = ref_senv\<rparr>"
  let ?w = "\<lparr>aw_au = \<lparr>au_rdb = empty_db, audit_log = []\<rparr>, aw_app = ref_admin_app (ref_settings []), aw_renewal = True, aw_engine = True\<rparr>"
  obtain resp w' where s: "admin_serve ?Q (admin_routes ?Q (\<lambda>_. rraise TypeError)) ref_request ?w = (resp, w')" by force
  have r: "require_admin (re_redis ?Q) (re_ips ?Q) (re_state ?Q) (re_now ?Q) (re_round ?Q) ref_request (au_rdb (aw_au ?w)) = (Inl (HTTPException 401), empty_db)"
    by (simp add: require_admin_def get_session_store_def ref_request_def rd_simps)
  have "resp = standard_headers (redirect_to ''/admin/login'' 303)"
    using admin_pages_guarded [OF _ _ s r] by (simp add: ref_request_def page_paths_def answer_to_def)
  with s show ?thesis by blast
qed

end
