(* ===== verification/Service_Base.thy ===== *)
theory Service_Base
  imports Config
begin

text \<open>
  Helpers below the services: options of sockets (\<^verbatim>\<open>src/services/rdp_relay/tcp_utils.py\<close>), the engine of the database and
  the transactional scope (\<^verbatim>\<open>src/libs/db/engine.py\<close>), the client of Redis (\<^verbatim>\<open>src/libs/redis_store/client.py\<close>). What the operating system, asyncio and the database refuse
  is an argument.
\<close>

section \<open>Sockets\<close>

definition SOCK_BUF_SIZE :: int where
  "SOCK_BUF_SIZE = 512 * 1024"

type_synonym sockopts = "(string \<times> int) list"

text \<open>The calls of \<^verbatim>\<open>setsockopt\<close> in a \<^verbatim>\<open>try\<close> block: the first one that raises ends it.\<close>

definition try_setsockopt :: "(string \<Rightarrow> bool) \<Rightarrow> sockopts \<Rightarrow> sockopts \<Rightarrow> sockopts" where
  "try_setsockopt fails os set_before = set_before @ takeWhile (\<lambda>o1. \<not> fails (fst o1)) os"

text \<open>An option is set if the platform has its constant.\<close>

definition if_has :: "(string \<Rightarrow> bool) \<Rightarrow> string \<Rightarrow> int \<Rightarrow> sockopts" where
  "if_has has_const name v = (if has_const name then [(name, v)] else [])"

definition keepalive_options :: "(string \<Rightarrow> bool) \<Rightarrow> sockopts" where
  "keepalive_options has_const = [(''SO_KEEPALIVE'', 1)] @ if_has has_const ''TCP_KEEPIDLE'' 30 @ if_has has_const ''TCP_KEEPINTVL'' 10
     @ if_has has_const ''TCP_KEEPCNT'' 3 @ if_has has_const ''TCP_USER_TIMEOUT'' 45000"

definition buffer_options :: "(string \<Rightarrow> bool) \<Rightarrow> sockopts" where
  "buffer_options has_const = [(''SO_SNDBUF'', SOCK_BUF_SIZE), (''SO_RCVBUF'', SOCK_BUF_SIZE)] @ if_has has_const ''TCP_NODELAY'' 1"

definition configure_tcp_keepalive :: "(string \<Rightarrow> bool) \<Rightarrow> (string \<Rightarrow> bool) \<Rightarrow> sockopts option \<Rightarrow> sockopts option" where
  "configure_tcp_keepalive has_const fails sock = (case sock of
      None \<Rightarrow> None
    | Some s \<Rightarrow> Some (try_setsockopt fails (buffer_options has_const) (try_setsockopt fails (keepalive_options has_const) s)))"

record writer =
  w_open :: bool
  w_high :: int
  w_low :: int

text \<open>The limits are kept if the transport refuses them, as it does when the lower one is above the higher one or negative.\<close>

definition tune_writer_buffers :: "exn option \<Rightarrow> int \<Rightarrow> int \<Rightarrow> writer \<Rightarrow> writer" where
  "tune_writer_buffers err high low w =
    (if err \<noteq> None \<or> \<not> (high \<ge> low \<and> low \<ge> 0) then w else w\<lparr>w_high := high, w_low := low\<rparr>)"

definition abort_writer :: "exn option \<Rightarrow> exn option \<Rightarrow> writer \<Rightarrow> writer" where
  "abort_writer abort_err close_err w =
    (if abort_err = None then w\<lparr>w_open := False\<rparr> else if close_err = None then w\<lparr>w_open := False\<rparr> else w)"

text \<open>
  Of each block a prefix is set, up to the first refused option; a refused option of the first block does not keep those of the
  second from being set, and where nothing is refused all are.
\<close>

lemma keepalive_set:
  assumes "configure_tcp_keepalive has_const fails (Some s) = Some s'"
  shows "\<exists>a b. s' = s @ a @ b \<and> prefix a (keepalive_options has_const) \<and> prefix b (buffer_options has_const)
    \<and> (\<forall>o1 \<in> set (a @ b). \<not> fails (fst o1))
    \<and> ((\<forall>n. \<not> fails n) \<longrightarrow> a = keepalive_options has_const \<and> b = buffer_options has_const)"
proof -
  let ?t = "takeWhile (\<lambda>o1. \<not> fails (fst o1))"
  have s': "s' = s @ ?t (keepalive_options has_const) @ ?t (buffer_options has_const)"
    using assms by (simp add: configure_tcp_keepalive_def try_setsockopt_def)
  have "prefix (?t os) os" for os :: sockopts by (metis prefixI takeWhile_dropWhile_id)
  moreover have "\<forall>o1 \<in> set (?t os). \<not> fails (fst o1)" for os by (auto dest: set_takeWhileD)
  moreover have "?t os = os" if "\<forall>n. \<not> fails n" for os using that by simp
  ultimately show ?thesis
    using s' by (intro exI [of _ "?t (keepalive_options has_const)"] exI [of _ "?t (buffer_options has_const)"]) auto
qed

section \<open>Redis\<close>

record redis_client =
  rc_host :: ustr
  rc_port :: int
  rc_db :: int
  rc_password :: "ustr option"
  rc_decode :: bool

definition create_redis_client :: "RedisConfig \<Rightarrow> redis_client" where
  "create_redis_client cfg = \<lparr>rc_host = redis_host cfg, rc_port = redis_port cfg, rc_db = redis_db cfg,
     rc_password = (if redis_password cfg = [] then None else Some (redis_password cfg)), rc_decode = True\<rparr>"

section \<open>The database\<close>

record engine =
  e_url :: ustr
  e_pre_ping :: bool
  e_pool_size :: int
  e_max_overflow :: int
  e_echo :: bool

definition create_engine :: "DatabaseConfig \<Rightarrow> engine" where
  "create_engine cfg = \<lparr>e_url = db_url cfg, e_pre_ping = True, e_pool_size = pool_size cfg, e_max_overflow = max_overflow cfg, e_echo = echo cfg\<rparr>"

text \<open>A factory of sessions: the engine it is bound to, and what it switches off.\<close>

record session_factory =
  sf_engine :: engine
  sf_expire_on_commit :: bool
  sf_autoflush :: bool

definition create_sessionmaker :: "engine \<Rightarrow> session_factory" where
  "create_sessionmaker e = \<lparr>sf_engine = e, sf_expire_on_commit = False, sf_autoflush = False\<rparr>"

definition build_session_factory :: "DatabaseConfig \<Rightarrow> session_factory" where
  "build_session_factory cfg = create_sessionmaker (create_engine cfg)"

text \<open>
  A transaction works on a copy of the tables; \<^verbatim>\<open>commit\<close> makes it theirs or raises. \<open>cancelled\<close> stands for an
  exception that is not an \<^verbatim>\<open>Exception\<close>: it is not caught, and closing the session rolls back.
\<close>

record 'd session_state =
  ss_tables :: 'd
  ss_pending :: "'d option"
  ss_closed :: bool

definition begin_session :: "'d \<Rightarrow> 'd session_state" where
  "begin_session d = \<lparr>ss_tables = d, ss_pending = Some d, ss_closed = False\<rparr>"

definition commit :: "exn option \<Rightarrow> ('d session_state, unit) eff" where
  "commit err s = (case (err, ss_pending s) of
      (Some e, _) \<Rightarrow> (Inl e, s)
    | (None, Some d) \<Rightarrow> (Inr (), s\<lparr>ss_tables := d, ss_pending := Some d\<rparr>)
    | (None, None) \<Rightarrow> (Inr (), s))"

definition rollback :: "'d session_state \<Rightarrow> 'd session_state" where
  "rollback s = s\<lparr>ss_pending := None\<rparr>"

definition close_session :: "'d session_state \<Rightarrow> 'd session_state" where
  "close_session s = s\<lparr>ss_pending := None, ss_closed := True\<rparr>"

definition session_scope :: "(exn \<Rightarrow> bool) \<Rightarrow> ('d, 'a) eff \<Rightarrow> exn option \<Rightarrow> 'd \<Rightarrow> 'a result \<times> 'd session_state" where
  "session_scope cancelled body commit_err d =
    (let s = begin_session d;
         (r, s) = (case body d of
             (Inl e, d') \<Rightarrow> (Inl e, s\<lparr>ss_pending := Some d'\<rparr>)
           | (Inr a, d') \<Rightarrow> (case commit commit_err (s\<lparr>ss_pending := Some d'\<rparr>) of (Inl e, s') \<Rightarrow> (Inl e, s') | (Inr _, s') \<Rightarrow> (Inr a, s')));
         s = (case r of Inl e \<Rightarrow> if cancelled e then s else rollback s | Inr _ \<Rightarrow> s)
     in (r, close_session s))"

text \<open>All or nothing: the tables take over what the body did exactly if the scope returns; the session is always closed.\<close>

lemma session_scope_atomic:
  "session_scope cancelled body commit_err d = (r, s) \<Longrightarrow> ss_closed s \<and> ss_pending s = None
    \<and> (case r of Inr a \<Rightarrow> body d = (Inr a, ss_tables s) | Inl e \<Rightarrow> ss_tables s = d)"
  by (auto simp: session_scope_def Let_def begin_session_def commit_def rollback_def close_session_def
    split: prod.splits sum.splits option.splits if_splits)

end
