(* ===== verification/Json_Log.thy ===== *)
theory Json_Log
  imports Json_Text Utf_Codec
begin

text \<open>
  Logging of all services (\<^verbatim>\<open>src/libs/common/logging.py\<close>): one JSON object for each record, written as one line to
  descriptor 2. The time of a record and the order in which a set of three names is run through are arguments, as is what
  \<^verbatim>\<open>os.write\<close> does; the text of a traceback is part of the record.
\<close>

section \<open>Records\<close>

record log_record =
  lr_level :: ustr
  lr_logger :: ustr
  lr_message :: ustr
  lr_exception :: "ustr option"
  lr_extra :: "ustr \<Rightarrow> ustr option"

definition extra_keys :: "ustr list" where
  "extra_keys = [lit ''correlation_id'', lit ''instance_id'', lit ''service'']"

definition payload :: "ustr \<Rightarrow> ustr list \<Rightarrow> log_record \<Rightarrow> (ustr \<times> ustr) list" where
  "payload now order r =
    [(lit ''ts'', now), (lit ''level'', lr_level r), (lit ''logger'', lr_logger r), (lit ''msg'', lr_message r)]
    @ (case lr_exception r of None \<Rightarrow> [] | Some t \<Rightarrow> [(lit ''exception'', t)])
    @ concat (map (\<lambda>k. case lr_extra r k of None \<Rightarrow> [] | Some v \<Rightarrow> [(k, v)]) order)"

text \<open>\<^verbatim>\<open>json.dumps\<close> of a dictionary of texts: colon and comma are followed by a blank.\<close>

definition json_member :: "ustr \<times> ustr \<Rightarrow> ustr" where
  "json_member = (\<lambda>(k, v). json_text k @ [58, 32] @ json_text v)"

definition json_object :: "(ustr \<times> ustr) list \<Rightarrow> ustr" where
  "json_object kvs = [123] @ join [44, 32] (map json_member kvs) @ [125]"

definition format_record :: "ustr \<Rightarrow> ustr list \<Rightarrow> log_record \<Rightarrow> ustr" where
  "format_record now order r = json_object (payload now order r)"

text \<open>\<^verbatim>\<open>encode("utf-8", errors="replace")\<close>: a surrogate becomes a question mark.\<close>

definition utf8_replace :: "ustr \<Rightarrow> bytes" where
  "utf8_replace s = concat (map (\<lambda>c. if scalar c then utf8_char c else [63]) s)"

text \<open>What is on descriptor 2 afterwards: \<^verbatim>\<open>os.write\<close> raises, or takes a number of bytes, which is not looked at.\<close>

definition emit :: "exn + nat \<Rightarrow> ustr \<Rightarrow> ustr list \<Rightarrow> log_record \<Rightarrow> bytes \<Rightarrow> bytes" where
  "emit W now order r fd = (case W of Inl e \<Rightarrow> fd | Inr n \<Rightarrow> fd @ take n (utf8_replace (format_record now order r @ [10])))"

section \<open>Set-up\<close>

record logging_root =
  lg_level :: int
  lg_handlers :: nat
  lg_services :: "ustr list"

definition setup_logging :: "(ustr \<Rightarrow> int option) \<Rightarrow> ustr \<Rightarrow> ustr \<Rightarrow> logging_root \<Rightarrow> logging_root" where
  "setup_logging level_named level service root =
    \<lparr>lg_level = (case level_named level of Some l \<Rightarrow> l | None \<Rightarrow> 20), lg_handlers = 1, lg_services = lg_services root @ [service]\<rparr>"

text \<open>The factories run from the first to the last one, each of which sets the service.\<close>

definition make_record :: "logging_root \<Rightarrow> ustr \<Rightarrow> ustr \<Rightarrow> ustr \<Rightarrow> ustr option \<Rightarrow> log_record" where
  "make_record root level name msg exc =
    fold (\<lambda>s r. r\<lparr>lr_extra := (lr_extra r)(lit ''service'' := Some s)\<rparr>) (lg_services root)
      \<lparr>lr_level = level, lr_logger = name, lr_message = msg, lr_exception = exc, lr_extra = (\<lambda>_. None)\<rparr>"

section \<open>Reading a log\<close>

text \<open>A reader of JSON objects of texts.\<close>

definition expect :: "ustr \<Rightarrow> ustr \<Rightarrow> ustr option" where
  "expect pat s = (if starts_with pat s then Some (drop (length pat) s) else None)"

fun read_members :: "nat \<Rightarrow> ustr \<Rightarrow> (ustr \<times> ustr) list option" where
  "read_members 0 s = None"
| "read_members (Suc n) s =
     Option.bind (Option.bind (expect [34] s) json_read) (\<lambda>(k, r).
     Option.bind (Option.bind (expect [58, 32, 34] r) json_read) (\<lambda>(v, r).
     if r = [125] then Some [(k, v)]
     else Option.bind (expect [44, 32] r) (\<lambda>r. map_option (\<lambda>kvs. (k, v) # kvs) (read_members n r))))"

definition read_object :: "ustr \<Rightarrow> (ustr \<times> ustr) list option" where
  "read_object s = Option.bind (expect [123] s) (\<lambda>r. if r = [125] then Some [] else read_members (length r) r)"

lemma expect_eval [simp]: "expect [] s = Some s" "expect (c # p) (c # s) = expect p s"
  by (simp_all add: expect_def starts_with_def)

lemma json_member_eq: "json_member (k, v) @ r = 34 # concat (map json_char k) @ 34 # 58 # 32 # 34 # concat (map json_char v) @ 34 # r"
  by (simp add: json_member_def json_text_def)

lemma read_members_join:
  "kvs \<noteq> [] \<Longrightarrow> length kvs \<le> n \<Longrightarrow> read_members n (join [44, 32] (map json_member kvs) @ [125]) = Some kvs"
proof (induction kvs arbitrary: n)
  case (Cons x kvs)
  obtain k v where x: "x = (k, v)" by force
  obtain m where n: "n = Suc m" using Cons.prems by (cases n) auto
  show ?case
  proof (cases kvs)
    case Nil
    then show ?thesis using x n json_member_eq [of k v "[125]"] by (simp add: json_read_text)
  next
    case (Cons y ys)
    let ?r = "join [44, 32] (map json_member kvs) @ [125]"
    have "join [44, 32] (map json_member (x # kvs)) @ [125] = json_member (k, v) @ 44 # 32 # ?r" using x Cons by simp
    then show ?thesis using Cons.IH [of m] Cons.prems Cons n x by (simp add: json_member_eq json_read_text)
  qed
qed simp

lemma join_members_length: "length kvs \<le> length (join [44, 32] (map json_member kvs))"
proof -
  have "length xs \<le> length (join [44, 32 :: nat] xs)" if "list_all (\<lambda>x. x \<noteq> []) xs" for xs
    using that by (induction "[44, 32 :: nat]" xs rule: join.induct) (auto simp: Suc_le_eq)
  moreover have "list_all (\<lambda>x. x \<noteq> []) (map json_member kvs)" by (auto simp: list_all_iff json_member_def json_text_def)
  ultimately show ?thesis by (metis length_map)
qed

lemma read_object_json: "read_object (json_object kvs) = Some kvs"
proof (cases kvs)
  case Nil
  then show ?thesis by (simp add: read_object_def json_object_def)
next
  case (Cons x xs)
  let ?r = "join [44, 32] (map json_member kvs) @ [125]"
  have "?r \<noteq> [125]" using Cons json_member_eq [of "fst x" "snd x" "[]"] by (cases xs) auto
  then show ?thesis using read_members_join [of kvs "length ?r"] join_members_length [of kvs] Cons
    by (simp add: read_object_def json_object_def)
qed

section \<open>One line for each record\<close>

lemma json_object_no_break: "10 \<notin> set (json_object kvs)"
proof -
  have m: "10 \<notin> set (json_member x)" for x using json_text_no_break by (cases x) (auto simp: json_member_def)
  have "10 \<notin> set (join [44, 32] xs)" if "list_all (\<lambda>x. 10 \<notin> set x) xs" for xs :: "ustr list"
    using that by (induction "[44, 32 :: nat]" xs rule: join.induct) auto
  from this [of "map json_member kvs"] m show ?thesis by (auto simp: json_object_def list_all_iff)
qed

lemma utf8_char_no_break: "scalar c \<Longrightarrow> c \<noteq> 10 \<Longrightarrow> (10 :: byte) \<notin> set (utf8_char c)"
proof
  assume c: "scalar c" "c \<noteq> 10" "(10 :: byte) \<in> set (utf8_char c)"
  then have "unat (10 :: byte) \<in> set (map unat (utf8_char c))" by (metis image_eqI list.set_map)
  then show False using c(1,2) by (auto simp: utf8_char_values split: if_splits)
qed

lemma utf8_replace_no_break: "10 \<notin> set s \<Longrightarrow> (10 :: byte) \<notin> set (utf8_replace s)"
  by (induction s) (auto simp: utf8_replace_def dest: utf8_char_no_break)

lemma utf8_replace_line: "utf8_replace (s @ [10]) = utf8_replace s @ [10]"
  by (simp add: utf8_replace_def scalar_def utf8_char_ascii)

lemma utf8_replace_scalar: "list_all scalar s \<Longrightarrow> utf8_encode s = Inr (utf8_replace s)"
  by (induction s) (auto simp: utf8_replace_def utf8_encode_def)

text \<open>Records as they come, each written in full.\<close>

definition write_log :: "(ustr \<times> ustr list \<times> log_record) list \<Rightarrow> bytes \<Rightarrow> bytes" where
  "write_log es = fold (\<lambda>(now, order, r). emit (Inr (length (utf8_replace (format_record now order r @ [10])))) now order r) es"

lemma write_log_eq:
  "write_log es fd = fd @ concat (map (\<lambda>(now, order, r). utf8_replace (format_record now order r) @ [10]) es)"
  unfolding write_log_def by (induction es arbitrary: fd) (auto simp: emit_def utf8_replace_line split: prod.split)

lemma split_lines:
  "list_all (\<lambda>l. (10 :: byte) \<notin> set l) ls \<Longrightarrow> split_on 10 (concat (map (\<lambda>l. l @ [10]) ls)) = ls @ [[]]"
  by (induction ls) (simp_all add: split_on_append)

lemma make_record_service:
  "lr_extra (make_record root level name msg exc) k
    = (if k = lit ''service'' \<and> lg_services root \<noteq> [] then Some (last (lg_services root)) else None)"
proof -
  have "lr_extra (fold (\<lambda>s r. r\<lparr>lr_extra := (lr_extra r)(lit ''service'' := Some s)\<rparr>) ss r0) k
    = (if k = lit ''service'' \<and> ss \<noteq> [] then Some (last ss) else lr_extra r0 k)" for ss and r0 :: log_record
    by (induction ss arbitrary: r0) auto
  then show ?thesis by (simp add: make_record_def)
qed


definition ref_log_record :: log_record where
  "ref_log_record = \<lparr>lr_level = lit ''INFO'', lr_logger = lit ''rdpproxy.relay'', lr_message = [34, 10, 8232], lr_exception = None,
     lr_extra = (\<lambda>_. None)\<rparr>"


end
