(* ===== verification/Service_Tasks.thy ===== *)
theory Service_Tasks
  imports Admin_Web Db_Schema Service_Base Json_Log
begin

text \<open>
  Starting and stopping: the server of challenges (\<^verbatim>\<open>src/libs/acme_client/challenge_server.py\<close>), the task of the metrics
  collector (\<^verbatim>\<open>src/services/metrics/collector.py\<close>, \<^verbatim>\<open>main.py\<close>), the callbacks of the settings, and the entry points of
  the web services. Binding a port and serving HTTP are the business of asyncio and Uvicorn.
\<close>

section \<open>The challenge server\<close>

record challenge_server =
  cs_tokens :: "ustr \<Rightarrow> ustr option"
  cs_port :: "nat option"

definition new_challenge_server :: challenge_server where
  "new_challenge_server = \<lparr>cs_tokens = (\<lambda>_. None), cs_port = None\<rparr>"

definition set_token :: "ustr \<Rightarrow> ustr \<Rightarrow> challenge_server \<Rightarrow> challenge_server" where
  "set_token token key_authz s = s\<lparr>cs_tokens := (cs_tokens s)(token \<mapsto> key_authz)\<rparr>"

definition clear_tokens :: "challenge_server \<Rightarrow> challenge_server" where
  "clear_tokens s = s\<lparr>cs_tokens := (\<lambda>_. None)\<rparr>"

definition start_server :: "exn option \<Rightarrow> nat \<Rightarrow> (challenge_server, unit) eff" where
  "start_server bind_error port s = (case bind_error of Some e \<Rightarrow> (Inl e, s) | None \<Rightarrow> (Inr (), s\<lparr>cs_port := Some port\<rparr>))"

definition stop_server :: "challenge_server \<Rightarrow> challenge_server" where
  "stop_server s = s\<lparr>cs_port := None\<rparr>"

text \<open>What a connection to a port gets, if anything listens there.\<close>

definition serve_challenge :: "challenge_server \<Rightarrow> nat \<Rightarrow> bytes \<Rightarrow> bytes option" where
  "serve_challenge s port stream = (if cs_port s = Some port then Some (handle_challenge (cs_tokens s) stream) else None)"

text \<open>
  While the server runs, a request for a token that was set, whatever was set later for other tokens, is answered with its key; after the
  clean-up of a request for a certificate nothing is served.
\<close>

lemma challenge_served:
  assumes "start_server None port s = (Inr u, s1)" and "list_all (\<lambda>c. c < 128 \<and> \<not> py_isspace c) tok" and "length tok \<le> 50000"
    and "k \<noteq> []" and "list_all (\<lambda>c. c < 128) k" and "tok \<notin> fst ` set later"
    and "stream = blit ''GET '' @ map word_of_nat (challenge_prefix @ tok) @ blit '' HTTP/1.1'' @ [13, 10] @ [13, 10] @ rest"
  shows "serve_challenge (fold (\<lambda>(t, a). set_token t a) later (set_token tok k s1)) port stream = Some (found (map word_of_nat k))
    \<and> serve_challenge (stop_server (clear_tokens s2)) port stream = None"
proof -
  let ?s = "fold (\<lambda>(t, a). set_token t a) later (set_token tok k s1)"
  have "cs_port (fold (\<lambda>(t, a). set_token t a) later x) = cs_port x" for x
    by (induction later arbitrary: x) (auto simp: set_token_def)
  moreover have "cs_tokens (fold (\<lambda>(t, a). set_token t a) later x) tok = cs_tokens x tok" for x
    using assms(6) by (induction later arbitrary: x) (auto simp: set_token_def)
  ultimately have s: "cs_port ?s = Some port" "cs_tokens ?s tok = Some k"
    using assms(1) by (auto simp: set_token_def start_server_def)
  have path: "list_all (\<lambda>c. c < 128 \<and> \<not> py_isspace c) (challenge_prefix @ tok)"
    using assms(2) by (simp add: challenge_prefix_def lit_eval py_isspace_def py_spaces_def)
  have len: "challenge_prefix @ tok \<noteq> []" "length (challenge_prefix @ tok) \<le> 60000"
    using assms(3) by (simp_all add: challenge_prefix_def lit_eval)
  have "handle_challenge (cs_tokens ?s) stream = found (map word_of_nat k)"
    using challenge_answered [OF path len, where headers = "[]" and stream = stream and rest = rest and tokens = "cs_tokens ?s"] s(2) assms(4,5,7)
    by simp
  then show ?thesis using s(1) by (simp add: serve_challenge_def stop_server_def)
qed

section \<open>The metrics service\<close>

text \<open>The task of the collector: \<open>Some False\<close> while it runs, \<open>Some True\<close> once it is done.\<close>

record collector_task =
  ct_stop :: bool
  ct_done :: "bool option"
  ct_started :: nat

definition collector_start :: "collector_task \<Rightarrow> collector_task" where
  "collector_start c = (if ct_done c = Some False then c else c\<lparr>ct_stop := False, ct_done := Some False, ct_started := ct_started c + 1\<rparr>)"

text \<open>The task ends at the head of its loop, unless that takes longer than three seconds.\<close>

definition collector_stop :: "bool \<Rightarrow> collector_task \<Rightarrow> collector_task" where
  "collector_stop in_time c = c\<lparr>ct_stop := True, ct_done := (case ct_done c of None \<Rightarrow> None | Some d \<Rightarrow> Some (d \<or> in_time))\<rparr>"

record metrics_service =
  ms_collector :: MetricsCollector
  ms_task :: collector_task
  ms_redis :: redis_client
  ms_redis_open :: bool
  ms_factory :: session_factory

definition metrics_start :: "AppConfig result \<Rightarrow> ustr \<Rightarrow> rat option \<Rightarrow> metrics_service result" where
  "metrics_start config_result cpu_name freq = bind_result config_result (\<lambda>cfg.
     Inr \<lparr>ms_collector = new_collector (i_id (instance_cfg cfg)) (lan_ip (instance_cfg cfg)) 10 cpu_name freq,
          ms_task = collector_start \<lparr>ct_stop = False, ct_done = None, ct_started = 0\<rparr>,
          ms_redis = create_redis_client (redis_cfg cfg), ms_redis_open = True, ms_factory = build_session_factory (database cfg)\<rparr>)"

definition metrics_shutdown :: "bool \<Rightarrow> metrics_service \<Rightarrow> metrics_service" where
  "metrics_shutdown in_time m = m\<lparr>ms_task := collector_stop in_time (ms_task m), ms_redis_open := False\<rparr>"

text \<open>
  The service runs one task, however often it is started, under the instance of the configuration; once it was told to stop and did so in
  time, nothing runs and Redis is closed.
\<close>

lemma metrics_service_life:
  assumes "metrics_start (Inr cfg) cpu_name freq = Inr m"
  shows "mc_instance_id (ms_collector m) = i_id (instance_cfg cfg) \<and> mc_interval (ms_collector m) = 10
    \<and> ct_started (ms_task m) = 1 \<and> (collector_start ^^ n) (ms_task m) = ms_task m
    \<and> ct_done (ms_task (metrics_shutdown True m)) = Some True \<and> \<not> ms_redis_open (metrics_shutdown True m)"
proof -
  have t: "ms_task m = \<lparr>ct_stop = False, ct_done = Some False, ct_started = 1\<rparr>" using assms by (auto simp: metrics_start_def collector_start_def)
  then have "collector_start (ms_task m) = ms_task m" by (simp add: collector_start_def)
  then have "(collector_start ^^ n) (ms_task m) = ms_task m" by (induction n) simp_all
  with t assms show ?thesis by (auto simp: metrics_start_def new_collector_def metrics_shutdown_def collector_stop_def)
qed

section \<open>Callbacks of the settings\<close>

text \<open>How many callbacks a section has; the administration registers its four.\<close>

definition on_change :: "ustr \<Rightarrow> (ustr \<Rightarrow> nat) \<Rightarrow> ustr \<Rightarrow> nat" where
  "on_change key hooks = hooks(key := hooks key + 1)"

lemma admin_hooks: "hooked = fold on_change [k_ldap, k_redis_ttl, k_portal, k_proxy] (\<lambda>_. 0)"
  by (rule ext) (simp add: hooked_def on_change_def k_ldap_def k_redis_ttl_def k_portal_def k_proxy_def lit_eval)

section \<open>Entry points\<close>

text \<open>Logging, the configuration, for the administration the migration, and the application, which is then served.\<close>

record 'app served =
  sv_app :: 'app
  sv_host :: ustr
  sv_listen_port :: int

definition admin_main :: "(ustr \<Rightarrow> int option) \<Rightarrow> AppConfig result \<Rightarrow> (AppConfig \<Rightarrow> admin_app result) \<Rightarrow> exn option
    \<Rightarrow> (logging_root \<times> database, admin_app served) eff" where
  "admin_main L config_result build dbx = (\<lambda>(lgr, D).
    (let lgr = setup_logging L (lit ''INFO'') (lit ''admin'') lgr in
     case config_result of
       Inl e \<Rightarrow> (Inl e, (lgr, D))
     | Inr cfg \<Rightarrow> (bind_result (build cfg) (\<lambda>app.
           Inr \<lparr>sv_app = app, sv_host = admin_host (admin_cfg cfg), sv_listen_port = admin_port (admin_cfg cfg)\<rparr>),
         (lgr, admin_migrate dbx D))))"

definition portal_main :: "(ustr \<Rightarrow> int option) \<Rightarrow> AppConfig result \<Rightarrow> (AppConfig \<Rightarrow> 'app result) \<Rightarrow> (logging_root, 'app served) eff" where
  "portal_main L config_result build lgr =
    (let lgr = setup_logging L (lit ''INFO'') (lit ''portal'') lgr in
     (bind_result config_result (\<lambda>cfg. bind_result (build cfg) (\<lambda>app.
        Inr \<lparr>sv_app = app, sv_host = portal_host (portal_cfg cfg), sv_listen_port = portal_port (portal_cfg cfg)\<rparr>)), lgr))"

text \<open>
  The administration that is started on an empty database serves with all tables of its models, one whose migration fails serves
  without them; and nothing is migrated if the configuration cannot be config_result.
\<close>

lemma admin_main_migrates:
  assumes "build cfg = Inr app"
  shows "(\<exists>served lgr' S. admin_main L (Inr cfg) build None (lgr, \<lparr>db_schema = empty_schema, db_revision = None\<rparr>) = (Inr served, (lgr', \<lparr>db_schema = S, db_revision = Some revision\<rparr>))
      \<and> mset (sc_tables S) = mset (map table_of Base_metadata) \<and> sv_app served = app)
    \<and> (\<exists>served lgr'. admin_main L (Inr cfg) build (Some e) (lgr, D) = (Inr served, (lgr', D)) \<and> sv_app served = app)
    \<and> (\<exists>lgr'. admin_main L (Inl e) build dbx (lgr, D) = (Inl e, (lgr', D)))"
proof -
  have wf: "wf_schema empty_schema" "relations empty_schema \<inter> new_names = {}" by (simp_all add: wf_schema_def empty_schema_def relations_def)
  have "ddl_run upgrade empty_schema = Some \<lparr>sc_tables = new_tables, sc_indexes = new_indexes\<rparr>"
    using upgrade_runs [OF wf(2)] by (simp add: empty_schema_def)
  moreover have "mset new_tables = mset (map table_of Base_metadata)"
    by (simp add: new_tables_def Base_metadata_def created_tables)
  ultimately show ?thesis
    using assms by (auto simp: admin_main_def Let_def admin_migrate_def do_run_migrations_def)
qed

end
