(* ===== verification/Portal_To_Relay.thy ===== *)
theory Portal_To_Relay
  imports Portal Rdp_Handler
begin

text \<open>
  From the portal to the relay: a connection file that the portal (\<^verbatim>\<open>src/services/portal/routes/servers.py\<close>) hands out, opened by a
  client that sends the routing token of the file, is admitted by the relay (\<^verbatim>\<open>src/services/rdp_relay/handler.py\<close>) as the user
  of the session to the server that was asked for. The two services share Redis and the key of the stored passwords.
\<close>

text \<open>The session that is read for a token depends on the key and the cipher of the store only.\<close>

lemma session_of_store:
  "cipher S = cipher S' \<Longrightarrow> enc_key S = enc_key S' \<Longrightarrow> session_of S = session_of S'"
  by (simp add: session_of_def fun_eq_iff)

text \<open>The line of the token is in the file, whatever the templates say.\<close>

lemma token_line:
  assumes "10 \<notin> set token"
  shows "lit ''loadbalanceinfo:s:'' @ token \<in> set (split_on 10 (build_rdp_content show lower ts gs host port token))"
proof -
  let ?sys = "system_params show host port token" and ?m = "merge_templates lower gs ts"
  have "(lit ''loadbalanceinfo'', JStr token) \<in> set ?sys" by (simp add: system_params_def)
  then have "(lit ''loadbalanceinfo'', JStr token) \<in> set (merge ?m ?sys)"
    by (simp add: in_merged merge_templates_distinct system_params_keys)
  moreover have "to_line show (lit ''loadbalanceinfo'') (JStr token) = lit ''loadbalanceinfo:s:'' @ token"
    by (simp add: to_line_def py_format_def lit_eval)
  moreover have "split_on 10 (lit ''loadbalanceinfo:s:'' @ token) = [lit ''loadbalanceinfo:s:'' @ token]"
    using assms by (intro split_on_no_sep) (simp add: lit_eval)
  ultimately show ?thesis unfolding content_lines by (auto intro!: bexI [of _ "(lit ''loadbalanceinfo'', JStr token)"])
qed

lemma token_text: "list_all token_char tok \<Longrightarrow> 10 \<notin> set (map unat tok)"
  by (auto simp: list_all_iff token_char_def unat_arith_simps)

text \<open>What the relay decides for the routing token, from the session that Redis holds.\<close>

definition fp_first_round :: "handler_cfg \<Rightarrow> henv \<Rightarrow> bytes \<Rightarrow> ustr \<Rightarrow> nat \<Rightarrow> bool" where
  "fp_first_round C E x224 token ms \<longleftrightarrow> (\<exists>fp d r rs. build_rdp_client_fingerprint (sha256_hex (sessions C)) x224 token = Inr fp
     \<and> fingerprint_digest (sessions C) fp = Inr d \<and> fp_rounds E = r # rs \<and> quiet (TOKEN token) r \<and> round_ms r + 500 \<le> ms)"

lemma token_admitted:
  assumes R: "redis_server R look watch_state" and cr: "extract_cookie_token p = Inr token" and fits: "tpkt_fits p"
    and ip: "resolve_client_ip C E s = (Inr ip, s1)" "hw s1 = hw s" "client_in s1 = tpkt_frame p @ rest"
    and redis: "watch_state (rdb (hw s)) = None" "look (rdb (hw s)) (TOKEN token) = Some (RJson (JObj q), Some ms)"
    and sess: "session_of (sessions C) token (JObj q) = Inr sess" "sd_fingerprint sess = JNull"
    and fp: "fp_enforced C \<Longrightarrow> fp_first_round C E p token ms"
  shows "fst (admit R C E s) = Inr (Some (ip, token, extract_requested_protocols p, sess))"
proof -
  have frame: "read_tpkt [] (tpkt_frame p @ rest) = (Inr p, rest)"
    using read_tpkt_accepts [OF fits, of 0 rest] by (simp add: tpkt_frame_def)
  have get: "get_session R (sessions C) token (rdb (hw s)) = (Inr (Some sess), rdb (hw s))"
    using redis(2) sess(1) by (simp add: get_session_def rd_simps x_get_def redis_server.get_look [OF R])
  show ?thesis
  proof (cases "fp_enforced C")
    case False
    then show ?thesis
      by (simp add: admit_def rd_simps ip on_client_def frame cr on_rdb_def on_world_def Connection_Tracker.on_redis_def get check_fingerprint_def)
  next
    case True
    obtain f d r rs where f: "build_rdp_client_fingerprint (sha256_hex (sessions C)) p token = Inr f" "fingerprint_digest (sessions C) f = Inr d"
      "fp_rounds E = r # rs" "quiet (TOKEN token) r" "round_ms r + 500 \<le> ms" using fp [OF True] by (auto simp: fp_first_round_def)
    from redis_server.round_quiet [OF R redis f(4,5,2)] obtain db' where
      "fingerprint_round R (sessions C) token f r (rdb (hw s)) = (Inr (Some True), db')" by blast
    then have set: "set_token_fingerprint R (sessions C) token f (fp_rounds E) (rdb (hw s)) = (Inr (Some True), r_unwatch R db')"
      by (simp add: set_token_fingerprint_def with_pipeline_def f(3) rd_simps)
    show ?thesis using True
      by (simp add: admit_def rd_simps ip on_client_def frame cr on_rdb_def on_world_def Connection_Tracker.on_redis_def get
        check_fingerprint_def f(1) sess(2) set)
  qed
qed

lemma token_refused:
  assumes "extract_cookie_token p = Inl e" and "tpkt_fits p"
    and "resolve_client_ip C E s = (Inr ip, s1)" and "client_in s1 = tpkt_frame p @ rest"
  shows "fst (admit R C E s) = Inl e"
proof -
  have "read_tpkt [] (tpkt_frame p @ rest) = (Inr p, rest)"
    using read_tpkt_accepts [OF assms(2), of 0 rest] by (simp add: tpkt_frame_def)
  with assms show ?thesis by (simp add: admit_def rd_simps on_client_def)
qed

text \<open>A download leaves no key watched: the check of the session ends its pipeline.\<close>

lemma require_session_unwatched:
  assumes "redis_server R look watch_state" and "require_session R A now r rq db = (Inr sess, db1)"
  shows "watch_state db1 = None"
proof -
  from assms(2) obtain store sid where "get_web_session R store sid (browser_fingerprint rq) now r db = (Inr (Some sess), db1)"
    by (auto simp: require_session_def get_current_session_def rd_simps split: prod.splits sum.splits option.splits if_splits)
  then obtain db0 where "db1 = r_unwatch R db0"
    by (auto simp: get_web_session_def with_pipeline_def rd_simps split: prod.splits sum.splits option.splits)
  then show ?thesis using redis_server.unwatch [OF assms(1), of db0] by simp
qed

lemma create_session_unwatched:
  assumes "redis_server R look watch_state" and "watch_state db = None"
    and "create_session R S token nonce username password host port sid display db = (Inr t, db1)"
  shows "watch_state db1 = None"
  using assms(3) redis_server.setex_none [OF assms(1,2)]
  by (auto simp: create_session_def rd_simps Let_def x_setex_def split: sum.splits)

text \<open>
  C2: A connection file works, and for what it was handed out: it has the line with the token, and a client that opens a connection to the
  relay with this routing token within the time to live is admitted as the user of the portal's session, with its password, to the
  address and port of a server that the session may see and that has the name asked for; if fingerprints are enforced, the
  first client to come is bound. The one exception are tokens that the relay does not recognise as such: with neither hyphen nor underscore, and
  short of 32 characters, digits or letters; their holder is refused although the portal has just issued them.
\<close>

theorem portal_file_connects:
  assumes "redis_server R look watch_state" and "p_store w = Some store" and "store_ok store" and "length nonce = 12"
    and "rdp_download R show lower Env cfg now r (map unat tok) nonce rows templates rq name w = (Inr content, w')"
    and "list_all token_char tok" and "20 \<le> length tok" and "length tok \<le> 60000"
    and "cipher (sessions C) = cipher store" and "enc_key (sessions C) = enc_key store"
    and "rdb (hw s) = r_step R (p_rdb w') (IWait wait)" and "wait < 1000 * nat (rdp_token_ttl store)"
    and "resolve_client_ip C E s = (Inr ip, s1)" and "hw s1 = hw s" and "client_in s1 = tpkt_frame (routing_cr li tok flags) @ rest"
    and "fp_enforced C \<longrightarrow> fp_first_round C E (routing_cr li tok flags) (map unat tok) (1000 * nat (rdp_token_ttl store) - wait)"
  shows "lit ''loadbalanceinfo:s:'' @ map unat tok \<in> set (split_on 10 content)
    \<and> (accept_candidate (map unat tok) \<longrightarrow> (\<exists>sess sv. fst (require_session R (portal_app cfg w) now r rq (p_rdb w)) = Inr sess
        \<and> sv \<in> set (list_visible_servers lower id rows (ws_group_guids sess)) \<and> sv_tech_name sv = name
        \<and> fst (admit R C E s) = Inr (Some (ip, map unat tok, extract_requested_protocols (routing_cr li tok flags),
            \<lparr>sd_token = map unat tok, sd_username = ws_username sess, sd_target_host = sv_address sv, sd_target_port = sv_port sv,
             sd_password = ws_password sess, sd_fingerprint = JNull, sd_server_id = JStr (uuid_str (sv_id sv)),
             sd_server_display = JStr (sv_display_name sv)\<rparr>))))
    \<and> (\<not> accept_candidate (map unat tok) \<longrightarrow> fst (admit R C E s) = Inl ValueError)"
proof (intro conjI impI)
  let ?p = "routing_cr li tok flags" and ?token = "map unat tok" and ?ttl = "1000 * nat (rdp_token_ttl store)"
  have fits: "tpkt_fits ?p" using assms(8) by (simp add: tpkt_fits_def routing_cr_def)
  from rdp_download_okD [OF assms(5)] assms(2) obtain sess db1 sv settings1 db2 host port where
    1: "require_session R (portal_app cfg w) now r rq (p_rdb w) = (Inr sess, db1)"
    and 2: "find (\<lambda>s. sv_tech_name s = name) rows = Some sv" "sv_enabled sv" "server_visible lower (server_guids sv) (ws_group_guids sess)"
    and 3: "create_session R store ?token nonce (ws_username sess) (ws_password sess) (sv_address sv) (sv_port sv)
        (Some (uuid_str (sv_id sv))) (Some (sv_display_name sv)) db1 = (Inr ?token, db2)" "p_rdb w' = db2"
    and 4: "content = build_rdp_content show lower templates (ws_group_guids sess) host port ?token" by auto
  show "lit ''loadbalanceinfo:s:'' @ ?token \<in> set (split_on 10 content)"
    unfolding 4 by (rule token_line [OF token_text [OF assms(6)]])
  show "fst (admit R C E s) = Inl ValueError" if "\<not> accept_candidate ?token"
    using routing_token_accepted [OF assms(6,7), of li flags] that by (intro token_refused [OF _ fits assms(13,15)]) simp
  assume acc: "accept_candidate ?token"
  let ?sd = "\<lparr>sd_token = ?token, sd_username = ws_username sess, sd_target_host = sv_address sv, sd_target_port = sv_port sv,
     sd_password = ws_password sess, sd_fingerprint = JNull, sd_server_id = JStr (uuid_str (sv_id sv)), sd_server_display = JStr (sv_display_name sv)\<rparr>"
  from redis_server.create_session_stored [OF assms(1,3,4) 3(1)] 3(2) obtain q where
    q: "look (p_rdb w') (TOKEN ?token) = Some (RJson (JObj q), Some ?ttl)" "session_of store ?token (JObj q) = Inr ?sd" by auto
  have "watch_state (p_rdb w') = None"
    using create_session_unwatched [OF assms(1) require_session_unwatched [OF assms(1) 1] 3(1)] 3(2) by simp
  then have watch: "watch_state (rdb (hw s)) = None" using assms(11) redis_server.step_none [OF assms(1)] by simp
  have look: "look (rdb (hw s)) (TOKEN ?token) = Some (RJson (JObj q), Some (?ttl - wait))"
    using assms(11,12) by (simp add: redis_server.wait_look [OF assms(1)] q(1))
  have sess: "session_of (sessions C) ?token (JObj q) = Inr ?sd" using q(2) session_of_store [OF assms(9,10)] by simp
  have "extract_cookie_token ?p = Inr ?token" using routing_token_accepted [OF assms(6,7), of li flags] acc by simp
  from token_admitted [OF assms(1) this fits assms(13-15) watch look sess] assms(16)
  have "fst (admit R C E s) = Inr (Some (ip, ?token, extract_requested_protocols ?p, ?sd))" by simp
  moreover have "sv \<in> set (list_visible_servers lower id rows (ws_group_guids sess))" "sv_tech_name sv = name"
    using 2 by (auto simp: list_visible_servers_def find_Some_iff)
  ultimately show "\<exists>sess sv. fst (require_session R (portal_app cfg w) now r rq (p_rdb w)) = Inr sess
      \<and> sv \<in> set (list_visible_servers lower id rows (ws_group_guids sess)) \<and> sv_tech_name sv = name
      \<and> fst (admit R C E s) = Inr (Some (ip, ?token, extract_requested_protocols ?p,
          \<lparr>sd_token = ?token, sd_username = ws_username sess, sd_target_host = sv_address sv, sd_target_port = sv_port sv,
           sd_password = ws_password sess, sd_fingerprint = JNull, sd_server_id = JStr (uuid_str (sv_id sv)),
           sd_server_display = JStr (sv_display_name sv)\<rparr>))"
    using 1 by (intro exI [of _ sess] exI [of _ sv]) simp
qed

text \<open>A token with a hyphen, half a minute after the download.\<close>

definition ref_token :: bytes where
  "ref_token = blit ''abcdefghijklmnopqrst-vwxyz''"

lemma ref_token_ok:
  "list_all token_char ref_token" "20 \<le> length ref_token" "length ref_token \<le> 60000" "accept_candidate (map unat ref_token)"
  "list_all scalar (map unat ref_token)"
  by (simp_all add: ref_token_def lit_eval token_char_def accept_candidate_def scalar_def)

theorem portal_file_connects_witness:
  "\<exists>db content w' (sess :: WebSessionData) (sv :: RdpServer). rdp_download mem_redis (\<lambda>_. []) id ref_senv (Some ref_app_config) 1060 ([], [], []) (map unat ref_token) (replicate 12 0)
        [ref_rdp_server] [] ref_portal_request (lit ''a'') (ref_portal db) = (Inr content, w')
    \<and> sv_tech_name sv = lit ''a''
    \<and> fst (admit mem_redis ref_cfg ref_env ((ref_state (tpkt_frame (routing_cr 59 ref_token 3)))\<lparr>hw := \<lparr>rdb = mem_step (p_rdb w') (IWait 30000),
            history = [], conn_events = []\<rparr>\<rparr>))
        = Inr (Some (lit ''unknown'', map unat ref_token, extract_requested_protocols (routing_cr 59 ref_token 3),
            \<lparr>sd_token = map unat ref_token, sd_username = ws_username sess, sd_target_host = sv_address sv, sd_target_port = sv_port sv,
             sd_password = ws_password sess, sd_fingerprint = JNull, sd_server_id = JStr (uuid_str (sv_id sv)),
             sd_server_display = JStr (sv_display_name sv)\<rparr>))"
proof -
  from ref_download_runs [OF ref_token_ok(5)] obtain db w' content where run:
    "rdp_download mem_redis (\<lambda>_. []) id ref_senv (Some ref_app_config) 1060 ([], [], []) (map unat ref_token) (replicate 12 0)
        [ref_rdp_server] [] ref_portal_request (lit ''a'') (ref_portal db) = (Inr content, w')" by blast
  let ?s = "(ref_state (tpkt_frame (routing_cr 59 ref_token 3)))\<lparr>hw := \<lparr>rdb = mem_step (p_rdb w') (IWait 30000), history = [], conn_events = []\<rparr>\<rparr>"
  have p: "p_store (ref_portal db) = Some ref_store" "length (replicate 12 (0 :: byte)) = 12" by (simp_all add: ref_portal_def)
  have c: "cipher (sessions ref_cfg) = cipher ref_store" "enc_key (sessions ref_cfg) = enc_key ref_store" "\<not> fp_enforced ref_cfg"
    by (simp_all add: ref_cfg_def fp_enforced_def)
  have r: "rdb (hw ?s) = r_step mem_redis (p_rdb w') (IWait 30000)" "30000 < 1000 * nat (rdp_token_ttl ref_store)"
    by (simp_all add: mem_redis_def ref_store_def)
  have ip: "resolve_client_ip ref_cfg ref_env ?s = (Inr (lit ''unknown''), ?s)"
    by (simp add: resolve_client_ip_def ref_cfg_def ref_env_def rd_simps)
  have cin: "client_in ?s = tpkt_frame (routing_cr 59 ref_token 3) @ []" by (simp add: ref_state_def)
  have fp: "fp_enforced ref_cfg \<longrightarrow> fp_first_round ref_cfg ref_env (routing_cr 59 ref_token 3) (map unat ref_token)
      (1000 * nat (rdp_token_ttl ref_store) - 30000)" using c(3) by simp
  from portal_file_connects [OF mem.redis_server_axioms p(1) store_ok_ref p(2) run ref_token_ok(1-3) c(1,2) r ip refl cin fp,
      THEN conjunct2, THEN conjunct1, rule_format, OF ref_token_ok(4)]
  obtain sess :: WebSessionData and sv :: RdpServer where "sv_tech_name sv = lit ''a''" and
    "fst (admit mem_redis ref_cfg ref_env ?s) = Inr (Some (lit ''unknown'', map unat ref_token, extract_requested_protocols (routing_cr 59 ref_token 3),
       \<lparr>sd_token = map unat ref_token, sd_username = ws_username sess, sd_target_host = sv_address sv, sd_target_port = sv_port sv,
        sd_password = ws_password sess, sd_fingerprint = JNull, sd_server_id = JStr (uuid_str (sv_id sv)),
        sd_server_display = JStr (sv_display_name sv)\<rparr>))" by (elim exE conjE) (rule that)
  with run show ?thesis by (intro exI conjI)
qed

end
