(* ===== verification/Kill_To_Close.thy ===== *)
theory Kill_To_Close
  imports Relay_Session Admin_Sessions
begin

text \<open>
  From the administrator's kill to the end of the connection: the route of the administration
  (\<^verbatim>\<open>src/services/admin/routes/sessions.py\<close>) writes a mark into Redis and the row of the history, the kill check of the relay
  (\<^verbatim>\<open>src/services/rdp_relay/handler.py\<close>, \<^verbatim>\<open>relay.py\<close>) reads the mark, and the handler closes the row. The two
  services share Redis and the database.
\<close>

text \<open>The mark is seen for a minute.\<close>

lemma mark_seen:
  assumes "redis_server R look watch_state" and "look db (KILL_SESSION cid) = Some (RText (lit ''1''), Some 60000)" and "n < 60000"
  shows "raw_truthy (r_get R (r_step R db (IWait n)) (KILL_SESSION cid))"
  using assms(2,3) redis_server.get_look [OF assms(1)] redis_server.wait_look [OF assms(1)] by (simp add: lit_eval)

text \<open>The answer of the check sets the event of a relay whose poller runs, and the relay ends.\<close>

lemma poll_kills: "rs_poller s \<Longrightarrow> rs_kill s = Some False \<Longrightarrow>
  \<exists>s1. relay_next ctx (Poll (Inr True)) s = Some s1 \<and> rs_kill s1 = Some True \<and> rs_leg s1 = rs_leg s \<and> rs_main s1 = rs_main s"
  by simp

text \<open>Closing a connection finishes its row and leaves the rest of the history.\<close>

lemma close_connection_history:
  assumes "redis_server R look watch_state" and "u < 2 ^ 128" and "has_db (tracker C)" and "has_redis (tracker C)" and "db_error E 8 = None"
    and "distinct (map h_id (history (hw hs)))" and "close_connection R C E token (uuid_str u) res hs = (r, hs')"
  shows "\<exists>status reason. history (hw hs') = map (\<lambda>x. if h_id x = u
      then finish_row (now_at E 8) status reason (int (bytes_to_client res)) (int (bytes_to_backend res)) x else x) (history (hw hs))"
proof -
  obtain status reason where f: "fin_status R (now_at E 8) (hplugins hs) (uuid_str u) (legs res) (rdb (hw hs)) = (status, reason)" by force
  from finish_effect [OF assms(1-4,6), of "now_at E 8" status "Some reason" "int (bytes_to_client res)" "int (bytes_to_backend res)"]
  obtain w where w: "finish R (tracker C) None (now_at E 8) (uuid_str u) status (Some reason) (int (bytes_to_client res)) (int (bytes_to_backend res)) (hw hs) = (Inr (), w)"
    "history w = map (\<lambda>x. if h_id x = u
      then finish_row (now_at E 8) status (Some reason) (int (bytes_to_client res)) (int (bytes_to_backend res)) x else x) (history (hw hs))"
    by blast
  have "history (hw hs') = history w"
    using assms(5,7) f w(1)
    by (auto simp: close_connection_def rd_simps on_world_def on_rdb_def on_redis_def split: prod.splits sum.splits if_splits)
  with w(2) show ?thesis by (intro exI [of _ status] exI [of _ "Some reason"]) simp
qed

lemma killed_row_closed:
  assumes "redis_server R look watch_state" and "u < 2 ^ 128" and "has_db (tracker C)" and "has_redis (tracker C)" and "db_error E 8 = None"
    and "wf_history (history (hw hs))" and "x \<in> set (history (hw hs))" and "h_id x = u" and "h_status x = SKilled"
    and "close_connection R C E token (uuid_str u) res hs = (r, hs')"
  shows "x\<lparr>h_ended_at := Some (now_at E 8), h_bytes_to_client := int (bytes_to_client res), h_bytes_to_backend := int (bytes_to_backend res)\<rparr>
    \<in> set (history (hw hs'))"
proof -
  have "distinct (map h_id (history (hw hs)))" using assms(6) by (simp add: wf_history_def)
  from close_connection_history [OF assms(1-5) this assms(10)] obtain status reason where
    "history (hw hs') = map (\<lambda>x. if h_id x = u
      then finish_row (now_at E 8) status reason (int (bytes_to_client res)) (int (bytes_to_backend res)) x else x) (history (hw hs))" by blast
  then have "(if h_id x = u then finish_row (now_at E 8) status reason (int (bytes_to_client res)) (int (bytes_to_backend res)) x else x)
    \<in> set (history (hw hs'))" using assms(7) by (simp only: set_map) (rule imageI)
  then show ?thesis using assms(8,9) by (simp add: finish_row_def)
qed

text \<open>The history between the kill and the close: the row stays, killed by the administrator.\<close>

lemma killed_row_stays:
  assumes "hist_step\<^sup>*\<^sup>* (kill_rows u (lit ''admin_kill'') rows) rows'" and "wf_history rows"
    and "row \<in> set rows" and "h_id row = u" and "h_status row = SActive"
  shows "wf_history rows' \<and> (\<exists>x \<in> set rows'. h_id x = u \<and> h_status x = SKilled \<and> h_disconnect_reason x = Some (lit ''admin_kill''))"
  using assms(1)
proof (induction rule: rtranclp_induct)
  case base
  let ?row = "row\<lparr>h_status := SKilled, h_disconnect_reason := Some (lit ''admin_kill'')\<rparr>"
  have "?row \<in> set (kill_rows u (lit ''admin_kill'') rows)"
    using assms(3-5) by (auto simp: kill_rows_def set_sql_update intro!: image_eqI [of _ _ row])
  then show ?case using hist_step_wf [OF hist_step.killed assms(2)] assms(4) by (auto intro!: bexI [of _ ?row])
next
  case (step y z)
  then obtain x where "x \<in> set y" "h_id x = u" "h_status x = SKilled" "h_disconnect_reason x = Some (lit ''admin_kill'')" by blast
  with hist_step_killed [OF step.hyps(2) _ this(1,3)] hist_step_wf [OF step.hyps(2)] step.IH show ?case by auto
qed

text \<open>
  C3: An administrator's kill ends the connection. It always succeeds, takes the connection from the active list and revokes its token;
  if the kill check of the relay looks within a minute, whatever the plugins say, the event of the relay is set, and from then on the relay takes
  at most six steps, until it returns. If a pump ended as killed and the handler looks for the mark within the minute, it reports a
  kill by the administrator; and whatever the pumps ended with, however late that is and whatever the services did to the history
  in between, closing leaves the row of the connection as killed by the administrator, with the end time and the bytes of the relay.
\<close>

theorem kill_ends_connection:
  assumes "redis_server R look watch_state" and "u < 2 ^ 128"
    and "wf_history (history w)" and "row \<in> set (history w)" and "h_id row = u" and "h_status row = SActive"
    and "w' = snd (kill_session R iid None (uuid_str u) w)"
    and "relay_run ctx before (relay_start True ps) = Some s" and "rs_poller s" and "rs_kill s = Some False" and "wait < 60000"
    and "has_db (tracker C)" and "has_redis (tracker C)" and "db_error E 8 = None"
    and "hist_step\<^sup>*\<^sup>* (history w') (history (hw hs))" and "close_connection R C E token (uuid_str u) res hs = (r, hs')"
  shows "fst (kill_session R iid None (uuid_str u) w) = Inr ()
    \<and> look (rdb w') (ACTIVE_SESSION iid (uuid_str u)) = None
    \<and> (\<forall>t e. look (rdb w) (CONN_TOKEN (uuid_str u)) = Some (RText t, e) \<longrightarrow> t \<noteq> [] \<longrightarrow> look (rdb w') (TOKEN t) = None)
    \<and> (\<exists>s1. relay_next ctx (Poll (Inr (kill_requested R now qs (uuid_str u) (r_step R (rdb w') (IWait wait))))) s = Some s1
        \<and> (\<forall>ls s2. relay_run ctx ls s1 = Some s2 \<longrightarrow> length ls \<le> 6 \<and> ((\<exists>res. rs_main s2 = Returned res) \<or> (\<exists>l s3. relay_next ctx l s2 = Some s3))))
    \<and> (list_ex (\<lambda>l. leg_reason l = Killed) ls'
        \<longrightarrow> fin_status R now qs (uuid_str u) ls' (r_step R (rdb w') (IWait wait)) = (SKilled, lit ''admin_kill''))
    \<and> (\<exists>x \<in> set (history (hw hs')). h_id x = u \<and> h_status x = SKilled \<and> h_disconnect_reason x = Some (lit ''admin_kill'')
        \<and> h_ended_at x = Some (now_at E 8) \<and> h_bytes_to_client x = int (bytes_to_client res) \<and> h_bytes_to_backend x = int (bytes_to_backend res))"
proof (intro conjI)
  from redis_server.kill_session_look [OF assms(1) uuid_of_uuid_str [OF assms(2)], of iid w] assms(7)
  have k: "fst (kill_session R iid None (uuid_str u) w) = Inr ()" "history w' = kill_rows u (lit ''admin_kill'') (history w)"
    "look (rdb w') (KILL_SESSION (uuid_str u)) = Some (RText (lit ''1''), Some 60000)" "look (rdb w') (ACTIVE_SESSION iid (uuid_str u)) = None"
    "\<forall>t e. look (rdb w) (CONN_TOKEN (uuid_str u)) = Some (RText t, e) \<longrightarrow> t \<noteq> [] \<longrightarrow> look (rdb w') (TOKEN t) = None" by auto
  then show "fst (kill_session R iid None (uuid_str u) w) = Inr ()" "look (rdb w') (ACTIVE_SESSION iid (uuid_str u)) = None"
    "\<forall>t e. look (rdb w) (CONN_TOKEN (uuid_str u)) = Some (RText t, e) \<longrightarrow> t \<noteq> [] \<longrightarrow> look (rdb w') (TOKEN t) = None" by blast+
  note mark = mark_seen [OF assms(1) k(3) assms(11)]
  obtain s1 where s1: "relay_next ctx (Poll (Inr True)) s = Some s1" "rs_kill s1 = Some True" using poll_kills assms(9,10) by blast
  have "length ls \<le> 6" "(\<exists>res. rs_main s2 = Returned res) \<or> (\<exists>l s3. relay_next ctx l s2 = Some s3)" if "relay_run ctx ls s1 = Some s2" for ls s2
    using relay_run_killed [OF that s1(2)] steps_left_bound [of s1] relay_progress [of s2 ctx] by (linarith, blast)
  then show "\<exists>s1. relay_next ctx (Poll (Inr (kill_requested R now qs (uuid_str u) (r_step R (rdb w') (IWait wait))))) s = Some s1
        \<and> (\<forall>ls s2. relay_run ctx ls s1 = Some s2 \<longrightarrow> length ls \<le> 6 \<and> ((\<exists>res. rs_main s2 = Returned res) \<or> (\<exists>l s3. relay_next ctx l s2 = Some s3)))"
    using s1(1) mark unfolding kill_requested_def by (intro exI [of _ s1]) (simp del: relay_next.simps)
  show "list_ex (\<lambda>l. leg_reason l = Killed) ls'
        \<longrightarrow> fin_status R now qs (uuid_str u) ls' (r_step R (rdb w') (IWait wait)) = (SKilled, lit ''admin_kill'')"
    using mark by (simp add: fin_status_def)
  from killed_row_stays [OF assms(15) [unfolded k(2)] assms(3-6)] obtain x where x: "wf_history (history (hw hs))" "x \<in> set (history (hw hs))"
    "h_id x = u" "h_status x = SKilled" "h_disconnect_reason x = Some (lit ''admin_kill'')" by blast
  from killed_row_closed [OF assms(1,2,12-14) x(1-4) assms(16)] x(3-5)
  show "\<exists>x \<in> set (history (hw hs')). h_id x = u \<and> h_status x = SKilled \<and> h_disconnect_reason x = Some (lit ''admin_kill'')
        \<and> h_ended_at x = Some (now_at E 8) \<and> h_bytes_to_client x = int (bytes_to_client res) \<and> h_bytes_to_backend x = int (bytes_to_backend res)"
    by (intro bexI) auto
qed

text \<open>The relay of \<open>ref_relay_run\<close> up to the kill, and the handler half a minute later.\<close>

definition kill_row :: ConnectionHistory where
  "kill_row = ref_row\<lparr>h_status := SActive, h_disconnect_reason := None\<rparr>"

definition kill_world :: "mem_db world" where
  "kill_world = kill_db\<lparr>history := [kill_row]\<rparr>"

theorem kill_ends_connection_witness:
  "\<exists>w' hs hs' r. w' = snd (kill_session mem_redis (lit ''n'') None (uuid_str 1) kill_world)
    \<and> close_connection mem_redis ref_cfg ref_env [] (uuid_str 1) \<lparr>bytes_to_client = 3, bytes_to_backend = 4, legs = []\<rparr> hs = (r, hs')
    \<and> mem_look (rdb w') (TOKEN (lit ''tok'')) = None
    \<and> (\<exists>x \<in> set (history (hw hs')). h_status x = SKilled \<and> h_bytes_to_client x = 3)"
proof -
  let ?w = "snd (kill_session mem_redis (lit ''n'') None (uuid_str 1) kill_world)" and ?hs = "(ref_state [])"
  let ?start = "relay_start True (relay_plugins 600 0)" and ?res = "\<lparr>bytes_to_client = 3, bytes_to_backend = 4, legs = []\<rparr>"
  obtain r hs' where c: "close_connection mem_redis ref_cfg ref_env [] (uuid_str 1) ?res (?hs\<lparr>hw := ?w\<rparr>) = (r, hs')" by force
  have wf: "wf_history (history kill_world)" "kill_row \<in> set (history kill_world)" "h_id kill_row = 1" "h_status kill_row = SActive"
    by (simp_all add: kill_world_def kill_row_def ref_row_def wf_history_def)
  have s: "relay_run ref_session_ctx [] ?start = Some ?start" "rs_poller ?start" "rs_kill ?start = Some False"
    by (simp_all add: relay_start_def)
  have t: "has_db (tracker ref_cfg)" "has_redis (tracker ref_cfg)" "db_error ref_env 8 = None" by (simp_all add: ref_cfg_def ref_env_def)
  have h: "hist_step\<^sup>*\<^sup>* (history ?w) (history (hw (?hs\<lparr>hw := ?w\<rparr>)))" by simp
  have tok: "mem_look (rdb kill_world) (CONN_TOKEN (uuid_str 1)) = Some (RText (lit ''tok''), None)" "lit ''tok'' \<noteq> []"
    by (simp_all add: kill_world_def kill_db_def mem_look_def lit_eval)
  have u: "(1 :: nat) < 2 ^ 128" "(30000 :: nat) < 60000" by simp_all
  note k = kill_ends_connection [OF mem.redis_server_axioms u(1) wf refl s u(2) t h c, THEN conjunct2, THEN conjunct2]
  have "mem_look (rdb ?w) (TOKEN (lit ''tok'')) = None" using k [THEN conjunct1] tok by blast
  moreover have "\<exists>x \<in> set (history (hw hs')). h_status x = SKilled \<and> h_bytes_to_client x = 3"
    using k [THEN conjunct2, THEN conjunct2, THEN conjunct2] by auto
  ultimately show ?thesis using c by blast
qed

end
