(* ===== verification/Spec2Isabelle.thy ===== *)
theory Spec2Isabelle
  imports Tpkt_X224 Mcs Proxy_Protocol Login_Limiter Session_Store Connection_Quality Admin_Sessions Rdp_Handler Credssp_Client Relay_Main Admin_App Session_Views Csrf_Token Ad_Groups Monitoring Relay_Session Admin_Listings Dependencies Schema_Use Service_Tasks Portal_To_Relay Kill_To_Close
begin

text \<open>
  A verification library of the RDP proxy: a web portal in which users log in against a directory and download connection files, a relay
  that takes RDP connections with the token of such a file and forwards them to the server, a web administration, and a collector of metrics.
  File names below are relative to the root of the repository.

  \<^bold>\<open>How the parts interact.\<close> The services share a PostgreSQL database (settings, servers, templates, administrators, history, audit,
  nodes) and a Redis server (sessions, tokens, kill marks, counters of failed logins, metrics). The portal checks a password with the
  directory and keeps an encrypted copy in the web session; a download writes a token with the credentials and the address of a server into Redis. The relay
  reads the token from the first packet, fetches the session, answers the negotiation, logs in at the server with CredSSP and pumps bytes
  both ways through its plugins; it keeps the row of the history and the active session in Redis. The administration edits the tables, sets kill marks that the relay polls, and announces changed
  settings, which every service reloads.

  \<^bold>\<open>Conventions.\<close> A Python \<^verbatim>\<open>str\<close> is the list of its code points (\<open>ustr\<close>), \<^verbatim>\<open>bytes\<close> a list of 8-bit words, an integer
  an \<open>int\<close>, a JSON value or a dictionary the datatype \<open>json\<close>. Exceptions are values of \<open>exn\<close>; a fallible function returns \<open>exn + 'a\<close>; an operation
  on a state is a function from the state to a result and a new state (\<open>eff\<close>), composed with \<open>rbind\<close>. Random values, clocks, and what other
  connections do between two commands are arguments, so that a theorem holds for all of them.

  \<^bold>\<open>Theories, from the bottom.\<close>
  \<^item> \<open>Rdp_Prelude\<close>, \<open>Py_Text\<close>, \<open>Utf_Codec\<close>, \<open>Uuid\<close>, \<open>Json_Text\<close>: strings, bytes, streams, exceptions, the string functions of the
    standard library that the sources call, the codecs, UUIDs and JSON texts. The locale \<open>framing\<close> is the contract of a frame format.
  \<^item> \<open>Tpkt_X224\<close>, \<open>Mcs\<close> (\<^verbatim>\<open>src/libs/rdp/tpkt.py\<close>, \<^verbatim>\<open>x224.py\<close>, \<^verbatim>\<open>mcs.py\<close>), \<open>Proxy_Protocol\<close> (\<^verbatim>\<open>src/libs/proxy_protocol/parser.py\<close>): frames are
    read exactly, requests and confirms are read back, the two patches equal their specifications, a PROXY header takes at most 65551 bytes.
  \<^item> \<open>Credssp\<close>, \<open>Credssp_Client\<close> (\<^verbatim>\<open>src/libs/rdp/credssp.py\<close>): the DER decoder and the messages round trip for every encoder that meets the locale \<open>der_encoder\<close>; the
    whole dialogue with a backend.
  \<^item> \<open>Redis_Store\<close> (\<^verbatim>\<open>src/libs/redis_store/keys.py\<close>): the locale \<open>redis_server\<close> states the documented behaviour of the commands used, over the live keys with their remaining
    milliseconds and the watched key; \<open>mem_redis\<close> is a server that meets it. \<open>Encryption\<close>, \<open>Session_Store\<close> (\<^verbatim>\<open>encryption.py\<close>,
    \<^verbatim>\<open>sessions.py\<close>): tokens and web sessions over it, with the commands of others inside the transactions; the locale \<open>guarded_session\<close> holds what both kinds of web session share.
  \<^item> \<open>Login_Limiter\<close> (\<^verbatim>\<open>src/libs/security/login_limiter.py\<close>), \<open>Csrf_Token\<close> (\<^verbatim>\<open>csrf.py\<close>): lock-out after too many failures, for both instances of the
    limiter at once (locales \<open>limiter_keys\<close>, \<open>login_limiter\<close>); signed tokens.
  \<^item> \<open>Config\<close>, \<open>Settings_Manager\<close> (\<^verbatim>\<open>src/libs/config/\<close>): the configuration file and the stored settings with their cache, refined to an abstract map of fields.
  \<^item> \<open>Connection_Tracker\<close> (\<^verbatim>\<open>src/libs/redis_store/active_tracker.py\<close>): the life of a row of the history as the relation \<open>hist_step\<close>, in any order of services.
  \<^item> \<open>Relay_Plugins\<close>, \<open>Connection_Quality\<close> (\<^verbatim>\<open>src/services/rdp_relay/plugins/\<close>), \<open>Relay_Session\<close> (\<^verbatim>\<open>relay.py\<close>), \<open>Ip_Networks\<close>, \<open>Rdp_Handler\<close> (\<^verbatim>\<open>handler.py\<close>),
    \<open>Dns_Resolver\<close> (\<^verbatim>\<open>src/libs/common/dns_resolver.py\<close>), \<open>Relay_Main\<close> (\<^verbatim>\<open>main.py\<close>): the relay. The locale \<open>packet_hook\<close> is the contract of the data hooks. \<open>Relay_Session\<close> is a transition
    system whose labels are what the event loop brings; it refines the sequential pumps of \<open>Relay_Plugins\<close>. \<open>Relay_Main\<close> has start-up, the limit on connections, reloads and stopping.
  \<^item> \<open>Ldap_Auth\<close> (\<^verbatim>\<open>src/libs/identity/ldap_auth.py\<close>), \<open>Web_Access\<close>, \<open>Dependencies\<close> (dependencies and middleware of both web services): who is let in.
  \<^item> \<open>Servers\<close>, \<open>Rdp_File\<close>, \<open>Admin_Users\<close>, \<open>Ad_Groups\<close>, \<open>Admin_Listings\<close>, \<open>Admin_Sessions\<close>, \<open>Session_Views\<close>, \<open>Monitoring\<close> (\<^verbatim>\<open>src/services/admin/routes/\<close>,
    \<^verbatim>\<open>src/libs/rdp/rdp_file.py\<close>, \<^verbatim>\<open>src/services/metrics/collector.py\<close>, \<^verbatim>\<open>src/libs/common/health.py\<close>): the tables with their routes, the reports, the metrics (locale \<open>redis_lists\<close>).
  \<^item> \<open>Haproxy_Reload\<close>, \<open>Acme_Client\<close> (\<^verbatim>\<open>src/libs/acme_client/\<close>), \<open>Dotenv\<close>, \<open>Admin_App\<close>, \<open>Admin_Web\<close> (\<^verbatim>\<open>src/services/admin/app.py\<close>, \<^verbatim>\<open>routes/settings.py\<close>): certificates, what a saved
    setting sets off, and the application as layers around its pages.
  \<^item> \<open>Portal\<close>, \<open>Portal_App\<close> (\<^verbatim>\<open>src/services/portal/\<close>): login, logout, start page, download, reload of settings, middleware.
  \<^item> \<open>Db_Schema\<close>, \<open>Schema_Use\<close> (\<^verbatim>\<open>src/libs/db/\<close>): the migration creates what the models declare, and the limits that the other theories use are its columns.
    \<open>Service_Base\<close>, \<open>Json_Log\<close>, \<open>Service_Tasks\<close>: sockets, engine, Redis client, logging, entry points.
  \<^item> \<open>Portal_To_Relay\<close>, \<open>Kill_To_Close\<close>: the composition of services, from the downloaded file to the admitted connection, and from the administrator's kill to the closed row.

  \<^bold>\<open>State and operations.\<close> Each service is a record named after what the code keeps: \<open>hstate\<close> for a connection in the handler (its Redis, history, events, input and output, backends contacted,
  plugins), \<open>relay_state\<close> and \<open>relay_leg\<close> for the two pumps, \<open>relay_service\<close> for the relay process, \<open>portal\<close> and \<open>admin_app\<close> for the web services, \<open>settings\<close> for the settings of a process, \<open>world\<close> for Redis
  together with the tables of the history. Each function or route of the source is one definition with the name of the source; early returns and
  \<^verbatim>\<open>raise\<close> are branches with the exception or the HTTP status as value, and what was written before them stays written.

  \<^bold>\<open>What the groups of lemmas show.\<close>
  \<^item> Access: a backend is contacted only with a presented and found token; downloads, logins, administration and pages only for those who may (\<open>Rdp_Handler\<close>, \<open>Portal\<close>,
    \<open>Ldap_Auth\<close>, \<open>Web_Access\<close>, \<open>Admin_Users\<close>, \<open>Admin_Web\<close>); the password of the directory account never stands in clear (\<open>Settings_Manager\<close>).
  \<^item> Tables: every operation keeps identifiers and names unique, an administrator active, at most one default template, a kill final.
  \<^item> Sessions: exactly when a session is returned, until when, and what a race between two connections does.
  \<^item> Relay: what is written is what the pumps read, patched; every connection that was tracked is finalised whatever fails; how a relay ends.
  \<^item> Formats: frames, messages, encodings, files, log lines and CSRF tokens are read back; malformed input has a stated outcome.
  \<^item> Several theorems state what the code does where that is not what it means to do: races, shared plugins, the limit on connections after it was lowered, node lists that stay empty.

  \<^bold>\<open>Bounds.\<close> No definition uses fuel: recursion is structural or on the length of a buffer or a list of remaining work, with its termination proved, and endless tasks are lists of rounds. A loop over retries (fingerprints,
  transactions) recurses over the list of what others do in each round. Numbers in the models are those of the code: portions of 30 names in a search of groups, a series of metrics of a day (24 * 60 * 6 points, and the one that the inclusive end adds), at most 200 rows of a page
  and 5000 of an export, 65536 bytes of a CredSSP record, 60 seconds for a kill mark and a heartbeat. After the kill event a relay takes at most six steps: two for each pump, one to close, one to return.

  \<^bold>\<open>Parameters.\<close> Code that is not in the repository is an argument: Redis (laws in \<open>redis_server\<close> and \<open>redis_lists\<close>), AES-GCM, SHA, HMAC and argon2, \<^verbatim>\<open>ldap3\<close>, \<^verbatim>\<open>acme\<close>, \<^verbatim>\<open>josepy\<close> and
  \<^verbatim>\<open>cryptography\<close>, NTLM and SPNEGO of \<^verbatim>\<open>impacket\<close>, \<^verbatim>\<open>dnspython\<close>, \<^verbatim>\<open>psutil\<close>, the scalar conversions of \<^verbatim>\<open>pydantic\<close>, the YAML parser, collation and pattern matching of PostgreSQL, the operating
  system. Where a theorem needs more of them than their type, the hypothesis is a named predicate (\<open>store_ok\<close>, \<open>report_lib_ok\<close>, \<open>handler_ok\<close> and the like), and a witness meets it with a concrete function.

  \<^bold>\<open>Not modelled.\<close>
  \<^item> Uvicorn, FastAPI, Starlette and asyncio themselves: of them the models have the order of layers, the outcome of a dependency and the points where control may change.
  \<^item> HTML pages, style sheets and scripts of the browser; HAProxy, container and installation files: no Python.
  \<^item> Texts of log lines and of error messages, labels and ranges of the schema of connection parameters, type annotations: nothing in the program depends on them.
  \<^item> Serving HTTP, the interrupt from the keyboard, and migrations run from the command line, which are calls of a library and nothing else.
  \<^item> Time is exact: floats of clocks and measurements are integers or rationals; rounding is not modelled.
\<close>

end
